(* ===== verification/Prelude.thy ===== *)
theory Prelude
  imports Complex_Main "HOL-Library.AList" "HOL-Library.Char_ord" "HOL-Library.List_Lexorder"
    "HOL-Library.Product_Lexorder" "HOL-Library.Sublist"
begin

text \<open>
  Shared vocabulary of the development: the types every component uses, the Python
  built-ins the sources call on strings, dictionaries and floats, and the generic lemmas
  about them.

  \<^item> A Python \<open>str\<close> is a \<^typ>\<open>string\<close>: a list of characters with code points
    below 256. Code points above 255 are outside the model (the sources use them only in
    text shown to humans, which the models replace by constructors naming the raise site).
  \<^item> A Python \<open>bytes\<close> value is a \<^typ>\<open>string\<close> too, one character per byte.
  \<^item> A Python \<open>dict\<close> is an association list with distinct keys in insertion order;
    \<open>AList.update\<close> overwrites in place or appends, as item assignment does.
  \<^item> A \<open>float\<close> holding a time or a duration is an exact rational. Rounding of IEEE
    arithmetic is not modelled, except the explicit \<open>round(x, 4)\<close> of the sources.
\<close>

section \<open>Types\<close>

type_synonym time = rat
type_synonym bytes = string
type_synonym 'v dict = "(string \<times> 'v) list"

named_theorems py_simps "evaluation rules of the Python built-ins"

section \<open>Dictionaries\<close>

text \<open>\<open>d.get(k)\<close> is \<open>map_of d k\<close>; \<open>k in d\<close> is \<open>has_key d k\<close>; \<open>d.get(k, v)\<close> is \<open>dict_get\<close>.\<close>

definition has_key :: "'v dict \<Rightarrow> string \<Rightarrow> bool" where
  "has_key d k \<longleftrightarrow> map_of d k \<noteq> None"

definition dict_get :: "'v dict \<Rightarrow> string \<Rightarrow> 'v \<Rightarrow> 'v" where
  "dict_get d k v = (case map_of d k of None \<Rightarrow> v | Some w \<Rightarrow> w)"

definition wf_dict :: "'v dict \<Rightarrow> bool" where
  "wf_dict d \<longleftrightarrow> distinct (map fst d)"

lemma has_key_iff: "has_key d k \<longleftrightarrow> k \<in> fst ` set d"
  by (simp add: has_key_def map_of_eq_None_iff)

lemma has_key_update [simp]: "has_key (AList.update k v d) k' \<longleftrightarrow> k' = k \<or> has_key d k'"
  by (auto simp: has_key_def update_conv)

lemma map_of_update [simp]:
  "map_of (AList.update k v d) k' = (if k' = k then Some v else map_of d k')"
  by (simp add: update_conv)

lemma dict_get_update [simp]:
  "dict_get (AList.update k v d) k' w = (if k' = k then v else dict_get d k' w)"
  by (simp add: dict_get_def)

lemma wf_dict_Nil [simp]: "wf_dict []"
  by (simp add: wf_dict_def)

lemma wf_dict_update [simp]: "wf_dict d \<Longrightarrow> wf_dict (AList.update k v d)"
  by (simp add: wf_dict_def distinct_update)

lemma wf_dict_filter [simp]: "wf_dict d \<Longrightarrow> wf_dict (filter P d)"
  by (induction d) (auto simp: wf_dict_def)

lemma map_of_filter_wf:
  assumes "wf_dict d"
  shows "map_of (filter (\<lambda>(k, v). P k v) d) k =
    (case map_of d k of None \<Rightarrow> None | Some v \<Rightarrow> if P k v then Some v else None)"
  using assms
  by (induction d) (auto simp: wf_dict_def map_of_eq_None_iff split: option.splits)

lemma length_update_le: "length (AList.update k v d) \<le> Suc (length d)"
  by (induction d) auto

lemma length_update_new: "\<not> has_key d k \<Longrightarrow> length (AList.update k v d) = Suc (length d)"
  by (induction d) (auto simp: has_key_def split: if_splits)

section \<open>Strings\<close>

text \<open>The characters \<open>str.strip\<close> removes, among the code points below 256.\<close>

definition py_space :: "char \<Rightarrow> bool" where
  "py_space c \<longleftrightarrow>
     (let n = (of_char c :: nat)
      in (9 \<le> n \<and> n \<le> 13) \<or> (28 \<le> n \<and> n \<le> 32) \<or> n = 133 \<or> n = 160)"

definition lstrip :: "string \<Rightarrow> string" where
  "lstrip s = dropWhile py_space s"

definition rstrip :: "string \<Rightarrow> string" where
  "rstrip s = rev (dropWhile py_space (rev s))"

definition strip :: "string \<Rightarrow> string" where
  "strip s = rstrip (lstrip s)"

lemma strip_Nil [simp]: "strip [] = []"
  by (simp add: strip_def rstrip_def lstrip_def)

lemma rstrip_snoc_space: "py_space c \<Longrightarrow> rstrip (s @ [c]) = rstrip s"
  by (simp add: rstrip_def)

lemma dropWhile_snoc: "dropWhile P (xs @ [x]) =
    (if \<forall>y \<in> set xs. P y then (if P x then [] else [x]) else dropWhile P xs @ [x])"
  by (induction xs) auto

lemma strip_snoc_space: "py_space c \<Longrightarrow> strip (s @ [c]) = strip s"
  by (auto simp: strip_def lstrip_def dropWhile_snoc rstrip_snoc_space dropWhile_eq_Nil_conv)
     (simp_all add: rstrip_def dropWhile_eq_Nil_conv [THEN iffD2])

text \<open>\<open>str.lower\<close> and \<open>str.upper\<close> below 256: the ASCII letters and the Latin-1 letters
  whose partner is also below 256; the sharp s becomes two letters in upper case.\<close>

definition lower_char :: "char \<Rightarrow> char" where
  "lower_char c =
     (let n = (of_char c :: nat)
      in if (65 \<le> n \<and> n \<le> 90) \<or> (192 \<le> n \<and> n \<le> 222 \<and> n \<noteq> 215) then char_of (n + 32) else c)"

definition upper_char :: "char \<Rightarrow> string" where
  "upper_char c =
     (let n = (of_char c :: nat)
      in if (97 \<le> n \<and> n \<le> 122) \<or> (224 \<le> n \<and> n \<le> 254 \<and> n \<noteq> 247) then [char_of (n - 32)]
         else if n = 223 then ''SS'' else [c])"

definition py_lower :: "string \<Rightarrow> string" where
  "py_lower s = map lower_char s"

definition py_upper :: "string \<Rightarrow> string" where
  "py_upper s = concat (map upper_char s)"

text \<open>\<open>s.lstrip(cs)\<close> and \<open>s.rstrip(cs)\<close> for an explicit set of characters.\<close>

definition lstrip_chars :: "string \<Rightarrow> string \<Rightarrow> string" where
  "lstrip_chars cs s = dropWhile (\<lambda>c. c \<in> set cs) s"

definition rstrip_chars :: "string \<Rightarrow> string \<Rightarrow> string" where
  "rstrip_chars cs s = rev (dropWhile (\<lambda>c. c \<in> set cs) (rev s))"

section \<open>Numbers\<close>

text \<open>\<open>int(x)\<close> of a float truncates towards zero.\<close>

definition py_int :: "rat \<Rightarrow> int" where
  "py_int x = (if x < 0 then \<lceil>x\<rceil> else \<lfloor>x\<rfloor>)"

text \<open>\<open>round(x, 4)\<close>: to the nearest multiple of 1/10000, ties to the even one.\<close>

definition round_half_even :: "rat \<Rightarrow> int" where
  "round_half_even x =
     (let n = \<lfloor>x\<rfloor>; d = x - of_int n
      in if d < 1/2 then n else if 1/2 < d then n + 1 else if even n then n else n + 1)"

definition round4 :: "rat \<Rightarrow> rat" where
  "round4 x = of_int (round_half_even (x * 10000)) / 10000"

definition is_fix4 :: "rat \<Rightarrow> bool" where
  "is_fix4 x \<longleftrightarrow> x * 10000 = of_int \<lfloor>x * 10000\<rfloor>"

lemma round_half_even_of_int [simp]: "round_half_even (of_int n) = n"
  by (simp add: round_half_even_def)

lemma round4_is_fix4 [simp]: "is_fix4 (round4 x)"
  by (simp add: is_fix4_def round4_def)

lemma round4_fix4: "is_fix4 x \<Longrightarrow> round4 x = x"
  unfolding round4_def is_fix4_def by (metis nonzero_mult_div_cancel_right round_half_even_of_int zero_neq_numeral)

lemma round_half_even_bounds:
  "of_int (round_half_even x) - 1/2 \<le> x" "x \<le> of_int (round_half_even x) + 1/2"
  by (auto simp: round_half_even_def Let_def) linarith+

lemma round4_error: "\<bar>round4 x - x\<bar> \<le> 1 / 20000"
proof (rule abs_leI)
  have r: "round4 x * 10000 = of_int (round_half_even (x * 10000))"
    by (simp add: round4_def)
  show "round4 x - x \<le> 1 / 20000" and "- (round4 x - x) \<le> 1 / 20000"
    using round_half_even_bounds [of "x * 10000"] unfolding r [symmetric] by linarith+
qed

end
