(* ===== verification/PyJson.thy ===== *)
theory PyJson
  imports Prelude
begin

text \<open>
  The part of Python's \<open>json\<close> the sources use for signing and hashing: the value type, the
  compact printer \<open>json.dumps(v, sort_keys=True, separators=(",", ":"))\<close> with its default
  \<open>ensure_ascii\<close> escaping, and the proof that the printer is injective: equal texts come
  from equal values. Floats are printed for values that are multiples of 1/10000 only (the
  sources round every float to four decimals before printing it); for magnitudes below
  \<open>10 ^ 11\<close> the shortest representation Python prints is exactly this decimal.
\<close>

section \<open>Values\<close>

datatype json =
    JNull
  | JBool bool
  | JInt int
  | JFloat rat
  | JStr string
  | JArr "json list"
  | JObj "(string \<times> json) list"

text \<open>\<open>sort_keys=True\<close>: every object of the value is printed with its keys in order.\<close>

fun sort_keys :: "json \<Rightarrow> json" where
  "sort_keys (JArr xs) = JArr (map sort_keys xs)"
| "sort_keys (JObj kvs) = JObj (sort_key fst (map (\<lambda>(k, v). (k, sort_keys v)) kvs))"
| "sort_keys v = v"

section \<open>Printer\<close>

definition digit_char :: "nat \<Rightarrow> char" where
  "digit_char d = char_of (48 + d)"

definition is_digit :: "char \<Rightarrow> bool" where
  "is_digit c \<longleftrightarrow> (let n = (of_char c :: nat) in 48 \<le> n \<and> n \<le> 57)"

fun nat_str :: "nat \<Rightarrow> string" where
  "nat_str n = (if n < 10 then [digit_char n] else nat_str (n div 10) @ [digit_char (n mod 10)])"

declare nat_str.simps [simp del]

definition signed :: "(nat \<Rightarrow> string) \<Rightarrow> int \<Rightarrow> string" where
  "signed f i = (if i < 0 then CHR ''-'' # f (nat (- i)) else f (nat i))"

definition int_str :: "int \<Rightarrow> string" where
  "int_str i = signed nat_str i"

text \<open>The four decimals of \<open>m\<close> ten-thousandths, without trailing zeros, at least one digit.\<close>

definition frac_digits :: "nat \<Rightarrow> nat list" where
  "frac_digits m =
     (let ds = [m div 1000 mod 10, m div 100 mod 10, m div 10 mod 10, m mod 10];
          t = rev (dropWhile (\<lambda>d. d = 0) (rev ds))
      in if t = [] then [0] else t)"

definition fix4_str :: "nat \<Rightarrow> string" where
  "fix4_str m = nat_str (m div 10000) @ CHR ''.'' # map digit_char (frac_digits (m mod 10000))"

definition float_str :: "rat \<Rightarrow> string" where
  "float_str x = signed fix4_str \<lfloor>x * 10000\<rfloor>"

definition hex_char :: "nat \<Rightarrow> char" where
  "hex_char d = char_of (if d < 10 then 48 + d else 87 + d)"

definition esc_short :: "char \<Rightarrow> char option" where
  "esc_short c =
     (if c = CHR 0x22 then Some (CHR 0x22) else if c = CHR 0x5C then Some (CHR 0x5C)
      else if c = CHR 0x0A then Some (CHR ''n'') else if c = CHR 0x0D then Some (CHR ''r'')
      else if c = CHR 0x09 then Some (CHR ''t'') else if c = CHR 0x0C then Some (CHR ''f'')
      else if c = CHR 0x08 then Some (CHR ''b'') else None)"

definition esc_char :: "char \<Rightarrow> string" where
  "esc_char c =
     (let n = (of_char c :: nat)
      in case esc_short c of
           Some e \<Rightarrow> [CHR 0x5C, e]
         | None \<Rightarrow> if 32 \<le> n \<and> n \<le> 126 then [c]
             else [CHR 0x5C, CHR ''u'', CHR ''0'', CHR ''0'', hex_char (n div 16), hex_char (n mod 16)])"

definition str_json :: "string \<Rightarrow> string" where
  "str_json s = CHR 0x22 # concat (map esc_char s) @ [CHR 0x22]"

fun join :: "string \<Rightarrow> string list \<Rightarrow> string" where
  "join sep [] = []"
| "join sep [x] = x"
| "join sep (x # y # zs) = x @ sep @ join sep (y # zs)"

fun dumps :: "json \<Rightarrow> string" where
  "dumps JNull = ''null''"
| "dumps (JBool b) = (if b then ''true'' else ''false'')"
| "dumps (JInt i) = int_str i"
| "dumps (JFloat x) = float_str x"
| "dumps (JStr s) = str_json s"
| "dumps (JArr xs) = ''['' @ join '','' (map dumps xs) @ '']''"
| "dumps (JObj kvs) = ''{'' @ join '','' (map (\<lambda>(k, v). str_json k @ '':'' @ dumps v) kvs) @ ''}''"

section \<open>Injectivity\<close>

subsection \<open>Numbers\<close>

lemma of_char_digit: "d < 10 \<Longrightarrow> (of_char (digit_char d) :: nat) = 48 + d"
  by (simp add: digit_char_def)

lemma is_digit_digit_char [simp]: "d < 10 \<Longrightarrow> is_digit (digit_char d)"
  by (simp add: is_digit_def of_char_digit)

lemma digit_char_inj: "d < 10 \<Longrightarrow> e < 10 \<Longrightarrow> digit_char d = digit_char e \<longleftrightarrow> d = e"
  by (metis add_left_cancel of_char_digit)

lemma nat_str_digits: "c \<in> set (nat_str n) \<Longrightarrow> is_digit c"
proof (induction n rule: nat_str.induct)
  case (1 n)
  then show ?case by (subst (asm) (2) nat_str.simps) (auto split: if_splits)
qed

lemma nat_str_ne [simp]: "nat_str n \<noteq> []"
  by (subst nat_str.simps) auto

definition digits_val :: "string \<Rightarrow> nat" where
  "digits_val s = foldl (\<lambda>a c. 10 * a + (of_char c - 48)) 0 s"

lemma digits_val_nat_str [simp]: "digits_val (nat_str n) = n"
proof (induction n rule: nat_str.induct)
  case (1 n)
  show ?case
  proof (cases "n < 10")
    case True
    then show ?thesis by (subst nat_str.simps) (simp add: digits_val_def of_char_digit)
  next
    case False
    with 1 have "digits_val (nat_str (n div 10)) = n div 10" by simp
    with False show ?thesis by (subst nat_str.simps) (simp add: digits_val_def of_char_digit)
  qed
qed

definition no_digit :: "string \<Rightarrow> bool" where
  "no_digit r \<longleftrightarrow> (r = [] \<or> \<not> is_digit (hd r))"

lemma takeWhile_digits:
  assumes "\<And>c. c \<in> set s \<Longrightarrow> is_digit c" and "no_digit r"
  shows "takeWhile is_digit (s @ r) = s"
  using assms by (cases r) (auto simp: no_digit_def takeWhile_append)

lemma digit_block_inj:
  assumes "s @ r = s' @ r'" and "no_digit r" and "no_digit r'"
    and "\<And>c. c \<in> set s \<Longrightarrow> is_digit c" and "\<And>c. c \<in> set s' \<Longrightarrow> is_digit c"
  shows "s = s' \<and> r = r'"
proof -
  have "s = s'"
    using takeWhile_digits [of s r] takeWhile_digits [of s' r'] assms by metis
  with assms(1) show ?thesis by simp
qed

lemma nat_str_app_inj:
  assumes "nat_str n @ r = nat_str m @ s" and "no_digit r" and "no_digit s"
  shows "n = m \<and> r = s"
proof -
  have "nat_str n = nat_str m \<and> r = s"
    using assms by (rule digit_block_inj) (auto dest: nat_str_digits)
  then show ?thesis by (metis digits_val_nat_str)
qed

lemma pad_zeros:
  "rev (dropWhile (\<lambda>d. d = 0) (rev ds)) @
     replicate (length ds - length (dropWhile (\<lambda>d. d = 0) (rev ds))) (0 :: nat) = ds"
proof (induction ds rule: rev_induct)
  case Nil
  then show ?case by simp
next
  case (snoc d ds)
  let ?k = "length (dropWhile (\<lambda>d. d = (0 :: nat)) (rev ds))"
  have "?k \<le> length ds"
    using length_dropWhile_le [of _ "rev ds"] by simp
  then have "replicate (Suc (length ds) - ?k) (0 :: nat) = replicate (length ds - ?k) 0 @ [0]"
    by (simp add: Suc_diff_le replicate_append_same)
  with snoc show ?case by simp
qed

lemma four_digits:
  fixes m :: nat
  assumes "m < 10000"
  shows "m = 1000 * (m div 1000 mod 10) + 100 * (m div 100 mod 10) + 10 * (m div 10 mod 10) + m mod 10"
proof -
  have "m div 1000 mod 10 = m div 1000"
    using assms by simp
  moreover have "m div 100 = 10 * (m div 1000) + m div 100 mod 10"
    using mult_div_mod_eq [of 10 "m div 100"] by (simp add: div_mult2_eq [of m 100 10, simplified])
  moreover have "m div 10 = 10 * (m div 100) + m div 10 mod 10"
    using mult_div_mod_eq [of 10 "m div 10"] by (simp add: div_mult2_eq [of m 10 10, simplified])
  moreover have "m = 10 * (m div 10) + m mod 10"
    by simp
  ultimately show ?thesis by linarith
qed

lemma pad_strip:
  fixes ds :: "nat list"
  defines "t \<equiv> rev (dropWhile (\<lambda>d. d = 0) (rev ds))"
  assumes "length ds = Suc n"
  shows "(if t = [] then [0] else t) @ replicate (Suc n - length (if t = [] then [0] else t)) 0 = ds"
proof (cases "t = []")
  case True
  then have "dropWhile (\<lambda>d. d = 0) (rev ds) = []" by (simp only: t_def rev_is_Nil_conv)
  then have "replicate (Suc n) 0 = ds"
    using pad_zeros [of ds] assms(2) by (simp only: append_Nil rev.simps list.size diff_zero)
  with True show ?thesis by auto
next
  case False
  then show ?thesis
    using pad_zeros [of ds] assms(2) by (auto simp: t_def)
qed

lemma frac_digits_inj:
  assumes "frac_digits m = frac_digits n" and "m < 10000" and "n < 10000"
  shows "m = n"
proof -
  let ?ds = "\<lambda>m. [m div 1000 mod 10, m div 100 mod 10, m div 10 mod 10, m mod (10 :: nat)]"
  have pad: "frac_digits k @ replicate (Suc 3 - length (frac_digits k)) 0 = ?ds k" for k
    unfolding frac_digits_def Let_def by (rule pad_strip) simp
  have "?ds m = ?ds n"
    using pad [of m] pad [of n] assms(1) by metis
  then show ?thesis
    using four_digits [OF assms(2)] four_digits [OF assms(3)] by (metis list.inject)
qed

lemma frac_digits_lt: "d \<in> set (frac_digits m) \<Longrightarrow> d < 10"
  by (auto simp: frac_digits_def Let_def dest!: set_dropWhileD split: if_splits)

lemma map_digit_char_inj:
  assumes "map digit_char xs = map digit_char ys"
    and "\<And>d. d \<in> set xs \<Longrightarrow> d < 10" and "\<And>d. d \<in> set ys \<Longrightarrow> d < 10"
  shows "xs = ys"
  using assms by (induction xs ys rule: list_induct2') (auto simp: digit_char_inj)

lemma fix4_str_app_inj:
  assumes eq: "fix4_str m @ r = fix4_str n @ s" and "no_digit r" and "no_digit s"
  shows "m = n \<and> r = s"
proof -
  have nd: "no_digit (CHR ''.'' # t)" for t
    by (simp add: no_digit_def is_digit_def)
  have 1: "m div 10000 = n div 10000 \<and>
      CHR ''.'' # map digit_char (frac_digits (m mod 10000)) @ r =
      CHR ''.'' # map digit_char (frac_digits (n mod 10000)) @ s"
    using eq by (intro nat_str_app_inj) (simp_all add: fix4_str_def nd)
  then have "map digit_char (frac_digits (m mod 10000)) @ r =
      map digit_char (frac_digits (n mod 10000)) @ s"
    by simp
  then have 2: "map digit_char (frac_digits (m mod 10000)) =
      map digit_char (frac_digits (n mod 10000)) \<and> r = s"
    using assms(2,3) by (rule digit_block_inj) (auto dest: frac_digits_lt)
  then have "frac_digits (m mod 10000) = frac_digits (n mod 10000)"
    by (blast intro: map_digit_char_inj dest: frac_digits_lt)
  then have "m mod 10000 = n mod 10000"
    by (rule frac_digits_inj) simp_all
  with 1 2 show ?thesis by (metis div_mult_mod_eq)
qed

subsection \<open>Strings\<close>

lemma of_char_lt: "(of_char c :: nat) < 256"
  by (metis of_char_mod_256 mod_less_divisor zero_less_numeral)

lemma hex_char_inj: "d < 16 \<Longrightarrow> e < 16 \<Longrightarrow> hex_char d = hex_char e \<Longrightarrow> d = e"
proof -
  assume "d < 16" "e < 16" "hex_char d = hex_char e"
  then have "(of_char (hex_char d) :: nat) = of_char (hex_char e)" by simp
  with \<open>d < 16\<close> \<open>e < 16\<close> show "d = e"
    by (auto simp: hex_char_def split: if_splits)
qed

lemma esc_short_Some:
  "esc_short c = Some e \<Longrightarrow> esc_short c' = Some e \<Longrightarrow> c = c'"
  "esc_short c = Some e \<Longrightarrow> e \<noteq> CHR ''u''"
  by (auto simp: esc_short_def split: if_splits)

lemma esc_short_None: "esc_short c = None \<Longrightarrow> c \<noteq> CHR 0x22 \<and> c \<noteq> CHR 0x5C"
  by (auto simp: esc_short_def split: if_splits)

lemma esc_char_hd: "\<exists>x xs. esc_char c = x # xs \<and> x \<noteq> CHR 0x22"
  by (auto simp: esc_char_def Let_def dest: esc_short_None split: option.splits)

lemma esc_char_app_inj:
  assumes eq: "esc_char c @ r = esc_char c' @ r'"
  shows "c = c' \<and> r = r'"
proof (cases "esc_short c")
  case (Some e)
  with eq show ?thesis
    by (auto simp: esc_char_def Let_def esc_short_Some dest: esc_short_None esc_short_Some
        split: option.splits if_splits)
next
  case None
  note c = this
  show ?thesis
  proof (cases "esc_short c'")
    case (Some e)
    with c eq show ?thesis
      by (auto simp: esc_char_def Let_def dest: esc_short_None esc_short_Some split: if_splits)
  next
    case None
    have *: "(of_char c :: nat) div 16 = of_char c' div 16 \<Longrightarrow>
        (of_char c :: nat) mod 16 = of_char c' mod 16 \<Longrightarrow> c = c'"
      by (metis div_mult_mod_eq of_char_eq_iff)
    have "(of_char x :: nat) div 16 < 16" for x :: char
      using of_char_lt [of x] by (intro less_mult_imp_div_less) simp
    with c None eq * show ?thesis
      by (auto simp: esc_char_def Let_def dest: esc_short_None dest!: hex_char_inj [rotated 2]
          split: if_splits)
  qed
qed

lemma esc_str_app_inj:
  assumes "concat (map esc_char s) @ CHR 0x22 # r = concat (map esc_char s') @ CHR 0x22 # r'"
  shows "s = s' \<and> r = r'"
  using assms
proof (induction s arbitrary: s')
  case Nil
  show ?case
  proof (cases s')
    case (Cons c' t)
    with Nil show ?thesis
      using esc_char_hd [of c'] by auto
  qed (use Nil in simp)
next
  case (Cons c s)
  show ?case
  proof (cases s')
    case Nil
    with Cons.prems show ?thesis
      using esc_char_hd [of c] by auto
  next
    case (Cons c' t)
    have "c = c' \<and> concat (map esc_char s) @ CHR 0x22 # r = concat (map esc_char t) @ CHR 0x22 # r'"
      using \<open>concat (map esc_char (c # s)) @ _ = _\<close> Cons by (intro esc_char_app_inj) simp
    with Cons Cons.IH [of t] show ?thesis by simp
  qed
qed

lemma str_json_app_inj: "str_json s @ r = str_json s' @ r' \<Longrightarrow> s = s' \<and> r = r'"
  by (rule esc_str_app_inj) (simp add: str_json_def)

subsection \<open>Values\<close>

text \<open>What may follow a value inside a larger text, and the values whose floats the printer
  covers.\<close>

definition delim :: "string \<Rightarrow> bool" where
  "delim r \<longleftrightarrow> r = [] \<or> hd r \<in> {CHR '','', CHR '']'', CHR ''}''}"

fun wf_json :: "json \<Rightarrow> bool" where
  "wf_json (JFloat x) \<longleftrightarrow> is_fix4 x"
| "wf_json (JArr xs) \<longleftrightarrow> (\<forall>x \<in> set xs. wf_json x)"
| "wf_json (JObj kvs) \<longleftrightarrow> (\<forall>kv \<in> set kvs. wf_json (snd kv))"
| "wf_json v \<longleftrightarrow> True"

lemma delim_no_digit: "delim r \<Longrightarrow> no_digit r"
  by (auto simp: delim_def no_digit_def is_digit_def)

lemma nat_str_Cons: "\<exists>x xs. nat_str n = x # xs \<and> is_digit x"
  by (metis list.exhaust nat_str_digits nat_str_ne list.set_intros(1))

lemma is_digit_simps [simp]:
  "\<not> is_digit (CHR ''-'')" "\<not> is_digit (CHR ''.'')" "\<not> is_digit (CHR 0x22)" "\<not> is_digit (CHR ''n'')"
  "\<not> is_digit (CHR ''t'')" "\<not> is_digit (CHR ''f'')" "\<not> is_digit (CHR ''['')" "\<not> is_digit (CHR ''{'')"
  "\<not> is_digit (CHR '']'')" "\<not> is_digit (CHR ''}'')" "\<not> is_digit (CHR '','')"
  by (simp_all add: is_digit_def)

text \<open>The first character of a printed value tells its constructor, up to numbers.\<close>

definition num_start :: "char \<Rightarrow> bool" where
  "num_start c \<longleftrightarrow> c = CHR ''-'' \<or> is_digit c"

lemma fix4_str_Cons: "\<exists>x xs. fix4_str n = x # xs \<and> is_digit x"
  using nat_str_Cons [of "n div 10000"] by (auto simp: fix4_str_def)

lemma signed_Cons:
  assumes "\<And>n. \<exists>x xs. f n = x # xs \<and> is_digit x"
  shows "\<exists>x xs. signed f i = x # xs \<and> num_start x"
  using assms [of "nat i"] by (auto simp: signed_def num_start_def)

lemmas int_str_Cons = signed_Cons [of nat_str, OF nat_str_Cons, folded int_str_def]

lemma float_str_Cons: "\<exists>x xs. float_str f = x # xs \<and> num_start x"
  unfolding float_str_def by (rule signed_Cons) (rule fix4_str_Cons)

lemma signed_app:
  assumes eq: "signed f i @ r = signed g j @ s"
    and f: "\<And>n. \<exists>x xs. f n = x # xs \<and> is_digit x"
    and g: "\<And>n. \<exists>x xs. g n = x # xs \<and> is_digit x"
  shows "(i < 0 \<longleftrightarrow> j < 0) \<and> f (nat \<bar>i\<bar>) @ r = g (nat \<bar>j\<bar>) @ s"
proof -
  obtain x xs y ys where "f (nat i) = x # xs" "is_digit x" "g (nat j) = y # ys" "is_digit y"
    using f [of "nat i"] g [of "nat j"] by blast
  with eq show ?thesis
    by (cases "i < 0"; cases "j < 0") (auto simp: signed_def is_digit_def)
qed

lemma num_start_simps [simp]:
  "\<not> num_start (CHR 0x22)" "\<not> num_start (CHR ''n'')" "\<not> num_start (CHR ''t'')"
  "\<not> num_start (CHR ''f'')" "\<not> num_start (CHR ''['')" "\<not> num_start (CHR ''{'')"
  "\<not> num_start (CHR '']'')" "\<not> num_start (CHR ''}'')" "\<not> num_start (CHR '','')"
  by (simp_all add: num_start_def)

fun start_ok :: "json \<Rightarrow> char \<Rightarrow> bool" where
  "start_ok JNull c = (c = CHR ''n'')"
| "start_ok (JBool b) c = (c = (if b then CHR ''t'' else CHR ''f''))"
| "start_ok (JInt i) c = num_start c"
| "start_ok (JFloat x) c = num_start c"
| "start_ok (JStr s) c = (c = CHR 0x22)"
| "start_ok (JArr xs) c = (c = CHR ''['')"
| "start_ok (JObj kvs) c = (c = CHR ''{'')"

lemma dumps_start: "\<exists>c cs. dumps v = c # cs \<and> start_ok v c"
proof (cases v)
  case (JInt i)
  then show ?thesis using int_str_Cons [of i] by auto
next
  case (JFloat x)
  then show ?thesis using float_str_Cons [of x] by auto
qed (auto simp: str_json_def)

lemma dumps_start_eq:
  assumes "dumps v @ r = dumps w @ s"
  obtains c where "start_ok v c" and "start_ok w c"
  using assms dumps_start [of v] dumps_start [of w] by force

subsection \<open>Numbers in context\<close>

lemma int_str_app_inj:
  assumes "int_str i @ r = int_str j @ s" and "no_digit r" and "no_digit s"
  shows "i = j \<and> r = s"
proof -
  have *: "(i < 0 \<longleftrightarrow> j < 0) \<and> nat_str (nat \<bar>i\<bar>) @ r = nat_str (nat \<bar>j\<bar>) @ s"
    using assms(1) unfolding int_str_def by (rule signed_app) (rule nat_str_Cons)+
  then have "nat \<bar>i\<bar> = nat \<bar>j\<bar> \<and> r = s"
    using assms(2,3) nat_str_app_inj by blast
  with * show ?thesis by auto
qed

lemma float_str_app_inj:
  assumes "float_str x @ r = float_str y @ s" and "no_digit r" and "no_digit s"
    and "is_fix4 x" and "is_fix4 y"
  shows "x = y \<and> r = s"
proof -
  let ?k = "\<lfloor>x * 10000\<rfloor>" and ?l = "\<lfloor>y * 10000\<rfloor>"
  have *: "(?k < 0 \<longleftrightarrow> ?l < 0) \<and> fix4_str (nat \<bar>?k\<bar>) @ r = fix4_str (nat \<bar>?l\<bar>) @ s"
    using assms(1) unfolding float_str_def by (rule signed_app) (rule fix4_str_Cons)+
  then have "nat \<bar>?k\<bar> = nat \<bar>?l\<bar> \<and> r = s"
    using assms(2,3) fix4_str_app_inj by blast
  with * have "?k = ?l \<and> r = s" by linarith
  with assms(4,5) show ?thesis by (simp add: is_fix4_def)
qed

lemma int_not_float:
  assumes eq: "int_str i @ r = float_str x @ s" and "delim r"
  shows False
proof -
  let ?k = "\<lfloor>x * 10000\<rfloor>"
  have "nat_str (nat \<bar>i\<bar>) @ r = fix4_str (nat \<bar>?k\<bar>) @ s"
    using signed_app [OF eq [unfolded int_str_def float_str_def] nat_str_Cons fix4_str_Cons] by simp
  then have "r = CHR ''.'' # map digit_char (frac_digits (nat \<bar>?k\<bar> mod 10000)) @ s"
    using delim_no_digit [OF assms(2)] nat_str_app_inj [of "nat \<bar>i\<bar>" r "nat \<bar>?k\<bar> div 10000"]
    by (simp add: fix4_str_def no_digit_def [of "CHR ''.'' # t" for t])
  with assms(2) show False by (simp add: delim_def)
qed

subsection \<open>Sequences and values\<close>

lemma join_app_inj:
  assumes item: "\<And>x y r s. x \<in> set xs \<Longrightarrow> y \<in> set ys \<Longrightarrow> f x @ r = f y @ s \<Longrightarrow> delim r \<Longrightarrow>
      delim s \<Longrightarrow> x = y \<and> r = s"
    and start: "\<And>x. \<exists>c cs. f x = c # cs \<and> c \<notin> {CHR '','', CHR '']'', CHR ''}''}"
    and eq: "join '','' (map f xs) @ b # r = join '','' (map f ys) @ b # s"
    and b: "b \<in> {CHR '']'', CHR ''}''}"
  shows "xs = ys \<and> r = s"
  using item eq
proof (induction xs arbitrary: ys)
  case Nil
  show ?case
  proof (cases ys)
    case (Cons y zs)
    then obtain c cs where "join '','' (map f ys) = c # cs" "c \<notin> {CHR '','', CHR '']'', CHR ''}''}"
      using start [of y] by (cases zs) auto
    with Nil b show ?thesis by auto
  qed (use Nil in simp)
next
  case (Cons x xs)
  have tail: "\<exists>t. join '','' (map f (z # zs)) @ b # u = f z @ t \<and> delim t \<and>
      t = (if zs = [] then b # u else CHR '','' # join '','' (map f zs) @ b # u)" for z zs u
    using b by (cases zs) (auto simp: delim_def)
  show ?case
  proof (cases ys)
    case Nil
    obtain c cs where "join '','' (map f (x # xs)) = c # cs" "c \<notin> {CHR '','', CHR '']'', CHR ''}''}"
      using start [of x] by (cases xs) auto
    with Nil Cons.prems(2) b show ?thesis by auto
  next
    case ys: (Cons y zs)
    define t u where "t = (if xs = [] then b # r else CHR '','' # join '','' (map f xs) @ b # r)"
      and "u = (if zs = [] then b # s else CHR '','' # join '','' (map f zs) @ b # s)"
    have "f x @ t = f y @ u" "delim t" "delim u"
      using tail [of x xs r] tail [of y zs s] Cons.prems(2) ys by (auto simp: t_def u_def)
    then have xy: "x = y" "t = u"
      using Cons.prems(1) [of x y t u] ys by auto
    show ?thesis
    proof (cases "xs = [] \<or> zs = []")
      case True
      with xy b ys show ?thesis by (auto simp: t_def u_def split: if_splits)
    next
      case False
      then have "join '','' (map f xs) @ b # r = join '','' (map f zs) @ b # s"
        using xy(2) by (simp add: t_def u_def)
      moreover have "\<And>x y r s. x \<in> set xs \<Longrightarrow> y \<in> set zs \<Longrightarrow> f x @ r = f y @ s \<Longrightarrow> delim r \<Longrightarrow>
          delim s \<Longrightarrow> x = y \<and> r = s"
        using Cons.prems(1) ys by auto
      ultimately have "xs = zs \<and> r = s" by (rule Cons.IH [rotated])
      with xy(1) ys show ?thesis by simp
    qed
  qed
qed

lemma dumps_Cons: "\<exists>c cs. dumps v = c # cs \<and> c \<notin> {CHR '','', CHR '']'', CHR ''}''}"
  using dumps_start [of v] by (cases v) (auto split: if_splits)

lemma dumps_app_inj:
  "dumps v @ r = dumps w @ s \<Longrightarrow> wf_json v \<Longrightarrow> wf_json w \<Longrightarrow> delim r \<Longrightarrow> delim s \<Longrightarrow> v = w \<and> r = s"
proof (induction v arbitrary: w r s)
  case JNull
  from JNull.prems(1) obtain c where "start_ok JNull c" "start_ok w c" by (rule dumps_start_eq)
  with JNull.prems(1) show ?case by (cases w) (auto split: if_splits)
next
  case (JBool b)
  from JBool.prems(1) obtain c where "start_ok (JBool b) c" "start_ok w c" by (rule dumps_start_eq)
  with JBool.prems(1) show ?case by (cases w) (auto split: if_splits)
next
  case (JInt i)
  from JInt.prems(1) obtain c where "start_ok (JInt i) c" "start_ok w c" by (rule dumps_start_eq)
  with JInt.prems show ?case
    by (cases w) (auto dest: int_str_app_inj [OF _ delim_no_digit delim_no_digit] int_not_float split: if_splits)
next
  case (JFloat x)
  from JFloat.prems(1) obtain c where "start_ok (JFloat x) c" "start_ok w c" by (rule dumps_start_eq)
  with JFloat.prems show ?case
    by (cases w) (auto dest: float_str_app_inj [OF _ delim_no_digit delim_no_digit] int_not_float [OF sym]
        split: if_splits)
next
  case (JStr t)
  from JStr.prems(1) obtain c where "start_ok (JStr t) c" "start_ok w c" by (rule dumps_start_eq)
  with JStr.prems show ?case
    using str_json_app_inj [of t r _ s] by (cases w) (auto split: if_splits)
next
  case (JArr xs)
  from JArr.prems(1) obtain c where "start_ok (JArr xs) c" "start_ok w c" by (rule dumps_start_eq)
  then obtain ys where w: "w = JArr ys" by (cases w) (auto split: if_splits)
  have "xs = ys \<and> r = s"
  proof (rule join_app_inj [where f = dumps and b = "CHR '']''"])
    show "x = y \<and> r = s" if "x \<in> set xs" "y \<in> set ys" "dumps x @ r = dumps y @ s" "delim r" "delim s"
      for x y r s
      using JArr.IH that JArr.prems(2,3) w by auto
  qed (use JArr.prems(1) w dumps_Cons in auto)
  with w show ?case by simp
next
  case (JObj kvs)
  from JObj.prems(1) obtain c where "start_ok (JObj kvs) c" "start_ok w c" by (rule dumps_start_eq)
  then obtain ls where w: "w = JObj ls" by (cases w) (auto split: if_splits)
  let ?f = "\<lambda>(k, v). str_json k @ '':'' @ dumps v"
  have "kvs = ls \<and> r = s"
  proof (rule join_app_inj [where f = ?f and b = "CHR ''}''"])
    show "x = y \<and> r = s" if "x \<in> set kvs" "y \<in> set ls" "?f x @ r = ?f y @ s" "delim r" "delim s"
      for x y r s
    proof -
      obtain k v l u where [simp]: "x = (k, v)" "y = (l, u)" by (cases x; cases y)
      have "k = l \<and> dumps v @ r = dumps u @ s"
        using that(3) str_json_app_inj [of k "'':'' @ dumps v @ r" l "'':'' @ dumps u @ s"] by simp
      moreover have "v = u \<and> r = s" if d: "dumps v @ r = dumps u @ s"
      proof (rule JObj.IH [OF _ _ d])
        show "x \<in> set kvs" "delim r" "delim s" by fact+
        show "v \<in> Basic_BNFs.snds x" using snds.intros [of x] by simp
        show "wf_json v" using \<open>x \<in> set kvs\<close> JObj.prems(2) by auto
        show "wf_json u" using \<open>y \<in> set ls\<close> JObj.prems(3) w by auto
      qed
      ultimately show ?thesis by auto
    qed
  qed (use JObj.prems(1) w in \<open>auto simp: str_json_def\<close>)
  with w show ?case by simp
qed

lemma dumps_inj: "dumps v = dumps w \<Longrightarrow> wf_json v \<Longrightarrow> wf_json w \<Longrightarrow> v = w"
  using dumps_app_inj [of v "[]" w "[]"] by (simp add: delim_def)

end
