(* ===== verification/PyCodec.thy ===== *)
theory PyCodec
  imports PyJson "HOL-Library.Word"
begin

text \<open>
  The byte-level parts of Python's standard library the sources use: \<open>base64\<close> (encoder and
  the permissive decoder of \<open>base64.b64decode\<close>, with the round trip), \<open>hashlib.sha256\<close> on
  32-bit words, and UTF-8 with \<open>errors="ignore"\<close> on lists of code points.
\<close>

unbundle bit_operations_syntax

section \<open>Base64\<close>

definition b64_char :: "nat \<Rightarrow> char" where
  "b64_char i = (if i < 26 then char_of (65 + i) else if i < 52 then char_of (71 + i)
     else if i < 62 then char_of (i - 4) else if i = 62 then CHR ''+'' else CHR ''/'')"

definition b64_val :: "char \<Rightarrow> nat option" where
  "b64_val c = (let n = (of_char c :: nat) in
     if 65 \<le> n \<and> n \<le> 90 then Some (n - 65) else if 97 \<le> n \<and> n \<le> 122 then Some (n - 71)
     else if 48 \<le> n \<and> n \<le> 57 then Some (n + 4) else if n = 43 then Some 62
     else if n = 47 then Some 63 else None)"

fun b64encode :: "bytes \<Rightarrow> string" where
  "b64encode [] = []"
| "b64encode [a] = (let x = of_char a in
     [b64_char (x div 4), b64_char (x mod 4 * 16), CHR ''='', CHR ''=''])"
| "b64encode [a, b] = (let x = of_char a; y = of_char b in
     [b64_char (x div 4), b64_char (x mod 4 * 16 + y div 16), b64_char (y mod 16 * 4), CHR ''=''])"
| "b64encode (a # b # c # r) = (let x = of_char a; y = of_char b; z = of_char c in
     [b64_char (x div 4), b64_char (x mod 4 * 16 + y div 16), b64_char (y mod 16 * 4 + z div 64),
      b64_char (z mod 64)] @ b64encode r)"

text \<open>\<open>binascii.a2b_base64\<close> without strict mode: characters outside the alphabet are skipped,
  a complete pad ends the input, a dangling group is an error. The arguments are the position
  in the group of four, the bits left over, and the pads seen.\<close>

fun a2b_base64 :: "string \<Rightarrow> nat \<Rightarrow> nat \<Rightarrow> nat \<Rightarrow> bytes option" where
  "a2b_base64 [] q l p = (if q = 0 then Some [] else None)"
| "a2b_base64 (c # cs) q l p =
     (if c = CHR ''='' then
        (if 2 \<le> q then (if 4 \<le> q + Suc p then Some [] else a2b_base64 cs q l (Suc p))
         else a2b_base64 cs q l p)
      else (case b64_val c of
          None \<Rightarrow> a2b_base64 cs q l p
        | Some v \<Rightarrow>
            (if q = 0 then a2b_base64 cs 1 v 0
             else if q = 1 then map_option ((#) (char_of (l * 4 + v div 16))) (a2b_base64 cs 2 (v mod 16) 0)
             else if q = 2 then map_option ((#) (char_of (l * 16 + v div 4))) (a2b_base64 cs 3 (v mod 4) 0)
             else map_option ((#) (char_of (l * 64 + v))) (a2b_base64 cs 0 0 0))))"

text \<open>\<open>base64.b64decode(s)\<close> of a \<open>str\<close>: a non-ASCII character is a \<open>ValueError\<close>; \<open>None\<close>
  stands for the exception.\<close>

definition b64decode :: "string \<Rightarrow> bytes option" where
  "b64decode s = (if \<forall>c \<in> set s. (of_char c :: nat) < 128 then a2b_base64 s 0 0 0 else None)"

lemma b64_val_char [simp]: "i < 64 \<Longrightarrow> b64_val (b64_char i) = Some i"
  by (auto simp: b64_val_def b64_char_def Let_def)

lemma b64_char_not_pad [simp]: "i < 64 \<Longrightarrow> b64_char i \<noteq> CHR ''=''"
proof
  assume "i < 64" "b64_char i = CHR ''=''"
  then have "b64_val (CHR ''='') = Some i" by (metis b64_val_char)
  then show False by (simp add: b64_val_def)
qed

lemma b64_char_ascii: "i < 64 \<Longrightarrow> (of_char (b64_char i) :: nat) < 128"
  by (auto simp: b64_char_def)

lemma byte_bounds:
  "(of_char c :: nat) div 4 < 64" "(of_char c :: nat) div 16 < 16" "(of_char c :: nat) div 64 < 4"
  using of_char_lt [of c] by (simp_all add: less_mult_imp_div_less)

lemma sextet_bounds:
  "x mod 4 * 16 + of_char c div 16 < (64 :: nat)" "x mod 16 * 4 + of_char c div 64 < (64 :: nat)"
  "x mod 4 * 16 < (64 :: nat)" "x mod 16 * 4 < (64 :: nat)"
proof -
  have "x mod 4 < 4" "x mod 16 < 16" by simp_all
  then show "x mod 4 * 16 + of_char c div 16 < 64" "x mod 16 * 4 + of_char c div 64 < 64"
    "x mod 4 * 16 < 64" "x mod 16 * 4 < 64"
    using byte_bounds [of c] by linarith+
qed

lemma group_div_mod:
  fixes y n :: nat
  assumes "y < n"
  shows "(x * n + y) div n = x" and "(x * n + y) mod n = y"
  using assms by simp_all

lemma regroup:
  "(of_char a div 4) * 4 + (of_char a mod 4 * 16 + of_char b div 16) div 16 = (of_char a :: nat)"
  "((of_char a mod 4 * 16 + of_char b div 16) mod 16) * 16 + (of_char b mod 16 * 4 + of_char c div 64) div 4 =
     (of_char b :: nat)"
  "((of_char b mod 16 * 4 + of_char c div 64) mod 4) * 64 + of_char c mod 64 = (of_char c :: nat)"
  by (simp_all only: group_div_mod [OF byte_bounds(2)] group_div_mod [OF byte_bounds(3)] div_mult_mod_eq)

lemma regroup_pad:
  "(of_char a div 4) * 4 + (of_char a mod 4 * 16) div 16 = (of_char a :: nat)"
  "((of_char a mod 4 * 16 + of_char b div 16) mod 16) * 16 + (of_char b mod 16 * 4) div 4 = (of_char b :: nat)"
  by (simp_all only: group_div_mod [OF byte_bounds(2)] nonzero_mult_div_cancel_right div_mult_mod_eq
      zero_neq_numeral not_False_eq_True numeral_neq_zero)

lemma a2b_b64encode: "a2b_base64 (b64encode bs) 0 0 0 = Some bs"
  by (induction bs rule: b64encode.induct)
     (simp_all add: Let_def byte_bounds sextet_bounds regroup regroup_pad)

lemma b64encode_ascii: "c \<in> set (b64encode bs) \<Longrightarrow> (of_char c :: nat) < 128"
  by (induction bs rule: b64encode.induct)
     (auto simp: Let_def intro!: b64_char_ascii byte_bounds sextet_bounds)

lemma b64_roundtrip [simp]: "b64decode (b64encode bs) = Some bs"
  by (auto simp: b64decode_def a2b_b64encode dest: b64encode_ascii)

lemma b64encode_Nil_iff [simp]: "b64encode bs = [] \<longleftrightarrow> bs = []"
  by (cases bs rule: b64encode.cases) (simp_all add: Let_def)

section \<open>SHA-256\<close>

type_synonym w32 = "32 word"

text \<open>The round constants and the initial value of FIPS 180-4, in decimal.\<close>

definition sha_k :: "w32 list" where
  "sha_k = [
     1116352408, 1899447441, 3049323471, 3921009573, 961987163, 1508970993, 2453635748, 2870763221,
     3624381080, 310598401, 607225278, 1426881987, 1925078388, 2162078206, 2614888103, 3248222580,
     3835390401, 4022224774, 264347078, 604807628, 770255983, 1249150122, 1555081692, 1996064986,
     2554220882, 2821834349, 2952996808, 3210313671, 3336571891, 3584528711, 113926993, 338241895,
     666307205, 773529912, 1294757372, 1396182291, 1695183700, 1986661051, 2177026350, 2456956037,
     2730485921, 2820302411, 3259730800, 3345764771, 3516065817, 3600352804, 4094571909, 275423344,
     430227734, 506948616, 659060556, 883997877, 958139571, 1322822218, 1537002063, 1747873779,
     1955562222, 2024104815, 2227730452, 2361852424, 2428436474, 2756734187, 3204031479, 3329325298]"

definition sha_h0 :: "w32 list" where
  "sha_h0 = [
     1779033703, 3144134277, 1013904242, 2773480762, 1359893119, 2600822924, 528734635, 1541459225]"

definition sigma0 :: "w32 \<Rightarrow> w32" where
  "sigma0 x = word_rotr 7 x XOR word_rotr 18 x XOR drop_bit 3 x"

definition sigma1 :: "w32 \<Rightarrow> w32" where
  "sigma1 x = word_rotr 17 x XOR word_rotr 19 x XOR drop_bit 10 x"

definition big_sigma0 :: "w32 \<Rightarrow> w32" where
  "big_sigma0 x = word_rotr 2 x XOR word_rotr 13 x XOR word_rotr 22 x"

definition big_sigma1 :: "w32 \<Rightarrow> w32" where
  "big_sigma1 x = word_rotr 6 x XOR word_rotr 11 x XOR word_rotr 25 x"

text \<open>The message schedule, newest word first.\<close>

fun schedule :: "nat \<Rightarrow> w32 list \<Rightarrow> w32 list" where
  "schedule 0 ws = ws"
| "schedule (Suc n) ws =
     schedule n ((sigma1 (ws ! 1) + ws ! 6 + sigma0 (ws ! 14) + ws ! 15) # ws)"

fun sha_step :: "w32 list \<Rightarrow> w32 \<times> w32 \<Rightarrow> w32 list" where
  "sha_step [a, b, c, d, e, f, g, h] (k, w) =
     (let t1 = h + big_sigma1 e + ((e AND f) XOR (NOT e AND g)) + k + w;
          t2 = big_sigma0 a + ((a AND b) XOR (a AND c) XOR (b AND c))
      in [t1 + t2, a, b, c, d + t1, e, f, g])"
| "sha_step xs kw = xs"

definition sha_block :: "w32 list \<Rightarrow> w32 list \<Rightarrow> w32 list" where
  "sha_block hs block = map2 (+) hs (foldl sha_step hs (zip sha_k (rev (schedule 48 (rev block)))))"

fun words_be :: "bytes \<Rightarrow> w32 list" where
  "words_be (a # b # c # d # r) =
     (((of_char a * 256 + of_char b) * 256 + of_char c) * 256 + of_char d) # words_be r"
| "words_be _ = []"

fun sha_blocks :: "w32 list \<Rightarrow> w32 list \<Rightarrow> w32 list" where
  "sha_blocks hs ws = (if ws = [] then hs else sha_blocks (sha_block hs (take 16 ws)) (drop 16 ws))"

declare sha_blocks.simps [simp del]

definition be_bytes :: "nat \<Rightarrow> nat \<Rightarrow> bytes" where
  "be_bytes n x = map (\<lambda>i. char_of (x div 256 ^ i)) (rev [0..<n])"

definition sha_pad :: "bytes \<Rightarrow> bytes" where
  "sha_pad m = m @ CHR 0x80 # replicate ((119 - length m mod 64) mod 64) (CHR 0x00) @ be_bytes 8 (8 * length m)"

definition sha256 :: "bytes \<Rightarrow> bytes" where
  "sha256 m = concat (map (\<lambda>w. be_bytes 4 (unat w)) (sha_blocks sha_h0 (words_be (sha_pad m))))"

definition hexdigest :: "bytes \<Rightarrow> string" where
  "hexdigest bs = concat (map (\<lambda>c. [hex_char (of_char c div 16), hex_char (of_char c mod 16)]) bs)"

definition sha256_hex :: "bytes \<Rightarrow> string" where
  "sha256_hex m = hexdigest (sha256 m)"

end
