(* ===== verification/Models.thy ===== *)
theory Models
  imports PyCodec "HOL-Library.Multiset"
begin

text \<open>
  \<open>src/hermes_core/authority/models.py\<close>: the failure codes, the immutable records exchanged
  between agent, broker and gates, their dictionary forms on the wire, and the two canonical
  serialisations that are hashed or signed. Dictionaries read from the wire are \<^typ>\<open>json\<close>
  objects; a conversion that raises in Python (\<open>TypeError\<close>, \<open>ValueError\<close>, \<open>AttributeError\<close>) is
  \<open>None\<close>. What \<open>str\<close> prints for a float or a container and what \<open>float\<close> and \<open>int\<close>
  read from text is a parameter (record \<open>py_conv\<close>); every other conversion is written out.
\<close>

section \<open>Failure codes\<close>

datatype failure_code =
    DENY_UNKNOWN_STATE | DENY_TIMEOUT | DENY_BROKER_OFFLINE | DENY_SIGNATURE_TAMPERED
  | DENY_CLOCK_UNRELIABLE | DENY_TTL_EXPIRED | DENY_REPLAY_ATTACK | DENY_UNAUTHORIZED_PEER
  | DENY_EXECUTION_SEMANTICS_DRIFT | DENY_UNAUTHORIZED_GRANT | DENY_INVALID_MANIFEST
  | DENY_POLICY_VIOLATION | DENY_NONCE_STORE_SATURATED

fun failure_value :: "failure_code \<Rightarrow> string" where
  "failure_value DENY_UNKNOWN_STATE = ''DENY_UNKNOWN_STATE''"
| "failure_value DENY_TIMEOUT = ''DENY_TIMEOUT''"
| "failure_value DENY_BROKER_OFFLINE = ''DENY_BROKER_OFFLINE''"
| "failure_value DENY_SIGNATURE_TAMPERED = ''DENY_SIGNATURE_TAMPERED''"
| "failure_value DENY_CLOCK_UNRELIABLE = ''DENY_CLOCK_UNRELIABLE''"
| "failure_value DENY_TTL_EXPIRED = ''DENY_TTL_EXPIRED''"
| "failure_value DENY_REPLAY_ATTACK = ''DENY_REPLAY_ATTACK''"
| "failure_value DENY_UNAUTHORIZED_PEER = ''DENY_UNAUTHORIZED_PEER''"
| "failure_value DENY_EXECUTION_SEMANTICS_DRIFT = ''DENY_EXECUTION_SEMANTICS_DRIFT''"
| "failure_value DENY_UNAUTHORIZED_GRANT = ''DENY_UNAUTHORIZED_GRANT''"
| "failure_value DENY_INVALID_MANIFEST = ''DENY_INVALID_MANIFEST''"
| "failure_value DENY_POLICY_VIOLATION = ''DENY_POLICY_VIOLATION''"
| "failure_value DENY_NONCE_STORE_SATURATED = ''DENY_NONCE_STORE_SATURATED''"

definition all_failure_codes :: "failure_code list" where
  "all_failure_codes =
     [DENY_UNKNOWN_STATE, DENY_TIMEOUT, DENY_BROKER_OFFLINE, DENY_SIGNATURE_TAMPERED,
      DENY_CLOCK_UNRELIABLE, DENY_TTL_EXPIRED, DENY_REPLAY_ATTACK, DENY_UNAUTHORIZED_PEER,
      DENY_EXECUTION_SEMANTICS_DRIFT, DENY_UNAUTHORIZED_GRANT, DENY_INVALID_MANIFEST,
      DENY_POLICY_VIOLATION, DENY_NONCE_STORE_SATURATED]"

text \<open>\<open>FailureCode(s)\<close>: the member with that value, or \<open>ValueError\<close>.\<close>

definition failure_of_value :: "string \<Rightarrow> failure_code option" where
  "failure_of_value s = find (\<lambda>c. failure_value c = s) all_failure_codes"

lemma failure_of_value_value [simp]: "failure_of_value (failure_value c) = Some c"
  by (cases c) (simp_all add: failure_of_value_def all_failure_codes_def)

section \<open>Records\<close>

record provenance_ctx =
  pc_caller_id :: string
  pc_origin_source :: string
  pc_taint_tag :: string
  pc_ingress_signature :: string

record task_manifest =
  tm_manifest_id :: string
  tm_allowed_primitives :: "string list"
  tm_allowed_resources :: "string list"
  tm_signature :: string

record exec_semantics =
  es_interpreter_path :: string
  es_interpreter_hash :: string
  es_script_path :: string
  es_script_hash :: string
  es_argv :: "string list"
  es_cwd :: string
  es_env_allowlist :: "(string \<times> string) list"
  es_sandbox_profile :: string
  es_network_policy :: string

record approval_proof =
  ha_token_id :: string
  ha_approver_id :: string
  ha_approver_sig :: string
  ha_issued_at :: time
  ha_valid_until :: time
  ha_token_nonce :: string
  ha_exact_execution_hash :: string

record cap_request =
  cr_request_id :: string
  cr_task_id :: string
  cr_requested_primitive :: string
  cr_provenance :: provenance_ctx
  cr_untrusted_semantics :: exec_semantics
  cr_human_approval :: "approval_proof option"

record cap_grant =
  cg_grant_id :: string
  cg_issued_at :: time
  cg_expires_at :: time
  cg_single_use_nonce :: string
  cg_subject_uid :: int
  cg_target_primitive :: string
  cg_exact_execution_hash :: string
  cg_attenuated_capabilities :: "string list"
  cg_broker_signature :: string
  cg_task_id :: string
  cg_resource_binding :: "string list"

section \<open>Canonical serialisations\<close>

definition jstrs :: "string list \<Rightarrow> json" where
  "jstrs xs = JArr (map JStr xs)"

definition jpairs :: "(string \<times> string) list \<Rightarrow> json" where
  "jpairs kvs = JArr (map (\<lambda>(k, v). JArr [JStr k, JStr v]) kvs)"

text \<open>\<open>compute_canonical_hash\<close>, split into the bytes it hashes and the hash.\<close>

definition canonical_dict :: "exec_semantics \<Rightarrow> json" where
  "canonical_dict s = JObj [
     (''interpreter_path'', JStr (es_interpreter_path s)),
     (''interpreter_hash'', JStr (es_interpreter_hash s)),
     (''script_path'', JStr (es_script_path s)),
     (''script_hash'', JStr (es_script_hash s)),
     (''argv'', jstrs (es_argv s)),
     (''cwd'', JStr (es_cwd s)),
     (''env_allowlist'', jpairs (sort (es_env_allowlist s))),
     (''sandbox_profile'', JStr (es_sandbox_profile s)),
     (''network_policy'', JStr (es_network_policy s))]"

definition canonical_bytes :: "exec_semantics \<Rightarrow> bytes" where
  "canonical_bytes s = dumps (sort_keys (canonical_dict s))"

definition compute_canonical_hash :: "exec_semantics \<Rightarrow> string" where
  "compute_canonical_hash s = sha256_hex (canonical_bytes s)"

definition payload_dict :: "cap_grant \<Rightarrow> json" where
  "payload_dict g = JObj [
     (''grant_id'', JStr (cg_grant_id g)),
     (''issued_at'', JFloat (round4 (cg_issued_at g))),
     (''expires_at'', JFloat (round4 (cg_expires_at g))),
     (''single_use_nonce'', JStr (cg_single_use_nonce g)),
     (''subject_uid'', JInt (cg_subject_uid g)),
     (''target_primitive'', JStr (cg_target_primitive g)),
     (''exact_execution_hash'', JStr (cg_exact_execution_hash g)),
     (''attenuated_capabilities'', jstrs (sort (cg_attenuated_capabilities g))),
     (''task_id'', JStr (cg_task_id g)),
     (''resource_binding'', jstrs (sort (cg_resource_binding g)))]"

definition compute_signature_payload :: "cap_grant \<Rightarrow> bytes" where
  "compute_signature_payload g = dumps (sort_keys (payload_dict g))"

section \<open>Wire forms\<close>

definition provenance_to_dict :: "provenance_ctx \<Rightarrow> json" where
  "provenance_to_dict p = JObj [
     (''caller_id'', JStr (pc_caller_id p)), (''origin_source'', JStr (pc_origin_source p)),
     (''taint_tag'', JStr (pc_taint_tag p)), (''ingress_signature'', JStr (pc_ingress_signature p))]"

definition manifest_to_dict :: "task_manifest \<Rightarrow> json" where
  "manifest_to_dict m = JObj [
     (''manifest_id'', JStr (tm_manifest_id m)),
     (''allowed_primitives'', jstrs (tm_allowed_primitives m)),
     (''allowed_resources'', jstrs (tm_allowed_resources m)), (''signature'', JStr (tm_signature m))]"

definition semantics_to_dict :: "exec_semantics \<Rightarrow> json" where
  "semantics_to_dict s = JObj [
     (''interpreter_path'', JStr (es_interpreter_path s)),
     (''interpreter_hash'', JStr (es_interpreter_hash s)),
     (''script_path'', JStr (es_script_path s)), (''script_hash'', JStr (es_script_hash s)),
     (''argv'', jstrs (es_argv s)), (''cwd'', JStr (es_cwd s)),
     (''env_allowlist'', jpairs (es_env_allowlist s)),
     (''sandbox_profile'', JStr (es_sandbox_profile s)),
     (''network_policy'', JStr (es_network_policy s))]"

definition approval_to_dict :: "approval_proof \<Rightarrow> json" where
  "approval_to_dict a = JObj [
     (''token_id'', JStr (ha_token_id a)), (''approver_id'', JStr (ha_approver_id a)),
     (''approver_sig'', JStr (ha_approver_sig a)), (''issued_at'', JFloat (ha_issued_at a)),
     (''valid_until'', JFloat (ha_valid_until a)), (''token_nonce'', JStr (ha_token_nonce a)),
     (''exact_execution_hash'', JStr (ha_exact_execution_hash a))]"

definition request_to_dict :: "cap_request \<Rightarrow> json" where
  "request_to_dict r = JObj [
     (''request_id'', JStr (cr_request_id r)), (''task_id'', JStr (cr_task_id r)),
     (''requested_primitive'', JStr (cr_requested_primitive r)),
     (''provenance'', provenance_to_dict (cr_provenance r)),
     (''untrusted_semantics'', semantics_to_dict (cr_untrusted_semantics r)),
     (''human_approval'', (case cr_human_approval r of None \<Rightarrow> JNull | Some a \<Rightarrow> approval_to_dict a))]"

definition grant_to_dict :: "cap_grant \<Rightarrow> json" where
  "grant_to_dict g = JObj [
     (''grant_id'', JStr (cg_grant_id g)), (''issued_at'', JFloat (cg_issued_at g)),
     (''expires_at'', JFloat (cg_expires_at g)),
     (''single_use_nonce'', JStr (cg_single_use_nonce g)),
     (''subject_uid'', JInt (cg_subject_uid g)),
     (''target_primitive'', JStr (cg_target_primitive g)),
     (''exact_execution_hash'', JStr (cg_exact_execution_hash g)),
     (''attenuated_capabilities'', jstrs (cg_attenuated_capabilities g)),
     (''task_id'', JStr (cg_task_id g)), (''resource_binding'', jstrs (cg_resource_binding g)),
     (''broker_signature'', JStr (cg_broker_signature g))]"

section \<open>Reading dictionaries\<close>

record py_conv =
  repr_json :: "json \<Rightarrow> string"
  float_of_str :: "string \<Rightarrow> rat option"
  int_of_str :: "string \<Rightarrow> int option"

fun py_str :: "py_conv \<Rightarrow> json \<Rightarrow> string" where
  "py_str pv (JStr s) = s"
| "py_str pv JNull = ''None''"
| "py_str pv (JBool b) = (if b then ''True'' else ''False'')"
| "py_str pv (JInt i) = int_str i"
| "py_str pv v = repr_json pv v"

fun py_float :: "py_conv \<Rightarrow> json \<Rightarrow> rat option" where
  "py_float pv (JFloat x) = Some x"
| "py_float pv (JInt i) = Some (of_int i)"
| "py_float pv (JBool b) = Some (if b then 1 else 0)"
| "py_float pv (JStr s) = float_of_str pv s"
| "py_float pv v = None"

fun py_int_of :: "py_conv \<Rightarrow> json \<Rightarrow> int option" where
  "py_int_of pv (JInt i) = Some i"
| "py_int_of pv (JFloat x) = Some (py_int x)"
| "py_int_of pv (JBool b) = Some (if b then 1 else 0)"
| "py_int_of pv (JStr s) = int_of_str pv s"
| "py_int_of pv v = None"

text \<open>Truth value, \<open>data.get(k, default)\<close> on something that must be a dictionary, and iteration.\<close>

fun truthy :: "json \<Rightarrow> bool" where
  "truthy JNull = False"
| "truthy (JBool b) = b"
| "truthy (JInt i) = (i \<noteq> 0)"
| "truthy (JFloat x) = (x \<noteq> 0)"
| "truthy (JStr s) = (s \<noteq> [])"
| "truthy (JArr xs) = (xs \<noteq> [])"
| "truthy (JObj kvs) = (kvs \<noteq> [])"

fun jdict :: "json \<Rightarrow> json dict option" where
  "jdict (JObj kvs) = Some kvs"
| "jdict v = None"

fun jiter :: "json \<Rightarrow> json list option" where
  "jiter (JArr xs) = Some xs"
| "jiter (JStr s) = Some (map (\<lambda>c. JStr [c]) s)"
| "jiter (JObj kvs) = Some (map (JStr \<circ> fst) kvs)"
| "jiter v = None"

definition str_field :: "py_conv \<Rightarrow> json dict \<Rightarrow> string \<Rightarrow> string \<Rightarrow> string" where
  "str_field pv d k def = py_str pv (dict_get d k (JStr def))"

text \<open>\<open>tuple(data.get(k, ()))\<close> of a field whose items are strings; an item of another type is
  outside the field's declared type and is treated as an error.\<close>

fun as_str :: "json \<Rightarrow> string option" where
  "as_str (JStr s) = Some s"
| "as_str v = None"

definition raw_strs :: "json dict \<Rightarrow> string \<Rightarrow> string list option" where
  "raw_strs d k = Option.bind (jiter (dict_get d k (JArr []))) (\<lambda>xs. those (map as_str xs))"

definition conv_strs :: "py_conv \<Rightarrow> json dict \<Rightarrow> string \<Rightarrow> string list option" where
  "conv_strs pv d k = map_option (map (py_str pv)) (jiter (dict_get d k (JArr [])))"

text \<open>\<open>for k, v in raw_env\<close>: every item must unpack into exactly two.\<close>

definition unpack2 :: "json \<Rightarrow> (json \<times> json) option" where
  "unpack2 v = (case jiter v of Some [a, b] \<Rightarrow> Some (a, b) | _ \<Rightarrow> None)"

definition env_field :: "py_conv \<Rightarrow> json dict \<Rightarrow> (string \<times> string) list option" where
  "env_field pv d =
     (case dict_get d ''env_allowlist'' (JArr []) of
        JObj kvs \<Rightarrow> Some (sort (map (\<lambda>(k, v). (k, py_str pv v)) kvs))
      | raw \<Rightarrow> Option.bind (jiter raw) (\<lambda>xs. map_option (map (\<lambda>(k, v). (py_str pv k, py_str pv v)))
                 (those (map unpack2 xs))))"

definition provenance_from_dict :: "py_conv \<Rightarrow> json \<Rightarrow> provenance_ctx option" where
  "provenance_from_dict pv j = map_option (\<lambda>d.
     \<lparr>pc_caller_id = str_field pv d ''caller_id'' [], pc_origin_source = str_field pv d ''origin_source'' [],
      pc_taint_tag = str_field pv d ''taint_tag'' ''EXTERNAL_UNTRUSTED'',
      pc_ingress_signature = str_field pv d ''ingress_signature'' []\<rparr>) (jdict j)"

definition manifest_from_dict :: "py_conv \<Rightarrow> json \<Rightarrow> task_manifest option" where
  "manifest_from_dict pv j =
     (case jdict j of None \<Rightarrow> None | Some d \<Rightarrow>
      (case (raw_strs d ''allowed_primitives'', raw_strs d ''allowed_resources'') of
         (Some ps, Some rs) \<Rightarrow> Some
           \<lparr>tm_manifest_id = str_field pv d ''manifest_id'' [], tm_allowed_primitives = ps,
            tm_allowed_resources = rs, tm_signature = str_field pv d ''signature'' []\<rparr>
       | _ \<Rightarrow> None))"

definition semantics_from_dict :: "py_conv \<Rightarrow> json \<Rightarrow> exec_semantics option" where
  "semantics_from_dict pv j =
     (case jdict j of None \<Rightarrow> None | Some d \<Rightarrow>
      (case (env_field pv d, conv_strs pv d ''argv'') of
         (Some env, Some argv) \<Rightarrow> Some
           \<lparr>es_interpreter_path = str_field pv d ''interpreter_path'' [],
            es_interpreter_hash = str_field pv d ''interpreter_hash'' [],
            es_script_path = str_field pv d ''script_path'' [], es_script_hash = str_field pv d ''script_hash'' [],
            es_argv = argv, es_cwd = str_field pv d ''cwd'' [], es_env_allowlist = env,
            es_sandbox_profile = str_field pv d ''sandbox_profile'' ''default'',
            es_network_policy = str_field pv d ''network_policy'' ''deny_all''\<rparr>
       | _ \<Rightarrow> None))"

definition approval_from_dict :: "py_conv \<Rightarrow> json \<Rightarrow> approval_proof option" where
  "approval_from_dict pv j =
     (case jdict j of None \<Rightarrow> None | Some d \<Rightarrow>
      (case (py_float pv (dict_get d ''issued_at'' (JFloat 0)), py_float pv (dict_get d ''valid_until'' (JFloat 0))) of
         (Some t0, Some t1) \<Rightarrow> Some
           \<lparr>ha_token_id = str_field pv d ''token_id'' [], ha_approver_id = str_field pv d ''approver_id'' [],
            ha_approver_sig = str_field pv d ''approver_sig'' [], ha_issued_at = t0, ha_valid_until = t1,
            ha_token_nonce = str_field pv d ''token_nonce'' [],
            ha_exact_execution_hash = str_field pv d ''exact_execution_hash'' []\<rparr>
       | _ \<Rightarrow> None))"

definition request_from_dict :: "py_conv \<Rightarrow> json \<Rightarrow> cap_request option" where
  "request_from_dict pv j =
     (case jdict j of None \<Rightarrow> None | Some d \<Rightarrow>
      (let raw = dict_get d ''human_approval'' JNull
       in case (provenance_from_dict pv (dict_get d ''provenance'' (JObj [])),
                semantics_from_dict pv (dict_get d ''untrusted_semantics'' (JObj [])),
                if truthy raw then map_option Some (approval_from_dict pv raw) else Some None) of
         (Some p, Some s, Some a) \<Rightarrow> Some
           \<lparr>cr_request_id = str_field pv d ''request_id'' [], cr_task_id = str_field pv d ''task_id'' [],
            cr_requested_primitive = str_field pv d ''requested_primitive'' [], cr_provenance = p,
            cr_untrusted_semantics = s, cr_human_approval = a\<rparr>
       | _ \<Rightarrow> None))"

definition grant_from_dict :: "py_conv \<Rightarrow> json \<Rightarrow> cap_grant option" where
  "grant_from_dict pv j =
     (case jdict j of None \<Rightarrow> None | Some d \<Rightarrow>
      (case (py_float pv (dict_get d ''issued_at'' (JFloat 0)), py_float pv (dict_get d ''expires_at'' (JFloat 0)),
             py_int_of pv (dict_get d ''subject_uid'' (JInt 0)), raw_strs d ''attenuated_capabilities'',
             conv_strs pv d ''resource_binding'') of
         (Some t0, Some t1, Some uid, Some caps, Some rs) \<Rightarrow> Some
           \<lparr>cg_grant_id = str_field pv d ''grant_id'' [], cg_issued_at = t0, cg_expires_at = t1,
            cg_single_use_nonce = str_field pv d ''single_use_nonce'' [], cg_subject_uid = uid,
            cg_target_primitive = str_field pv d ''target_primitive'' [],
            cg_exact_execution_hash = str_field pv d ''exact_execution_hash'' [],
            cg_attenuated_capabilities = caps, cg_broker_signature = str_field pv d ''broker_signature'' [],
            cg_task_id = str_field pv d ''task_id'' [], cg_resource_binding = rs\<rparr>
       | _ \<Rightarrow> None))"

section \<open>Round trips on the wire\<close>

lemmas wire_defs = str_field_def dict_get_def raw_strs_def conv_strs_def env_field_def jstrs_def jpairs_def

lemma those_as_str [simp]: "those (map (as_str \<circ> JStr) xs) = Some xs"
  by (induction xs) simp_all

lemma map_py_str [simp]: "map (py_str pv \<circ> JStr) xs = xs"
  by (induction xs) simp_all

lemma those_unpack2 [simp]:
  "those (map (unpack2 \<circ> (\<lambda>(k, v). JArr [JStr k, JStr v])) kvs) = Some (map (\<lambda>(k, v). (JStr k, JStr v)) kvs)"
  by (induction kvs) (auto simp: unpack2_def)

lemma py_str_pairs [simp]:
  "map ((\<lambda>(k, v). (py_str pv k, py_str pv v)) \<circ> (\<lambda>(k, v). (JStr k, JStr v))) kvs = kvs"
  by (induction kvs) auto

lemma provenance_wire: "provenance_from_dict pv (provenance_to_dict p) = Some p"
  by (simp add: provenance_from_dict_def provenance_to_dict_def wire_defs)

lemma manifest_wire: "manifest_from_dict pv (manifest_to_dict m) = Some m"
  by (simp add: manifest_from_dict_def manifest_to_dict_def wire_defs)

lemma semantics_wire: "semantics_from_dict pv (semantics_to_dict s) = Some s"
  by (simp add: semantics_from_dict_def semantics_to_dict_def wire_defs)

lemma approval_wire: "approval_from_dict pv (approval_to_dict a) = Some a"
  by (simp add: approval_from_dict_def approval_to_dict_def wire_defs)

lemma request_wire: "request_from_dict pv (request_to_dict r) = Some r"
proof -
  have "truthy (approval_to_dict a)" for a
    by (simp add: approval_to_dict_def)
  then show ?thesis
    by (cases "cr_human_approval r")
       (simp_all add: request_from_dict_def request_to_dict_def str_field_def dict_get_def
          provenance_wire semantics_wire approval_wire)
qed

lemma grant_wire: "grant_from_dict pv (grant_to_dict g) = Some g"
  by (simp add: grant_from_dict_def grant_to_dict_def wire_defs)

section \<open>What the canonical serialisations determine\<close>

lemma sort_keys_jstrs [simp]: "sort_keys (jstrs xs) = jstrs xs"
  by (simp add: jstrs_def)

lemma sort_keys_jpairs [simp]: "sort_keys (jpairs kvs) = jpairs kvs"
  by (auto simp: jpairs_def)

lemma wf_json_jstrs [simp]: "wf_json (jstrs xs)" and wf_json_jpairs [simp]: "wf_json (jpairs kvs)"
  by (auto simp: jstrs_def jpairs_def)

lemma jstrs_inj [simp]: "jstrs xs = jstrs ys \<longleftrightarrow> xs = ys"
  by (simp add: jstrs_def inj_map_eq_map inj_def)

lemma jpairs_inj [simp]: "jpairs kvs = jpairs lws \<longleftrightarrow> kvs = lws"
proof -
  have "inj (\<lambda>(k, v). JArr [JStr k, JStr v])" by (auto simp: inj_def)
  then show ?thesis by (simp add: jpairs_def inj_map_eq_map)
qed

lemma sort_eq_iff_mset: "sort xs = sort ys \<longleftrightarrow> mset xs = mset ys"
  by (metis mset_sort properties_for_sort sorted_sort)

text \<open>Two semantics are the same to the hash when they agree in every field, the environment
  taken as a bag of pairs.\<close>

definition same_semantics :: "exec_semantics \<Rightarrow> exec_semantics \<Rightarrow> bool" where
  "same_semantics s t \<longleftrightarrow>
     es_interpreter_path s = es_interpreter_path t \<and> es_interpreter_hash s = es_interpreter_hash t \<and>
     es_script_path s = es_script_path t \<and> es_script_hash s = es_script_hash t \<and>
     es_argv s = es_argv t \<and> es_cwd s = es_cwd t \<and>
     mset (es_env_allowlist s) = mset (es_env_allowlist t) \<and>
     es_sandbox_profile s = es_sandbox_profile t \<and> es_network_policy s = es_network_policy t"

lemma canonical_bytes_eq_iff: "canonical_bytes s = canonical_bytes t \<longleftrightarrow> same_semantics s t"
proof
  assume "canonical_bytes s = canonical_bytes t"
  then have "sort_keys (canonical_dict s) = sort_keys (canonical_dict t)"
    unfolding canonical_bytes_def by (rule dumps_inj) (simp_all add: canonical_dict_def)
  then show "same_semantics s t"
    by (simp add: same_semantics_def canonical_dict_def sort_eq_iff_mset)
next
  assume "same_semantics s t"
  then show "canonical_bytes s = canonical_bytes t"
    by (simp add: same_semantics_def canonical_bytes_def canonical_dict_def flip: sort_eq_iff_mset)
qed

text \<open>Two grants are the same to the signature when they agree in every field but the signature,
  times after rounding to four decimals, capabilities and resources taken as bags.\<close>

definition same_signed_fields :: "cap_grant \<Rightarrow> cap_grant \<Rightarrow> bool" where
  "same_signed_fields g h \<longleftrightarrow>
     cg_grant_id g = cg_grant_id h \<and> round4 (cg_issued_at g) = round4 (cg_issued_at h) \<and>
     round4 (cg_expires_at g) = round4 (cg_expires_at h) \<and>
     cg_single_use_nonce g = cg_single_use_nonce h \<and> cg_subject_uid g = cg_subject_uid h \<and>
     cg_target_primitive g = cg_target_primitive h \<and>
     cg_exact_execution_hash g = cg_exact_execution_hash h \<and>
     mset (cg_attenuated_capabilities g) = mset (cg_attenuated_capabilities h) \<and>
     cg_task_id g = cg_task_id h \<and> mset (cg_resource_binding g) = mset (cg_resource_binding h)"

lemma payload_eq_iff:
  "compute_signature_payload g = compute_signature_payload h \<longleftrightarrow> same_signed_fields g h"
proof
  assume "compute_signature_payload g = compute_signature_payload h"
  then have "sort_keys (payload_dict g) = sort_keys (payload_dict h)"
    unfolding compute_signature_payload_def by (rule dumps_inj) (simp_all add: payload_dict_def)
  then show "same_signed_fields g h"
    by (simp add: same_signed_fields_def payload_dict_def sort_eq_iff_mset)
next
  assume "same_signed_fields g h"
  then show "compute_signature_payload g = compute_signature_payload h"
    by (simp add: same_signed_fields_def compute_signature_payload_def payload_dict_def flip: sort_eq_iff_mset)
qed

lemma payload_ignores_signature [simp]:
  "compute_signature_payload (g\<lparr>cg_broker_signature := x\<rparr>) = compute_signature_payload g"
  by (simp add: compute_signature_payload_def payload_dict_def)

section \<open>Properties\<close>

text \<open>C24: the canonical serialisations lose nothing: two execution semantics serialise to the same
  bytes exactly when they agree in every field (the environment as a bag of pairs), and two
  grants have the same signed payload exactly when they agree in every signed field.\<close>

theorem canonical_forms_are_injective:
  "(canonical_bytes s = canonical_bytes t) = same_semantics s t \<and>
   (compute_signature_payload g = compute_signature_payload h) = same_signed_fields g h"
  by (simp add: canonical_bytes_eq_iff payload_eq_iff)

text \<open>C25: the wire forms lose nothing: a request, a grant and a manifest read back from their
  dictionaries are what was written, whatever Python's conversions do on other inputs.\<close>

theorem wire_forms_round_trip:
  "request_from_dict pv (request_to_dict r) = Some r \<and> grant_from_dict pv (grant_to_dict g) = Some g \<and>
   manifest_from_dict pv (manifest_to_dict m) = Some m"
  by (simp add: request_wire grant_wire manifest_wire)

end
