(* ===== verification/Credentials.thy ===== *)
theory Credentials
  imports Models
begin

text \<open>
  \<open>src/hermes_core/provenance/signer.py\<close> and \<open>src/hermes_core/approval/service.py\<close>: the
  ingress provenance signer and verifier, and the human approval service and token verifier.

  Ed25519 comes from the third-party package \<open>cryptography\<close>, so it is a parameter: a signer
  (\<open>private_key.sign\<close>) and a verifier (\<open>public_key.verify\<close>, false where it raises
  \<open>InvalidSignature\<close>). What the code relies on is \<open>ed25519_ok\<close>: signatures are 64 bytes and a
  signature verifies under the matching public key.
\<close>

section \<open>Keys\<close>

type_synonym signer = "bytes \<Rightarrow> bytes"
type_synonym verifier = "bytes \<Rightarrow> bytes \<Rightarrow> bool"

definition ed25519_ok :: "signer \<Rightarrow> verifier \<Rightarrow> bool" where
  "ed25519_ok sk vk \<longleftrightarrow> (\<forall>m. length (sk m) = 64 \<and> vk (sk m) m)"

text \<open>The seed handed to \<open>Ed25519PrivateKey.from_private_bytes\<close> by both services: 32 bytes are
  taken as they are, anything else is hashed.\<close>

definition private_key_seed :: "bytes \<Rightarrow> bytes" where
  "private_key_seed k = (if length k = 32 then k else sha256 k)"

lemma length_be_bytes [simp]: "length (be_bytes n x) = n"
  by (simp add: be_bytes_def)

lemma length_sha_step [simp]: "length (sha_step xs kw) = length xs"
  by (cases "(xs, kw)" rule: sha_step.cases) (simp_all add: Let_def)

lemma length_foldl_sha_step [simp]: "length (foldl sha_step xs kws) = length xs"
  by (induction kws arbitrary: xs) simp_all

lemma length_sha_block [simp]: "length (sha_block hs b) = length hs"
  by (simp add: sha_block_def)

lemma length_sha_blocks [simp]: "length (sha_blocks hs ws) = length hs"
  by (induction hs ws rule: sha_blocks.induct) (subst sha_blocks.simps, simp)

lemma length_sha256 [simp]: "length (sha256 m) = 32"
proof -
  have "length (concat (map (\<lambda>w. be_bytes 4 (unat w)) ws)) = 4 * length ws" for ws :: "w32 list"
    by (induction ws) simp_all
  then show ?thesis by (simp add: sha256_def sha_h0_def)
qed

lemma length_sha256_hex [simp]: "length (sha256_hex m) = 64"
proof -
  have "length (hexdigest bs) = 2 * length bs" for bs
    by (induction bs) (simp_all add: hexdigest_def)
  then show ?thesis by (simp add: sha256_hex_def)
qed

section \<open>Ingress provenance\<close>

definition provenance_bytes :: "string \<Rightarrow> string \<Rightarrow> string \<Rightarrow> bytes" where
  "provenance_bytes caller origin taint = dumps (sort_keys (JObj [
     (''caller_id'', JStr (strip caller)), (''origin_source'', JStr (strip origin)),
     (''taint_tag'', JStr (strip taint))]))"

definition compute_provenance_digest :: "string \<Rightarrow> string \<Rightarrow> string \<Rightarrow> bytes" where
  "compute_provenance_digest caller origin taint = sha256 (provenance_bytes caller origin taint)"

definition sign_provenance :: "signer \<Rightarrow> string \<Rightarrow> string \<Rightarrow> string \<Rightarrow> provenance_ctx" where
  "sign_provenance sk caller origin taint =
     \<lparr>pc_caller_id = caller, pc_origin_source = origin, pc_taint_tag = taint,
      pc_ingress_signature = b64encode (sk (compute_provenance_digest caller origin taint))\<rparr>"

definition verify_provenance :: "verifier \<Rightarrow> provenance_ctx \<Rightarrow> bool" where
  "verify_provenance vk ctx \<longleftrightarrow>
     pc_ingress_signature ctx \<noteq> [] \<and>
     (case b64decode (pc_ingress_signature ctx) of
        None \<Rightarrow> False
      | Some sg \<Rightarrow> vk sg (compute_provenance_digest (pc_caller_id ctx) (pc_origin_source ctx) (pc_taint_tag ctx)))"

lemma provenance_bytes_eq_iff:
  "provenance_bytes c1 o1 t1 = provenance_bytes c2 o2 t2 \<longleftrightarrow>
     strip c1 = strip c2 \<and> strip o1 = strip o2 \<and> strip t1 = strip t2"
proof
  assume "provenance_bytes c1 o1 t1 = provenance_bytes c2 o2 t2"
  then have "sort_keys (JObj [(''caller_id'', JStr (strip c1)), (''origin_source'', JStr (strip o1)),
      (''taint_tag'', JStr (strip t1))]) =
    sort_keys (JObj [(''caller_id'', JStr (strip c2)), (''origin_source'', JStr (strip o2)),
      (''taint_tag'', JStr (strip t2))])"
    unfolding provenance_bytes_def by (rule dumps_inj) simp_all
  then show "strip c1 = strip c2 \<and> strip o1 = strip o2 \<and> strip t1 = strip t2" by simp
qed (simp add: provenance_bytes_def)

lemma signature_nonempty: "ed25519_ok sk vk \<Longrightarrow> b64encode (sk m) \<noteq> []"
  by (auto simp: ed25519_ok_def dest: spec [of _ m])

lemma sign_provenance_verifies: "ed25519_ok sk vk \<Longrightarrow> verify_provenance vk (sign_provenance sk c os t)"
  using signature_nonempty by (simp add: verify_provenance_def sign_provenance_def ed25519_ok_def)

section \<open>Human approval\<close>

definition MAX_APPROVAL_TTL_SECONDS :: time where "MAX_APPROVAL_TTL_SECONDS = 120"
definition DEFAULT_APPROVAL_TTL_SECONDS :: time where "DEFAULT_APPROVAL_TTL_SECONDS = 60"

definition approval_bytes :: "string \<Rightarrow> string \<Rightarrow> time \<Rightarrow> time \<Rightarrow> string \<Rightarrow> string \<Rightarrow> bytes" where
  "approval_bytes token approver issued valid nonce hsh = dumps (sort_keys (JObj [
     (''token_id'', JStr (strip token)), (''approver_id'', JStr (strip approver)),
     (''issued_at'', JFloat (round4 issued)), (''valid_until'', JFloat (round4 valid)),
     (''token_nonce'', JStr (strip nonce)), (''exact_execution_hash'', JStr (strip hsh))]))"

definition compute_approval_digest :: "string \<Rightarrow> string \<Rightarrow> time \<Rightarrow> time \<Rightarrow> string \<Rightarrow> string \<Rightarrow> bytes" where
  "compute_approval_digest token approver issued valid nonce hsh =
     sha256 (approval_bytes token approver issued valid nonce hsh)"

text \<open>\<open>issue_approval\<close>: \<open>uuid\<close> is the \<open>uuid.uuid4()\<close> of the token, \<open>nonce_hex\<close> the one drawn
  when no nonce is given, \<open>now\<close> the value of the clock or of the argument.\<close>

definition issue_approval ::
  "signer \<Rightarrow> string \<Rightarrow> string \<Rightarrow> string \<Rightarrow> string \<Rightarrow> time \<Rightarrow> time \<Rightarrow> string option \<Rightarrow> approval_proof" where
  "issue_approval sk uuid nonce_hex approver hsh ttl now nonce =
     (let clamped = min (max 1 ttl) MAX_APPROVAL_TTL_SECONDS;
          valid = now + clamped;
          nc = (case nonce of None \<Rightarrow> nonce_hex | Some n \<Rightarrow> n)
      in \<lparr>ha_token_id = uuid, ha_approver_id = approver,
          ha_approver_sig = b64encode (sk (compute_approval_digest uuid approver now valid nc hsh)),
          ha_issued_at = now, ha_valid_until = valid, ha_token_nonce = nc,
          ha_exact_execution_hash = hsh\<rparr>)"

definition proof_digest :: "approval_proof \<Rightarrow> bytes" where
  "proof_digest p = compute_approval_digest (ha_token_id p) (ha_approver_id p) (ha_issued_at p)
     (ha_valid_until p) (ha_token_nonce p) (ha_exact_execution_hash p)"

definition verify_approval :: "verifier \<Rightarrow> approval_proof \<Rightarrow> string option \<Rightarrow> time \<Rightarrow> bool" where
  "verify_approval vk p expected now \<longleftrightarrow>
     (if ha_valid_until p < now then False
      else if now + 1 < ha_issued_at p then False
      else if MAX_APPROVAL_TTL_SECONDS < ha_valid_until p - ha_issued_at p then False
      else if (case expected of None \<Rightarrow> False | Some h \<Rightarrow> ha_exact_execution_hash p \<noteq> h) then False
      else if ha_approver_sig p = [] then False
      else (case b64decode (ha_approver_sig p) of
              None \<Rightarrow> False
            | Some sg \<Rightarrow> vk sg (proof_digest p)))"

text \<open>A token verifies from the moment it is issued until it expires, for its own hash.\<close>

lemma issue_approval_verifies:
  assumes "ed25519_ok sk vk" and "now \<le> t" and "t \<le> now + min (max 1 ttl) 120"
  shows "verify_approval vk (issue_approval sk u n a h ttl now nc) (Some h) t"
  using assms signature_nonempty [OF assms(1)]
  by (simp add: verify_approval_def issue_approval_def Let_def MAX_APPROVAL_TTL_SECONDS_def
      proof_digest_def ed25519_ok_def)

lemma verify_approval_sound:
  assumes "verify_approval vk p (Some h) now"
  shows "now \<le> ha_valid_until p" and "ha_issued_at p \<le> now + 1"
    and "ha_valid_until p - ha_issued_at p \<le> 120" and "ha_exact_execution_hash p = h"
    and "\<exists>sg. b64decode (ha_approver_sig p) = Some sg \<and> vk sg (proof_digest p)"
  using assms by (auto simp: verify_approval_def MAX_APPROVAL_TTL_SECONDS_def split: if_splits option.splits)

text \<open>The digest is taken over stripped texts, so blanks around the nonce do not change it.\<close>

lemma approval_bytes_eq_iff:
  "approval_bytes k1 a1 i1 v1 n1 h1 = approval_bytes k2 a2 i2 v2 n2 h2 \<longleftrightarrow>
     strip k1 = strip k2 \<and> strip a1 = strip a2 \<and> round4 i1 = round4 i2 \<and> round4 v1 = round4 v2 \<and>
     strip n1 = strip n2 \<and> strip h1 = strip h2"
proof
  assume "approval_bytes k1 a1 i1 v1 n1 h1 = approval_bytes k2 a2 i2 v2 n2 h2"
  then have "sort_keys (JObj [
     (''token_id'', JStr (strip k1)), (''approver_id'', JStr (strip a1)),
     (''issued_at'', JFloat (round4 i1)), (''valid_until'', JFloat (round4 v1)),
     (''token_nonce'', JStr (strip n1)), (''exact_execution_hash'', JStr (strip h1))]) =
    sort_keys (JObj [
     (''token_id'', JStr (strip k2)), (''approver_id'', JStr (strip a2)),
     (''issued_at'', JFloat (round4 i2)), (''valid_until'', JFloat (round4 v2)),
     (''token_nonce'', JStr (strip n2)), (''exact_execution_hash'', JStr (strip h2))])"
    unfolding approval_bytes_def by (rule dumps_inj) simp_all
  then show "strip k1 = strip k2 \<and> strip a1 = strip a2 \<and> round4 i1 = round4 i2 \<and> round4 v1 = round4 v2 \<and>
     strip n1 = strip n2 \<and> strip h1 = strip h2" by simp
qed (simp add: approval_bytes_def)

lemma proof_digest_padded_nonce:
  "py_space c \<Longrightarrow> proof_digest (p\<lparr>ha_token_nonce := ha_token_nonce p @ [c]\<rparr>) = proof_digest p"
  by (simp add: proof_digest_def compute_approval_digest_def approval_bytes_def strip_snoc_space)

lemma verify_approval_padded_nonce:
  assumes "py_space c"
  shows "verify_approval vk (p\<lparr>ha_token_nonce := ha_token_nonce p @ [c]\<rparr>) e now = verify_approval vk p e now"
  by (cases e; cases "b64decode (ha_approver_sig p)")
     (simp_all add: verify_approval_def proof_digest_padded_nonce [OF assms])

section \<open>Properties\<close>

lemma clamped_ttl_bounds: "1 \<le> min (max 1 ttl) (120::rat)" "min (max 1 ttl) (120::rat) \<le> 120"
  by simp_all

lemma verify_issued_approval:
  assumes "ed25519_ok sk vk"
  shows "verify_approval vk (issue_approval sk u n a h ttl now nc) (Some h') t \<longleftrightarrow>
    h' = h \<and> now \<le> t + 1 \<and> t \<le> now + min (max 1 ttl) 120"
proof -
  have "vk (sk m) m" for m using assms by (simp add: ed25519_ok_def)
  with clamped_ttl_bounds [of ttl] signature_nonempty [OF assms] show ?thesis
    by (auto simp: verify_approval_def issue_approval_def Let_def MAX_APPROVAL_TTL_SECONDS_def
        proof_digest_def not_less)
qed

text \<open>An issued approval verifies for exactly the hash it was issued for, from one second before
  its issue (the skew allowance) until its lifetime ends; the lifetime asked for is clamped to
  between 1 and 120 seconds.\<close>

theorem approval_life_is_exact:
  assumes "ed25519_ok sk vk"
  shows "verify_approval vk (issue_approval sk u n a h ttl now nc) (Some h') t \<longleftrightarrow>
    h' = h \<and> now - 1 \<le> t \<and> t \<le> now + min (max 1 ttl) 120"
  using verify_issued_approval [OF assms] by (auto simp: algebra_simps)

theorem approval_life_is_exact_witness:
  "verify_approval (\<lambda>sg m. sg = replicate 64 CHR ''s'')
     (issue_approval (\<lambda>m. replicate 64 CHR ''s'') ''id'' ''n'' ''op'' ''h'' 500 100 None) (Some ''h'') 220 \<and>
   \<not> verify_approval (\<lambda>sg m. sg = replicate 64 CHR ''s'')
     (issue_approval (\<lambda>m. replicate 64 CHR ''s'') ''id'' ''n'' ''op'' ''h'' 500 100 None) (Some ''h'') 221"
proof -
  have k: "ed25519_ok (\<lambda>m. replicate 64 CHR ''s'') (\<lambda>sg m. sg = replicate 64 CHR ''s'')"
    by (simp add: ed25519_ok_def)
  show ?thesis by (simp add: approval_life_is_exact [OF k])
qed

text \<open>The bytes a proof's digest is taken of.\<close>

definition proof_bytes :: "approval_proof \<Rightarrow> bytes" where
  "proof_bytes p = approval_bytes (ha_token_id p) (ha_approver_id p) (ha_issued_at p)
     (ha_valid_until p) (ha_token_nonce p) (ha_exact_execution_hash p)"

lemma proof_digest_bytes: "proof_digest p = sha256 (proof_bytes p)"
  by (simp add: proof_digest_def compute_approval_digest_def proof_bytes_def)

text \<open>C23: an accepted approval is one that was issued. When a signature verifies only for digests of
  issued approvals, and SHA-256 has no collision between the texts signed and the text presented,
  every accepted proof agrees with an issued one in token, approver, nonce and hash (up to
  surrounding blanks) and in both times (to four decimals).\<close>

theorem accepted_approval_was_issued:
  assumes unforgeable: "\<And>sg m. vk sg m \<Longrightarrow> m \<in> proof_digest ` issued"
    and no_collision: "inj_on sha256 (insert (proof_bytes p) (proof_bytes ` issued))"
    and "verify_approval vk p e now"
  shows "\<exists>i \<in> issued. strip (ha_token_id p) = strip (ha_token_id i) \<and>
    strip (ha_approver_id p) = strip (ha_approver_id i) \<and> strip (ha_token_nonce p) = strip (ha_token_nonce i) \<and>
    strip (ha_exact_execution_hash p) = strip (ha_exact_execution_hash i) \<and>
    round4 (ha_issued_at p) = round4 (ha_issued_at i) \<and> round4 (ha_valid_until p) = round4 (ha_valid_until i)"
proof -
  obtain sg where "vk sg (proof_digest p)"
    using assms(3) by (auto simp: verify_approval_def split: if_splits option.splits)
  from unforgeable [OF this] obtain i where i: "i \<in> issued" "proof_digest p = proof_digest i" by auto
  with no_collision have "proof_bytes p = proof_bytes i"
    by (auto simp: proof_digest_bytes dest: inj_onD)
  then show ?thesis using i(1) by (auto simp: proof_bytes_def approval_bytes_eq_iff)
qed

theorem accepted_approval_was_issued_witness:
  "\<exists>i \<in> {issue_approval (\<lambda>m. replicate 64 CHR ''s'') ''id'' ''n'' ''op'' ''h'' 60 100 None}. strip (ha_token_id i) = strip ''id''"
proof -
  let ?sk = "\<lambda>m :: bytes. replicate 64 CHR ''s''"
  let ?p = "issue_approval ?sk ''id'' ''n'' ''op'' ''h'' 60 100 None"
  let ?vk = "\<lambda>sg m. sg = replicate 64 CHR ''s'' \<and> m = proof_digest ?p"
  have "verify_approval ?vk ?p (Some ''h'') 100"
    by (simp add: verify_approval_def issue_approval_def Let_def MAX_APPROVAL_TTL_SECONDS_def proof_digest_def)
  with accepted_approval_was_issued [of ?vk "{?p}" ?p "Some ''h''" 100] show ?thesis
    by (simp add: issue_approval_def Let_def)
qed

text \<open>A verified ingress context was signed. When a signature verifies only for digests of signed
  triples, and SHA-256 has no collision among them and the one presented, caller, origin and
  taint of an accepted context are those of a signed triple up to surrounding blanks.\<close>

theorem accepted_provenance_was_signed:
  assumes unforgeable: "\<And>sg m. vk sg m \<Longrightarrow> m \<in> (\<lambda>(c, og, t). compute_provenance_digest c og t) ` triples"
    and no_collision: "inj_on sha256 (insert (provenance_bytes (pc_caller_id x) (pc_origin_source x) (pc_taint_tag x))
           ((\<lambda>(c, og, t). provenance_bytes c og t) ` triples))"
    and "verify_provenance vk x"
  shows "\<exists>(c, og, t) \<in> triples. strip (pc_caller_id x) = strip c \<and> strip (pc_origin_source x) = strip og \<and>
    strip (pc_taint_tag x) = strip t"
proof -
  obtain sg where "vk sg (compute_provenance_digest (pc_caller_id x) (pc_origin_source x) (pc_taint_tag x))"
    using assms(3) by (auto simp: verify_provenance_def split: option.splits)
  from unforgeable [OF this] obtain c og t where i: "(c, og, t) \<in> triples"
      "sha256 (provenance_bytes (pc_caller_id x) (pc_origin_source x) (pc_taint_tag x)) = sha256 (provenance_bytes c og t)"
    by (auto simp: compute_provenance_digest_def)
  have "provenance_bytes (pc_caller_id x) (pc_origin_source x) (pc_taint_tag x) = provenance_bytes c og t"
    using i(1) by (intro inj_onD [OF no_collision i(2)]) force+
  with i(1) show ?thesis by (auto simp: provenance_bytes_eq_iff)
qed

theorem accepted_provenance_was_signed_witness:
  "\<exists>(c, og, t) \<in> {(''u'', ''cli'', ''HUMAN_CONFIRMED'')}. strip (''u'' @ [CHR '' '']) = strip c"
proof -
  let ?x = "\<lparr>pc_caller_id = ''u '', pc_origin_source = ''cli'', pc_taint_tag = ''HUMAN_CONFIRMED'',
    pc_ingress_signature = b64encode (replicate 64 CHR ''s'')\<rparr>"
  let ?vk = "\<lambda>sg m. sg = replicate 64 CHR ''s'' \<and> m = compute_provenance_digest ''u'' ''cli'' ''HUMAN_CONFIRMED''"
  have b: "provenance_bytes ''u '' o' t = provenance_bytes ''u'' o' t" for o' t
    by (simp add: provenance_bytes_eq_iff strip_def lstrip_def rstrip_def py_space_def)
  then have "verify_provenance ?vk ?x"
    by (simp add: verify_provenance_def compute_provenance_digest_def)
  with accepted_provenance_was_signed [of ?vk "{(''u'', ''cli'', ''HUMAN_CONFIRMED'')}" ?x] b show ?thesis
    by auto
qed

end
