(* ===== verification/Broker.thy ===== *)
theory Broker
  imports Credentials
begin

text \<open>
  \<open>src/hermes_core/authority/broker.py\<close>: the authority broker. Its state is the manifest store,
  the allowed peers, the optional verifiers, the signing key and the nonce ledger (nonce to
  expiry). \<open>evaluate_request\<close> is the pipeline V-02 to V-08 in the order of the code; every value
  the code reads from the clock or from \<open>uuid\<close> is a field of \<open>eval_env\<close>, one per call. A denial
  carries the failure code and, in place of the message text, the site that raises it.
\<close>

section \<open>Constants and denials\<close>

definition MAX_GRANT_TTL_SECONDS :: time where "MAX_GRANT_TTL_SECONDS = 60"
definition DEFAULT_GRANT_TTL_SECONDS :: time where "DEFAULT_GRANT_TTL_SECONDS = 30"
definition NONCE_RETENTION_SECONDS :: time where "NONCE_RETENTION_SECONDS = MAX_GRANT_TTL_SECONDS * 2"
definition MAX_NONCE_LEDGER_ENTRIES :: int where "MAX_NONCE_LEDGER_ENTRIES = 100000"

definition HIGH_RISK_PRIMITIVES :: "string list" where
  "HIGH_RISK_PRIMITIVES =
     [''process_execution'', ''destructive_storage'', ''arbitrary_network'', ''agent_spawn'']"

datatype denial_site =
    PeerNotAuthorized | EmptyRequest | MalformedRequest | RequestTimedOut | InternalError
  | ManifestNotFound | PrimitiveNotPermitted | IngressSignatureInvalid
  | ApprovalMissing | ApprovalVerifierMissing | ApprovalExpired | ApprovalHashDrift | ApprovalSignatureInvalid
  | TtlExceeded | ClockError | BlankNonce | NonceReplayed | LedgerSaturated

type_synonym denial = "failure_code \<times> denial_site"

section \<open>State\<close>

record broker =
  br_signing_key :: signer
  br_public_key :: verifier
  br_manifests :: "task_manifest dict"
  br_allowed_uids :: "int list"
  br_allowed_gids :: "int list"
  br_provenance_verifier :: "verifier option"
  br_approval_verifier :: "verifier option"
  br_ledger :: "time dict"
  br_max_ledger :: int
  br_running :: bool
  br_socket_file :: bool

text \<open>\<open>keypair\<close> is \<open>Ed25519PrivateKey.from_private_bytes\<close> with its public key, \<open>pubkey\<close> is
  \<open>from_public_bytes\<close>; a key argument that is absent or empty configures no verifier.\<close>

definition signing_seed :: "bytes \<Rightarrow> bytes" where
  "signing_seed secret = sha256 (''hermes-authority-broker-ed25519-v2|'' @ secret)"

definition opt_verifier :: "(bytes \<Rightarrow> verifier) \<Rightarrow> bytes option \<Rightarrow> verifier option" where
  "opt_verifier pubkey k =
     (case k of None \<Rightarrow> None | Some b \<Rightarrow> if b = [] then None else Some (pubkey b))"

definition broker_init ::
  "(bytes \<Rightarrow> signer \<times> verifier) \<Rightarrow> (bytes \<Rightarrow> verifier) \<Rightarrow> int \<Rightarrow> int \<Rightarrow> bytes \<Rightarrow> task_manifest dict option \<Rightarrow>
   int list option \<Rightarrow> int list option \<Rightarrow> int \<Rightarrow> bytes option \<Rightarrow> bytes option \<Rightarrow> broker" where
  "broker_init keypair pubkey getuid getgid secret store uids gids mx prov appr =
     \<lparr>br_signing_key = fst (keypair (signing_seed secret)),
      br_public_key = snd (keypair (signing_seed secret)),
      br_manifests = (case store of None \<Rightarrow> [] | Some s \<Rightarrow> s),
      br_allowed_uids = (case uids of None \<Rightarrow> [getuid] | Some us \<Rightarrow> us),
      br_allowed_gids = (case gids of None \<Rightarrow> [getgid] | Some gs \<Rightarrow> gs),
      br_provenance_verifier = opt_verifier pubkey prov,
      br_approval_verifier = opt_verifier pubkey appr,
      br_ledger = [], br_max_ledger = max 1 mx, br_running = False, br_socket_file = False\<rparr>"

definition register_manifest :: "task_manifest \<Rightarrow> broker \<Rightarrow> broker" where
  "register_manifest m b = b\<lparr>br_manifests := AList.update (tm_manifest_id m) m (br_manifests b)\<rparr>"

text \<open>\<open>start\<close> and \<open>stop\<close>: whether removing a stale socket, binding and setting its permission
  succeed is decided by the operating system. The result names the error raised.\<close>

datatype start_error = StaleSocketNotRemoved | BindFailed | PermissionNotSet

definition start_broker :: "bool \<Rightarrow> bool \<Rightarrow> bool \<Rightarrow> broker \<Rightarrow> start_error option \<times> broker" where
  "start_broker unlink_ok bind_ok chmod_ok b =
     (if br_running b then (None, b)
      else if br_socket_file b \<and> \<not> unlink_ok then (Some StaleSocketNotRemoved, b)
      else if \<not> bind_ok then (Some BindFailed, b\<lparr>br_socket_file := False\<rparr>)
      else if \<not> chmod_ok then (Some PermissionNotSet, b\<lparr>br_socket_file := True\<rparr>)
      else (None, b\<lparr>br_socket_file := True, br_running := True\<rparr>))"

definition stop_broker :: "bool \<Rightarrow> broker \<Rightarrow> broker" where
  "stop_broker unlink_ok b =
     (if \<not> br_running b then b
      else b\<lparr>br_running := False, br_socket_file := br_socket_file b \<and> \<not> unlink_ok\<rparr>)"

section \<open>The nonce ledger\<close>

definition gc_ledger :: "time \<Rightarrow> time dict \<Rightarrow> time dict" where
  "gc_ledger now led = filter (\<lambda>(n, e). \<not> e \<le> now) led"

definition atomic_consume_nonce ::
  "int \<Rightarrow> time \<Rightarrow> string \<Rightarrow> time option \<Rightarrow> time dict \<Rightarrow> denial option \<times> time dict" where
  "atomic_consume_nonce mx now nonce expires led =
     (if nonce = [] \<or> strip nonce = [] then (Some (DENY_REPLAY_ATTACK, BlankNonce), led)
      else
        let e = (case expires of None \<Rightarrow> now + NONCE_RETENTION_SECONDS | Some e \<Rightarrow> e)
        in if has_key led nonce then (Some (DENY_REPLAY_ATTACK, NonceReplayed), led)
           else let led' = gc_ledger now led
                in if mx \<le> int (length led') then (Some (DENY_NONCE_STORE_SATURATED, LedgerSaturated), led')
                   else (None, AList.update nonce e led'))"

section \<open>Evaluating a request\<close>

record eval_env =
  ee_now :: time
  ee_now_approval :: time
  ee_now_grant :: time
  ee_grant_nonce :: string
  ee_grant_id :: string

text \<open>V-03: the taint the policy uses.\<close>

definition effective_taint :: "verifier option \<Rightarrow> provenance_ctx \<Rightarrow> denial + string" where
  "effective_taint pv ctx =
     (let taint = pc_taint_tag ctx in
      case pv of
        Some vk \<Rightarrow>
          (if pc_ingress_signature ctx \<noteq> [] then
             (if \<not> verify_provenance vk ctx then Inl (DENY_SIGNATURE_TAMPERED, IngressSignatureInvalid)
              else Inr taint)
           else if taint \<in> {''HUMAN_CONFIRMED'', ''SYSTEM_INTERNAL''} then Inr ''EXTERNAL_UNTRUSTED''
           else Inr taint)
      | None \<Rightarrow>
          (if taint \<in> {''HUMAN_CONFIRMED'', ''SYSTEM_INTERNAL''} \<and> pc_ingress_signature ctx = []
           then Inr ''EXTERNAL_UNTRUSTED'' else Inr taint))"

text \<open>V-06: the broker's own copy of the semantics.\<close>

definition canonical_semantics :: "exec_semantics \<Rightarrow> exec_semantics" where
  "canonical_semantics u =
     \<lparr>es_interpreter_path = es_interpreter_path u, es_interpreter_hash = es_interpreter_hash u,
      es_script_path = es_script_path u, es_script_hash = es_script_hash u, es_argv = es_argv u,
      es_cwd = es_cwd u, es_env_allowlist = es_env_allowlist u,
      es_sandbox_profile = es_sandbox_profile u, es_network_policy = es_network_policy u\<rparr>"

definition request_hash :: "cap_request \<Rightarrow> string" where
  "request_hash r = compute_canonical_hash (canonical_semantics (cr_untrusted_semantics r))"

definition needs_approval :: "cap_request \<Rightarrow> string \<Rightarrow> bool" where
  "needs_approval r taint \<longleftrightarrow>
     cr_requested_primitive r \<in> set HIGH_RISK_PRIMITIVES \<or> taint = ''EXTERNAL_UNTRUSTED''"

text \<open>V-04 and V-05: the approval to consume, \<open>None\<close> when none is required.\<close>

definition approval_check ::
  "verifier option \<Rightarrow> time \<Rightarrow> cap_request \<Rightarrow> string \<Rightarrow> denial + approval_proof option" where
  "approval_check av now r taint =
     (if \<not> needs_approval r taint then Inr None
      else case cr_human_approval r of
        None \<Rightarrow> Inl (DENY_UNAUTHORIZED_GRANT, ApprovalMissing)
      | Some p \<Rightarrow>
         (case av of
            None \<Rightarrow> Inl (DENY_UNAUTHORIZED_GRANT, ApprovalVerifierMissing)
          | Some vk \<Rightarrow>
             (if \<not> verify_approval vk p (Some (request_hash r)) now then
                (if ha_valid_until p < now then Inl (DENY_TTL_EXPIRED, ApprovalExpired)
                 else if ha_exact_execution_hash p \<noteq> request_hash r
                   then Inl (DENY_EXECUTION_SEMANTICS_DRIFT, ApprovalHashDrift)
                 else Inl (DENY_SIGNATURE_TAMPERED, ApprovalSignatureInvalid))
              else Inr (Some p))))"

text \<open>V-02 to V-06: everything decided before the ledger is touched.\<close>

definition policy_checks ::
  "broker \<Rightarrow> time \<Rightarrow> cap_request \<Rightarrow> denial + task_manifest \<times> approval_proof option" where
  "policy_checks b now r =
     (case map_of (br_manifests b) (cr_task_id r) of
        None \<Rightarrow> Inl (DENY_INVALID_MANIFEST, ManifestNotFound)
      | Some m \<Rightarrow>
         (if cr_requested_primitive r \<notin> set (tm_allowed_primitives m)
          then Inl (DENY_POLICY_VIOLATION, PrimitiveNotPermitted)
          else case effective_taint (br_provenance_verifier b) (cr_provenance r) of
            Inl d \<Rightarrow> Inl d
          | Inr taint \<Rightarrow>
             (case approval_check (br_approval_verifier b) now r taint of
                Inl d \<Rightarrow> Inl d
              | Inr p \<Rightarrow> Inr (m, p))))"

text \<open>V-07.\<close>

definition grant_times :: "time \<Rightarrow> denial + time \<times> time" where
  "grant_times now =
     (let issued = now; expires = issued + DEFAULT_GRANT_TTL_SECONDS in
      if MAX_GRANT_TTL_SECONDS < expires - issued then Inl (DENY_TTL_EXPIRED, TtlExceeded)
      else if expires < issued \<or> issued < now - 1 then Inl (DENY_CLOCK_UNRELIABLE, ClockError)
      else Inr (issued, expires))"

definition sign_grant :: "signer \<Rightarrow> cap_grant \<Rightarrow> cap_grant" where
  "sign_grant sk g = g\<lparr>cg_broker_signature := b64encode (sk (compute_signature_payload g))\<rparr>"

definition build_grant ::
  "eval_env \<Rightarrow> time \<Rightarrow> time \<Rightarrow> cap_request \<Rightarrow> int \<Rightarrow> task_manifest \<Rightarrow> cap_grant" where
  "build_grant env issued expires r uid m =
     \<lparr>cg_grant_id = ee_grant_id env, cg_issued_at = issued, cg_expires_at = expires,
      cg_single_use_nonce = ee_grant_nonce env, cg_subject_uid = uid,
      cg_target_primitive = cr_requested_primitive r, cg_exact_execution_hash = request_hash r,
      cg_attenuated_capabilities = [cr_requested_primitive r], cg_broker_signature = [],
      cg_task_id = cr_task_id r, cg_resource_binding = tm_allowed_resources m\<rparr>"

text \<open>V-08, the approval's nonce.\<close>

definition consume_approval :: "int \<Rightarrow> time \<Rightarrow> approval_proof option \<Rightarrow> time dict \<Rightarrow> denial option \<times> time dict" where
  "consume_approval mx now p led =
     (case p of
        None \<Rightarrow> (None, led)
      | Some a \<Rightarrow> atomic_consume_nonce mx now (ha_token_nonce a) (Some (ha_valid_until a)) led)"

definition evaluate_request :: "eval_env \<Rightarrow> cap_request \<Rightarrow> int \<Rightarrow> broker \<Rightarrow> (denial + cap_grant) \<times> broker" where
  "evaluate_request env r uid b =
     (case policy_checks b (ee_now env) r of
        Inl d \<Rightarrow> (Inl d, b)
      | Inr (m, p) \<Rightarrow>
         (case consume_approval (br_max_ledger b) (ee_now_approval env) p (br_ledger b) of
            (Some d, led) \<Rightarrow> (Inl d, b\<lparr>br_ledger := led\<rparr>)
          | (None, led) \<Rightarrow>
             (case grant_times (ee_now env) of
                Inl d \<Rightarrow> (Inl d, b\<lparr>br_ledger := led\<rparr>)
              | Inr (issued, expires) \<Rightarrow>
                 (case atomic_consume_nonce (br_max_ledger b) (ee_now_grant env) (ee_grant_nonce env) (Some expires) led of
                    (Some d, led') \<Rightarrow> (Inl d, b\<lparr>br_ledger := led'\<rparr>)
                  | (None, led') \<Rightarrow>
                      (Inr (sign_grant (br_signing_key b) (build_grant env issued expires r uid m)),
                       b\<lparr>br_ledger := led'\<rparr>)))))"

definition verify_grant :: "verifier \<Rightarrow> time \<Rightarrow> cap_grant \<Rightarrow> int \<Rightarrow> string \<Rightarrow> bool" where
  "verify_grant vk now g uid hsh \<longleftrightarrow>
     (if \<not> (cg_issued_at g \<le> now \<and> now < cg_expires_at g) then False
      else if MAX_GRANT_TTL_SECONDS < cg_expires_at g - cg_issued_at g then False
      else if cg_subject_uid g \<noteq> uid then False
      else if cg_exact_execution_hash g \<noteq> hsh then False
      else (case b64decode (cg_broker_signature g) of
              None \<Rightarrow> False
            | Some sg \<Rightarrow> vk sg (compute_signature_payload g)))"

section \<open>The ledger contract\<close>

text \<open>What the broker relies on when it asks a ledger to consume a nonce, and what follows for any
  sequence of requests. A ledger is observed through \<open>lookup\<close>, the expiry recorded for a nonce.\<close>

type_synonym consume_op = "time \<times> string \<times> time"

fun ledger_run :: "(time \<Rightarrow> string \<Rightarrow> time \<Rightarrow> 'l \<Rightarrow> denial option \<times> 'l) \<Rightarrow> consume_op list \<Rightarrow> 'l \<Rightarrow> denial option list \<times> 'l" where
  "ledger_run consume [] l = ([], l)"
| "ledger_run consume ((t, n, e) # ops) l =
     (let (r, l') = consume t n e l; (rs, l'') = ledger_run consume ops l' in (r # rs, l''))"

lemma ledger_run_snd:
  "snd (ledger_run consume ((t, n, e) # ops) l) = snd (ledger_run consume ops (snd (consume t n e l)))"
  by (cases "consume t n e l") (simp split: prod.splits)

locale nonce_ledger =
  fixes consume :: "time \<Rightarrow> string \<Rightarrow> time \<Rightarrow> 'l \<Rightarrow> denial option \<times> 'l"
    and lookup :: "'l \<Rightarrow> string \<Rightarrow> time option"
    and inv :: "'l \<Rightarrow> bool"
  assumes consume_inv: "inv l \<Longrightarrow> inv (snd (consume t n e l))"
    and consume_records: "inv l \<Longrightarrow> fst (consume t n e l) = None \<Longrightarrow> lookup (snd (consume t n e l)) n = Some e"
    and consume_keeps: "inv l \<Longrightarrow> lookup l m = Some x \<Longrightarrow> t < x \<Longrightarrow> lookup (snd (consume t n e l)) m = Some x"
    and consume_refuses: "lookup l n \<noteq> None \<Longrightarrow> fst (consume t n e l) \<noteq> None"
begin

lemma run_keeps:
  "inv l \<Longrightarrow> lookup l m = Some x \<Longrightarrow> \<forall>(t, n, e) \<in> set ops. t < x \<Longrightarrow>
   lookup (snd (ledger_run consume ops l)) m = Some x"
proof (induction ops arbitrary: l)
  case (Cons op ops)
  obtain t n e where op: "op = (t, n, e)" by (cases op)
  have "lookup (snd (consume t n e l)) m = Some x"
    using Cons.prems by (intro consume_keeps) (auto simp: op)
  moreover have "inv (snd (consume t n e l))" using Cons.prems by (simp add: consume_inv)
  ultimately show ?case using Cons.IH Cons.prems(3) by (simp add: op ledger_run_snd del: ledger_run.simps)
qed simp

lemma run_inv: "inv l \<Longrightarrow> inv (snd (ledger_run consume ops l))"
proof (induction ops arbitrary: l)
  case (Cons op ops)
  obtain t n e where op: "op = (t, n, e)" by (cases op)
  show ?case using Cons by (simp add: op ledger_run_snd consume_inv del: ledger_run.simps)
qed simp

text \<open>Once accepted, a nonce is refused by every later request whose clock has not reached its
  expiry, whatever was consumed in between.\<close>

lemma no_replay:
  assumes "inv l" and acc: "fst (consume t n e l) = None"
    and before: "\<forall>(t', n', e') \<in> set ops. t' < e"
  shows "fst (consume t2 n e2 (snd (ledger_run consume ops (snd (consume t n e l))))) \<noteq> None"
proof -
  have "lookup (snd (ledger_run consume ops (snd (consume t n e l)))) n = Some e"
    using assms by (intro run_keeps consume_records consume_inv) auto
  then show ?thesis by (intro consume_refuses) simp
qed

end

definition ledger_ok :: "int \<Rightarrow> time dict \<Rightarrow> bool" where
  "ledger_ok mx led \<longleftrightarrow> wf_dict led \<and> int (length led) \<le> mx \<and> (\<forall>n \<in> fst ` set led. strip n \<noteq> [])"

lemma gc_ledger_lookup:
  "wf_dict led \<Longrightarrow> map_of (gc_ledger now led) n =
     (case map_of led n of None \<Rightarrow> None | Some e \<Rightarrow> if now < e then Some e else None)"
  by (simp add: gc_ledger_def map_of_filter_wf not_le cong: if_cong)

lemma gc_ledger_wf [simp]: "wf_dict led \<Longrightarrow> wf_dict (gc_ledger now led)"
  by (simp add: gc_ledger_def)

lemma gc_ledger_subset: "set (gc_ledger now led) \<subseteq> set led"
  by (auto simp: gc_ledger_def)

lemma gc_ledger_length: "length (gc_ledger now led) \<le> length led"
  by (simp add: gc_ledger_def)

lemma gc_ledger_ok: "ledger_ok mx led \<Longrightarrow> ledger_ok mx (gc_ledger now led)"
  unfolding ledger_ok_def using gc_ledger_subset [of now led] gc_ledger_length [of now led]
  by (meson gc_ledger_wf image_mono of_nat_le_iff order_trans subset_iff)

lemma consume_cases:
  obtains (blank) "strip n = []" "atomic_consume_nonce mx t n e led = (Some (DENY_REPLAY_ATTACK, BlankNonce), led)"
  | (replay) "strip n \<noteq> []" "has_key led n" "atomic_consume_nonce mx t n e led = (Some (DENY_REPLAY_ATTACK, NonceReplayed), led)"
  | (full) "strip n \<noteq> []" "\<not> has_key led n" "mx \<le> int (length (gc_ledger t led))"
      "atomic_consume_nonce mx t n e led = (Some (DENY_NONCE_STORE_SATURATED, LedgerSaturated), gc_ledger t led)"
  | (ok) "strip n \<noteq> []" "\<not> has_key led n" "int (length (gc_ledger t led)) < mx"
      "atomic_consume_nonce mx t n e led =
         (None, AList.update n (case e of None \<Rightarrow> t + NONCE_RETENTION_SECONDS | Some x \<Rightarrow> x) (gc_ledger t led))"
proof -
  have "n = [] \<Longrightarrow> strip n = []" by (simp add: strip_def lstrip_def rstrip_def)
  then have def: "atomic_consume_nonce mx t n e led =
     (if strip n = [] then (Some (DENY_REPLAY_ATTACK, BlankNonce), led)
      else if has_key led n then (Some (DENY_REPLAY_ATTACK, NonceReplayed), led)
      else if mx \<le> int (length (gc_ledger t led))
        then (Some (DENY_NONCE_STORE_SATURATED, LedgerSaturated), gc_ledger t led)
      else (None, AList.update n (case e of None \<Rightarrow> t + NONCE_RETENTION_SECONDS | Some x \<Rightarrow> x) (gc_ledger t led)))"
    by (auto simp: atomic_consume_nonce_def Let_def)
  show ?thesis
  proof (cases "strip n = [] \<or> has_key led n \<or> mx \<le> int (length (gc_ledger t led))")
    case True
    with that(1-3) def show ?thesis by (metis (no_types, lifting))
  next
    case False
    with that(4) def show ?thesis by simp
  qed
qed

lemma consume_ledger_ok:
  assumes "ledger_ok mx led"
  shows "ledger_ok mx (snd (atomic_consume_nonce mx t n e led))"
proof (cases rule: consume_cases [of n mx t e led])
  case ok
  let ?l = "gc_ledger t led" and ?x = "case e of None \<Rightarrow> t + NONCE_RETENTION_SECONDS | Some x \<Rightarrow> x"
  have l: "ledger_ok mx ?l" by (rule gc_ledger_ok [OF assms])
  have "int (length (AList.update n ?x ?l)) \<le> mx"
    using length_update_le [of n ?x ?l] ok(3) by linarith
  moreover have "fst ` set (AList.update n ?x ?l) = insert n (fst ` set ?l)"
    using dom_update [of n ?x ?l] by (simp add: dom_map_of_conv_image_fst)
  ultimately show ?thesis using l ok by (simp add: ledger_ok_def)
qed (use assms gc_ledger_ok [OF assms] in simp_all)

interpretation bl: nonce_ledger
  "\<lambda>t n e. atomic_consume_nonce mx t n (Some e)" map_of "ledger_ok mx" for mx
proof
  fix l :: "time dict" and t n e m x
  show "ledger_ok mx l \<Longrightarrow> ledger_ok mx (snd (atomic_consume_nonce mx t n (Some e) l))"
    by (rule consume_ledger_ok)
  show "ledger_ok mx l \<Longrightarrow> fst (atomic_consume_nonce mx t n (Some e) l) = None \<Longrightarrow>
      map_of (snd (atomic_consume_nonce mx t n (Some e) l)) n = Some e"
    by (cases rule: consume_cases [of n mx t "Some e" l]) simp_all
  show "ledger_ok mx l \<Longrightarrow> map_of l m = Some x \<Longrightarrow> t < x \<Longrightarrow>
      map_of (snd (atomic_consume_nonce mx t n (Some e) l)) m = Some x"
    by (cases rule: consume_cases [of n mx t "Some e" l])
       (auto simp: gc_ledger_lookup ledger_ok_def has_key_def)
  show "map_of l n \<noteq> None \<Longrightarrow> fst (atomic_consume_nonce mx t n (Some e) l) \<noteq> None"
    by (cases rule: consume_cases [of n mx t "Some e" l]) (auto simp: has_key_def)
qed

lemma consume_accepted:
  assumes "ledger_ok mx led" and "atomic_consume_nonce mx t n (Some e) led = (None, led')"
  shows "map_of led n = None" and "map_of led' n = Some e" and "ledger_ok mx led'"
  using bl.consume_refuses [of led n mx t e] bl.consume_records [OF assms(1), of t n e]
    bl.consume_inv [OF assms(1), of t n e] assms(2) by (cases "map_of led n", auto)

lemma consume_denied_site:
  assumes "atomic_consume_nonce mx t n e led = (Some d, led')"
  shows "snd d = BlankNonce \<or> snd d = NonceReplayed \<or> snd d = LedgerSaturated"
  using assms by (cases rule: consume_cases [of n mx t e led]) auto

section \<open>What a decision means\<close>

lemma grant_times_eq [simp]: "grant_times now = Inr (now, now + 30)"
  by (simp add: grant_times_def Let_def DEFAULT_GRANT_TTL_SECONDS_def MAX_GRANT_TTL_SECONDS_def)

lemma canonical_semantics_id [simp]: "canonical_semantics u = u"
  by (simp add: canonical_semantics_def)

lemma approval_check_Inr_iff:
  "approval_check av now r taint = Inr p \<longleftrightarrow>
     (if needs_approval r taint
      then \<exists>a vk. p = Some a \<and> cr_human_approval r = Some a \<and> av = Some vk \<and>
                  verify_approval vk a (Some (request_hash r)) now
      else p = None)"
  by (auto simp: approval_check_def split: option.splits)

lemma policy_checks_Inr_iff:
  "policy_checks b now r = Inr (m, p) \<longleftrightarrow>
     map_of (br_manifests b) (cr_task_id r) = Some m \<and>
     cr_requested_primitive r \<in> set (tm_allowed_primitives m) \<and>
     (\<exists>taint. effective_taint (br_provenance_verifier b) (cr_provenance r) = Inr taint \<and>
              approval_check (br_approval_verifier b) now r taint = Inr p)"
  by (auto simp: policy_checks_def split: option.splits sum.splits if_splits)

lemma evaluate_granted_iff:
  "evaluate_request env r uid b = (Inr g, b') \<longleftrightarrow>
     (\<exists>m p led led'. policy_checks b (ee_now env) r = Inr (m, p) \<and>
        consume_approval (br_max_ledger b) (ee_now_approval env) p (br_ledger b) = (None, led) \<and>
        atomic_consume_nonce (br_max_ledger b) (ee_now_grant env) (ee_grant_nonce env)
          (Some (ee_now env + 30)) led = (None, led') \<and>
        g = sign_grant (br_signing_key b) (build_grant env (ee_now env) (ee_now env + 30) r uid m) \<and>
        b' = b\<lparr>br_ledger := led'\<rparr>)"
  by (auto simp: evaluate_request_def split: sum.splits prod.splits option.splits)

lemma consume_approval_ok: "ledger_ok mx led \<Longrightarrow> ledger_ok mx (snd (consume_approval mx now p led))"
  by (cases p) (simp_all add: consume_approval_def consume_ledger_ok)

lemma consume_approval_keeps:
  "ledger_ok mx led \<Longrightarrow> map_of led n = Some e \<Longrightarrow> now < e \<Longrightarrow>
   map_of (snd (consume_approval mx now p led)) n = Some e"
  using bl.consume_keeps by (cases p) (simp_all add: consume_approval_def)

lemma consume_approval_absent:
  assumes "ledger_ok mx led" and "consume_approval mx now p led = (None, led')" and "map_of led' n = None"
  shows "case map_of led n of None \<Rightarrow> True | Some e \<Rightarrow> e \<le> now \<and> p \<noteq> None"
  using consume_approval_keeps [OF assms(1), of n _ now p] assms(2,3)
  by (cases p) (auto simp: consume_approval_def not_less [symmetric] split: option.split)

lemma evaluate_ledger_ok:
  "ledger_ok (br_max_ledger b) (br_ledger b) \<Longrightarrow> evaluate_request env r uid b = (res, b') \<Longrightarrow>
   ledger_ok (br_max_ledger b') (br_ledger b')"
  using consume_approval_ok [of "br_max_ledger b" "br_ledger b"] consume_ledger_ok [of "br_max_ledger b"]
  by (auto simp: evaluate_request_def split: sum.splits prod.splits option.splits)
     (metis snd_conv)+

lemma evaluate_only_ledger:
  "evaluate_request env r uid b = (res, b') \<Longrightarrow> b' = b\<lparr>br_ledger := br_ledger b'\<rparr>"
  by (auto simp: evaluate_request_def split: sum.splits prod.splits option.splits)

lemma evaluate_keeps_live:
  assumes "ledger_ok (br_max_ledger b) (br_ledger b)" and "evaluate_request env r uid b = (res, b')"
    and "map_of (br_ledger b) n = Some e" and "ee_now_approval env < e" and "ee_now_grant env < e"
  shows "map_of (br_ledger b') n = Some e"
proof -
  let ?c = "consume_approval (br_max_ledger b) (ee_now_approval env)"
  have ok: "ledger_ok (br_max_ledger b) (snd (?c p (br_ledger b)))" for p
    by (rule consume_approval_ok [OF assms(1)])
  have one: "map_of (snd (?c p (br_ledger b))) n = Some e" for p
    by (rule consume_approval_keeps [OF assms(1,3,4)])
  have two: "map_of (snd (atomic_consume_nonce (br_max_ledger b) (ee_now_grant env) m (Some x) (snd (?c p (br_ledger b))))) n
      = Some e" for m x p
    by (rule bl.consume_keeps [OF ok one assms(5)])
  show ?thesis
    using assms(2,3) one two
    by (auto simp: evaluate_request_def split: sum.splits prod.splits option.splits) (metis snd_conv)+
qed

lemmas granted_simps = evaluate_granted_iff policy_checks_Inr_iff approval_check_Inr_iff sign_grant_def build_grant_def

lemma verify_signed_grant:
  assumes "ed25519_ok sk vk"
  shows "verify_grant vk t (sign_grant sk g) u h \<longleftrightarrow>
    cg_issued_at g \<le> t \<and> t < cg_expires_at g \<and> cg_expires_at g - cg_issued_at g \<le> 60 \<and>
    cg_subject_uid g = u \<and> cg_exact_execution_hash g = h"
proof -
  have "vk (sk m) m" for m using assms by (simp add: ed25519_ok_def)
  then show ?thesis by (auto simp: verify_grant_def sign_grant_def MAX_GRANT_TTL_SECONDS_def)
qed

section \<open>Concrete instances\<close>

definition demo_sk :: signer where "demo_sk m = replicate 64 CHR ''s''"
definition demo_vk :: verifier where "demo_vk sg m \<longleftrightarrow> sg = replicate 64 CHR ''s''"

lemma demo_keys_ok: "ed25519_ok demo_sk demo_vk"
  by (simp add: ed25519_ok_def demo_sk_def demo_vk_def)

definition demo_manifest :: task_manifest where
  "demo_manifest = \<lparr>tm_manifest_id = ''t1'', tm_allowed_primitives = [''STORAGE_READ''],
     tm_allowed_resources = [''/data''], tm_signature = []\<rparr>"

definition demo_semantics :: exec_semantics where
  "demo_semantics = \<lparr>es_interpreter_path = [], es_interpreter_hash = [], es_script_path = [],
     es_script_hash = [], es_argv = [''/data/a''], es_cwd = ''/'', es_env_allowlist = [],
     es_sandbox_profile = ''BWRAP'', es_network_policy = ''deny_all''\<rparr>"

definition demo_request :: "string \<Rightarrow> string \<Rightarrow> approval_proof option \<Rightarrow> cap_request" where
  "demo_request taint sg a = \<lparr>cr_request_id = ''r1'', cr_task_id = ''t1'',
     cr_requested_primitive = ''STORAGE_READ'',
     cr_provenance = \<lparr>pc_caller_id = ''u'', pc_origin_source = ''cli'', pc_taint_tag = taint, pc_ingress_signature = sg\<rparr>,
     cr_untrusted_semantics = demo_semantics, cr_human_approval = a\<rparr>"

definition demo_broker :: "verifier option \<Rightarrow> broker" where
  "demo_broker av = \<lparr>br_signing_key = demo_sk, br_public_key = demo_vk,
     br_manifests = [(''t1'', demo_manifest)], br_allowed_uids = [1000], br_allowed_gids = [],
     br_provenance_verifier = None, br_approval_verifier = av, br_ledger = [], br_max_ledger = 10,
     br_running = True, br_socket_file = True\<rparr>"

definition demo_env :: "string \<Rightarrow> eval_env" where
  "demo_env n = \<lparr>ee_now = 100, ee_now_approval = 100, ee_now_grant = 100, ee_grant_nonce = n, ee_grant_id = ''g''\<rparr>"

definition demo_hash :: string where
  "demo_hash = compute_canonical_hash demo_semantics"

definition demo_approval :: approval_proof where
  "demo_approval = issue_approval demo_sk ''tok'' ''n0'' ''op'' demo_hash 60 100 None"

lemmas demo_simps = demo_manifest_def demo_request_def demo_broker_def demo_env_def

lemma demo_hash_eq [simp]: "request_hash (demo_request t s a) = demo_hash"
  by (simp add: request_hash_def demo_hash_def demo_request_def)

lemma demo_approval_verifies: "verify_approval demo_vk demo_approval (Some demo_hash) 100"
  unfolding demo_approval_def by (rule issue_approval_verifies [OF demo_keys_ok]) simp_all

lemma demo_approval_sel [simp]:
  "ha_token_nonce demo_approval = ''n0''" "ha_valid_until demo_approval = 160"
  by (simp_all add: demo_approval_def issue_approval_def Let_def MAX_APPROVAL_TTL_SECONDS_def)

lemma strip_demo [simp]: "strip ''n0'' = ''n0''" "strip ''g0'' = ''g0''" "strip ''g1'' = ''g1''" "strip ''n0 '' = ''n0''"
  by (simp_all add: strip_def lstrip_def rstrip_def py_space_def)

text \<open>A request tainted as untrusted, carrying an approval.\<close>

definition demo_untrusted :: cap_request where
  "demo_untrusted = demo_request ''EXTERNAL_UNTRUSTED'' [] (Some demo_approval)"

definition demo_grant :: cap_grant where
  "demo_grant = sign_grant demo_sk (build_grant (demo_env ''g0'') 100 130 demo_untrusted 1000 demo_manifest)"

lemma demo_policy:
  "policy_checks (demo_broker (Some demo_vk)) 100 demo_untrusted = Inr (demo_manifest, Some demo_approval)"
  using demo_approval_verifies
  by (simp add: policy_checks_def demo_broker_def demo_manifest_def demo_untrusted_def demo_request_def
      effective_taint_def approval_check_def needs_approval_def request_hash_def demo_hash_def)

lemma demo_granted:
  "evaluate_request (demo_env ''g0'') demo_untrusted 1000 (demo_broker (Some demo_vk)) =
   (Inr demo_grant, (demo_broker (Some demo_vk))\<lparr>br_ledger := [(''n0'', 160), (''g0'', 130)]\<rparr>)"
  using demo_policy
  by (simp add: evaluate_request_def consume_approval_def atomic_consume_nonce_def demo_env_def has_key_def
      gc_ledger_def demo_broker_def demo_grant_def)

section \<open>Properties of the pipeline\<close>

text \<open>C6: a grant is issued only for a registered manifest that permits the primitive, and it says
  exactly what was requested: caller, task, primitive, hash of the requested semantics, the
  manifest's resources, a lifetime of 30 seconds, and a nonce that is in the ledger afterwards
  with the grant's expiry. Before the request that nonce was in the ledger with no live entry:
  it was absent, or, where the request carries an approval, its entry had expired when the
  approval's nonce was consumed (that step drops expired entries).\<close>

theorem grant_says_what_was_requested:
  assumes "ledger_ok (br_max_ledger b) (br_ledger b)"
    and "evaluate_request env r uid b = (Inr g, b')"
  shows "\<exists>m. map_of (br_manifests b) (cr_task_id r) = Some m \<and>
    cr_requested_primitive r \<in> set (tm_allowed_primitives m) \<and>
    cg_resource_binding g = tm_allowed_resources m \<and> cg_task_id g = cr_task_id r \<and>
    cg_subject_uid g = uid \<and> cg_target_primitive g = cr_requested_primitive r \<and>
    cg_attenuated_capabilities g = [cr_requested_primitive r] \<and>
    cg_exact_execution_hash g = compute_canonical_hash (cr_untrusted_semantics r) \<and>
    cg_issued_at g = ee_now env \<and> cg_expires_at g = ee_now env + 30 \<and>
    map_of (br_ledger b') (cg_single_use_nonce g) = Some (cg_expires_at g) \<and>
    (case map_of (br_ledger b) (cg_single_use_nonce g) of
       None \<Rightarrow> True
     | Some e \<Rightarrow> e \<le> ee_now_approval env \<and> cr_human_approval r \<noteq> None)"
proof -
  obtain m p led led' where d:
      "policy_checks b (ee_now env) r = Inr (m, p)"
      "consume_approval (br_max_ledger b) (ee_now_approval env) p (br_ledger b) = (None, led)"
      "atomic_consume_nonce (br_max_ledger b) (ee_now_grant env) (ee_grant_nonce env)
         (Some (ee_now env + 30)) led = (None, led')"
      "g = sign_grant (br_signing_key b) (build_grant env (ee_now env) (ee_now env + 30) r uid m)"
      "b' = b\<lparr>br_ledger := led'\<rparr>"
    using assms(2) by (auto simp: evaluate_granted_iff)
  have "ledger_ok (br_max_ledger b) led"
    using consume_approval_ok [OF assms(1), of "ee_now_approval env" p] d(2) by simp
  note acc = consume_accepted(1,2) [OF this d(3)]
  have "p = None \<or> p = cr_human_approval r"
    using d(1) by (auto simp: policy_checks_Inr_iff approval_check_Inr_iff split: if_splits)
  with consume_approval_absent [OF assms(1) d(2) acc(1)]
  have "case map_of (br_ledger b) (ee_grant_nonce env) of None \<Rightarrow> True
      | Some e \<Rightarrow> e \<le> ee_now_approval env \<and> cr_human_approval r \<noteq> None"
    by (auto split: option.splits)
  with d(1,4,5) acc(2) show ?thesis
    by (auto simp: policy_checks_Inr_iff sign_grant_def build_grant_def request_hash_def)
qed

theorem grant_says_what_was_requested_witness:
  "ledger_ok 10 (br_ledger (demo_broker (Some demo_vk))) \<and> cg_expires_at demo_grant = 130"
proof -
  have ok: "ledger_ok (br_max_ledger (demo_broker (Some demo_vk))) (br_ledger (demo_broker (Some demo_vk)))"
    by (simp add: ledger_ok_def demo_broker_def)
  from grant_says_what_was_requested [OF ok demo_granted] ok show ?thesis
    by (auto simp: demo_env_def demo_broker_def)
qed

text \<open>C5: human approval is compulsory for the high-risk primitives, for input marked as untrusted,
  and for input that claims to be human-confirmed or internal without an ingress signature: a
  grant for such a request carries a proof that the configured verifier accepts for exactly the
  requested semantics, whose nonce was not in the ledger, and whose nonce is in the ledger
  afterwards with the proof's expiry, unless the proof has expired by the clock reading with
  which the grant's own nonce is consumed.\<close>

theorem approval_is_compulsory:
  assumes "ledger_ok (br_max_ledger b) (br_ledger b)"
    and "evaluate_request env r uid b = (Inr g, b')"
    and "cr_requested_primitive r \<in> set HIGH_RISK_PRIMITIVES \<or>
         pc_taint_tag (cr_provenance r) = ''EXTERNAL_UNTRUSTED'' \<or>
         pc_taint_tag (cr_provenance r) \<in> {''HUMAN_CONFIRMED'', ''SYSTEM_INTERNAL''} \<and>
           pc_ingress_signature (cr_provenance r) = []"
  shows "\<exists>a vk. cr_human_approval r = Some a \<and> br_approval_verifier b = Some vk \<and>
    verify_approval vk a (Some (cg_exact_execution_hash g)) (ee_now env) \<and>
    map_of (br_ledger b) (ha_token_nonce a) = None \<and>
    (map_of (br_ledger b') (ha_token_nonce a) = Some (ha_valid_until a) \<or>
     ha_valid_until a \<le> ee_now_grant env)"
proof -
  let ?mx = "br_max_ledger b"
  obtain m p led led' taint where d:
      "effective_taint (br_provenance_verifier b) (cr_provenance r) = Inr taint"
      "approval_check (br_approval_verifier b) (ee_now env) r taint = Inr p"
      "consume_approval ?mx (ee_now_approval env) p (br_ledger b) = (None, led)"
      "atomic_consume_nonce ?mx (ee_now_grant env) (ee_grant_nonce env) (Some (ee_now env + 30)) led = (None, led')"
      "cg_exact_execution_hash g = request_hash r" "br_ledger b' = led'"
    using assms(2) by (auto simp: evaluate_granted_iff policy_checks_Inr_iff sign_grant_def build_grant_def)
  have "needs_approval r taint"
    using assms(3) d(1) by (auto simp: needs_approval_def effective_taint_def Let_def split: option.splits if_splits)
  with d(2) obtain a vk where a: "p = Some a" "cr_human_approval r = Some a" "br_approval_verifier b = Some vk"
      "verify_approval vk a (Some (request_hash r)) (ee_now env)"
    by (auto simp: approval_check_Inr_iff)
  from d(3) a(1) have c: "atomic_consume_nonce ?mx (ee_now_approval env) (ha_token_nonce a) (Some (ha_valid_until a)) (br_ledger b)
      = (None, led)" by (simp add: consume_approval_def)
  note acc = consume_accepted [OF assms(1) c]
  have "map_of led' (ha_token_nonce a) = Some (ha_valid_until a) \<or> ha_valid_until a \<le> ee_now_grant env"
    using bl.consume_keeps [OF acc(3,2), of "ee_now_grant env" "ee_grant_nonce env"] d(4)
    by (metis not_le snd_conv)
  with a d acc(1) show ?thesis by auto
qed

theorem approval_is_compulsory_witness:
  "map_of [(''n0'', 160 :: time), (''g0'', 130)] ''n0'' = Some (ha_valid_until demo_approval)"
proof -
  have ok: "ledger_ok (br_max_ledger (demo_broker (Some demo_vk))) (br_ledger (demo_broker (Some demo_vk)))"
    by (simp add: ledger_ok_def demo_broker_def)
  from approval_is_compulsory [OF ok demo_granted] show ?thesis
    by (simp add: demo_untrusted_def demo_request_def demo_env_def demo_broker_def)
qed

text \<open>A grant the broker issues is accepted by \<open>verify_grant\<close> at every moment of its lifetime,
  for the caller and the semantics it was issued for, and for no other caller, hash or moment.\<close>

theorem issued_grant_verifies_exactly:
  assumes "ed25519_ok (br_signing_key b) (br_public_key b)"
    and "evaluate_request env r uid b = (Inr g, b')"
  shows "verify_grant (br_public_key b) t g u h \<longleftrightarrow>
    ee_now env \<le> t \<and> t < ee_now env + 30 \<and> u = uid \<and> h = compute_canonical_hash (cr_untrusted_semantics r)"
  using assms(2) verify_signed_grant [OF assms(1)]
  by (auto simp: evaluate_granted_iff build_grant_def request_hash_def)

theorem issued_grant_verifies_exactly_witness:
  "verify_grant demo_vk 129 demo_grant 1000 demo_hash \<and> \<not> verify_grant demo_vk 130 demo_grant 1000 demo_hash"
proof -
  have k: "ed25519_ok (br_signing_key (demo_broker (Some demo_vk))) (br_public_key (demo_broker (Some demo_vk)))"
    using demo_keys_ok by (simp add: demo_broker_def)
  from issued_grant_verifies_exactly [OF k demo_granted] show ?thesis
    by (simp add: demo_broker_def demo_env_def demo_untrusted_def demo_request_def demo_hash_def)
qed

text \<open>C7: no forged grant. When a signature verifies only for payloads the broker signed, a grant that
  \<open>verify_grant\<close> accepts agrees with an issued one in every signed field, and was issued for this
  caller and this hash.\<close>

theorem no_forged_grant:
  assumes unforgeable: "\<And>sg m. vk sg m \<Longrightarrow> m \<in> compute_signature_payload ` issued"
    and "verify_grant vk now g uid h"
  shows "\<exists>g0 \<in> issued. same_signed_fields g g0 \<and> cg_subject_uid g0 = uid \<and>
    cg_exact_execution_hash g0 = h \<and> cg_issued_at g \<le> now \<and> now < cg_expires_at g \<and>
    cg_expires_at g \<le> cg_issued_at g + 60"
proof -
  obtain sg where "vk sg (compute_signature_payload g)" and b: "cg_subject_uid g = uid"
      "cg_exact_execution_hash g = h" "cg_issued_at g \<le> now" "now < cg_expires_at g"
      "cg_expires_at g \<le> cg_issued_at g + 60"
    using assms(2) by (auto simp: verify_grant_def MAX_GRANT_TTL_SECONDS_def split: if_splits option.splits)
  from unforgeable [OF this(1)] obtain g0 where g0: "g0 \<in> issued" "same_signed_fields g g0"
    by (auto simp: payload_eq_iff)
  with b show ?thesis by (auto simp: same_signed_fields_def)
qed

theorem no_forged_grant_witness:
  "\<exists>g0 \<in> {demo_grant}. same_signed_fields demo_grant g0"
proof -
  let ?vk = "\<lambda>sg m. demo_vk sg m \<and> m = compute_signature_payload demo_grant"
  have "verify_grant ?vk 110 demo_grant 1000 demo_hash"
    by (simp add: verify_grant_def demo_grant_def sign_grant_def build_grant_def demo_sk_def demo_vk_def
        MAX_GRANT_TTL_SECONDS_def demo_untrusted_def)
  with no_forged_grant [of ?vk "{demo_grant}"] show ?thesis by auto
qed

text \<open>What a denial changes. Everything but the ledger is untouched; a nonce still live at both
  clock readings keeps its entry; the ledger keeps its bound; and a denial decided by the policy
  (every site but the ledger's three) changes nothing at all.\<close>

theorem denial_keeps_protection:
  assumes "ledger_ok (br_max_ledger b) (br_ledger b)"
    and "evaluate_request env r uid b = (Inl d, b')"
  shows "b' = b\<lparr>br_ledger := br_ledger b'\<rparr> \<and> int (length (br_ledger b')) \<le> br_max_ledger b \<and>
    (\<forall>n e. map_of (br_ledger b) n = Some e \<and> ee_now_approval env < e \<and> ee_now_grant env < e \<longrightarrow>
       map_of (br_ledger b') n = Some e) \<and>
    (snd d \<notin> {BlankNonce, NonceReplayed, LedgerSaturated} \<longrightarrow> b' = b)"
proof (intro conjI)
  show u: "b' = b\<lparr>br_ledger := br_ledger b'\<rparr>" by (rule evaluate_only_ledger [OF assms(2)])
  have "br_max_ledger b' = br_max_ledger b" by (subst u) simp
  with evaluate_ledger_ok [OF assms] show "int (length (br_ledger b')) \<le> br_max_ledger b"
    by (simp add: ledger_ok_def)
  show "\<forall>n e. map_of (br_ledger b) n = Some e \<and> ee_now_approval env < e \<and> ee_now_grant env < e \<longrightarrow>
       map_of (br_ledger b') n = Some e"
    using evaluate_keeps_live [OF assms] by blast
  show "snd d \<notin> {BlankNonce, NonceReplayed, LedgerSaturated} \<longrightarrow> b' = b"
    using assms(2)
    by (auto simp: evaluate_request_def consume_approval_def
        split: sum.splits prod.splits option.splits dest: consume_denied_site)
qed

theorem denial_keeps_protection_witness:
  "evaluate_request (demo_env ''g0'') demo_untrusted 1000 (demo_broker None) =
     (Inl (DENY_UNAUTHORIZED_GRANT, ApprovalVerifierMissing), demo_broker None) \<and>
   int (length (br_ledger (demo_broker None))) \<le> 10"
proof -
  have e: "evaluate_request (demo_env ''g0'') demo_untrusted 1000 (demo_broker None) =
     (Inl (DENY_UNAUTHORIZED_GRANT, ApprovalVerifierMissing), demo_broker None)"
    by (simp add: evaluate_request_def policy_checks_def demo_broker_def demo_manifest_def demo_untrusted_def
        demo_request_def effective_taint_def approval_check_def needs_approval_def)
  have ok: "ledger_ok (br_max_ledger (demo_broker None)) (br_ledger (demo_broker None))"
    by (simp add: ledger_ok_def demo_broker_def)
  from denial_keeps_protection [OF ok e] e show ?thesis by (simp add: demo_broker_def)
qed

section \<open>Limits of the protection\<close>

lemma consume_room:
  assumes "strip n \<noteq> []" and "\<not> has_key led n" and "int (length led) < mx"
  shows "\<exists>led'. atomic_consume_nonce mx t n (Some e) led = (None, led') \<and> length led' \<le> Suc (length led) \<and>
    (\<forall>k. has_key led' k \<longrightarrow> k = n \<or> has_key led k)"
proof -
  have r: "int (length (gc_ledger t led)) < mx"
    using gc_ledger_length [of t led] assms(3) by linarith
  have l: "length (AList.update n e (gc_ledger t led)) \<le> Suc (length led)"
    using gc_ledger_length [of t led] length_update_le [of n e "gc_ledger t led"] by linarith
  have "has_key (gc_ledger t led) k \<longrightarrow> has_key led k" for k
    using gc_ledger_subset [of t led] by (auto simp: has_key_iff)
  with l show ?thesis
    by (cases rule: consume_cases [of n mx t "Some e" led]) (use assms r in simp_all)
qed

lemma evaluate_policy_room:
  assumes "policy_checks b (ee_now env) r = Inr (m, p)"
    and "consume_approval (br_max_ledger b) (ee_now_approval env) p (br_ledger b) = (None, led)"
    and "strip (ee_grant_nonce env) \<noteq> []" and "\<not> has_key led (ee_grant_nonce env)"
    and "int (length led) < br_max_ledger b"
  shows "\<exists>g b'. evaluate_request env r uid b = (Inr g, b')"
  using assms consume_room [OF assms(3-5), of "ee_now_grant env" "ee_now env + 30"]
  by (auto simp: evaluate_granted_iff)

text \<open>A human approval is single-use only up to blanks. The signed digest strips the nonce, the
  ledger keys the nonce as it is written, so after a grant the same approval with a blank
  appended to its nonce is granted again, at the same moment, if the ledger has room.\<close>

theorem approval_replays_with_padded_nonce:
  assumes "evaluate_request env r uid b = (Inr g, b')"
    and "cr_human_approval r = Some a" and "py_space c"
    and "\<not> has_key (br_ledger b') (ha_token_nonce a @ [c])" and "ha_token_nonce a @ [c] \<noteq> n"
    and "strip n \<noteq> []" and "\<not> has_key (br_ledger b') n"
    and "int (length (br_ledger b')) + 1 < br_max_ledger b"
  shows "\<exists>g' b''. evaluate_request (env\<lparr>ee_grant_nonce := n\<rparr>)
    (r\<lparr>cr_human_approval := Some (a\<lparr>ha_token_nonce := ha_token_nonce a @ [c]\<rparr>)\<rparr>) uid b' = (Inr g', b'')"
proof -
  let ?a = "a\<lparr>ha_token_nonce := ha_token_nonce a @ [c]\<rparr>"
  let ?r = "r\<lparr>cr_human_approval := Some ?a\<rparr>" and ?env = "env\<lparr>ee_grant_nonce := n\<rparr>"
  obtain m p led led' where d: "policy_checks b (ee_now env) r = Inr (m, p)"
      "consume_approval (br_max_ledger b) (ee_now_approval env) p (br_ledger b) = (None, led)" "b' = b\<lparr>br_ledger := led'\<rparr>"
    using assms(1) by (auto simp: evaluate_granted_iff)
  have h: "request_hash ?r = request_hash r" and na: "needs_approval ?r t = needs_approval r t" for t
    by (simp_all add: request_hash_def needs_approval_def)
  from d(1) assms(2) have pol: "policy_checks b' (ee_now ?env) ?r = Inr (m, if p = None then None else Some ?a)"
    by (auto simp: policy_checks_Inr_iff approval_check_Inr_iff h na d(3) verify_approval_padded_nonce [OF assms(3)]
        split: if_splits)
  have mx: "br_max_ledger b' = br_max_ledger b" using d(3) by simp
  show ?thesis
  proof (cases p)
    case None
    show ?thesis
      using None assms(6-8) mx
      by (intro evaluate_policy_room [OF pol, of "br_ledger b'"]) (simp_all add: consume_approval_def)
  next
    case (Some a')
    then have "a' = a" using d(1) assms(2) by (auto simp: policy_checks_Inr_iff approval_check_Inr_iff split: if_splits)
    then have "strip (ha_token_nonce a) \<noteq> []"
      using d(2) Some
      by (cases rule: consume_cases [of "ha_token_nonce a" "br_max_ledger b" "ee_now_approval env"
            "Some (ha_valid_until a)" "br_ledger b"]) (simp_all add: consume_approval_def)
    then have "strip (ha_token_nonce ?a) \<noteq> []" by (simp add: strip_snoc_space [OF assms(3)])
    from consume_room [OF this, of "br_ledger b'" "br_max_ledger b'" "ee_now_approval env" "ha_valid_until a"]
    obtain l2 where l2: "consume_approval (br_max_ledger b') (ee_now_approval env) (Some ?a) (br_ledger b') = (None, l2)"
        "length l2 \<le> Suc (length (br_ledger b'))" "\<forall>k. has_key l2 k \<longrightarrow> k = ha_token_nonce ?a \<or> has_key (br_ledger b') k"
      using assms(4,8) mx by (auto simp: consume_approval_def)
    show ?thesis
      using Some l2 assms(5-8) mx
      by (intro evaluate_policy_room [OF pol, of l2]) auto
  qed
qed

theorem approval_replays_with_padded_nonce_witness:
  "\<exists>g' b''. evaluate_request (demo_env ''g1'')
     (demo_untrusted\<lparr>cr_human_approval := Some (demo_approval\<lparr>ha_token_nonce := ''n0 ''\<rparr>)\<rparr>) 1000
     ((demo_broker (Some demo_vk))\<lparr>br_ledger := [(''n0'', 160), (''g0'', 130)]\<rparr>) = (Inr g', b'')"
  using approval_replays_with_padded_nonce [OF demo_granted, of demo_approval "CHR '' ''" "''g1''"]
  by (simp add: demo_untrusted_def demo_request_def py_space_def has_key_def demo_broker_def demo_env_def)

text \<open>A taint tag outside the three known ones is never demoted: without any ingress signature and
  whatever verifiers are configured, a request for a primitive that is not high-risk is granted
  with no human approval.\<close>

theorem unknown_taint_needs_no_approval:
  assumes "map_of (br_manifests b) (cr_task_id r) = Some m"
    and "cr_requested_primitive r \<in> set (tm_allowed_primitives m)"
    and "cr_requested_primitive r \<notin> set HIGH_RISK_PRIMITIVES"
    and "pc_taint_tag (cr_provenance r) \<notin> {''EXTERNAL_UNTRUSTED'', ''HUMAN_CONFIRMED'', ''SYSTEM_INTERNAL''}"
    and "pc_ingress_signature (cr_provenance r) = []"
    and "strip (ee_grant_nonce env) \<noteq> []" and "\<not> has_key (br_ledger b) (ee_grant_nonce env)"
    and "int (length (br_ledger b)) < br_max_ledger b"
  shows "\<exists>g b'. evaluate_request env r uid b = (Inr g, b')"
proof -
  have "policy_checks b (ee_now env) r = Inr (m, None)"
    using assms(1-5)
    by (cases "br_provenance_verifier b")
       (simp_all add: policy_checks_def effective_taint_def approval_check_def needs_approval_def)
  from evaluate_policy_room [OF this, of "br_ledger b"] assms(6-8) show ?thesis
    by (simp add: consume_approval_def)
qed

theorem unknown_taint_needs_no_approval_witness:
  "\<exists>g b'. evaluate_request (demo_env ''g0'') (demo_request ''external_untrusted'' [] None) 1000
     (demo_broker (Some demo_vk)) = (Inr g, b')"
  by (rule unknown_taint_needs_no_approval [of _ _ demo_manifest])
     (simp_all add: demo_simps has_key_def HIGH_RISK_PRIMITIVES_def)

end
