(* ===== verification/BrokerThreads.thy ===== *)
theory BrokerThreads
  imports Broker
begin

text \<open>
  The broker under concurrency. \<open>_serve_loop\<close> starts one thread per connection
  (\<open>broker.py\<close>), and the threads share the manifest store and the nonce ledger, each access
  being atomic under \<open>self._lock\<close>. A handler is cut at those accesses: \<open>thread_step\<close> runs it from
  one to the next, and \<open>broker_step\<close> interleaves any number of handlers with the passing of time
  and with \<open>register_manifest\<close>. A handler reads the clock before it takes the lock, so the reading
  it acts on may be older than the moment it acts: it is any time up to the current one.

  The log is not state of the code: it records each nonce accepted, the expiry it was recorded
  with and the time of acceptance, and the invariant is stated over it.
\<close>

section \<open>Handlers in steps\<close>

datatype phase =
    Arrived cap_request int
  | Checked cap_request int time task_manifest "approval_proof option"
  | Approved cap_request int time task_manifest
  | Done "denial + cap_grant"

fun thread_step :: "eval_env \<Rightarrow> phase \<Rightarrow> broker \<Rightarrow> phase \<times> broker" where
  "thread_step env (Arrived r uid) b =
     (case policy_checks b (ee_now env) r of
        Inl d \<Rightarrow> (Done (Inl d), b)
      | Inr (m, p) \<Rightarrow> (Checked r uid (ee_now env) m p, b))"
| "thread_step env (Checked r uid now m p) b =
     (case consume_approval (br_max_ledger b) (ee_now_approval env) p (br_ledger b) of
        (Some d, led) \<Rightarrow> (Done (Inl d), b\<lparr>br_ledger := led\<rparr>)
      | (None, led) \<Rightarrow> (Approved r uid now m, b\<lparr>br_ledger := led\<rparr>))"
| "thread_step env (Approved r uid now m) b =
     (case grant_times now of
        Inl d \<Rightarrow> (Done (Inl d), b)
      | Inr (issued, expires) \<Rightarrow>
         (case atomic_consume_nonce (br_max_ledger b) (ee_now_grant env) (ee_grant_nonce env) (Some expires) (br_ledger b) of
            (Some d, led) \<Rightarrow> (Done (Inl d), b\<lparr>br_ledger := led\<rparr>)
          | (None, led) \<Rightarrow>
              (Done (Inr (sign_grant (br_signing_key b) (build_grant env issued expires r uid m))),
               b\<lparr>br_ledger := led\<rparr>)))"
| "thread_step env (Done res) b = (Done res, b)"

text \<open>The nonce a step gets accepted, with its expiry.\<close>

fun accepted :: "phase \<Rightarrow> phase \<Rightarrow> (string \<times> time) list" where
  "accepted (Checked r uid now m (Some a)) (Approved _ _ _ _) = [(ha_token_nonce a, ha_valid_until a)]"
| "accepted (Approved r uid now m) (Done (Inr g)) = [(cg_single_use_nonce g, cg_expires_at g)]"
| "accepted _ _ = []"

record sys =
  sy_broker :: broker
  sy_clock :: time
  sy_threads :: "phase list"
  sy_log :: "(string \<times> time \<times> time) list"

inductive broker_step :: "sys \<Rightarrow> sys \<Rightarrow> bool" where
  tick: "sy_clock s \<le> c \<Longrightarrow> broker_step s (s\<lparr>sy_clock := c\<rparr>)"
| register: "broker_step s (s\<lparr>sy_broker := register_manifest m (sy_broker s)\<rparr>)"
| arrive: "broker_step s (s\<lparr>sy_threads := sy_threads s @ [Arrived r uid]\<rparr>)"
| run: "\<lbrakk>i < length (sy_threads s); ee_now env \<le> sy_clock s; ee_now_approval env \<le> sy_clock s;
         ee_now_grant env \<le> sy_clock s;
         thread_step env (sy_threads s ! i) (sy_broker s) = (ph, b)\<rbrakk> \<Longrightarrow>
     broker_step s (s\<lparr>sy_broker := b, sy_threads := (sy_threads s)[i := ph],
       sy_log := map (\<lambda>(n, e). (n, e, sy_clock s)) (accepted (sy_threads s ! i) ph) @ sy_log s\<rparr>)"

inductive_cases broker_stepE: "broker_step s s'"

inductive broker_reach :: "broker \<Rightarrow> time \<Rightarrow> sys \<Rightarrow> bool" for b0 :: broker and c0 :: time where
  init: "broker_reach b0 c0 \<lparr>sy_broker = b0, sy_clock = c0, sy_threads = [], sy_log = []\<rparr>"
| step: "broker_reach b0 c0 s \<Longrightarrow> broker_step s s' \<Longrightarrow> broker_reach b0 c0 s'"

section \<open>Each step against the ledger contract\<close>

lemma thread_step_ledger:
  assumes "thread_step env ph b = (ph', b')" and "ledger_ok (br_max_ledger b) (br_ledger b)"
  shows "ledger_ok (br_max_ledger b') (br_ledger b')" and "br_max_ledger b' = br_max_ledger b"
proof -
  have a: "ledger_ok (br_max_ledger b) led"
    if "consume_approval (br_max_ledger b) t p (br_ledger b) = (x, led)" for t p x led
    using consume_approval_ok [OF assms(2), of t p] that by simp
  have g: "ledger_ok (br_max_ledger b) led"
    if "atomic_consume_nonce (br_max_ledger b) t n e (br_ledger b) = (x, led)" for t n e x led
    using consume_ledger_ok [OF assms(2), of t n e] that by simp
  show "ledger_ok (br_max_ledger b') (br_ledger b')"
    using assms a g by (cases ph) (auto split: sum.splits prod.splits option.splits)
  show "br_max_ledger b' = br_max_ledger b"
    using assms by (cases ph) (auto split: sum.splits prod.splits option.splits)
qed

lemma thread_step_keeps:
  assumes "thread_step env ph b = (ph', b')" and "ledger_ok (br_max_ledger b) (br_ledger b)"
    and "map_of (br_ledger b) n = Some e" and "ee_now_approval env < e" and "ee_now_grant env < e"
  shows "map_of (br_ledger b') n = Some e"
proof -
  have a: "map_of led n = Some e"
    if "consume_approval (br_max_ledger b) (ee_now_approval env) p (br_ledger b) = (x, led)" for p x led
    using consume_approval_keeps [OF assms(2,3,4), of p] that by simp
  have g: "map_of led n = Some e"
    if "atomic_consume_nonce (br_max_ledger b) (ee_now_grant env) m (Some y) (br_ledger b) = (x, led)" for m y x led
    using bl.consume_keeps [OF assms(2,3,5), of m y] that by simp
  show ?thesis
    using assms(1,3) a g by (cases ph) (auto split: sum.splits prod.splits option.splits)
qed

lemma thread_step_accepts:
  assumes "thread_step env ph b = (ph', b')" and "ledger_ok (br_max_ledger b) (br_ledger b)"
    and "(n, e) \<in> set (accepted ph ph')"
  shows "map_of (br_ledger b) n = None \<and> map_of (br_ledger b') n = Some e"
proof -
  let ?acn = "\<lambda>t n e. atomic_consume_nonce (br_max_ledger b) t n (Some e) (br_ledger b)"
  have ok: "map_of (br_ledger b) m = None \<and> map_of led m = Some x" if "?acn t m x = (None, led)" for t m x led
  proof
    show "map_of (br_ledger b) m = None"
      using bl.consume_refuses [of "br_ledger b" m "br_max_ledger b" t x] that by fastforce
    show "map_of led m = Some x"
      using bl.consume_records [OF assms(2), of t m x] that by simp
  qed
  show ?thesis
  proof (cases "(ph, ph')" rule: accepted.cases)
    case (1 r uid now m a)
    then show ?thesis
      using assms(1,3) ok by (auto simp: consume_approval_def split: prod.splits option.splits)
  next
    case (2 r uid now m g)
    then show ?thesis
      using assms(1,3) ok
      by (auto simp: sign_grant_def build_grant_def split: prod.splits option.splits)
  qed (use assms(3) in simp_all)
qed

section \<open>The invariant\<close>

definition log_live :: "sys \<Rightarrow> bool" where
  "log_live s \<longleftrightarrow> (\<forall>(n, e, c) \<in> set (sy_log s). map_of (br_ledger (sy_broker s)) n = Some e \<or> e \<le> sy_clock s)"

text \<open>Newest first: a nonce is accepted again only once its earlier acceptance has expired.\<close>

definition log_single_use :: "(string \<times> time \<times> time) list \<Rightarrow> bool" where
  "log_single_use = sorted_wrt (\<lambda>(n', e', c') (n, e, c). n = n' \<longrightarrow> e \<le> c')"

definition sys_inv :: "int \<Rightarrow> sys \<Rightarrow> bool" where
  "sys_inv mx s \<longleftrightarrow> br_max_ledger (sy_broker s) = mx \<and> ledger_ok mx (br_ledger (sy_broker s)) \<and>
     log_live s \<and> log_single_use (sy_log s)"

lemma accepted_at_most_one: "accepted ph ph' = [] \<or> (\<exists>n e. accepted ph ph' = [(n, e)])"
  by (cases "(ph, ph')" rule: accepted.cases) simp_all

lemma sys_inv_step: "broker_step s s' \<Longrightarrow> sys_inv mx s \<Longrightarrow> sys_inv mx s'"
proof (induction rule: broker_step.induct)
  case (tick s c)
  then show ?case by (fastforce simp: sys_inv_def log_live_def)
next
  case (register s m)
  then show ?case by (simp add: sys_inv_def log_live_def register_manifest_def)
next
  case (arrive s r uid)
  then show ?case by (simp add: sys_inv_def log_live_def)
next
  case (run i s env ph b)
  let ?ph = "sy_threads s ! i" and ?led = "br_ledger (sy_broker s)"
  have inv: "ledger_ok (br_max_ledger (sy_broker s)) ?led" "log_live s" "log_single_use (sy_log s)"
    and mx: "br_max_ledger (sy_broker s) = mx"
    using run.prems by (simp_all add: sys_inv_def)
  have old: "map_of (br_ledger b) n = Some e \<or> e \<le> sy_clock s" if "(n, e, c) \<in> set (sy_log s)" for n e c
  proof (cases "e \<le> sy_clock s")
    case False
    with that inv(2) have "map_of ?led n = Some e" by (auto simp: log_live_def)
    with thread_step_keeps [OF run(5) inv(1)] run(2-4) False show ?thesis by auto
  qed simp
  have new: "map_of ?led n = None \<and> map_of (br_ledger b) n = Some e" if "(n, e) \<in> set (accepted ?ph ph)" for n e
    by (rule thread_step_accepts [OF run(5) inv(1) that])
  have single: "log_single_use (map (\<lambda>(n, e). (n, e, sy_clock s)) (accepted ?ph ph) @ sy_log s)"
    using accepted_at_most_one [of ?ph ph] new inv(2,3)
    by (fastforce simp: log_single_use_def log_live_def)
  show ?case
    using thread_step_ledger [OF run(5) inv(1)] mx old new single
    by (auto simp: sys_inv_def log_live_def)
qed

lemma sys_inv_reach:
  "broker_reach b0 c0 s \<Longrightarrow> ledger_ok (br_max_ledger b0) (br_ledger b0) \<Longrightarrow> sys_inv (br_max_ledger b0) s"
  by (induction rule: broker_reach.induct)
     (simp add: sys_inv_def log_live_def log_single_use_def, simp add: sys_inv_step)


section \<open>Properties\<close>

text \<open>C4: no replay under concurrency. From a fresh broker, however the handlers, the clock and the
  registrations are interleaved, a nonce (of an approval or of a grant) is accepted a second time
  only at a moment when its first acceptance has expired, and a nonce accepted and not yet
  expired is in the ledger.\<close>

theorem nonces_are_single_use:
  assumes "broker_reach (broker_init kp pk ug gg secret st us gs mx pr ap) c0 s"
  shows "(\<forall>i j. i < j \<and> j < length (sy_log s) \<and> fst (sy_log s ! i) = fst (sy_log s ! j) \<longrightarrow>
            fst (snd (sy_log s ! j)) \<le> snd (snd (sy_log s ! i))) \<and>
    (\<forall>(n, e, c) \<in> set (sy_log s). sy_clock s < e \<longrightarrow> map_of (br_ledger (sy_broker s)) n = Some e)"
proof -
  have "ledger_ok (br_max_ledger (broker_init kp pk ug gg secret st us gs mx pr ap))
      (br_ledger (broker_init kp pk ug gg secret st us gs mx pr ap))"
    by (simp add: broker_init_def ledger_ok_def)
  from sys_inv_reach [OF assms this] have "log_live s" "log_single_use (sy_log s)"
    by (simp_all add: sys_inv_def)
  then show ?thesis
    by (fastforce simp: log_live_def log_single_use_def sorted_wrt_iff_nth_less case_prod_beta)
qed

text \<open>Bounded memory under concurrency: in every reachable state the ledger has distinct,
  non-blank nonces and at most as many entries as configured (at least one).\<close>

theorem ledger_is_bounded:
  assumes "broker_reach (broker_init kp pk ug gg secret st us gs mx pr ap) c0 s"
  shows "int (length (br_ledger (sy_broker s))) \<le> max 1 mx \<and> distinct (map fst (br_ledger (sy_broker s))) \<and>
    (\<forall>n \<in> fst ` set (br_ledger (sy_broker s)). strip n \<noteq> [])"
proof -
  have "ledger_ok (br_max_ledger (broker_init kp pk ug gg secret st us gs mx pr ap))
      (br_ledger (broker_init kp pk ug gg secret st us gs mx pr ap))"
    by (simp add: broker_init_def ledger_ok_def)
  from sys_inv_reach [OF assms this] show ?thesis
    by (simp add: sys_inv_def ledger_ok_def wf_dict_def broker_init_def)
qed

section \<open>A concrete run\<close>

definition demo_init :: broker where
  "demo_init = broker_init (\<lambda>_. (demo_sk, demo_vk)) (\<lambda>_. demo_vk) 0 0 [] (Some [(''t1'', demo_manifest)])
     None None 10 None None"

definition demo_internal :: cap_request where
  "demo_internal = demo_request ''SYSTEM_INTERNAL'' ''sig'' None"

text \<open>One handler, to its end: the nonce of its grant is in the log and in the ledger.\<close>

lemma demo_run: "\<exists>s. broker_reach demo_init 100 s \<and> sy_log s = [(''g0'', 130, 100)]"
proof -
  let ?e = "demo_env ''g0''"
  define s0 where "s0 = \<lparr>sy_broker = demo_init, sy_clock = 100, sy_threads = [], sy_log = []\<rparr>"
  define s1 where "s1 = s0\<lparr>sy_threads := [Arrived demo_internal 0]\<rparr>"
  define s2 where "s2 = s0\<lparr>sy_threads := [Checked demo_internal 0 100 demo_manifest None]\<rparr>"
  define s3 where "s3 = s0\<lparr>sy_threads := [Approved demo_internal 0 100 demo_manifest]\<rparr>"
  have r0: "broker_reach demo_init 100 s0" unfolding s0_def by (rule broker_reach.init)
  have "broker_step s0 s1" using broker_step.arrive [of s0 demo_internal 0] by (simp add: s1_def s0_def)
  with r0 have r1: "broker_reach demo_init 100 s1" by (rule broker_reach.step)
  have "policy_checks demo_init 100 demo_internal = Inr (demo_manifest, None)"
    by (simp add: policy_checks_def demo_init_def broker_init_def demo_internal_def demo_request_def
        demo_manifest_def effective_taint_def opt_verifier_def approval_check_def needs_approval_def HIGH_RISK_PRIMITIVES_def)
  then have "broker_step s1 s2"
    using broker_step.run [of 0 s1 ?e] by (simp add: s1_def s2_def s0_def demo_env_def)
  with r1 have r2: "broker_reach demo_init 100 s2" by (rule broker_reach.step)
  have "broker_step s2 s3"
    using broker_step.run [of 0 s2 ?e] by (simp add: s3_def s2_def s0_def demo_env_def consume_approval_def)
  with r2 have r3: "broker_reach demo_init 100 s3" by (rule broker_reach.step)
  have "atomic_consume_nonce (br_max_ledger demo_init) 100 ''g0'' (Some 130) (br_ledger demo_init) = (None, [(''g0'', 130)])"
    by (simp add: demo_init_def broker_init_def atomic_consume_nonce_def has_key_def gc_ledger_def)
  then obtain s4 where "broker_step s3 s4" "sy_log s4 = [(''g0'', 130, 100)]"
    using broker_step.run [of 0 s3 ?e] by (simp add: s3_def s0_def demo_env_def sign_grant_def build_grant_def)
  with broker_reach.step [OF r3] show ?thesis by blast
qed

theorem nonces_are_single_use_witness:
  "\<exists>s. broker_reach demo_init 100 s \<and> sy_log s = [(''g0'', 130, 100)] \<and> (sy_clock s < 130 \<longrightarrow> map_of (br_ledger (sy_broker s)) ''g0'' = Some 130)"
proof -
  obtain s where s: "broker_reach demo_init 100 s" "sy_log s = [(''g0'', 130, 100)]" using demo_run by blast
  from nonces_are_single_use [OF s(1) [unfolded demo_init_def]] s(2)
  have "sy_clock s < 130 \<longrightarrow> map_of (br_ledger (sy_broker s)) ''g0'' = Some 130" by simp
  with s show ?thesis by blast
qed

theorem ledger_is_bounded_witness:
  "\<exists>s. broker_reach demo_init 100 s \<and> sy_log s = [(''g0'', 130, 100)] \<and> length (br_ledger (sy_broker s)) \<le> 10"
proof -
  obtain s where s: "broker_reach demo_init 100 s" "sy_log s = [(''g0'', 130, 100)]" using demo_run by blast
  from ledger_is_bounded [OF s(1) [unfolded demo_init_def]]
  have "length (br_ledger (sy_broker s)) \<le> 10" by simp
  with s show ?thesis by blast
qed

end
