(* ===== verification/BrokerIpc.thy ===== *)
theory BrokerIpc
  imports BrokerThreads
begin

text \<open>
  The two ends of the socket: \<open>_handle_client\<close> and \<open>_send_error_and_close\<close> of
  \<open>src/hermes_core/authority/broker.py\<close>, and \<open>request_capability\<close> of
  \<open>src/hermes_core/authority/client.py\<close>.

  What a peer delivers is an \<open>inbound\<close>: the outcome of reading up to a newline, decoding and
  parsing it. The reply is the JSON value handed to \<open>sendall\<close>. The text of a denial message is a
  function \<open>msg\<close> of the raise site; nothing reads it but people.
\<close>

section \<open>The broker's end\<close>

datatype inbound = InTimeout | InFault | InEmpty | InNotText | InNotJson | InJson json

text \<open>\<open>struct.unpack("3i")\<close> of the kernel's \<open>ucred\<close>: three signed 32-bit integers. Without
  \<open>SO_PEERCRED\<close> the peer is taken to be the broker's own user.\<close>

definition extract_peer_cred :: "int \<Rightarrow> int \<Rightarrow> (32 word \<times> 32 word \<times> 32 word) option \<Rightarrow> int \<times> int \<times> int" where
  "extract_peer_cred getuid getgid cred =
     (case cred of
        Some (pid, uid, gid) \<Rightarrow> (sint pid, sint uid, sint gid)
      | None \<Rightarrow> (-1, getuid, getgid))"

definition error_reply :: "(denial_site \<Rightarrow> string) \<Rightarrow> denial \<Rightarrow> json" where
  "error_reply msg d = JObj [(''status'', JStr ''DENIED''), (''code'', JStr (failure_value (fst d))),
     (''message'', JStr (msg (snd d)))]"

definition grant_reply :: "cap_grant \<Rightarrow> json" where
  "grant_reply g = JObj [(''status'', JStr ''GRANTED''), (''grant'', grant_to_dict g)]"

definition peer_allowed :: "broker \<Rightarrow> int \<Rightarrow> int \<Rightarrow> bool" where
  "peer_allowed b uid gid \<longleftrightarrow> \<not> (uid \<notin> set (br_allowed_uids b) \<and> gid \<notin> set (br_allowed_gids b))"

definition handle_client ::
  "py_conv \<Rightarrow> (denial_site \<Rightarrow> string) \<Rightarrow> eval_env \<Rightarrow> int \<times> int \<times> int \<Rightarrow> inbound \<Rightarrow> broker \<Rightarrow> json \<times> broker" where
  "handle_client pv msg env cred inb b =
     (let (pid, uid, gid) = cred in
      if \<not> peer_allowed b uid gid then (error_reply msg (DENY_UNAUTHORIZED_PEER, PeerNotAuthorized), b)
      else case inb of
        InTimeout \<Rightarrow> (error_reply msg (DENY_TIMEOUT, RequestTimedOut), b)
      | InFault \<Rightarrow> (error_reply msg (DENY_UNKNOWN_STATE, InternalError), b)
      | InEmpty \<Rightarrow> (error_reply msg (DENY_UNKNOWN_STATE, EmptyRequest), b)
      | InNotText \<Rightarrow> (error_reply msg (DENY_UNKNOWN_STATE, InternalError), b)
      | InNotJson \<Rightarrow> (error_reply msg (DENY_UNKNOWN_STATE, MalformedRequest), b)
      | InJson j \<Rightarrow>
          (case request_from_dict pv j of
             None \<Rightarrow> (error_reply msg (DENY_UNKNOWN_STATE, InternalError), b)
           | Some r \<Rightarrow>
              (case evaluate_request env r uid b of
                 (Inl d, b') \<Rightarrow> (error_reply msg d, b')
               | (Inr g, b') \<Rightarrow> (grant_reply g, b'))))"

section \<open>The client's end\<close>

datatype reply = ConnectionFailed | NoReply | ReplyNotText | ReplyNotJson | ReplyJson json

text \<open>\<open>CapabilityDeniedError\<close>, \<open>BrokerUnavailableError\<close>, or an exception the method does not map
  (a reply that is not text or not a dictionary, a grant that does not convert).\<close>

datatype client_result = Granted cap_grant | Denied failure_code | Unavailable | Unmapped

fun code_of_json :: "json \<Rightarrow> failure_code" where
  "code_of_json (JStr s) = (case failure_of_value s of Some c \<Rightarrow> c | None \<Rightarrow> DENY_UNKNOWN_STATE)"
| "code_of_json _ = DENY_UNKNOWN_STATE"

definition request_capability :: "py_conv \<Rightarrow> reply \<Rightarrow> client_result" where
  "request_capability pv rep =
     (case rep of
        ConnectionFailed \<Rightarrow> Unavailable
      | NoReply \<Rightarrow> Unavailable
      | ReplyNotText \<Rightarrow> Unmapped
      | ReplyNotJson \<Rightarrow> Unavailable
      | ReplyJson j \<Rightarrow>
          (case jdict j of
             None \<Rightarrow> Unmapped
           | Some d \<Rightarrow>
              (let status = dict_get d ''status'' JNull in
               if status = JStr ''GRANTED'' then
                 (case grant_from_dict pv (dict_get d ''grant'' (JObj [])) of
                    Some g \<Rightarrow> Granted g
                  | None \<Rightarrow> Unmapped)
               else if status = JStr ''DENIED'' then
                 Denied (code_of_json (dict_get d ''code'' (JStr (failure_value DENY_UNKNOWN_STATE))))
               else Denied DENY_UNKNOWN_STATE)))"

lemma client_grant [simp]: "request_capability pv (ReplyJson (grant_reply g)) = Granted g"
  by (simp add: request_capability_def grant_reply_def dict_get_def grant_wire)

lemma client_error [simp]: "request_capability pv (ReplyJson (error_reply msg d)) = Denied (fst d)"
  by (simp add: request_capability_def error_reply_def dict_get_def)

section \<open>Properties\<close>

text \<open>C20: the socket adds nothing: what the client gets for a request it sends is what the pipeline
  decides for the peer's uid, the grant itself or the failure code, when the peer's user or group
  is allowed; any other peer gets \<open>DENY_UNAUTHORIZED_PEER\<close> and leaves the broker as it was.\<close>

theorem socket_is_transparent:
  "(case handle_client pv msg env (pid, uid, gid) (InJson (request_to_dict r)) b of
      (j, b') \<Rightarrow> (request_capability pv' (ReplyJson j), b')) =
   (if peer_allowed b uid gid
    then (case evaluate_request env r uid b of
            (Inl d, b') \<Rightarrow> (Denied (fst d), b')
          | (Inr g, b') \<Rightarrow> (Granted g, b'))
    else (Denied DENY_UNAUTHORIZED_PEER, b))"
  by (simp add: handle_client_def request_wire split: prod.splits sum.splits)

text \<open>C21: the broker's end fails closed: whatever a peer delivers, the client reads a grant from the
  reply only if the peer is allowed, the delivery parsed into a request, and the pipeline granted
  exactly that grant; everything else changes no state outside the pipeline and reads as a denial.\<close>

theorem broker_end_fails_closed:
  assumes "handle_client pv msg env (pid, uid, gid) inb b = (j, b')"
  shows "(\<exists>j0 r g. inb = InJson j0 \<and> request_from_dict pv j0 = Some r \<and> peer_allowed b uid gid \<and>
            evaluate_request env r uid b = (Inr g, b') \<and> request_capability pv' (ReplyJson j) = Granted g) \<or>
    (\<exists>c. request_capability pv' (ReplyJson j) = Denied c \<and>
       (b' = b \<or> (\<exists>r d. evaluate_request env r uid b = (Inl d, b') \<and> c = fst d)))"
  using assms
  by (auto simp: handle_client_def split: if_splits inbound.splits option.splits prod.splits sum.splits)

theorem broker_end_fails_closed_witness:
  "\<exists>c. request_capability \<lparr>repr_json = (\<lambda>_. []), float_of_str = (\<lambda>_. None), int_of_str = (\<lambda>_. None)\<rparr>
     (ReplyJson (fst (handle_client \<lparr>repr_json = (\<lambda>_. []), float_of_str = (\<lambda>_. None), int_of_str = (\<lambda>_. None)\<rparr>
        (\<lambda>_. []) (demo_env ''g0'') (1, 1000, 7) InEmpty (demo_broker None)))) = Denied c"
proof -
  define pv where "pv = \<lparr>repr_json = (\<lambda>_. []), float_of_str = (\<lambda>_. None), int_of_str = (\<lambda>_. None)\<rparr>"
  obtain j b' where h: "handle_client pv (\<lambda>_. []) (demo_env ''g0'') (1, 1000, 7) InEmpty (demo_broker None) = (j, b')"
    by (cases "handle_client pv (\<lambda>_. []) (demo_env ''g0'') (1, 1000, 7) InEmpty (demo_broker None)")
  from broker_end_fails_closed [OF h, of pv] h show ?thesis by (auto simp flip: pv_def)
qed

end
