(* ===== verification/PyUtf8.thy ===== *)
theory PyUtf8
  imports Prelude
begin

text \<open>
  UTF-8 as \<open>str.encode("utf-8")\<close> and \<open>bytes.decode("utf-8", errors="ignore")\<close> see it. Where a
  source bounds a text by its encoded size, its strings are lists of code points (type
  \<open>ustr\<close>) and its bytes are numbers below 256. The decoder drops ill-formed sequences the way
  CPython does (an error covers the longest well-formed prefix of a sequence), and drops an
  incomplete sequence at the end.
\<close>

type_synonym ustr = "nat list"

definition valid_cp :: "nat \<Rightarrow> bool" where
  "valid_cp c \<longleftrightarrow> c < 0xD800 \<or> (0xE000 \<le> c \<and> c < 0x110000)"

definition enc_cp :: "nat \<Rightarrow> nat list" where
  "enc_cp c =
     (if c < 128 then [c]
      else if c < 2048 then [192 + c div 64, 128 + c mod 64]
      else if c < 65536 then [224 + c div 4096, 128 + c div 64 mod 64, 128 + c mod 64]
      else [240 + c div 262144, 128 + c div 4096 mod 64, 128 + c div 64 mod 64, 128 + c mod 64])"

definition utf8_encode :: "ustr \<Rightarrow> nat list" where
  "utf8_encode s = concat (map enc_cp s)"

definition cont_byte :: "nat \<Rightarrow> bool" where
  "cont_byte b \<longleftrightarrow> 128 \<le> b \<and> b < 192"

text \<open>The second byte of a sequence is restricted by its lead byte (no overlong forms, no
  surrogates, nothing above U+10FFFF).\<close>

definition second_ok :: "nat \<Rightarrow> nat \<Rightarrow> bool" where
  "second_ok b c \<longleftrightarrow> cont_byte c \<and> (b = 0xE0 \<longrightarrow> 0xA0 \<le> c) \<and> (b = 0xED \<longrightarrow> c < 0xA0) \<and>
     (b = 0xF0 \<longrightarrow> 0x90 \<le> c) \<and> (b = 0xF4 \<longrightarrow> c < 0x90)"

fun utf8_decode_ignore :: "nat list \<Rightarrow> ustr" where
  "utf8_decode_ignore [] = []"
| "utf8_decode_ignore (b # bs) =
     (if b < 128 then b # utf8_decode_ignore bs
      else if 194 \<le> b \<and> b < 224 then
        (case bs of [] \<Rightarrow> []
         | c # cs \<Rightarrow> if cont_byte c then ((b - 192) * 64 + (c - 128)) # utf8_decode_ignore cs
             else utf8_decode_ignore bs)
      else if 224 \<le> b \<and> b < 240 then
        (case bs of [] \<Rightarrow> []
         | c # cs \<Rightarrow> if \<not> second_ok b c then utf8_decode_ignore bs
             else (case cs of [] \<Rightarrow> []
               | d # ds \<Rightarrow> if cont_byte d
                   then ((b - 224) * 4096 + (c - 128) * 64 + (d - 128)) # utf8_decode_ignore ds
                   else utf8_decode_ignore cs))
      else if 240 \<le> b \<and> b < 245 then
        (case bs of [] \<Rightarrow> []
         | c # cs \<Rightarrow> if \<not> second_ok b c then utf8_decode_ignore bs
             else (case cs of [] \<Rightarrow> []
               | d # ds \<Rightarrow> if \<not> cont_byte d then utf8_decode_ignore cs
                   else (case ds of [] \<Rightarrow> []
                     | e # es \<Rightarrow> if cont_byte e
                         then ((b - 240) * 262144 + (c - 128) * 4096 + (d - 128) * 64 + (e - 128))
                              # utf8_decode_ignore es
                         else utf8_decode_ignore ds)))
      else utf8_decode_ignore bs)"

lemma utf8_encode_simps [simp]:
  "utf8_encode [] = []" "utf8_encode (c # s) = enc_cp c @ utf8_encode s"
  "utf8_encode (s @ t) = utf8_encode s @ utf8_encode t"
  by (simp_all add: utf8_encode_def)

lemma split_base64:
  fixes c :: nat
  shows "c div 64 * 64 + c mod 64 = c"
    and "c div 4096 * 4096 + c div 64 mod 64 * 64 + c mod 64 = c"
    and "c div 262144 * 262144 + c div 4096 mod 64 * 4096 + c div 64 mod 64 * 64 + c mod 64 = c"
proof -
  show 1: "c div 64 * 64 + c mod 64 = c" by simp
  have "c div 64 = c div 4096 * 64 + c div 64 mod 64"
    using div_mult_mod_eq [of "c div 64" 64] by (simp add: div_mult2_eq [of c 64 64, simplified])
  with 1 show 2: "c div 4096 * 4096 + c div 64 mod 64 * 64 + c mod 64 = c" by linarith
  have "c div 4096 = c div 262144 * 64 + c div 4096 mod 64"
    using div_mult_mod_eq [of "c div 4096" 64] by (simp add: div_mult2_eq [of c 4096 64, simplified])
  with 2 show "c div 262144 * 262144 + c div 4096 mod 64 * 4096 + c div 64 mod 64 * 64 + c mod 64 = c"
    by linarith
qed

lemma cont_byte_mod [simp]: "cont_byte (128 + x mod 64)"
  by (simp add: cont_byte_def)

lemma second_ok_3:
  assumes "valid_cp c" and "2048 \<le> c" and "c < 65536"
  shows "second_ok (224 + c div 4096) (128 + c div 64 mod 64)"
proof -
  have e: "c div 64 = c div 4096 * 64 + c div 64 mod 64"
    using div_mult_mod_eq [of "c div 64" 64] by (simp add: div_mult2_eq [of c 64 64, simplified])
  have "32 \<le> c div 64" using assms(2) by simp
  moreover have "c div 4096 < 16" using assms(3) by simp
  moreover have "c div 64 < 864 \<or> 896 \<le> c div 64"
    using assms(1) by (auto simp: valid_cp_def)
  ultimately show ?thesis
    using e by (auto simp: second_ok_def)
qed

lemma second_ok_4:
  assumes "65536 \<le> c" and "c < 0x110000"
  shows "second_ok (240 + c div 262144) (128 + c div 4096 mod 64)"
proof -
  have e: "c div 4096 = c div 262144 * 64 + c div 4096 mod 64"
    using div_mult_mod_eq [of "c div 4096" 64] by (simp add: div_mult2_eq [of c 4096 64, simplified])
  have "16 \<le> c div 4096" "c div 4096 < 272" "c div 262144 < 5" using assms by simp_all
  with e show ?thesis by (auto simp: second_ok_def)
qed

lemma decode_enc_cp:
  assumes "valid_cp c"
  shows "utf8_decode_ignore (enc_cp c @ r) = c # utf8_decode_ignore r"
proof -
  consider "c < 128" | "128 \<le> c" "c < 2048" | "2048 \<le> c" "c < 65536" | "65536 \<le> c" "c < 0x110000"
    using assms unfolding valid_cp_def by linarith
  then show ?thesis
  proof cases
    case 2
    then have "2 \<le> c div 64" "c div 64 < 32" by simp_all
    with 2 show ?thesis using split_base64(1) [of c] by (auto simp: enc_cp_def)
  next
    case 3
    then have "c div 4096 < 16" by simp
    with 3 second_ok_3 [OF assms 3] show ?thesis
      using split_base64(2) [of c] by (simp add: enc_cp_def)
  next
    case 4
    then have "c div 262144 < 5" by simp
    with 4 second_ok_4 [OF 4] show ?thesis
      using split_base64(3) [of c] by (simp add: enc_cp_def)
  qed (simp add: enc_cp_def)
qed

text \<open>An incomplete sequence at the end decodes to nothing.\<close>

lemma decode_enc_cp_cut:
  assumes "valid_cp c" and "k < length (enc_cp c)"
  shows "utf8_decode_ignore (take k (enc_cp c)) = []"
proof -
  consider "c < 128" | "128 \<le> c" "c < 2048" | "2048 \<le> c" "c < 65536" | "65536 \<le> c" "c < 0x110000"
    using assms unfolding valid_cp_def by linarith
  then show ?thesis
  proof cases
    case 1
    with assms(2) show ?thesis by (simp add: enc_cp_def)
  next
    case 2
    then have "2 \<le> c div 64" "c div 64 < 32" by simp_all
    moreover have "k = 0 \<or> k = 1" using assms(2) 2 by (auto simp: enc_cp_def)
    ultimately show ?thesis using 2 by (auto simp: enc_cp_def)
  next
    case 3
    then have "c div 4096 < 16" by simp
    moreover have "k = 0 \<or> k = 1 \<or> k = 2" using assms(2) 3 by (auto simp: enc_cp_def)
    ultimately show ?thesis using 3 second_ok_3 [OF assms(1) 3] by (auto simp: enc_cp_def numeral_2_eq_2)
  next
    case 4
    then have "c div 262144 < 5" by simp
    moreover have "k = 0 \<or> k = 1 \<or> k = 2 \<or> k = 3" using assms(2) 4 by (auto simp: enc_cp_def)
    ultimately show ?thesis using 4 second_ok_4 [OF 4]
      by (auto simp: enc_cp_def numeral_2_eq_2 numeral_3_eq_3)
  qed
qed

lemma utf8_roundtrip: "\<forall>c \<in> set s. valid_cp c \<Longrightarrow> utf8_decode_ignore (utf8_encode s) = s"
  by (induction s) (simp_all add: decode_enc_cp)

lemma utf8_cut:
  assumes "\<forall>c \<in> set s. valid_cp c"
  shows "prefix (utf8_decode_ignore (take n (utf8_encode s))) s \<and>
    length (utf8_encode (utf8_decode_ignore (take n (utf8_encode s)))) \<le> n"
  using assms
proof (induction s arbitrary: n)
  case (Cons c s)
  show ?case
  proof (cases "n < length (enc_cp c)")
    case True
    with Cons.prems show ?thesis by (simp add: decode_enc_cp_cut)
  next
    case False
    with Cons.prems Cons.IH [of "n - length (enc_cp c)"] show ?thesis
      by (auto simp: decode_enc_cp)
  qed
qed simp

end
