(* ===== verification/GateCore.thy ===== *)
theory GateCore
  imports BrokerIpc PyText PyUtf8
begin

text \<open>
  What the three domain gates (\<open>src/hermes_core/gates\<close>) share. Each gate has its own
  \<open>verify_grant\<close>; the locale \<open>gate\<close> states the contract all three promise about a grant they
  accept, and derives what that means for grants signed by the broker. A gate's verdict is \<open>None\<close>
  (accepted) or the failure code with the site that refuses.
\<close>

datatype gate_site =
    WrongPrimitive | GrantExpired | IssuedInFuture | TtlTooLong | EmptySignature | BadSignature
  | SemanticsDrift | MissingHost | UrlRaises | ResourceNotBound | ProtectedAsset

type_synonym verdict = "(failure_code \<times> gate_site) option"

text \<open>The cryptographic check, the same lines in every gate.\<close>

definition signature_check :: "verifier \<Rightarrow> cap_grant \<Rightarrow> verdict" where
  "signature_check vk g =
     (if cg_broker_signature g = [] then Some (DENY_SIGNATURE_TAMPERED, EmptySignature)
      else case b64decode (cg_broker_signature g) of
        None \<Rightarrow> Some (DENY_SIGNATURE_TAMPERED, BadSignature)
      | Some sg \<Rightarrow>
          (if vk sg (compute_signature_payload g) then None
           else Some (DENY_SIGNATURE_TAMPERED, BadSignature)))"

text \<open>The three time checks, likewise.\<close>

definition ttl_check :: "time \<Rightarrow> cap_grant \<Rightarrow> verdict" where
  "ttl_check now g =
     (if cg_expires_at g \<le> now then Some (DENY_TTL_EXPIRED, GrantExpired)
      else if now + 1 < cg_issued_at g then Some (DENY_CLOCK_UNRELIABLE, IssuedInFuture)
      else if 60 < cg_expires_at g - cg_issued_at g then Some (DENY_TTL_EXPIRED, TtlTooLong)
      else None)"

lemma signature_check_None:
  "signature_check vk g = None \<longleftrightarrow>
     (\<exists>sg. b64decode (cg_broker_signature g) = Some sg \<and> vk sg (compute_signature_payload g)) \<and>
     cg_broker_signature g \<noteq> []"
  by (auto simp: signature_check_def split: option.splits if_splits)

lemma ttl_check_None:
  "ttl_check now g = None \<longleftrightarrow> now < cg_expires_at g \<and> cg_issued_at g \<le> now + 1 \<and> cg_expires_at g \<le> cg_issued_at g + 60"
  by (auto simp: ttl_check_def)

lemma signature_check_signed:
  "ed25519_ok sk vk \<Longrightarrow> signature_check vk (sign_grant sk g) = None"
  using signature_nonempty [of sk vk] by (simp add: signature_check_def sign_grant_def ed25519_ok_def)

section \<open>The contract\<close>

locale gate =
  fixes verdict_of :: "verifier \<Rightarrow> 'c \<Rightarrow> time \<Rightarrow> cap_grant \<Rightarrow> verdict"
    and primitives :: "'c \<Rightarrow> string list"
  assumes accept_primitive: "verdict_of vk c now g = None \<Longrightarrow> cg_target_primitive g \<in> set (primitives c)"
    and accept_time: "verdict_of vk c now g = None \<Longrightarrow> ttl_check now g = None"
    and accept_signed: "verdict_of vk c now g = None \<Longrightarrow> signature_check vk g = None"
begin

text \<open>A gate accepts only grants that agree with an issued one in every signed field.\<close>

lemma accepted_was_issued:
  assumes "\<forall>sg m. vk sg m \<longrightarrow> m \<in> compute_signature_payload ` issued"
    and "verdict_of vk c now g = None"
  shows "\<exists>g0 \<in> issued. same_signed_fields g g0 \<and> cg_target_primitive g0 \<in> set (primitives c)"
proof -
  obtain sg where "vk sg (compute_signature_payload g)"
    using accept_signed [OF assms(2)] by (auto simp: signature_check_None)
  with assms(1) have "compute_signature_payload g \<in> compute_signature_payload ` issued" by blast
  then obtain g0 where g0: "g0 \<in> issued" "same_signed_fields g g0"
    by (auto simp: payload_eq_iff)
  with accept_primitive [OF assms(2)] show ?thesis by (auto simp: same_signed_fields_def)
qed

text \<open>Every gate refuses a grant from the moment it expires, and one that lives too long.\<close>

lemma expired_refused: "cg_expires_at g \<le> now \<Longrightarrow> verdict_of vk c now g \<noteq> None"
  using accept_time [of vk c now g] by (cases "verdict_of vk c now g", auto simp: ttl_check_None)

lemma long_lived_refused: "cg_issued_at g + 60 < cg_expires_at g \<Longrightarrow> verdict_of vk c now g \<noteq> None"
  using accept_time [of vk c now g] by (cases "verdict_of vk c now g", auto simp: ttl_check_None)

text \<open>A grant issued for a primitive that is none of the gate's is refused.\<close>

lemma foreign_primitive_refused: "cg_target_primitive g \<notin> set (primitives c) \<Longrightarrow> verdict_of vk c now g \<noteq> None"
  using accept_primitive [of vk c now g] by (cases "verdict_of vk c now g", auto)

end

end
