(* ===== verification/ProcessGate.thy ===== *)
theory ProcessGate
  imports GateCore
begin

text \<open>
  \<open>src/hermes_core/gates/process_gate.py\<close>. The operating system is a parameter: what \<open>which\<close> and
  \<open>bwrap --version\<close> say when the gate is built, which paths exist, and how the child ends
  (\<open>proc_outcome\<close>). Child output is text over all of Unicode (\<^typ>\<open>ustr\<close>), as its UTF-8 length
  is bounded. The result keeps the command actually started, \<open>None\<close> when none was.
\<close>

section \<open>Construction\<close>

record process_gate =
  pg_public_key :: verifier
  pg_bwrap_path :: "string option"
  pg_bwrap_version_ok :: bool

text \<open>\<open>nums >= min_version\<close> on tuples is lexicographic; a proper prefix is smaller.\<close>

definition check_bwrap_version :: "string \<Rightarrow> int list \<Rightarrow> bool" where
  "check_bwrap_version v minimum =
     (case split_ws (strip v) of
        [] \<Rightarrow> False
      | parts \<Rightarrow>
          (case those (map parse_int (take 3 (split_on CHR ''.'' (last parts)))) of
             None \<Rightarrow> False
           | Some nums \<Rightarrow> minimum \<le> nums))"

definition process_gate_init ::
  "verifier \<Rightarrow> string option \<Rightarrow> string option \<Rightarrow> (string \<Rightarrow> string option) \<Rightarrow> process_gate" where
  "process_gate_init vk bwrap which version_of =
     (let path = (case bwrap of Some p \<Rightarrow> if p = [] then which else Some p | None \<Rightarrow> which)
      in \<lparr>pg_public_key = vk, pg_bwrap_path = path,
          pg_bwrap_version_ok =
            (case path of
               None \<Rightarrow> False
             | Some p \<Rightarrow> (if p = [] then False else
                 (case version_of p of None \<Rightarrow> False | Some out \<Rightarrow> check_bwrap_version out [0, 11, 0])))\<rparr>)"

definition build_bwrap_args :: "string \<Rightarrow> (string \<Rightarrow> bool) \<Rightarrow> string list \<Rightarrow> string \<Rightarrow> string list" where
  "build_bwrap_args bwrap ex cmd cwd =
     [bwrap, ''--unshare-pid'', ''--unshare-ipc'', ''--ro-bind'', ''/'', ''/'', ''--tmpfs'', ''/root'',
      ''--tmpfs'', ''/home'', ''--dev'', ''/dev'', ''--proc'', ''/proc'', ''--tmpfs'', ''/tmp''] @
     concat (map (\<lambda>p. if ex p then [''--tmpfs'', p] else []) [''/etc/shadow'', ''/etc/gshadow'', ''/etc/sudoers'']) @
     (if ex cwd then [''--bind'', cwd, cwd, ''--chdir'', cwd] else []) @
     [''--''] @ cmd"

section \<open>Verifying the grant\<close>

definition process_primitives :: "string list" where
  "process_primitives = [''PROCESS_EXECUTE'', ''SYSTEM_EXECUTE'']"

definition process_verify :: "verifier \<Rightarrow> exec_semantics \<Rightarrow> time \<Rightarrow> cap_grant \<Rightarrow> verdict" where
  "process_verify vk sem now g =
     (if cg_target_primitive g \<notin> set process_primitives then Some (DENY_UNAUTHORIZED_GRANT, WrongPrimitive)
      else case ttl_check now g of
        Some d \<Rightarrow> Some d
      | None \<Rightarrow>
          (case signature_check vk g of
             Some d \<Rightarrow> Some d
           | None \<Rightarrow>
               (if compute_canonical_hash sem \<noteq> cg_exact_execution_hash g
                then Some (DENY_EXECUTION_SEMANTICS_DRIFT, SemanticsDrift) else None)))"

section \<open>Execution\<close>

definition MAX_OUTPUT_BYTES :: nat where "MAX_OUTPUT_BYTES = 1024 * 1024"

definition process_marker :: ustr where
  "process_marker = map of_char (CHR 0x0A # ''...[TRUNCATED BY PROCESS_GATE DUE TO SIZE BUDGET]...'')"

definition truncate_text :: "nat \<Rightarrow> ustr \<Rightarrow> ustr \<Rightarrow> ustr" where
  "truncate_text limit marker out =
     (if out = [] then []
      else let encoded = utf8_encode out in
        if length encoded \<le> limit then out
        else let budget = limit - length (utf8_encode marker)
             in utf8_decode_ignore (take budget encoded) @ marker)"

definition truncate_output :: "ustr \<Rightarrow> ustr" where
  "truncate_output = truncate_text MAX_OUTPUT_BYTES process_marker"

datatype proc_outcome = Exited int ustr ustr | TimedOut | SpawnFailed

datatype process_site =
    GateRefused gate_site | EmptyCommand | BwrapMissing | BwrapIncompatible | ProcTimeout | ProcError

record process_result =
  pr_success :: bool
  pr_exit_code :: int
  pr_stdout :: ustr
  pr_stderr :: ustr
  pr_execution_hash :: string
  pr_error :: "(failure_code \<times> process_site) option"
  pr_started :: "(string list \<times> string \<times> (string \<times> string) list) option"

definition process_failed :: "cap_grant \<Rightarrow> (string list \<times> string \<times> (string \<times> string) list) option \<Rightarrow>
    failure_code \<Rightarrow> process_site \<Rightarrow> process_result" where
  "process_failed g started code site =
     \<lparr>pr_success = False, pr_exit_code = -1, pr_stdout = [], pr_stderr = [],
      pr_execution_hash = cg_exact_execution_hash g, pr_error = Some (code, site), pr_started = started\<rparr>"

text \<open>\<open>child_env[k] = v\<close> over the allow-list: later pairs overwrite earlier ones.\<close>

definition child_env :: "exec_semantics \<Rightarrow> string dict" where
  "child_env sem = fold (\<lambda>(k, v). AList.update k v) (es_env_allowlist sem) []"

definition command_vector :: "exec_semantics \<Rightarrow> string list" where
  "command_vector sem =
     (if es_argv sem = [] \<and> es_interpreter_path sem \<noteq> []
      then es_interpreter_path sem # (if es_script_path sem \<noteq> [] then [es_script_path sem] else [])
      else es_argv sem)"

definition requires_bwrap :: "exec_semantics \<Rightarrow> bool" where
  "requires_bwrap sem \<longleftrightarrow>
     py_upper (if es_sandbox_profile sem = [] then ''default'' else es_sandbox_profile sem)
       \<in> {''ISOLATED_CONTAINER'', ''RESTRICTED_BWRAP'', ''BWRAP''}"

text \<open>\<open>run\<close> is the child: what became of a command with its directory and environment. The
  directory is the process's own, \<open>getcwd\<close>, when the semantics name none.\<close>

definition process_execute ::
  "process_gate \<Rightarrow> (string \<Rightarrow> bool) \<Rightarrow> string \<Rightarrow> (string list \<Rightarrow> string \<Rightarrow> string dict \<Rightarrow> proc_outcome) \<Rightarrow>
   time \<Rightarrow> cap_grant \<Rightarrow> exec_semantics \<Rightarrow> process_result" where
  "process_execute pg ex getcwd run now g sem =
     (case process_verify (pg_public_key pg) sem now g of
        Some (code, site) \<Rightarrow> process_failed g None code (GateRefused site)
      | None \<Rightarrow>
          (let cmd = command_vector sem; env = child_env sem;
               cwd = (if es_cwd sem = [] then getcwd else es_cwd sem)
           in if cmd = [] then process_failed g None DENY_POLICY_VIOLATION EmptyCommand
              else if requires_bwrap sem \<and> (case pg_bwrap_path pg of None \<Rightarrow> True | Some p \<Rightarrow> p = [])
                then process_failed g None DENY_POLICY_VIOLATION BwrapMissing
              else if requires_bwrap sem \<and> \<not> pg_bwrap_version_ok pg
                then process_failed g None DENY_POLICY_VIOLATION BwrapIncompatible
              else
                let final = (if requires_bwrap sem then build_bwrap_args (the (pg_bwrap_path pg)) ex cmd cwd else cmd)
                in case run final cwd env of
                     Exited code out err \<Rightarrow>
                       \<lparr>pr_success = (code = 0), pr_exit_code = code, pr_stdout = truncate_output out,
                        pr_stderr = truncate_output err, pr_execution_hash = cg_exact_execution_hash g,
                        pr_error = None, pr_started = Some (final, cwd, env)\<rparr>
                   | TimedOut \<Rightarrow> process_failed g (Some (final, cwd, env)) DENY_TIMEOUT ProcTimeout
                   | SpawnFailed \<Rightarrow> process_failed g (Some (final, cwd, env)) DENY_UNKNOWN_STATE ProcError))"

section \<open>Lemmas\<close>

lemma process_verify_None:
  "process_verify vk sem now g = None \<longleftrightarrow>
     cg_target_primitive g \<in> set process_primitives \<and> ttl_check now g = None \<and>
     signature_check vk g = None \<and> cg_exact_execution_hash g = compute_canonical_hash sem"
  by (auto simp: process_verify_def split: option.splits)

interpretation pgate: gate process_verify "\<lambda>_. process_primitives"
  by unfold_locales (auto simp: process_verify_None)

lemma truncate_text_bound:
  assumes "\<forall>c \<in> set out. valid_cp c" and "length (utf8_encode marker) \<le> limit"
  shows "length (utf8_encode (truncate_text limit marker out)) \<le> limit \<and>
    (truncate_text limit marker out = out \<or> (\<exists>p. prefix p out \<and> truncate_text limit marker out = p @ marker))"
proof -
  note cut = utf8_cut [OF assms(1), of "limit - length (utf8_encode marker)"]
  show ?thesis
  proof (cases "out = [] \<or> length (utf8_encode out) \<le> limit")
    case True
    then show ?thesis by (auto simp: truncate_text_def)
  next
    case False
    then have "truncate_text limit marker out =
        utf8_decode_ignore (take (limit - length (utf8_encode marker)) (utf8_encode out)) @ marker"
      by (simp add: truncate_text_def Let_def)
    with cut assms(2) show ?thesis by auto
  qed
qed

lemma process_marker_bound: "length (utf8_encode process_marker) \<le> MAX_OUTPUT_BYTES"
  by (simp add: process_marker_def MAX_OUTPUT_BYTES_def enc_cp_def)

lemma child_env_lookup:
  "map_of (fold (\<lambda>(k, v). AList.update k v) kvs d) k =
     (case map_of (rev kvs) k of Some v \<Rightarrow> Some v | None \<Rightarrow> map_of d k)"
  by (induction kvs arbitrary: d) (auto simp: map_add_def split: option.splits)

lemma process_started_iff:
  "pr_started (process_execute pg ex getcwd run now g sem) = Some (cmd, cwd, env) \<longleftrightarrow>
     process_verify (pg_public_key pg) sem now g = None \<and> command_vector sem \<noteq> [] \<and>
     cwd = (if es_cwd sem = [] then getcwd else es_cwd sem) \<and> env = child_env sem \<and>
     (if requires_bwrap sem
      then \<exists>p. pg_bwrap_path pg = Some p \<and> p \<noteq> [] \<and> pg_bwrap_version_ok pg \<and>
             cmd = build_bwrap_args p ex (command_vector sem) cwd
      else cmd = command_vector sem)"
  by (cases "pg_bwrap_path pg")
     (auto simp: process_execute_def process_failed_def Let_def split: option.splits proc_outcome.splits prod.splits)

section \<open>Properties\<close>

text \<open>A process is started only under a valid grant and only as granted. The gate accepts the grant
  for these semantics at this moment; the child's command ends with the semantics' own command
  vector, it runs in their directory, its environment holds exactly the allow-listed variables
  (the last pair of each name); and when the profile asks for isolation the command is the
  isolation tool, of a version the gate checked, with the command behind it. A refusal starts
  nothing.\<close>

theorem process_runs_as_granted:
  assumes "pr_started (process_execute pg ex getcwd run now g sem) = Some (cmd, cwd, env)"
  shows "process_verify (pg_public_key pg) sem now g = None \<and> command_vector sem \<noteq> [] \<and>
    ends_with cmd (command_vector sem) \<and> (es_cwd sem \<noteq> [] \<longrightarrow> cwd = es_cwd sem) \<and>
    (\<forall>k. map_of env k = map_of (rev (es_env_allowlist sem)) k) \<and>
    (requires_bwrap sem \<longrightarrow> (\<exists>p rest. pg_bwrap_path pg = Some p \<and> pg_bwrap_version_ok pg \<and>
       cmd = p # ''--unshare-pid'' # ''--unshare-ipc'' # rest @ ''--'' # command_vector sem)) \<and>
    (\<not> requires_bwrap sem \<longrightarrow> cmd = command_vector sem)"
proof -
  note s = assms [unfolded process_started_iff]
  have env: "map_of env k = map_of (rev (es_env_allowlist sem)) k" for k
    using s child_env_lookup [of "es_env_allowlist sem" "[]" k] by (auto simp: child_env_def split: option.splits)
  have bw: "\<exists>rest. build_bwrap_args p ex c d = p # ''--unshare-pid'' # ''--unshare-ipc'' # rest @ ''--'' # c" for p c d
    by (simp add: build_bwrap_args_def)
  have "ends_with cmd (command_vector sem)"
    using s by (cases "requires_bwrap sem") (auto simp: build_bwrap_args_def ends_with_iff)
  with s env bw show ?thesis by (auto split: if_splits)
qed

text \<open>Bounded output. Whatever the child prints, each stream of the result encodes to at most
  1048576 bytes of UTF-8, and is the child's output, or a prefix of it followed by the marker.\<close>

theorem process_output_is_bounded:
  assumes "\<forall>c \<in> set out. valid_cp c"
  shows "length (utf8_encode (truncate_output out)) \<le> 1048576 \<and>
    (truncate_output out = out \<or> (\<exists>p. prefix p out \<and> truncate_output out = p @ process_marker))"
  using truncate_text_bound [OF assms process_marker_bound]
  by (simp add: truncate_output_def MAX_OUTPUT_BYTES_def)

theorem process_output_is_bounded_witness:
  "length (utf8_encode (truncate_output [0x4E2D, 65, 0x1F600])) \<le> 1048576"
  using process_output_is_bounded [of "[0x4E2D, 65, 0x1F600]"] by (simp add: valid_cp_def)

section \<open>A concrete execution\<close>

definition demo_process_grant :: cap_grant where
  "demo_process_grant = sign_grant demo_sk (demo_grant\<lparr>cg_target_primitive := ''PROCESS_EXECUTE''\<rparr>)"

definition demo_gate :: process_gate where
  "demo_gate = \<lparr>pg_public_key = demo_vk, pg_bwrap_path = Some ''/usr/bin/bwrap'', pg_bwrap_version_ok = True\<rparr>"

lemma demo_process_verifies: "process_verify demo_vk demo_semantics 110 demo_process_grant = None"
proof -
  have "signature_check demo_vk demo_process_grant = None"
    unfolding demo_process_grant_def by (rule signature_check_signed [OF demo_keys_ok])
  then show ?thesis
    by (simp add: process_verify_None process_primitives_def ttl_check_None demo_process_grant_def sign_grant_def
        demo_grant_def build_grant_def request_hash_def demo_untrusted_def demo_request_def)
qed

lemma demo_started:
  "pr_started (process_execute demo_gate (\<lambda>_. True) ''/'' (\<lambda>_ _ _. Exited 0 [] []) 110 demo_process_grant demo_semantics) =
     Some (build_bwrap_args ''/usr/bin/bwrap'' (\<lambda>_. True) [''/data/a''] ''/'', ''/'', [])"
proof -
  have b: "requires_bwrap demo_semantics"
    by (simp add: requires_bwrap_def demo_semantics_def py_upper_def upper_char_def)
  show ?thesis
    unfolding process_started_iff using b demo_process_verifies
    by (simp add: demo_gate_def command_vector_def demo_semantics_def child_env_def)
qed

theorem process_runs_as_granted_witness:
  "ends_with (build_bwrap_args ''/usr/bin/bwrap'' (\<lambda>_. True) [''/data/a''] ''/'') [''/data/a'']"
  using process_runs_as_granted [OF demo_started] by (simp add: command_vector_def demo_semantics_def)

end
