(* ===== verification/StorageGate.thy ===== *)
theory StorageGate
  imports ProcessGate
begin

text \<open>
  \<open>src/hermes_core/gates/storage_gate.py\<close>. The file system is a parameter: \<open>resolve\<close> is
  \<open>realpath(abspath(p))\<close> at the moment of verification, and the other answers a call gets are the
  fields of \<open>write_env\<close> and \<open>delete_env\<close>. An operation returns its result (\<open>None\<close> when an exception
  leaves it) and the list of its effects on the file system, in order and with the real path each of
  them hits, so that what it does before it refuses is visible, and where. Paths have no null byte.
\<close>

section \<open>Verifying the grant\<close>

definition PROTECTED_PATHS_SUBSTRINGS :: "string list" where
  "PROTECTED_PATHS_SUBSTRINGS =
     [''/MEMORY.md'', ''/USER.md'', ''/SOUL.md'', ''/command_whitelist.json'', ''/.ssh/'', ''/.git/'']"

definition path_bound :: "string \<Rightarrow> string \<Rightarrow> bool" where
  "path_bound target res \<longleftrightarrow> target = res \<or> starts_with target (rstrip_chars ''/'' res @ ''/'')"

definition protected_path :: "string \<Rightarrow> bool" where
  "protected_path target \<longleftrightarrow>
     (\<exists>p \<in> set PROTECTED_PATHS_SUBSTRINGS. contains target p \<or> ends_with target (lstrip_chars ''/'' p))"

definition storage_verify ::
  "verifier \<Rightarrow> (string \<Rightarrow> string) \<Rightarrow> string \<Rightarrow> string \<Rightarrow> time \<Rightarrow> cap_grant \<Rightarrow> verdict" where
  "storage_verify vk resolve target required now g =
     (if cg_target_primitive g \<noteq> required then Some (DENY_UNAUTHORIZED_GRANT, WrongPrimitive)
      else case ttl_check now g of
        Some d \<Rightarrow> Some d
      | None \<Rightarrow>
          (case signature_check vk g of
             Some d \<Rightarrow> Some d
           | None \<Rightarrow>
               (let t = resolve target in
                if \<not> list_ex (path_bound t) (map resolve (cg_resource_binding g))
                  then Some (DENY_POLICY_VIOLATION, ResourceNotBound)
                else if protected_path t \<and> ''CONSTITUTIONAL_MUTATION'' \<notin> set (cg_attenuated_capabilities g)
                  then Some (DENY_POLICY_VIOLATION, ProtectedAsset)
                else None)))"

section \<open>Operations\<close>

datatype content = Text ustr | Raw "nat list"

fun raw_bytes :: "content \<Rightarrow> nat list" where
  "raw_bytes (Text t) = utf8_encode t"
| "raw_bytes (Raw bs) = bs"

datatype open_flag = O_WRONLY | O_NOFOLLOW | O_CREAT | O_EXCL | O_APPEND | O_TRUNC

text \<open>A text with a lone surrogate cannot be encoded.\<close>

fun encodes :: "content \<Rightarrow> bool" where
  "encodes (Text t) = list_all valid_cp t"
| "encodes (Raw bs) = True"

text \<open>Directories asked for, a file opened (with these flags it may be created or emptied), bytes that
  reached it, an entry removed.\<close>

datatype fs_effect =
  MadeParents string | OpenedWith string "open_flag list" | Wrote string "nat list" | Unlinked string

text \<open>An open descriptor: the real path of its file; its kind (a regular file or not) and inode,
  \<open>None\<close> when \<open>fstat\<close> raises; and where its entry in \<open>/proc\<close> leads, \<open>None\<close> when that raises.\<close>

record descriptor =
  fd_real :: string
  fd_stat :: "(bool \<times> int) option"
  fd_proc :: "string option"

text \<open>What the system answers: \<open>we_open\<close> is \<open>None\<close> when \<open>os.open\<close> raises, \<open>we_resolved_after\<close> the target
  resolved anew after the opening (\<open>None\<close>: it raises), \<open>we_write_fails\<close> the number of bytes that
  reached the file before the writing raised.\<close>

record write_env =
  we_is_link :: bool
  we_parent :: string
  we_parent_exists :: bool
  we_makedirs_ok :: bool
  we_open :: "open_flag list \<Rightarrow> descriptor option"
  we_resolved_after :: "string option"
  we_write_fails :: "nat option"
  we_close_ok :: bool

datatype storage_site =
    StorageRefused gate_site | TargetIsSymlink | ParentNotCreated | NotRegular | PathDrift | OsFailure
  | TargetMissing | InodeDrift

record storage_result =
  sr_success :: bool
  sr_bytes_written :: nat
  sr_inode :: "int option"
  sr_error :: "(failure_code \<times> storage_site) option"

definition storage_failed :: "failure_code \<Rightarrow> storage_site \<Rightarrow> storage_result" where
  "storage_failed code site = \<lparr>sr_success = False, sr_bytes_written = 0, sr_inode = None, sr_error = Some (code, site)\<rparr>"

definition write_flags :: "string \<Rightarrow> open_flag list" where
  "write_flags mode = [O_WRONLY, O_NOFOLLOW] @
     (if mode = ''x'' then [O_CREAT, O_EXCL] else if mode = ''a'' then [O_CREAT, O_APPEND] else [O_CREAT, O_TRUNC])"

text \<open>The body of the \<open>try\<close> around the descriptor.\<close>

definition descriptor_write :: "write_env \<Rightarrow> descriptor \<Rightarrow> nat list \<Rightarrow> storage_result \<times> fs_effect list" where
  "descriptor_write env d bs =
     (case fd_stat d of
        None \<Rightarrow> (storage_failed DENY_UNKNOWN_STATE OsFailure, [])
      | Some (regular, ino) \<Rightarrow>
          (if \<not> regular then (storage_failed DENY_POLICY_VIOLATION NotRegular, [])
           else if (case (fd_proc d, we_resolved_after env) of (Some p, Some q) \<Rightarrow> p \<noteq> q | _ \<Rightarrow> False)
             then (storage_failed DENY_POLICY_VIOLATION PathDrift, [])
           else case we_write_fails env of
               Some n \<Rightarrow> (storage_failed DENY_UNKNOWN_STATE OsFailure, [Wrote (fd_real d) (take n bs)])
             | None \<Rightarrow> (\<lparr>sr_success = True, sr_bytes_written = length bs, sr_inode = Some ino, sr_error = None\<rparr>,
                        [Wrote (fd_real d) bs])))"

definition storage_write ::
  "verifier \<Rightarrow> (string \<Rightarrow> string) \<Rightarrow> write_env \<Rightarrow> time \<Rightarrow> cap_grant \<Rightarrow> string \<Rightarrow> content \<Rightarrow> string \<Rightarrow>
   storage_result option \<times> fs_effect list" where
  "storage_write vk resolve env now g target body mode =
     (case storage_verify vk resolve target ''STORAGE_WRITE'' now g of
        Some (code, site) \<Rightarrow> (Some (storage_failed code (StorageRefused site)), [])
      | None \<Rightarrow>
          (if we_is_link env then (Some (storage_failed DENY_POLICY_VIOLATION TargetIsSymlink), [])
           else
             let made = (if we_parent_exists env then [] else [MadeParents (we_parent env)])
             in if \<not> we_parent_exists env \<and> \<not> we_makedirs_ok env
                  then (Some (storage_failed DENY_UNKNOWN_STATE ParentNotCreated), made)
                else if \<not> encodes body then (None, made)
                else
                  let flags = write_flags mode
                  in case we_open env flags of
                       None \<Rightarrow> (Some (storage_failed DENY_UNKNOWN_STATE OsFailure), made)
                     | Some d \<Rightarrow>
                         (case descriptor_write env d (raw_bytes body) of
                            (res, effs) \<Rightarrow>
                              (Some (if we_close_ok env then res else storage_failed DENY_UNKNOWN_STATE OsFailure),
                               made @ OpenedWith (fd_real d) flags # effs))))"

text \<open>\<open>lstat\<close>: it raises, or gives whether the entry is a symbolic link, and its inode. \<open>de_real\<close> is the
  real path of the entry itself.\<close>

record delete_env =
  de_lexists :: bool
  de_lstat :: "(bool \<times> int) option"
  de_real :: string
  de_unlink_ok :: bool

definition storage_delete ::
  "verifier \<Rightarrow> (string \<Rightarrow> string) \<Rightarrow> delete_env \<Rightarrow> time \<Rightarrow> cap_grant \<Rightarrow> string \<Rightarrow> int option \<Rightarrow>
   storage_result \<times> fs_effect list" where
  "storage_delete vk resolve env now g target expected =
     (case storage_verify vk resolve target ''STORAGE_DELETE'' now g of
        Some (code, site) \<Rightarrow> (storage_failed code (StorageRefused site), [])
      | None \<Rightarrow>
          (if \<not> de_lexists env then (storage_failed DENY_POLICY_VIOLATION TargetMissing, [])
           else case de_lstat env of
             None \<Rightarrow> (storage_failed DENY_UNKNOWN_STATE OsFailure, [])
           | Some (link, ino) \<Rightarrow>
               (if link then (storage_failed DENY_POLICY_VIOLATION TargetIsSymlink, [])
                else if (case expected of None \<Rightarrow> False | Some e \<Rightarrow> ino \<noteq> e)
                  then (storage_failed DENY_POLICY_VIOLATION InodeDrift, [])
                else if \<not> de_unlink_ok env then (storage_failed DENY_UNKNOWN_STATE OsFailure, [])
                else (\<lparr>sr_success = True, sr_bytes_written = 0, sr_inode = Some ino, sr_error = None\<rparr>,
                      [Unlinked (de_real env)]))))"

section \<open>Lemmas\<close>

lemma storage_verify_None:
  "storage_verify vk resolve target required now g = None \<longleftrightarrow>
     cg_target_primitive g = required \<and> ttl_check now g = None \<and> signature_check vk g = None \<and>
     (\<exists>r \<in> set (cg_resource_binding g). path_bound (resolve target) (resolve r)) \<and>
     (protected_path (resolve target) \<longrightarrow> ''CONSTITUTIONAL_MUTATION'' \<in> set (cg_attenuated_capabilities g))"
  by (auto simp: storage_verify_def Let_def list_ex_iff split: option.splits)

interpretation sgate: gate
  "\<lambda>vk (resolve, target, required). storage_verify vk resolve target required" "\<lambda>(_, _, required). [required]"
  by unfold_locales (auto simp: storage_verify_None split: prod.splits)

text \<open>A bound path is the resource itself or lies below it: the next character is a separator.\<close>

lemma path_bound_below:
  assumes "path_bound target res" and "res \<noteq> []" and "last res \<noteq> CHR ''/''"
  shows "target = res \<or> (\<exists>rest. target = res @ CHR ''/'' # rest)"
proof -
  have "rev res \<noteq> []" "hd (rev res) \<noteq> CHR ''/''" using assms(2,3) by (simp_all add: hd_rev)
  then have "rstrip_chars ''/'' res = res"
    by (cases "rev res") (auto simp: rstrip_chars_def simp flip: rev_swap)
  with assms(1) show ?thesis by (auto simp: path_bound_def starts_with_iff)
qed

lemma storage_write_effects:
  assumes "eff \<in> set (snd (storage_write vk resolve env now g target body mode))"
  shows "storage_verify vk resolve target ''STORAGE_WRITE'' now g = None \<and> \<not> we_is_link env"
  using assms by (auto simp: storage_write_def split: option.splits prod.splits if_splits)

text \<open>Where bytes were written, and which: the two paths of the check agree, or one of them could not be told.\<close>

definition not_drifted :: "write_env \<Rightarrow> descriptor \<Rightarrow> bool" where
  "not_drifted env d \<longleftrightarrow> (case (fd_proc d, we_resolved_after env) of (Some p, Some q) \<Rightarrow> p = q | _ \<Rightarrow> True)"

lemma descriptor_wrote:
  "Wrote p bs \<in> set (snd (descriptor_write env d bytes)) \<Longrightarrow>
   p = fd_real d \<and> prefix bs bytes \<and> not_drifted env d \<and> (\<exists>ino. fd_stat d = Some (True, ino))"
  by (auto simp: descriptor_write_def not_drifted_def take_is_prefix split: option.splits prod.splits if_splits)

lemma storage_write_wrote:
  assumes "Wrote p bs \<in> set (snd (storage_write vk resolve env now g target body mode))"
  obtains d ino where "we_open env (write_flags mode) = Some d" and "p = fd_real d" and "prefix bs (raw_bytes body)"
    and "not_drifted env d" and "fd_stat d = Some (True, ino)"
proof -
  from assms obtain d where "we_open env (write_flags mode) = Some d" "Wrote p bs \<in> set (snd (descriptor_write env d (raw_bytes body)))"
    by (auto simp: storage_write_def Let_def split: option.splits prod.splits if_splits)
  with descriptor_wrote [OF this(2)] that show thesis by blast
qed

lemma storage_write_removes_nothing:
  "Unlinked p \<notin> set (snd (storage_write vk resolve env now g target body mode))"
  by (simp add: storage_write_def descriptor_write_def Let_def split: option.split prod.split)

lemma storage_deleted:
  assumes "eff \<in> set (snd (storage_delete vk resolve env now g target expected))"
  shows "storage_verify vk resolve target ''STORAGE_DELETE'' now g = None \<and> eff = Unlinked (de_real env) \<and>
    (\<exists>ino. de_lstat env = Some (False, ino) \<and> expected \<in> {None, Some ino})"
  using assms by (auto simp: storage_delete_def split: option.splits prod.splits if_splits)

section \<open>Properties\<close>

text \<open>Writes are confined. A write that touches the file system at all holds an accepted
  \<open>STORAGE_WRITE\<close> grant binding a resource that is the resolved target or an ancestor of it, the
  target is no symbolic link, and it is no protected asset unless the grant carries
  \<open>CONSTITUTIONAL_MUTATION\<close>; bytes are written only to a regular file found, where that can be
  told, under the path resolved after the opening, and they are a beginning of the content.\<close>

theorem writes_are_confined:
  assumes "eff \<in> set (snd (storage_write vk resolve env now g target body mode))"
  shows "signature_check vk g = None \<and> ttl_check now g = None \<and> cg_target_primitive g = ''STORAGE_WRITE'' \<and>
    (\<exists>r \<in> set (cg_resource_binding g). path_bound (resolve target) (resolve r)) \<and>
    (protected_path (resolve target) \<longrightarrow> ''CONSTITUTIONAL_MUTATION'' \<in> set (cg_attenuated_capabilities g)) \<and>
    \<not> we_is_link env \<and>
    (\<forall>p bs. eff = Wrote p bs \<longrightarrow> prefix bs (raw_bytes body) \<and>
       (\<exists>d ino. we_open env (write_flags mode) = Some d \<and> p = fd_real d \<and> fd_stat d = Some (True, ino) \<and> not_drifted env d))"
  using storage_write_effects [OF assms] assms
  by (auto simp: storage_verify_None elim: storage_write_wrote)

text \<open>A write that reports success has opened the file and written the whole content, and nothing else
  but directories was touched; one that reports a failure may have written a part of it.\<close>

theorem successful_writes_are_complete:
  assumes "storage_write vk resolve env now g target body mode = (Some res, effs)" and "sr_success res"
  shows "\<exists>d. we_open env (write_flags mode) = Some d \<and> sr_bytes_written res = length (raw_bytes body) \<and>
    effs = (if we_parent_exists env then [] else [MadeParents (we_parent env)]) @
      [OpenedWith (fd_real d) (write_flags mode), Wrote (fd_real d) (raw_bytes body)]"
  using assms
  by (auto simp: storage_write_def descriptor_write_def storage_failed_def Let_def
      split: option.splits prod.splits if_splits)

text \<open>Deletions are confined and anchored. A deletion that unlinks holds an accepted
  \<open>STORAGE_DELETE\<close> grant bound to the resolved target, the entry exists and is no symbolic link,
  its inode is the expected one when one was given, and the result reports it; a deletion that
  does not succeed unlinks nothing.\<close>

theorem deletions_are_confined:
  "(case storage_delete vk resolve env now g target expected of (res, effs) \<Rightarrow>
      (effs = [Unlinked (de_real env)] \<and> sr_success res \<and> sr_error res = None \<and>
         storage_verify vk resolve target ''STORAGE_DELETE'' now g = None \<and> de_lexists env \<and> de_unlink_ok env \<and>
         (\<exists>ino. de_lstat env = Some (False, ino) \<and> sr_inode res = Some ino \<and> expected \<in> {None, Some ino}))
      \<noteq> (effs = [] \<and> \<not> sr_success res \<and> sr_error res \<noteq> None))"
  by (auto simp: storage_delete_def storage_failed_def split: option.splits prod.splits if_splits)

text \<open>A refused write may already have destroyed the file. In the default mode the file is opened
  with \<open>O_TRUNC\<close> before its kind and its path are checked: when the descriptor's path has drifted
  the gate refuses, but the truncating open is among the effects, at the drifted path.\<close>

theorem refused_write_truncates:
  assumes "storage_verify vk resolve target ''STORAGE_WRITE'' now g = None"
    and "\<not> we_is_link env" and "we_parent_exists env" and "encodes body" and "we_close_ok env"
    and "we_open env (write_flags ''w'') = Some d" and "fd_stat d = Some (True, ino)"
    and "fd_proc d = Some (fd_real d)" and "we_resolved_after env = Some q" and "fd_real d \<noteq> q"
  shows "storage_write vk resolve env now g target body ''w'' =
    (Some (storage_failed DENY_POLICY_VIOLATION PathDrift), [OpenedWith (fd_real d) [O_WRONLY, O_NOFOLLOW, O_CREAT, O_TRUNC]])"
proof -
  have f: "write_flags ''w'' = [O_WRONLY, O_NOFOLLOW, O_CREAT, O_TRUNC]" by (simp add: write_flags_def)
  show ?thesis using assms by (simp add: storage_write_def descriptor_write_def f)
qed

text \<open>The check after the opening resolves the target anew instead of comparing with the path that was
  verified: when a directory on the way is swapped between verification and opening, both paths of
  the check lead through the new one, and the content is written outside the verified path.\<close>

theorem swapped_parent_is_not_noticed:
  assumes "storage_verify vk resolve target ''STORAGE_WRITE'' now g = None"
    and "\<not> we_is_link env" and "we_parent_exists env" and "encodes body" and "we_close_ok env" and "we_write_fails env = None"
    and "we_open env (write_flags mode) = Some d" and "fd_stat d = Some (True, ino)"
    and "fd_proc d = Some (fd_real d)" and "we_resolved_after env = Some (fd_real d)" and "fd_real d \<noteq> resolve target"
  shows "\<exists>res. fst (storage_write vk resolve env now g target body mode) = Some res \<and> sr_success res \<and>
    Wrote (fd_real d) (raw_bytes body) \<in> set (snd (storage_write vk resolve env now g target body mode))"
  using assms by (simp add: storage_write_def descriptor_write_def)

section \<open>A concrete write\<close>

definition demo_storage_grant :: cap_grant where
  "demo_storage_grant = sign_grant demo_sk (demo_grant\<lparr>cg_target_primitive := ''STORAGE_WRITE''\<rparr>)"

definition demo_write_env :: "string \<Rightarrow> string \<Rightarrow> write_env" where
  "demo_write_env p q = \<lparr>we_is_link = False, we_parent = ''/data'', we_parent_exists = True, we_makedirs_ok = True,
     we_open = (\<lambda>_. Some \<lparr>fd_real = p, fd_stat = Some (True, 7), fd_proc = Some p\<rparr>),
     we_resolved_after = Some q, we_write_fails = None, we_close_ok = True\<rparr>"

lemma demo_storage_verifies: "storage_verify demo_vk (\<lambda>p. p) ''/data/a'' ''STORAGE_WRITE'' 110 demo_storage_grant = None"
proof -
  have "signature_check demo_vk demo_storage_grant = None"
    unfolding demo_storage_grant_def by (rule signature_check_signed [OF demo_keys_ok])
  moreover have "\<not> protected_path ''/data/a''"
    by (simp add: protected_path_def PROTECTED_PATHS_SUBSTRINGS_def starts_with_def ends_with_def lstrip_chars_def)
  moreover have "path_bound ''/data/a'' ''/data''"
    by (simp add: path_bound_def starts_with_def rstrip_chars_def)
  ultimately show ?thesis
    by (simp add: storage_verify_None ttl_check_None demo_storage_grant_def sign_grant_def
        demo_grant_def build_grant_def demo_manifest_def)
qed

lemma demo_storage_write:
  "storage_write demo_vk (\<lambda>p. p) (demo_write_env ''/data/a'' ''/data/a'') 110 demo_storage_grant ''/data/a'' (Text [65]) ''w'' =
     (Some \<lparr>sr_success = True, sr_bytes_written = 1, sr_inode = Some 7, sr_error = None\<rparr>,
      [OpenedWith ''/data/a'' [O_WRONLY, O_NOFOLLOW, O_CREAT, O_TRUNC], Wrote ''/data/a'' [65]])"
  by (simp add: storage_write_def descriptor_write_def demo_storage_verifies demo_write_env_def write_flags_def enc_cp_def valid_cp_def)

theorem writes_are_confined_witness:
  "\<exists>r \<in> set (cg_resource_binding demo_storage_grant). path_bound ''/data/a'' r"
proof -
  have "Wrote ''/data/a'' [65] \<in> set (snd (storage_write demo_vk (\<lambda>p. p) (demo_write_env ''/data/a'' ''/data/a'') 110
      demo_storage_grant ''/data/a'' (Text [65]) ''w''))"
    by (simp add: demo_storage_write)
  from writes_are_confined [OF this] show ?thesis by simp
qed

theorem successful_writes_are_complete_witness:
  "\<exists>d. we_open (demo_write_env ''/data/a'' ''/data/a'') (write_flags ''w'') = Some d \<and> fd_real d = ''/data/a''"
  using successful_writes_are_complete [OF demo_storage_write] by auto

theorem refused_write_truncates_witness:
  "storage_write demo_vk (\<lambda>p. p) (demo_write_env ''/etc/passwd'' ''/data/a'') 110 demo_storage_grant ''/data/a'' (Text [65]) ''w'' =
     (Some (storage_failed DENY_POLICY_VIOLATION PathDrift), [OpenedWith ''/etc/passwd'' [O_WRONLY, O_NOFOLLOW, O_CREAT, O_TRUNC]])"
  using refused_write_truncates [OF demo_storage_verifies, of "demo_write_env ''/etc/passwd'' ''/data/a''" "Text [65]"]
  by (simp add: demo_write_env_def valid_cp_def)

theorem swapped_parent_is_not_noticed_witness:
  "Wrote ''/etc/passwd'' [65] \<in> set (snd (storage_write demo_vk (\<lambda>p. p) (demo_write_env ''/etc/passwd'' ''/etc/passwd'') 110
     demo_storage_grant ''/data/a'' (Text [65]) ''w''))"
  using swapped_parent_is_not_noticed [OF demo_storage_verifies, of "demo_write_env ''/etc/passwd'' ''/etc/passwd''" "Text [65]" "''w''"
      "\<lparr>fd_real = ''/etc/passwd'', fd_stat = Some (True, 7), fd_proc = Some ''/etc/passwd''\<rparr>" 7]
  by (auto simp: demo_write_env_def valid_cp_def enc_cp_def)

end
