(* ===== verification/PyUrl.thy ===== *)
theory PyUrl
  imports PyText "HOL-Library.Word"
begin

text \<open>
  What the network gate uses of \<open>urllib.parse\<close> and \<open>ipaddress\<close>: the network location of a URL with
  its host name and port, and the classification of IPv4 addresses. Whether a bracketed host is a
  valid IPv6 literal, and how IPv6 addresses are classified, is a parameter.
\<close>

section \<open>URLs\<close>

record url_parts =
  up_netloc :: string
  up_hostname :: string
  up_port_text :: string

definition scheme_char :: "char \<Rightarrow> bool" where
  "scheme_char c \<longleftrightarrow> c \<in> set ''abcdefghijklmnopqrstuvwxyzABCDEFGHIJKLMNOPQRSTUVWXYZ0123456789+-.''"

definition ascii_alpha :: "char \<Rightarrow> bool" where
  "ascii_alpha c \<longleftrightarrow> c \<in> set ''abcdefghijklmnopqrstuvwxyzABCDEFGHIJKLMNOPQRSTUVWXYZ''"

text \<open>Leading controls and blanks are dropped, tabs and line ends removed anywhere.\<close>

definition clean_url :: "string \<Rightarrow> string" where
  "clean_url u = filter (\<lambda>c. c \<notin> {CHR 0x09, CHR 0x0A, CHR 0x0D})
     (dropWhile (\<lambda>c. (of_char c :: nat) \<le> 32) u)"

definition after_scheme :: "string \<Rightarrow> string" where
  "after_scheme u =
     (case partition_at CHR '':'' u of
        (s, found, rest) \<Rightarrow> if found \<and> s \<noteq> [] \<and> ascii_alpha (hd s) \<and> list_all scheme_char s then rest else u)"

definition netloc_of :: "string \<Rightarrow> string" where
  "netloc_of u =
     (let r = after_scheme (clean_url u)
      in if starts_with r ''//'' then takeWhile (\<lambda>c. c \<notin> set ''/?#'') (drop 2 r) else [])"

text \<open>\<open>hostname\<close> and \<open>port\<close> of the location: user information up to the last at-sign is dropped, a
  bracketed host keeps its colons, a zone identifier its case. The empty text stands for no
  host. \<open>None\<close>: \<open>urlparse\<close> raises \<open>ValueError\<close>.\<close>

definition lower_before_zone :: "string \<Rightarrow> string" where
  "lower_before_zone h =
     (case partition_at CHR ''%'' h of (a, found, z) \<Rightarrow> py_lower a @ (if found then CHR ''%'' # z else []))"

definition urlparse :: "(string \<Rightarrow> bool) \<Rightarrow> string \<Rightarrow> url_parts option" where
  "urlparse ok6 u =
     (let netloc = netloc_of u;
          hp = snd (snd (rpartition_at CHR ''@'' netloc));
          opened = (CHR ''['' \<in> set netloc); closed = (CHR '']'' \<in> set netloc)
      in if opened \<noteq> closed then None
         else case partition_at CHR ''['' hp of
           (pfx, True, bracketed) \<Rightarrow>
             (case partition_at CHR '']'' bracketed of
                (h, _, port) \<Rightarrow>
                  if pfx \<noteq> [] \<or> (port \<noteq> [] \<and> hd port \<noteq> CHR '':'') \<or> \<not> ok6 h then None
                  else Some \<lparr>up_netloc = netloc, up_hostname = lower_before_zone h,
                             up_port_text = snd (snd (partition_at CHR '':'' port))\<rparr>)
         | (_, False, _) \<Rightarrow>
             (case partition_at CHR '':'' hp of
                (h, _, port) \<Rightarrow>
                  if opened \<and> \<not> ok6 h then None
                  else Some \<lparr>up_netloc = netloc, up_hostname = lower_before_zone h, up_port_text = port\<rparr>))"

text \<open>\<open>port\<close>: absent, a number up to 65535, or \<open>ValueError\<close> (the outer \<open>None\<close>).\<close>

definition url_port :: "url_parts \<Rightarrow> nat option option" where
  "url_port p =
     (if up_port_text p = [] then Some None
      else if \<not> list_all is_digit (up_port_text p) then None
      else case nat_of_digits (up_port_text p) of
        None \<Rightarrow> None
      | Some n \<Rightarrow> if n \<le> 65535 then Some (Some n) else None)"

section \<open>Addresses\<close>

type_synonym ipv4 = "32 word"

definition parse_octet :: "string \<Rightarrow> nat option" where
  "parse_octet s =
     (if s = [] \<or> \<not> list_all is_digit s \<or> 3 < length s \<or> (s \<noteq> ''0'' \<and> hd s = CHR ''0'') then None
      else case nat_of_digits s of None \<Rightarrow> None | Some n \<Rightarrow> if n \<le> 255 then Some n else None)"

definition parse_ipv4 :: "string \<Rightarrow> ipv4 option" where
  "parse_ipv4 s =
     (case map parse_octet (split_on CHR ''.'' s) of
        [Some a, Some b, Some c, Some d] \<Rightarrow> Some (of_nat (((a * 256 + b) * 256 + c) * 256 + d))
      | _ \<Rightarrow> None)"

definition ipv4_of :: "nat \<Rightarrow> nat \<Rightarrow> nat \<Rightarrow> nat \<Rightarrow> ipv4" where
  "ipv4_of a b c d = of_nat (((a * 256 + b) * 256 + c) * 256 + d)"

definition in_net :: "ipv4 \<Rightarrow> nat \<Rightarrow> ipv4 \<Rightarrow> bool" where
  "in_net base p w \<longleftrightarrow> drop_bit (32 - p) w = drop_bit (32 - p) base"

definition private_nets :: "(ipv4 \<times> nat) list" where
  "private_nets =
     [(ipv4_of 0 0 0 0, 8), (ipv4_of 10 0 0 0, 8), (ipv4_of 127 0 0 0, 8), (ipv4_of 169 254 0 0, 16),
      (ipv4_of 172 16 0 0, 12), (ipv4_of 192 0 0 0, 24), (ipv4_of 192 0 0 170, 31), (ipv4_of 192 0 2 0, 24),
      (ipv4_of 192 168 0 0, 16), (ipv4_of 198 18 0 0, 15), (ipv4_of 198 51 100 0, 24),
      (ipv4_of 203 0 113 0, 24), (ipv4_of 240 0 0 0, 4), (ipv4_of 255 255 255 255, 32)]"

definition private_exceptions :: "(ipv4 \<times> nat) list" where
  "private_exceptions = [(ipv4_of 192 0 0 9, 32), (ipv4_of 192 0 0 10, 32)]"

definition in_nets :: "(ipv4 \<times> nat) list \<Rightarrow> ipv4 \<Rightarrow> bool" where
  "in_nets ns w \<longleftrightarrow> list_ex (\<lambda>(b, p). in_net b p w) ns"

record ip_info =
  ip_text :: string
  ip_private :: bool
  ip_loopback :: bool
  ip_link_local :: bool
  ip_reserved :: bool

definition ipv4_info :: "string \<Rightarrow> ipv4 \<Rightarrow> ip_info" where
  "ipv4_info s w =
     \<lparr>ip_text = s, ip_private = (in_nets private_nets w \<and> \<not> in_nets private_exceptions w),
      ip_loopback = in_net (ipv4_of 127 0 0 0) 8 w, ip_link_local = in_net (ipv4_of 169 254 0 0) 16 w,
      ip_reserved = in_net (ipv4_of 240 0 0 0) 4 w\<rparr>"

definition ip_address :: "(string \<Rightarrow> ip_info option) \<Rightarrow> string \<Rightarrow> ip_info option" where
  "ip_address v6 s = (case parse_ipv4 s of Some w \<Rightarrow> Some (ipv4_info s w) | None \<Rightarrow> v6 s)"

end
