(* ===== verification/PyRegex.thy ===== *)
theory PyRegex
  imports PyText PyUtf8
begin

text \<open>
  The part of Python's \<open>re\<close> the sources use, over text as a list of code points: a backtracking
  matcher that gives every way a pattern can match from a position, in the order the engine tries
  them, so that the first one is the match \<open>re\<close> reports; \<open>search\<close> and \<open>sub\<close> are built on it.

  \<open>\w\<close>, \<open>\d\<close> and \<open>\b\<close> are exact below 256; above, the Unicode database is a parameter
  (\<open>uni\<close>: which code points are alphanumeric). Repetitions run until the text is used up, as
  every repeated group of the sources consumes at least one character.
\<close>

section \<open>Characters\<close>

type_synonym uni = "nat \<Rightarrow> bool"

definition u_space :: "nat \<Rightarrow> bool" where
  "u_space c \<longleftrightarrow>
     (if c < 128 then c = 32 \<or> (9 \<le> c \<and> c \<le> 13) \<or> (28 \<le> c \<and> c \<le> 31)
      else c \<in> {0x85, 0xA0, 0x1680, 0x2028, 0x2029, 0x202F, 0x205F, 0x3000} \<or> (0x2000 \<le> c \<and> c \<le> 0x200A))"

definition u_digit :: "nat \<Rightarrow> bool" where
  "u_digit c \<longleftrightarrow> 48 \<le> c \<and> c \<le> 57"

definition u_word :: "uni \<Rightarrow> nat \<Rightarrow> bool" where
  "u_word un c \<longleftrightarrow>
     (if c < 128 then u_digit c \<or> (65 \<le> c \<and> c \<le> 90) \<or> c = 95 \<or> (97 \<le> c \<and> c \<le> 122)
      else if c < 256 then c \<in> {0xAA, 0xB2, 0xB3, 0xB5, 0xB9, 0xBA, 0xBC, 0xBD, 0xBE} \<or> (0xC0 \<le> c \<and> c \<noteq> 0xD7 \<and> c \<noteq> 0xF7)
      else un c)"

definition u_str :: "string \<Rightarrow> ustr" where
  "u_str s = map of_char s"

text \<open>\<open>s.encode("utf-8")\<close> of Latin-1 text.\<close>

definition encoded :: "string \<Rightarrow> bytes" where
  "encoded s = map char_of (utf8_encode (u_str s))"

text \<open>\<open>re.IGNORECASE\<close> for the ASCII letters of a pattern, with the four non-ASCII code points that
  fold onto them.\<close>

definition swap_case :: "nat \<Rightarrow> nat" where
  "swap_case c = (if 65 \<le> c \<and> c \<le> 90 then c + 32 else if 97 \<le> c \<and> c \<le> 122 then c - 32 else c)"

definition ci :: "(nat \<Rightarrow> bool) \<Rightarrow> nat \<Rightarrow> bool" where
  "ci P c \<longleftrightarrow>
     (if c < 128 then P c \<or> P (swap_case c)
      else P c \<or> (c = 0x17F \<and> (P 115 \<or> P 83)) \<or> (c = 0x212A \<and> (P 107 \<or> P 75)) \<or>
        (c \<in> {0x130, 0x131} \<and> (P 105 \<or> P 73)))"

definition any_of :: "string \<Rightarrow> nat \<Rightarrow> bool" where
  "any_of cs c \<longleftrightarrow> c \<in> set (u_str cs)"

definition alnum_ascii :: "nat \<Rightarrow> bool" where
  "alnum_ascii c \<longleftrightarrow> u_digit c \<or> (65 \<le> c \<and> c \<le> 90) \<or> (97 \<le> c \<and> c \<le> 122)"

section \<open>Patterns\<close>

datatype regex =
    Eps
  | Cls "nat \<Rightarrow> bool"
  | Seq regex regex
  | Alt regex regex
  | Rep regex nat "nat option" bool
  | Grp nat regex
  | WordB
  | LineEnd
  | TextStart
  | Ahead regex

text \<open>A position: the text before it (nearest first), the text after it, and the groups set so far,
  each with the positions where it opened and closed, counted from the end.\<close>

type_synonym pos = "nat list \<times> nat list \<times> (nat \<times> nat list) list"

fun iter :: "nat \<Rightarrow> (pos \<Rightarrow> pos list) \<Rightarrow> nat \<Rightarrow> nat option \<Rightarrow> bool \<Rightarrow> pos \<Rightarrow> pos list" where
  "iter 0 f mn mx gr s = (if mn = 0 then [s] else [])"
| "iter (Suc k) f mn mx gr s =
     (let more = (if mx = Some 0 then []
                  else concat (map (iter k f (mn - 1) (map_option (\<lambda>x. x - 1) mx) gr)
                         (filter (\<lambda>s'. length (fst (snd s')) < length (fst (snd s))) (f s))));
          stop = (if mn = 0 then [s] else [])
      in if gr then more @ stop else stop @ more)"

definition at_boundary :: "uni \<Rightarrow> nat list \<Rightarrow> nat list \<Rightarrow> bool" where
  "at_boundary un pre rest \<longleftrightarrow>
     (pre \<noteq> [] \<and> u_word un (hd pre)) \<noteq> (rest \<noteq> [] \<and> u_word un (hd rest))"

primrec ways :: "uni \<Rightarrow> regex \<Rightarrow> pos \<Rightarrow> pos list" where
  "ways un Eps s = [s]"
| "ways un (Cls P) s =
     (case s of (pre, rest, gs) \<Rightarrow> (case rest of [] \<Rightarrow> [] | c # r \<Rightarrow> if P c then [(c # pre, r, gs)] else []))"
| "ways un (Seq a b) s = concat (map (ways un b) (ways un a s))"
| "ways un (Alt a b) s = ways un a s @ ways un b s"
| "ways un (Rep r mn mx gr) s = iter (Suc (length (fst (snd s)))) (ways un r) mn mx gr s"
| "ways un (Grp i r) s =
     (case s of (pre, rest, gs) \<Rightarrow>
        map (\<lambda>(pre', rest', gs'). (pre', rest', (i, take (length rest - length rest') rest) # gs')) (ways un r s))"
| "ways un WordB s = (case s of (pre, rest, gs) \<Rightarrow> if at_boundary un pre rest then [s] else [])"
| "ways un LineEnd s = (case s of (pre, rest, gs) \<Rightarrow> if rest = [] \<or> rest = [10] then [s] else [])"
| "ways un TextStart s = (if fst s = [] then [s] else [])"
| "ways un (Ahead r) s = (if ways un r s = [] then [] else [s])"

text \<open>The first way from a position: how many characters it takes, and its groups.\<close>

definition match_at :: "uni \<Rightarrow> regex \<Rightarrow> nat list \<Rightarrow> nat list \<Rightarrow> (nat \<times> (nat \<times> nat list) list) option" where
  "match_at un r pre rest =
     (case ways un r (pre, rest, []) of
        [] \<Rightarrow> None
      | (pre', rest', gs) # _ \<Rightarrow> Some (length rest - length rest', gs))"

definition group :: "(nat \<times> nat list) list \<Rightarrow> nat \<Rightarrow> ustr" where
  "group gs i = (case map_of gs i of None \<Rightarrow> [] | Some s \<Rightarrow> s)"

fun search_from :: "uni \<Rightarrow> regex \<Rightarrow> nat list \<Rightarrow> nat list \<Rightarrow> (ustr \<times> (nat \<times> nat list) list) option" where
  "search_from un r pre [] = map_option (\<lambda>(n, gs). ([], gs)) (match_at un r pre [])"
| "search_from un r pre (c # rest) =
     (case match_at un r pre (c # rest) of
        Some (n, gs) \<Rightarrow> Some (take n (c # rest), gs)
      | None \<Rightarrow> search_from un r (c # pre) rest)"

definition re_search :: "uni \<Rightarrow> regex \<Rightarrow> ustr \<Rightarrow> (ustr \<times> (nat \<times> nat list) list) option" where
  "re_search un r s = search_from un r [] s"

text \<open>\<open>pattern.sub(repl, s)\<close> for patterns that match no empty text.\<close>

function sub_from :: "uni \<Rightarrow> regex \<Rightarrow> (ustr \<Rightarrow> (nat \<times> nat list) list \<Rightarrow> ustr) \<Rightarrow> nat list \<Rightarrow> nat list \<Rightarrow> ustr" where
  "sub_from un r f pre [] = []"
| "sub_from un r f pre (c # rest) =
     (case match_at un r pre (c # rest) of
        None \<Rightarrow> c # sub_from un r f (c # pre) rest
      | Some (n, gs) \<Rightarrow>
          (if n = 0 then c # sub_from un r f (c # pre) rest
           else f (take n (c # rest)) gs @
                sub_from un r f (rev (take n (c # rest)) @ pre) (drop n (c # rest))))"
  by pat_completeness auto
termination
  by (relation "measure (\<lambda>(un, r, f, pre, rest). length rest)") auto

definition re_sub :: "uni \<Rightarrow> regex \<Rightarrow> (ustr \<Rightarrow> (nat \<times> nat list) list \<Rightarrow> ustr) \<Rightarrow> ustr \<Rightarrow> ustr" where
  "re_sub un r f s = sub_from un r f [] s"

text \<open>The matches from left to right, each with the text skipped before it, its own text and its groups,
  and the text after the last: what \<open>split\<close>, \<open>findall\<close> and \<open>finditer\<close> go through.\<close>

function scan_from ::
  "uni \<Rightarrow> regex \<Rightarrow> nat list \<Rightarrow> ustr \<Rightarrow> nat list \<Rightarrow> (ustr \<times> ustr \<times> (nat \<times> nat list) list) list \<times> ustr" where
  "scan_from un r pre gap [] = ([], rev gap)"
| "scan_from un r pre gap (c # rest) =
     (case match_at un r pre (c # rest) of
        None \<Rightarrow> scan_from un r (c # pre) (c # gap) rest
      | Some (n, gs) \<Rightarrow>
          (if n = 0 then scan_from un r (c # pre) (c # gap) rest
           else case scan_from un r (rev (take n (c # rest)) @ pre) [] (drop n (c # rest)) of
                  (ms, fin) \<Rightarrow> ((rev gap, take n (c # rest), gs) # ms, fin)))"
  by pat_completeness auto
termination
  by (relation "measure (\<lambda>(un, r, pre, gap, rest). length rest)") auto

definition re_split :: "uni \<Rightarrow> regex \<Rightarrow> ustr \<Rightarrow> ustr list" where
  "re_split un r s = (case scan_from un r [] [] s of (ms, fin) \<Rightarrow> map fst ms @ [fin])"

definition re_findall :: "uni \<Rightarrow> regex \<Rightarrow> nat \<Rightarrow> ustr \<Rightarrow> ustr list" where
  "re_findall un r g s = map (\<lambda>(gap, txt, gs). group gs g) (fst (scan_from un r [] [] s))"

definition re_found :: "uni \<Rightarrow> regex \<Rightarrow> ustr \<Rightarrow> bool" where
  "re_found un r s \<longleftrightarrow> re_search un r s \<noteq> None"

section \<open>Building patterns\<close>

fun seqs :: "regex list \<Rightarrow> regex" where
  "seqs [] = Eps"
| "seqs [r] = r"
| "seqs (r # rs) = Seq r (seqs rs)"

fun alts :: "regex list \<Rightarrow> regex" where
  "alts [] = Cls (\<lambda>_. False)"
| "alts [r] = r"
| "alts (r # rs) = Alt r (alts rs)"

definition lit :: "string \<Rightarrow> regex" where
  "lit s = seqs (map (\<lambda>c. Cls (\<lambda>x. x = of_char c)) s)"

definition lit_ci :: "string \<Rightarrow> regex" where
  "lit_ci s = seqs (map (\<lambda>c. Cls (ci (\<lambda>x. x = of_char c))) s)"

definition cps :: "ustr \<Rightarrow> regex" where
  "cps s = seqs (map (\<lambda>c. Cls (\<lambda>x. x = c)) s)"

definition none_of :: "string \<Rightarrow> nat \<Rightarrow> bool" where
  "none_of cs c \<longleftrightarrow> \<not> any_of cs c"

definition word_b :: "regex \<Rightarrow> regex" where "word_b r = seqs [WordB, r, WordB]"

definition opt :: "regex \<Rightarrow> regex" where "opt r = Rep r 0 (Some 1) True"
definition star :: "regex \<Rightarrow> regex" where "star r = Rep r 0 None True"
definition plus :: "regex \<Rightarrow> regex" where "plus r = Rep r 1 None True"
definition at_least :: "nat \<Rightarrow> regex \<Rightarrow> regex" where "at_least n r = Rep r n None True"
definition exactly :: "nat \<Rightarrow> regex \<Rightarrow> regex" where "exactly n r = Rep r n (Some n) True"
definition between :: "nat \<Rightarrow> nat \<Rightarrow> regex \<Rightarrow> regex" where "between m n r = Rep r m (Some n) True"
definition space :: regex where "space = Cls u_space"

section \<open>Lemmas\<close>

text \<open>Where nothing is found nothing is replaced.\<close>

lemma search_from_Nil_sub: "search_from un r pre s = None \<Longrightarrow> sub_from un r f pre s = s"
  by (induction s arbitrary: pre) (auto split: option.splits prod.splits)

lemma re_sub_not_found: "\<not> re_found un r s \<Longrightarrow> re_sub un r f s = s"
  using search_from_Nil_sub [of un r "[]" s f] unfolding re_found_def re_search_def re_sub_def by blast

text \<open>Every way moves forward over the same text.\<close>

definition ahead :: "pos \<Rightarrow> pos \<Rightarrow> bool" where
  "ahead s s' \<longleftrightarrow> rev (fst s') @ fst (snd s') = rev (fst s) @ fst (snd s) \<and>
     length (fst (snd s')) \<le> length (fst (snd s))"

lemma ahead_refl [simp]: "ahead s s"
  by (simp add: ahead_def)

lemma ahead_trans: "ahead a b \<Longrightarrow> ahead b c \<Longrightarrow> ahead a c"
  by (simp add: ahead_def)


end
