(* ===== verification/NetworkGate.thy ===== *)
theory NetworkGate
  imports StorageGate PyUrl PyRegex
begin

text \<open>
  \<open>src/hermes_core/gates/network_gate.py\<close>. Parameters: the name resolver, the classification of
  IPv6 addresses (\<open>v6\<close>, with \<open>ok6\<close> for bracketed hosts), the Unicode database of the redaction
  patterns (\<open>un\<close>), and what the server answers. A result keeps the request handed to \<open>urlopen\<close>,
  \<open>None\<close> when none was. The set of resolved addresses is a list in the order Python iterates it.
\<close>

section \<open>Constants\<close>

definition MAX_RESPONSE_BYTES :: nat where "MAX_RESPONSE_BYTES = 1024 * 1024"

definition METADATA_IPS :: "string list" where
  "METADATA_IPS = [''169.254.169.254'', ''metadata.google.internal'', ''100.100.100.200'']"

definition SENSITIVE_HEADER_KEYS :: "string list" where
  "SENSITIVE_HEADER_KEYS =
     [''authorization'', ''proxy-authorization'', ''cookie'', ''set-cookie'', ''x-api-key'', ''api-key'',
      ''x-auth-token'', ''token'']"

text \<open>A quote, optional; the key; blanks, a separator, blanks and a quote.\<close>

definition quote_opt :: regex where "quote_opt = opt (Cls (any_of [CHR 0x27, CHR 0x22]))"

definition assignment :: regex where
  "assignment = seqs [quote_opt, star space, Cls (any_of '':=''), star space, quote_opt]"

definition token_tail :: regex where
  "token_tail = at_least 16 (Cls (ci (\<lambda>c. alnum_ascii c \<or> any_of ''_-'' c)))"

definition keyed :: "regex \<Rightarrow> regex \<Rightarrow> regex" where
  "keyed key tail = Seq (Grp 1 (seqs [quote_opt, key, assignment])) tail"

definition SECRET_PATTERNS :: "regex list" where
  "SECRET_PATTERNS =
     [Seq (Grp 1 (Seq (lit_ci ''bearer'') (plus space))) (at_least 16 (Cls (ci (\<lambda>c. alnum_ascii c \<or> any_of ''._-'' c)))),
      keyed (seqs [lit_ci ''api'', opt (Cls (any_of ''_-'')), lit_ci ''key'']) token_tail,
      keyed (lit_ci ''secret'') token_tail,
      keyed (lit_ci ''token'') token_tail,
      keyed (lit_ci ''password'') (plus (Cls (\<lambda>c. \<not> u_space c \<and> \<not> any_of [CHR 0x27, CHR 0x22, CHR '','', CHR ''}''] c))),
      seqs [WordB, Grp 1 (Seq (lit ''sk-'') (at_least 20 (Cls (\<lambda>c. alnum_ascii c \<or> any_of ''_-'' c)))), WordB]]"

section \<open>Verifying the grant\<close>

definition network_primitives :: "string list" where
  "network_primitives = [''NETWORK_REQUEST'', ''NETWORK_EGRESS'']"

definition host_bound :: "string \<Rightarrow> string \<Rightarrow> string \<Rightarrow> bool" where
  "host_bound host url res \<longleftrightarrow>
     host = res \<or> ends_with host (CHR ''.'' # lstrip_chars ''*.'' res) \<or> starts_with url res"

text \<open>A URL \<open>urlparse\<close> refuses raises out of the gate; here it is a refusal with the same site.\<close>

definition network_verify :: "verifier \<Rightarrow> (string \<Rightarrow> bool) \<Rightarrow> string \<Rightarrow> time \<Rightarrow> cap_grant \<Rightarrow> verdict" where
  "network_verify vk ok6 url now g =
     (if cg_target_primitive g \<notin> set network_primitives then Some (DENY_UNAUTHORIZED_GRANT, WrongPrimitive)
      else case ttl_check now g of
        Some d \<Rightarrow> Some d
      | None \<Rightarrow>
          (case signature_check vk g of
             Some d \<Rightarrow> Some d
           | None \<Rightarrow>
               (case urlparse ok6 url of
                  None \<Rightarrow> Some (DENY_UNKNOWN_STATE, UrlRaises)
                | Some p \<Rightarrow>
                   (if up_hostname p = [] then Some (DENY_POLICY_VIOLATION, MissingHost)
                    else if \<not> list_ex (host_bound (up_hostname p) url) (cg_resource_binding g)
                      then Some (DENY_POLICY_VIOLATION, ResourceNotBound)
                    else None))))"

section \<open>SSRF\<close>

record network_gate =
  ng_public_key :: verifier
  ng_internal_whitelist :: "string list"
  ng_resolver :: "string \<Rightarrow> string list option"
  ng_v6 :: "string \<Rightarrow> ip_info option"
  ng_ok6 :: "string \<Rightarrow> bool"
  ng_unicode :: uni

text \<open>\<open>internal_whitelist or cleaned_env_whitelist or {...}\<close>; \<open>env\<close> is the environment variable.\<close>

definition network_gate_init ::
  "verifier \<Rightarrow> string list \<Rightarrow> string \<Rightarrow> (string \<Rightarrow> string list option) \<Rightarrow> (string \<Rightarrow> ip_info option) \<Rightarrow>
   (string \<Rightarrow> bool) \<Rightarrow> uni \<Rightarrow> network_gate" where
  "network_gate_init vk whitelist env resolver v6 ok6 un =
     (let cleaned = filter (\<lambda>s. s \<noteq> []) (map strip (split_on CHR '','' env))
      in \<lparr>ng_public_key = vk,
          ng_internal_whitelist = (if whitelist \<noteq> [] then whitelist else if cleaned \<noteq> [] then cleaned
                                   else [''127.0.0.1'', ''localhost'']),
          ng_resolver = resolver, ng_v6 = v6, ng_ok6 = ok6, ng_unicode = un\<rparr>)"

datatype ssrf_site = MetadataHost | ResolveFailed | BadAddress | RestrictedAddress

definition restricted :: "ip_info \<Rightarrow> bool" where
  "restricted i \<longleftrightarrow> ip_private i \<or> ip_loopback i \<or> ip_link_local i \<or> ip_reserved i"

fun check_addresses :: "network_gate \<Rightarrow> string \<Rightarrow> bool \<Rightarrow> string list \<Rightarrow> (string option \<times> ssrf_site) option" where
  "check_addresses ng host internal [] = None"
| "check_addresses ng host internal (a # as) =
     (case ip_address (ng_v6 ng) a of
        None \<Rightarrow> Some (None, BadAddress)
      | Some i \<Rightarrow>
          (if restricted i \<and>
              \<not> (internal \<and> (host \<in> set (ng_internal_whitelist ng) \<or> a \<in> set (ng_internal_whitelist ng)))
           then Some (Some a, RestrictedAddress)
           else check_addresses ng host internal as))"

text \<open>\<open>Inl\<close>: refused, with the address reported. \<open>Inr\<close>: the primary address.\<close>

definition validate_ssrf :: "network_gate \<Rightarrow> string \<Rightarrow> bool \<Rightarrow> (string option \<times> ssrf_site) + string" where
  "validate_ssrf ng host internal =
     (if py_lower host \<in> set METADATA_IPS then Inl (None, MetadataHost)
      else
        let resolved = (case ip_address (ng_v6 ng) host of
                          Some i \<Rightarrow> Some [ip_text i]
                        | None \<Rightarrow> ng_resolver ng host)
        in case resolved of
             None \<Rightarrow> Inl (None, ResolveFailed)
           | Some ips \<Rightarrow>
               (case check_addresses ng host internal ips of
                  Some e \<Rightarrow> Inl e
                | None \<Rightarrow> Inr (case ips of [] \<Rightarrow> [] | a # _ \<Rightarrow> a)))"

section \<open>Redaction and truncation\<close>

definition gate_marker :: ustr where "gate_marker = u_str ''[REDACTED_BY_NETWORK_GATE]''"

definition redact_egress_data :: "uni \<Rightarrow> ustr \<Rightarrow> ustr" where
  "redact_egress_data un s = fold (\<lambda>r. re_sub un r (\<lambda>_ gs. group gs 1 @ gate_marker)) SECRET_PATTERNS s"

type_synonym headers = "(string \<times> ustr) list"

definition redact_headers :: "uni \<Rightarrow> headers \<Rightarrow> headers" where
  "redact_headers un hs = fold (\<lambda>(k, v) d. AList.update k
     (if py_lower k \<in> set SENSITIVE_HEADER_KEYS then gate_marker else redact_egress_data un v) d) hs []"

definition network_marker :: ustr where
  "network_marker = u_str (CHR 0x0A # ''...[TRUNCATED BY NETWORK_GATE DUE TO RESPONSE SIZE BUDGET]...'')"

definition truncate_response :: "ustr \<Rightarrow> ustr" where
  "truncate_response = truncate_text MAX_RESPONSE_BYTES network_marker"

section \<open>Sending\<close>

datatype net_body = NoBody | TextBody ustr | BytesBody "nat list"

record net_request =
  nr_netloc :: string
  nr_headers :: headers
  nr_body :: net_body
  nr_method :: string

datatype http_outcome = HttpFailed | HttpResponse int headers ustr

datatype network_site = NetRefused gate_site | SsrfRefused ssrf_site | RequestFailed

record net_result =
  nt_success :: bool
  nt_status :: int
  nt_headers :: headers
  nt_body :: ustr
  nt_resolved_ip :: string
  nt_error :: "(failure_code \<times> network_site) option"

definition net_failed :: "string \<Rightarrow> failure_code \<Rightarrow> network_site \<Rightarrow> net_result" where
  "net_failed ip code site =
     \<lparr>nt_success = False, nt_status = -1, nt_headers = [], nt_body = [], nt_resolved_ip = ip, nt_error = Some (code, site)\<rparr>"

definition net_answer :: "uni \<Rightarrow> string \<Rightarrow> int \<Rightarrow> headers \<Rightarrow> ustr \<Rightarrow> net_result" where
  "net_answer un ip status hs body =
     \<lparr>nt_success = (200 \<le> status \<and> status < 400), nt_status = status, nt_headers = redact_headers un hs,
      nt_body = truncate_response body, nt_resolved_ip = ip, nt_error = None\<rparr>"

fun sanitize_body :: "uni \<Rightarrow> net_body \<Rightarrow> net_body" where
  "sanitize_body un (TextBody t) = TextBody (redact_egress_data un t)"
| "sanitize_body un b = b"

definition request_headers :: "string \<Rightarrow> headers \<Rightarrow> headers" where
  "request_headers netloc hs =
     (if \<not> has_key hs ''Host'' \<and> \<not> has_key hs ''host'' then AList.update ''Host'' (u_str netloc) hs else hs)"

text \<open>The outer \<open>None\<close>: an exception leaves the gate (an unparsable URL, an invalid port). Otherwise
  the result, with the request that was sent, if one was.\<close>

definition send_request ::
  "network_gate \<Rightarrow> (net_request \<Rightarrow> http_outcome) \<Rightarrow> time \<Rightarrow> cap_grant \<Rightarrow> string \<Rightarrow> string \<Rightarrow> headers \<Rightarrow> net_body \<Rightarrow>
   (int \<times> headers \<times> ustr) option \<Rightarrow> (net_result \<times> net_request option) option" where
  "send_request ng server now g url meth hs body mock =
     (case network_verify (ng_public_key ng) (ng_ok6 ng) url now g of
        Some (code, site) \<Rightarrow>
          (if site = UrlRaises then None else Some (net_failed [] code (NetRefused site), None))
      | None \<Rightarrow>
          (case urlparse (ng_ok6 ng) url of
             None \<Rightarrow> None
           | Some p \<Rightarrow>
              (case validate_ssrf ng (up_hostname p) (''INTERNAL_SERVICE_ACCESS'' \<in> set (cg_attenuated_capabilities g)) of
                 Inl (ip, site) \<Rightarrow>
                   Some (net_failed (case ip of None \<Rightarrow> [] | Some a \<Rightarrow> a) DENY_POLICY_VIOLATION (SsrfRefused site), None)
               | Inr ip \<Rightarrow>
                  (case mock of
                     Some (status, mhs, mbody) \<Rightarrow> Some (net_answer (ng_unicode ng) ip status mhs mbody, None)
                   | None \<Rightarrow>
                      (case url_port p of
                         None \<Rightarrow> None
                       | Some port \<Rightarrow>
                          (let req = \<lparr>nr_netloc = (case port of
                                         None \<Rightarrow> ip
                                       | Some n \<Rightarrow> if n = 0 then ip else ip @ CHR '':'' # nat_str n),
                                      nr_headers = request_headers (up_netloc p) hs,
                                      nr_body = sanitize_body (ng_unicode ng) body,
                                      nr_method = py_upper meth\<rparr>
                           in case server req of
                                HttpFailed \<Rightarrow> Some (net_failed ip DENY_UNKNOWN_STATE RequestFailed, Some req)
                              | HttpResponse status rhs rbody \<Rightarrow>
                                  Some (net_answer (ng_unicode ng) ip status rhs rbody, Some req)))))))"

section \<open>Lemmas\<close>

lemma network_verify_None:
  "network_verify vk ok6 url now g = None \<longleftrightarrow>
     cg_target_primitive g \<in> set network_primitives \<and> ttl_check now g = None \<and> signature_check vk g = None \<and>
     (\<exists>p. urlparse ok6 url = Some p \<and> up_hostname p \<noteq> [] \<and>
          (\<exists>r \<in> set (cg_resource_binding g). host_bound (up_hostname p) url r))"
  by (auto simp: network_verify_def list_ex_iff split: option.splits)

interpretation ngate: gate "\<lambda>vk (ok6, url). network_verify vk ok6 url" "\<lambda>_. network_primitives"
  by unfold_locales (auto simp: network_verify_None split: prod.splits)

lemma check_addresses_None:
  "check_addresses ng host internal as = None \<longleftrightarrow>
     (\<forall>a \<in> set as. \<exists>i. ip_address (ng_v6 ng) a = Some i \<and>
        (restricted i \<longrightarrow> internal \<and> (host \<in> set (ng_internal_whitelist ng) \<or> a \<in> set (ng_internal_whitelist ng))))"
  by (induction as) (auto split: option.splits)

definition resolved_addresses :: "network_gate \<Rightarrow> string \<Rightarrow> string list option" where
  "resolved_addresses ng host =
     (case ip_address (ng_v6 ng) host of Some i \<Rightarrow> Some [ip_text i] | None \<Rightarrow> ng_resolver ng host)"

lemma validate_ssrf_Inr:
  "validate_ssrf ng host internal = Inr ip \<longleftrightarrow>
     py_lower host \<notin> set METADATA_IPS \<and>
     (\<exists>ips. resolved_addresses ng host = Some ips \<and> check_addresses ng host internal ips = None \<and>
        ip = (case ips of [] \<Rightarrow> [] | a # _ \<Rightarrow> a))"
  by (auto simp: validate_ssrf_def resolved_addresses_def Let_def split: option.splits)

lemma send_request_sent:
  assumes "send_request ng server now g url meth hs body mock = Some (res, Some req)"
  obtains p ip port where "network_verify (ng_public_key ng) (ng_ok6 ng) url now g = None"
    and "urlparse (ng_ok6 ng) url = Some p"
    and "validate_ssrf ng (up_hostname p) (''INTERNAL_SERVICE_ACCESS'' \<in> set (cg_attenuated_capabilities g)) = Inr ip"
    and "url_port p = Some port" and "mock = None"
    and "nr_netloc req = (case port of None \<Rightarrow> ip | Some n \<Rightarrow> if n = 0 then ip else ip @ CHR '':'' # nat_str n)"
    and "nr_headers req = request_headers (up_netloc p) hs"
    and "nr_body req = sanitize_body (ng_unicode ng) body"
  using assms
  by (auto simp: send_request_def Let_def split: option.splits sum.splits prod.splits if_splits http_outcome.splits)

lemma fold_update_map:
  "map_of (fold (\<lambda>(k, v) d. AList.update k (f k v) d) hs d) k =
     (case map_of (rev hs) k of Some v \<Rightarrow> Some (f k v) | None \<Rightarrow> map_of d k)"
  by (induction hs arbitrary: d) (auto simp: map_add_def split: option.splits)

section \<open>Properties\<close>

text \<open>Requests go only where the grant and the address policy allow. Whenever a request is handed
  to \<open>urlopen\<close>, the gate accepted the grant for this URL at this moment; the host is no metadata
  name; the request is pinned to the first of the resolved addresses, with the URL's port; and
  every resolved address is a valid one that is not private, loopback, link-local or reserved,
  unless the grant carries \<open>INTERNAL_SERVICE_ACCESS\<close> and the host or the address is whitelisted.\<close>

theorem requests_go_where_granted:
  assumes "send_request ng server now g url meth hs body mock = Some (res, Some req)"
  shows "\<exists>p ips port. network_verify (ng_public_key ng) (ng_ok6 ng) url now g = None \<and>
    urlparse (ng_ok6 ng) url = Some p \<and> py_lower (up_hostname p) \<notin> set METADATA_IPS \<and>
    resolved_addresses ng (up_hostname p) = Some ips \<and>
    (let ip = (case ips of [] \<Rightarrow> [] | a # _ \<Rightarrow> a) in
       nr_netloc req = (case port of None \<Rightarrow> ip | Some n \<Rightarrow> if n = 0 then ip else ip @ CHR '':'' # nat_str n)) \<and>
    (\<forall>a \<in> set ips. \<exists>i. ip_address (ng_v6 ng) a = Some i \<and>
       (restricted i \<longrightarrow> ''INTERNAL_SERVICE_ACCESS'' \<in> set (cg_attenuated_capabilities g) \<and>
          (up_hostname p \<in> set (ng_internal_whitelist ng) \<or> a \<in> set (ng_internal_whitelist ng))))"
proof -
  from assms obtain p ip port where
      "network_verify (ng_public_key ng) (ng_ok6 ng) url now g = None" "urlparse (ng_ok6 ng) url = Some p"
      "nr_netloc req = (case port of None \<Rightarrow> ip | Some n \<Rightarrow> if n = 0 then ip else ip @ CHR '':'' # nat_str n)"
      "validate_ssrf ng (up_hostname p) (''INTERNAL_SERVICE_ACCESS'' \<in> set (cg_attenuated_capabilities g)) = Inr ip"
    by (rule send_request_sent)
  then show ?thesis by (auto simp: validate_ssrf_Inr check_addresses_None Let_def)
qed

text \<open>Response headers are redacted: each name keeps its last value, replaced by the marker when
  the name is one of the sensitive ones in any case, and otherwise with the secrets the patterns
  recognise replaced.\<close>

theorem response_headers_are_redacted:
  "map_of (redact_headers un hs) k =
     map_option (\<lambda>v. if py_lower k \<in> set SENSITIVE_HEADER_KEYS then gate_marker else redact_egress_data un v)
       (map_of (rev hs) k)"
  unfolding redact_headers_def
  using fold_update_map [of "\<lambda>k v. if py_lower k \<in> set SENSITIVE_HEADER_KEYS then gate_marker else redact_egress_data un v" hs "[]" k]
  by (simp split: option.splits)

text \<open>Request headers are not redacted: whatever secret they hold, the headers of the request that
  is sent are the caller's, name by name; only \<open>Host\<close> may be added.\<close>

theorem request_headers_are_sent_as_given:
  assumes "send_request ng server now g url meth hs body mock = Some (res, Some req)" and "k \<noteq> ''Host''"
  shows "map_of (nr_headers req) k = map_of hs k"
proof -
  obtain p :: url_parts where "nr_headers req = request_headers (up_netloc p) hs"
    by (rule send_request_sent [OF assms(1)]) blast
  with assms(2) show ?thesis by (simp add: request_headers_def)
qed

section \<open>Concrete requests\<close>

definition demo_net_grant :: "string list \<Rightarrow> cap_grant" where
  "demo_net_grant rs = sign_grant demo_sk (demo_grant\<lparr>cg_target_primitive := ''NETWORK_REQUEST'', cg_resource_binding := rs\<rparr>)"

definition demo_net :: "string list \<Rightarrow> network_gate" where
  "demo_net ips = network_gate_init demo_vk [] [] (\<lambda>_. Some ips) (\<lambda>_. None) (\<lambda>_. False) (\<lambda>_. False)"

lemma demo_net_sel [simp]:
  "ng_public_key (demo_net ips) = demo_vk" "ng_ok6 (demo_net ips) = (\<lambda>_. False)" "ng_v6 (demo_net ips) = (\<lambda>_. None)"
  "ng_resolver (demo_net ips) = (\<lambda>_. Some ips)"
  by (simp_all add: demo_net_def network_gate_init_def Let_def)

lemma demo_net_accepts:
  assumes "urlparse (\<lambda>_. False) url = Some p" and "up_hostname p \<noteq> []" and "r \<in> set rs" and "host_bound (up_hostname p) url r"
  shows "network_verify demo_vk (\<lambda>_. False) url 110 (demo_net_grant rs) = None"
proof -
  have "signature_check demo_vk (demo_net_grant rs) = None"
    unfolding demo_net_grant_def by (rule signature_check_signed [OF demo_keys_ok])
  with assms show ?thesis
    by (auto simp: network_verify_None network_primitives_def ttl_check_None demo_net_grant_def sign_grant_def
        demo_grant_def build_grant_def)
qed

lemma demo_url: "urlparse ok6 ''https://api.example.com/v1'' =
    Some \<lparr>up_netloc = ''api.example.com'', up_hostname = ''api.example.com'', up_port_text = []\<rparr>"
  by (simp add: urlparse_def netloc_of_def after_scheme_def clean_url_def partition_at_def ascii_alpha_def scheme_char_def
      starts_with_def rpartition_at_def lower_before_zone_def py_lower_def lower_char_def Let_def)

lemma demo_evil_url: "urlparse ok6 ''https://api.example.com.evil.org/v1'' =
    Some \<lparr>up_netloc = ''api.example.com.evil.org'', up_hostname = ''api.example.com.evil.org'', up_port_text = []\<rparr>"
  by (simp add: urlparse_def netloc_of_def after_scheme_def clean_url_def partition_at_def ascii_alpha_def scheme_char_def
      starts_with_def rpartition_at_def lower_before_zone_def py_lower_def lower_char_def Let_def)

lemmas address_simps = ip_address_def parse_ipv4_def parse_octet_def is_digit_def digit_val_def nat_of_digits_def

lemmas net_simps = restricted_def ipv4_info_def in_nets_def private_nets_def private_exceptions_def in_net_def
  ipv4_of_def drop_bit_eq_div

lemma demo_lookup: "ip_address (\<lambda>_. None) ''93.184.216.34'' = Some (ipv4_info ''93.184.216.34'' 1572395042)"
  by (simp add: address_simps)

lemma demo_public: "\<not> restricted (ipv4_info s 1572395042)" "\<not> restricted (ipv4_info s 1684301000)"
  by (simp_all add: net_simps)

lemma demo_no_ip: "ip_address (\<lambda>_. None) ''api.example.com'' = None"
  by (simp add: address_simps)

lemma demo_sent:
  "\<exists>res req. send_request (demo_net [''93.184.216.34'']) (\<lambda>_. HttpFailed) 110 (demo_net_grant [''api.example.com''])
     ''https://api.example.com/v1'' ''GET'' [(''Authorization'', u_str ''Bearer x'')] NoBody None = Some (res, Some req)"
proof -
  have v: "network_verify demo_vk (\<lambda>_. False) ''https://api.example.com/v1'' 110 (demo_net_grant [''api.example.com'']) = None"
    by (rule demo_net_accepts [OF demo_url]) (auto simp: host_bound_def)
  have s: "validate_ssrf (demo_net [''93.184.216.34'']) ''api.example.com'' i = Inr ''93.184.216.34''" for i
    by (simp add: validate_ssrf_def demo_no_ip demo_lookup demo_public METADATA_IPS_def py_lower_def lower_char_def)
  show ?thesis by (simp add: send_request_def v demo_url s url_port_def)
qed

theorem requests_go_where_granted_witness:
  "\<exists>p ips. urlparse (\<lambda>_. False) ''https://api.example.com/v1'' = Some p \<and>
     resolved_addresses (demo_net [''93.184.216.34'']) (up_hostname p) = Some ips"
proof -
  obtain res req where s: "send_request (demo_net [''93.184.216.34'']) (\<lambda>_. HttpFailed) 110 (demo_net_grant [''api.example.com''])
     ''https://api.example.com/v1'' ''GET'' [(''Authorization'', u_str ''Bearer x'')] NoBody None = Some (res, Some req)"
    using demo_sent by blast
  from requests_go_where_granted [OF s] show ?thesis by auto
qed

theorem request_headers_are_sent_as_given_witness:
  "\<exists>req :: net_request. map_of (nr_headers req) ''Authorization'' = Some (u_str ''Bearer x'')"
proof -
  obtain res req where s: "send_request (demo_net [''93.184.216.34'']) (\<lambda>_. HttpFailed) 110 (demo_net_grant [''api.example.com''])
     ''https://api.example.com/v1'' ''GET'' [(''Authorization'', u_str ''Bearer x'')] NoBody None = Some (res, Some req)"
    using demo_sent by blast
  from request_headers_are_sent_as_given [OF s, of "''Authorization''"] show ?thesis by auto
qed

text \<open>A resource bound as a URL prefix does not end at a boundary: a grant for
  \<open>https://api.example.com\<close> is accepted for a URL of the host \<open>api.example.com.evil.org\<close>.\<close>

theorem url_prefix_binding_escapes:
  "network_verify demo_vk (\<lambda>_. False) ''https://api.example.com.evil.org/v1'' 110
     (demo_net_grant [''https://api.example.com'']) = None"
  by (rule demo_net_accepts [OF demo_evil_url]) (auto simp: host_bound_def starts_with_def)

text \<open>The metadata address 100.100.100.200 is refused by name only: a host that resolves to it
  passes the address policy, without any internal access.\<close>

theorem metadata_address_reachable_by_name:
  "validate_ssrf (demo_net [''100.100.100.200'']) ''api.example.com'' False = Inr ''100.100.100.200'' \<and>
   (\<exists>e. validate_ssrf (demo_net []) ''100.100.100.200'' False = Inl e)"
proof -
  have l: "ip_address (\<lambda>_. None) ''100.100.100.200'' = Some (ipv4_info ''100.100.100.200'' 1684301000)"
    by (simp add: address_simps)
  show ?thesis
    by (simp add: validate_ssrf_def demo_no_ip l demo_public METADATA_IPS_def py_lower_def lower_char_def)
qed

text \<open>The pattern for provider keys keeps the key: its group is the whole secret and the
  replacement puts the group back, so the redacted text still contains it.\<close>

theorem provider_key_survives_redaction:
  "redact_egress_data (\<lambda>_. False) (u_str ''sk-abcdefghijklmnopqrst'') = u_str ''sk-abcdefghijklmnopqrst'' @ gate_marker"
  by code_simp

end
