(* ===== verification/Adapter.thy ===== *)
theory Adapter
  imports NetworkGate
begin

text \<open>
  \<open>src/hermes_core/gates/adapter.py\<close>: each operation builds a request for its primitive, asks the
  authority client for a grant, and hands the grant to its gate. \<open>ask\<close> is the client
  (\<open>request_capability\<close> over the socket), \<open>rid\<close> the \<open>uuid\<close> of the request. A failure before the
  gate is \<open>Inl\<close> with the code of the result.
\<close>

section \<open>Requests\<close>

definition adapter_request ::
  "string \<Rightarrow> string \<Rightarrow> string \<Rightarrow> provenance_ctx \<Rightarrow> exec_semantics \<Rightarrow> approval_proof option \<Rightarrow> cap_request" where
  "adapter_request rid task prim prov sem appr =
     \<lparr>cr_request_id = rid, cr_task_id = task, cr_requested_primitive = prim, cr_provenance = prov,
      cr_untrusted_semantics = sem, cr_human_approval = appr\<rparr>"

text \<open>\<open>dirname_abs\<close> is \<open>dirname(abspath(p))\<close>.\<close>

definition storage_semantics :: "(string \<Rightarrow> string) \<Rightarrow> string \<Rightarrow> exec_semantics" where
  "storage_semantics dirname_abs target =
     \<lparr>es_interpreter_path = [], es_interpreter_hash = [], es_script_path = target, es_script_hash = [],
      es_argv = [], es_cwd = dirname_abs target, es_env_allowlist = [], es_sandbox_profile = ''DEFAULT'',
      es_network_policy = ''DENY_ALL''\<rparr>"

definition network_semantics :: exec_semantics where
  "network_semantics =
     \<lparr>es_interpreter_path = [], es_interpreter_hash = [], es_script_path = [], es_script_hash = [],
      es_argv = [], es_cwd = [], es_env_allowlist = [], es_sandbox_profile = ''DEFAULT'',
      es_network_policy = ''ALLOW_EGRESS''\<rparr>"

text \<open>The code of a failed client call: a denial has its own; \<open>BrokerUnavailableError\<close> has none.\<close>

fun client_code :: "client_result \<Rightarrow> failure_code + cap_grant" where
  "client_code (Granted g) = Inr g"
| "client_code (Denied c) = Inl c"
| "client_code Unavailable = Inl DENY_UNKNOWN_STATE"
| "client_code Unmapped = Inl DENY_BROKER_OFFLINE"

section \<open>Operations\<close>

definition execute_process ::
  "(cap_request \<Rightarrow> client_result) \<Rightarrow> (cap_grant \<Rightarrow> exec_semantics \<Rightarrow> process_result) \<Rightarrow>
   string \<Rightarrow> string \<Rightarrow> provenance_ctx \<Rightarrow> exec_semantics \<Rightarrow> approval_proof option \<Rightarrow> failure_code + process_result" where
  "execute_process ask exec rid task prov sem appr =
     (case client_code (ask (adapter_request rid task ''PROCESS_EXECUTE'' prov sem appr)) of
        Inl c \<Rightarrow> Inl c
      | Inr g \<Rightarrow> Inr (exec g sem))"

definition adapter_write_file ::
  "(cap_request \<Rightarrow> client_result) \<Rightarrow> (cap_grant \<Rightarrow> string \<Rightarrow> content \<Rightarrow> string \<Rightarrow> storage_result option \<times> fs_effect list) \<Rightarrow>
   (string \<Rightarrow> string) \<Rightarrow> string \<Rightarrow> string \<Rightarrow> provenance_ctx \<Rightarrow> string \<Rightarrow> content \<Rightarrow> string \<Rightarrow> approval_proof option \<Rightarrow>
   failure_code + (storage_result option \<times> fs_effect list)" where
  "adapter_write_file ask write dirname_abs rid task prov target body mode appr =
     (case client_code (ask (adapter_request rid task ''STORAGE_WRITE'' prov (storage_semantics dirname_abs target) appr)) of
        Inl c \<Rightarrow> Inl c
      | Inr g \<Rightarrow> Inr (write g target body mode))"

definition adapter_delete_file ::
  "(cap_request \<Rightarrow> client_result) \<Rightarrow> (cap_grant \<Rightarrow> string \<Rightarrow> int option \<Rightarrow> storage_result \<times> fs_effect list) \<Rightarrow>
   (string \<Rightarrow> string) \<Rightarrow> string \<Rightarrow> string \<Rightarrow> provenance_ctx \<Rightarrow> string \<Rightarrow> int option \<Rightarrow> approval_proof option \<Rightarrow>
   failure_code + (storage_result \<times> fs_effect list)" where
  "adapter_delete_file ask del dirname_abs rid task prov target expected appr =
     (case client_code (ask (adapter_request rid task ''STORAGE_DELETE'' prov (storage_semantics dirname_abs target) appr)) of
        Inl c \<Rightarrow> Inl c
      | Inr g \<Rightarrow> Inr (del g target expected))"

definition send_network_request ::
  "(cap_request \<Rightarrow> client_result) \<Rightarrow> (cap_grant \<Rightarrow> string \<Rightarrow> (net_result \<times> net_request option) option) \<Rightarrow>
   string \<Rightarrow> string \<Rightarrow> provenance_ctx \<Rightarrow> string \<Rightarrow> approval_proof option \<Rightarrow>
   failure_code + (net_result \<times> net_request option) option" where
  "send_network_request ask send rid task prov url appr =
     (case client_code (ask (adapter_request rid task ''NETWORK_REQUEST'' prov network_semantics appr)) of
        Inl c \<Rightarrow> Inl c
      | Inr g \<Rightarrow> Inr (send g url))"

section \<open>What the broker has issued\<close>

text \<open>A history is the calls of \<open>evaluate_request\<close> that took place, each with what it read and the
  broker it ran on. The grants it issued are what a gate may trust.\<close>

type_synonym history = "(eval_env \<times> cap_request \<times> int \<times> broker) list"

definition issued_grants :: "history \<Rightarrow> cap_grant set" where
  "issued_grants h = {g. \<exists>(env, r, uid, b) \<in> set h. fst (evaluate_request env r uid b) = Inr g}"

text \<open>The key is sound for a history: what verifies is the payload of an issued grant.\<close>

definition key_sound :: "verifier \<Rightarrow> history \<Rightarrow> bool" where
  "key_sound vk h \<longleftrightarrow> (\<forall>sg m. vk sg m \<longrightarrow> m \<in> compute_signature_payload ` issued_grants h)"

text \<open>No request of the history collides with these semantics under SHA-256.\<close>

definition collision_free :: "history \<Rightarrow> exec_semantics \<Rightarrow> bool" where
  "collision_free h sem \<longleftrightarrow>
     (\<forall>(env, r, uid, b) \<in> set h. compute_canonical_hash (cr_untrusted_semantics r) = compute_canonical_hash sem \<longrightarrow>
        canonical_bytes (cr_untrusted_semantics r) = canonical_bytes sem)"

text \<open>What stands behind an issued grant.\<close>

lemma issued_grant_facts:
  assumes "g \<in> issued_grants h"
  obtains env r uid b m where "(env, r, uid, b) \<in> set h" and "fst (evaluate_request env r uid b) = Inr g"
    and "map_of (br_manifests b) (cr_task_id r) = Some m"
    and "cr_requested_primitive r \<in> set (tm_allowed_primitives m)"
    and "cg_target_primitive g = cr_requested_primitive r" and "cg_resource_binding g = tm_allowed_resources m"
    and "cg_exact_execution_hash g = compute_canonical_hash (cr_untrusted_semantics r)"
    and "cg_expires_at g = ee_now env + 30"
    and "cg_attenuated_capabilities g = [cr_requested_primitive r]"
proof -
  obtain env r uid b where e: "(env, r, uid, b) \<in> set h" "fst (evaluate_request env r uid b) = Inr g"
    using assms by (auto simp: issued_grants_def)
  then obtain b' where "evaluate_request env r uid b = (Inr g, b')" by (metis prod.collapse)
  then obtain m p where "policy_checks b (ee_now env) r = Inr (m, p)"
      "g = sign_grant (br_signing_key b) (build_grant env (ee_now env) (ee_now env + 30) r uid m)"
    by (auto simp: evaluate_granted_iff)
  then show ?thesis
    using that [of env r uid b m] e
    by (simp add: policy_checks_Inr_iff sign_grant_def build_grant_def request_hash_def)
qed

lemma same_signed_expiry:
  assumes "same_signed_fields g g0"
  shows "cg_expires_at g \<le> cg_expires_at g0 + 1 / 10000"
proof -
  have "round4 (cg_expires_at g) = round4 (cg_expires_at g0)" using assms by (simp add: same_signed_fields_def)
  with round4_error [of "cg_expires_at g"] round4_error [of "cg_expires_at g0"] show ?thesis
    unfolding abs_le_iff by linarith
qed

lemma same_signed_resources: "same_signed_fields g g0 \<Longrightarrow> set (cg_resource_binding g) = set (cg_resource_binding g0)"
  by (auto simp: same_signed_fields_def dest: mset_eq_setD)

lemma same_signed_capabilities:
  "same_signed_fields g g0 \<Longrightarrow> set (cg_attenuated_capabilities g) = set (cg_attenuated_capabilities g0)"
  by (auto simp: same_signed_fields_def dest: mset_eq_setD)

text \<open>The abstract contract of a gate: the grant it acts on was issued by a call of the history, for a
  request whose primitive is one of the gate's and is permitted by the registered manifest, at most
  30 seconds (and the rounding of the signed time) ago.\<close>

definition authorised :: "history \<Rightarrow> cap_grant \<Rightarrow> string list \<Rightarrow> time \<Rightarrow> cap_request \<Rightarrow> task_manifest \<Rightarrow> bool" where
  "authorised h g prims now r m \<longleftrightarrow>
     (\<exists>(env, r', uid, b) \<in> set h. r' = r \<and>
        (\<exists>g0. fst (evaluate_request env r uid b) = Inr g0 \<and> same_signed_fields g g0) \<and>
        map_of (br_manifests b) (cr_task_id r) = Some m \<and> cr_requested_primitive r \<in> set (tm_allowed_primitives m) \<and>
        cr_requested_primitive r \<in> set prims \<and> now < ee_now env + 30 + 1 / 10000)"

lemma authorisedI:
  assumes "(env, r, uid, b) \<in> set h" and "fst (evaluate_request env r uid b) = Inr g0" and "same_signed_fields g g0"
    and "map_of (br_manifests b) (cr_task_id r) = Some m" and "cr_requested_primitive r \<in> set (tm_allowed_primitives m)"
    and "cr_requested_primitive r \<in> set prims" and "now < ee_now env + 30 + 1 / 10000"
  shows "authorised h g prims now r m"
  unfolding authorised_def by (rule bexI [OF _ assms(1)]) (use assms in auto)

context gate
begin

lemma accepted_is_authorised:
  assumes "key_sound vk h" and "verdict_of vk c now g = None"
  obtains r m where "authorised h g (primitives c) now r m"
    and "set (cg_resource_binding g) = set (tm_allowed_resources m)"
    and "cg_exact_execution_hash g = compute_canonical_hash (cr_untrusted_semantics r)"
    and "set (cg_attenuated_capabilities g) = {cr_requested_primitive r}"
    and "cg_target_primitive g = cr_requested_primitive r"
proof -
  obtain g0 where g0: "g0 \<in> issued_grants h" "same_signed_fields g g0" "cg_target_primitive g0 \<in> set (primitives c)"
    using accepted_was_issued [OF assms(1) [unfolded key_sound_def] assms(2)] by blast
  from g0(1) obtain env r uid b m where f: "(env, r, uid, b) \<in> set h" "fst (evaluate_request env r uid b) = Inr g0"
      "map_of (br_manifests b) (cr_task_id r) = Some m" "cr_requested_primitive r \<in> set (tm_allowed_primitives m)"
      "cg_target_primitive g0 = cr_requested_primitive r" "cg_resource_binding g0 = tm_allowed_resources m"
      "cg_exact_execution_hash g0 = compute_canonical_hash (cr_untrusted_semantics r)"
      "cg_expires_at g0 = ee_now env + 30" "cg_attenuated_capabilities g0 = [cr_requested_primitive r]"
    by (rule issued_grant_facts)
  have "now < cg_expires_at g" using accept_time [OF assms(2)] by (simp add: ttl_check_None)
  with same_signed_expiry [OF g0(2)] f(8) have t: "now < ee_now env + 30 + 1 / 10000" by simp
  have "authorised h g (primitives c) now r m"
    using f g0(2,3) t by (intro authorisedI [OF f(1,2)]) simp_all
  then show ?thesis
    using that [of r m] f same_signed_resources [OF g0(2)] same_signed_capabilities [OF g0(2)] g0(2)
    by (simp add: same_signed_fields_def)
qed

end

section \<open>A concrete chain\<close>

definition demo_chain_manifest :: task_manifest where
  "demo_chain_manifest = \<lparr>tm_manifest_id = ''t2'',
     tm_allowed_primitives = [''PROCESS_EXECUTE'', ''STORAGE_WRITE'', ''NETWORK_REQUEST''],
     tm_allowed_resources = [''/data'', ''api.example.com''], tm_signature = []\<rparr>"

definition demo_chain_broker :: broker where
  "demo_chain_broker = (demo_broker None)\<lparr>br_manifests := [(''t2'', demo_chain_manifest)]\<rparr>"

definition demo_chain_request :: "string \<Rightarrow> cap_request" where
  "demo_chain_request prim = adapter_request ''r'' ''t2'' prim
     \<lparr>pc_caller_id = ''u'', pc_origin_source = ''cli'', pc_taint_tag = ''SYSTEM_INTERNAL'', pc_ingress_signature = ''s''\<rparr>
     demo_semantics None"

definition demo_chain_grant :: "string \<Rightarrow> cap_grant" where
  "demo_chain_grant prim = sign_grant demo_sk
     (build_grant (demo_env ''g0'') 100 130 (demo_chain_request prim) 1000 demo_chain_manifest)"

definition demo_chain_history :: "string \<Rightarrow> history" where
  "demo_chain_history prim = [(demo_env ''g0'', demo_chain_request prim, 1000, demo_chain_broker)]"

definition demo_chain_vk :: "string \<Rightarrow> verifier" where
  "demo_chain_vk prim sg m \<longleftrightarrow> demo_vk sg m \<and> m = compute_signature_payload (demo_chain_grant prim)"

lemma demo_chain_granted:
  assumes "prim \<in> set (tm_allowed_primitives demo_chain_manifest)"
  shows "fst (evaluate_request (demo_env ''g0'') (demo_chain_request prim) 1000 demo_chain_broker) = Inr (demo_chain_grant prim)"
proof -
  have "prim \<notin> set HIGH_RISK_PRIMITIVES"
    using assms by (auto simp: demo_chain_manifest_def HIGH_RISK_PRIMITIVES_def)
  with assms have "policy_checks demo_chain_broker 100 (demo_chain_request prim) = Inr (demo_chain_manifest, None)"
    by (simp add: policy_checks_def demo_chain_broker_def demo_broker_def demo_chain_request_def adapter_request_def
        effective_taint_def approval_check_def needs_approval_def)
  then show ?thesis
    by (simp add: evaluate_request_def consume_approval_def atomic_consume_nonce_def demo_env_def has_key_def
        gc_ledger_def demo_chain_broker_def demo_broker_def demo_chain_grant_def)
qed

lemma demo_chain_sound:
  assumes "prim \<in> set (tm_allowed_primitives demo_chain_manifest)"
  shows "key_sound (demo_chain_vk prim) (demo_chain_history prim)"
  using demo_chain_granted [OF assms]
  by (auto simp: key_sound_def demo_chain_vk_def demo_chain_history_def issued_grants_def)

lemma demo_chain_checks:
  "signature_check (demo_chain_vk prim) (demo_chain_grant prim) = None" "ttl_check 110 (demo_chain_grant prim) = None"
  "cg_target_primitive (demo_chain_grant prim) = prim" "cg_attenuated_capabilities (demo_chain_grant prim) = [prim]"
  "cg_resource_binding (demo_chain_grant prim) = [''/data'', ''api.example.com'']"
  "cg_exact_execution_hash (demo_chain_grant prim) = demo_hash"
proof -
  have "demo_sk m = replicate 64 CHR ''s''" for m by (simp add: demo_sk_def)
  then show "signature_check (demo_chain_vk prim) (demo_chain_grant prim) = None"
    by (simp add: signature_check_def demo_chain_vk_def demo_chain_grant_def sign_grant_def demo_vk_def)
qed (simp_all add: ttl_check_None demo_chain_grant_def sign_grant_def build_grant_def demo_chain_request_def
       adapter_request_def demo_chain_manifest_def request_hash_def demo_hash_def)

end
