(* ===== verification/Breakers.thy ===== *)
theory Breakers
  imports PyCodec
begin

text \<open>
  The two circuit breakers, \<open>src/hermes_core/circuit_breaker.py\<close> (a task run under protection, with
  the negative cache, the duplicate-call detector and the approval-timeout shield) and
  \<open>src/capabilities/operator_deadletter/cron_circuit_breaker_engine.py\<close> (job results reported to an
  engine). Both keep a dictionary of entries in a file: a definition takes what loading gives and
  returns what is saved. The task is the outcome it has. What both promise is the locale \<open>breaker\<close>.
\<close>

section \<open>Protected tasks\<close>

definition FAILURE_THRESHOLD :: int where "FAILURE_THRESHOLD = 3"
definition PROBE_INTERVAL_SECONDS :: time where "PROBE_INTERVAL_SECONDS = 300"

datatype breaker_state = HEALTHY | DEGRADED_QUARANTINED | SLOW_PROBING

record task_entry =
  te_failures :: int
  te_state :: breaker_state
  te_last_error :: string
  te_last_failure_time :: time
  te_last_probe_time :: time

definition fresh_entry :: task_entry where
  "fresh_entry = \<lparr>te_failures = 0, te_state = HEALTHY, te_last_error = [], te_last_failure_time = 0, te_last_probe_time = 0\<rparr>"

datatype 'a outcome = Returned 'a | Raised string

datatype 'a task_result = Succeeded 'a | Failed string | Blocked int int

definition task_failed :: "time \<Rightarrow> string \<Rightarrow> task_entry \<Rightarrow> task_entry" where
  "task_failed now err e =
     (let n = te_failures e + 1;
          e1 = e\<lparr>te_failures := n, te_last_error := err, te_last_failure_time := now\<rparr>
      in if FAILURE_THRESHOLD \<le> n then e1\<lparr>te_state := DEGRADED_QUARANTINED, te_last_probe_time := now\<rparr> else e1)"

text \<open>The result, and the dictionary left in the file. In the blocked case nothing is saved.\<close>

definition check_and_execute_task ::
  "time \<Rightarrow> string \<Rightarrow> 'a outcome \<Rightarrow> task_entry dict \<Rightarrow> 'a task_result \<times> task_entry dict" where
  "check_and_execute_task now task out breakers =
     (let entry = dict_get breakers task fresh_entry in
      if te_state entry = DEGRADED_QUARANTINED \<and> now - te_last_probe_time entry < PROBE_INTERVAL_SECONDS
      then (Blocked (te_failures entry) (py_int (PROBE_INTERVAL_SECONDS - (now - te_last_probe_time entry))), breakers)
      else
        let entry1 = (if te_state entry = DEGRADED_QUARANTINED
                      then entry\<lparr>te_state := SLOW_PROBING, te_last_probe_time := now\<rparr> else entry)
        in case out of
             Returned r \<Rightarrow>
               (Succeeded r, AList.update task (entry1\<lparr>te_failures := 0, te_state := HEALTHY, te_last_error := []\<rparr>) breakers)
           | Raised err \<Rightarrow> (Failed err, AList.update task (task_failed now err entry1) breakers))"

section \<open>Cron jobs\<close>

record job_entry =
  je_job_name :: string
  je_failures :: int
  je_state :: breaker_state
  je_last_error :: string
  je_last_failure_time :: time
  je_quarantine_time :: time
  je_last_probe_time :: time
  je_probe_interval :: time
  je_alert_sent :: bool

definition new_job :: "string \<Rightarrow> job_entry" where
  "new_job name = \<lparr>je_job_name = name, je_failures = 0, je_state = HEALTHY, je_last_error = [],
     je_last_failure_time = 0, je_quarantine_time = 0, je_last_probe_time = 0, je_probe_interval = 300,
     je_alert_sent = False\<rparr>"

definition should_allow_execution :: "time \<Rightarrow> string \<Rightarrow> job_entry dict \<Rightarrow> bool \<times> job_entry dict" where
  "should_allow_execution now job bs =
     (case map_of bs job of
        None \<Rightarrow> (True, bs)
      | Some e \<Rightarrow>
          (case je_state e of
             HEALTHY \<Rightarrow> (True, bs)
           | DEGRADED_QUARANTINED \<Rightarrow>
               (if je_probe_interval e \<le> now - je_last_probe_time e
                then (True, AList.update job (e\<lparr>je_state := SLOW_PROBING, je_last_probe_time := now\<rparr>) bs)
                else (False, bs))
           | SLOW_PROBING \<Rightarrow> (True, bs)))"

record job_report =
  jr_state :: breaker_state
  jr_failures :: int
  jr_alert_needed :: bool
  jr_was_recovered :: bool

definition job_failed :: "time \<Rightarrow> string \<Rightarrow> job_entry \<Rightarrow> bool \<times> job_entry" where
  "job_failed now err e =
     (let e1 = e\<lparr>je_failures := je_failures e + 1, je_last_error := err, je_last_failure_time := now\<rparr> in
      if FAILURE_THRESHOLD \<le> je_failures e1 then
        (if je_state e1 \<noteq> DEGRADED_QUARANTINED then
           (\<not> je_alert_sent e1,
            e1\<lparr>je_state := DEGRADED_QUARANTINED, je_quarantine_time := now, je_last_probe_time := now, je_alert_sent := True\<rparr>)
         else (False, e1\<lparr>je_state := DEGRADED_QUARANTINED, je_last_probe_time := now\<rparr>))
      else (False, e1))"

definition record_result ::
  "time \<Rightarrow> string \<Rightarrow> bool \<Rightarrow> string \<Rightarrow> string \<Rightarrow> job_entry dict \<Rightarrow> job_report \<times> job_entry dict" where
  "record_result now job success err name bs =
     (let e0 = (case map_of bs job of None \<Rightarrow> new_job name | Some e \<Rightarrow> e);
          e = (if name \<noteq> [] then e0\<lparr>je_job_name := name\<rparr> else e0)
      in if success then
           (\<lparr>jr_state = HEALTHY, jr_failures = 0, jr_alert_needed = False, jr_was_recovered = (je_state e \<noteq> HEALTHY)\<rparr>,
            AList.update job (e\<lparr>je_failures := 0, je_state := HEALTHY, je_last_error := [], je_alert_sent := False\<rparr>) bs)
         else
           (case job_failed now err e of
              (alert, e') \<Rightarrow>
                (\<lparr>jr_state = je_state e', jr_failures = je_failures e', jr_alert_needed = alert, jr_was_recovered = False\<rparr>,
                 AList.update job e' bs)))"

definition get_dead_letter_queue :: "job_entry dict \<Rightarrow> (string \<times> job_entry) list" where
  "get_dead_letter_queue bs = filter (\<lambda>(_, e). je_state e = DEGRADED_QUARANTINED) bs"

definition reset_breaker :: "string \<Rightarrow> job_entry dict \<Rightarrow> bool \<times> job_entry dict" where
  "reset_breaker job bs =
     (case map_of bs job of
        None \<Rightarrow> (False, bs)
      | Some e \<Rightarrow> (True, AList.update job (e\<lparr>je_failures := 0, je_state := HEALTHY, je_alert_sent := False\<rparr>) bs))"

section \<open>The contract\<close>

text \<open>An attempt at a time, lasting some while, with an outcome (\<open>None\<close> a success, otherwise the text of
  the error): whether it was executed, and the state after it. The contract: a quarantined state refuses until its interval has passed since the last
  probe; everything else executes; a success leaves no failures; enough failures quarantine.\<close>

type_synonym attempt = "time \<times> time \<times> string option"

fun executed_times :: "(time \<Rightarrow> time \<Rightarrow> string option \<Rightarrow> 's \<Rightarrow> bool \<times> 's) \<Rightarrow> attempt list \<Rightarrow> 's \<Rightarrow> time list" where
  "executed_times att [] s = []"
| "executed_times att ((t, d, err) # as) s =
     (case att t d err s of (did, s') \<Rightarrow> (if did then [t] else []) @ executed_times att as s')"

locale breaker =
  fixes att :: "time \<Rightarrow> time \<Rightarrow> string option \<Rightarrow> 's \<Rightarrow> bool \<times> 's"
    and fails :: "'s \<Rightarrow> int"
    and quarantined :: "'s \<Rightarrow> bool"
    and probe :: "'s \<Rightarrow> time"
    and interval :: "'s \<Rightarrow> time"
    and threshold :: int
  assumes refuse: "quarantined s \<Longrightarrow> t - probe s < interval s \<Longrightarrow> att t d err s = (False, s)"
    and execute: "\<not> (quarantined s \<and> t - probe s < interval s) \<Longrightarrow> fst (att t d err s)"
    and success: "fst (att t d None s) \<Longrightarrow> fails (snd (att t d None s)) = 0 \<and> \<not> quarantined (snd (att t d None s))"
    and failure: "fst (att t d (Some e) s) \<Longrightarrow> fails (snd (att t d (Some e) s)) = fails s + 1"
    and trip: "fst (att t d (Some e) s) \<Longrightarrow> threshold \<le> fails s + 1 \<Longrightarrow> 0 \<le> d \<Longrightarrow>
                 quarantined (snd (att t d (Some e) s)) \<and> t \<le> probe (snd (att t d (Some e) s))"
    and keep_interval: "interval (snd (att t d err s)) = interval s"
begin

text \<open>While every attempt fails, a quarantined breaker executes them at least its interval apart.\<close>

lemma failing_attempts_are_spaced:
  assumes "quarantined s" and "threshold \<le> fails s" and "0 < interval s"
    and "\<forall>(t, d, err) \<in> set as. err \<noteq> None \<and> 0 \<le> d"
  shows "sorted_wrt (\<lambda>a b. a + interval s \<le> b) (executed_times att as s) \<and>
    (\<forall>t \<in> set (executed_times att as s). probe s + interval s \<le> t)"
  using assms
proof (induction as arbitrary: s)
  case (Cons a as)
  obtain t d err where a: "a = (t, d, err)" by (cases a)
  obtain e where ok: "err = Some e" and d: "0 \<le> d" and rest: "\<forall>(t, d, err) \<in> set as. err \<noteq> None \<and> 0 \<le> d"
    using Cons.prems(4) by (auto simp: a)
  obtain did s' where s': "att t d (Some e) s = (did, s')" by (cases "att t d (Some e) s")
  show ?case
  proof (cases "t - probe s < interval s")
    case True
    with refuse Cons.prems(1) have "att t d (Some e) s = (False, s)" by simp
    with Cons.IH [OF Cons.prems(1-3) rest] show ?thesis by (simp add: a ok)
  next
    case False
    with execute [of s t d "Some e"] have did: "fst (att t d (Some e) s)" by simp
    have f: "fails s' = fails s + 1" using failure [OF did] s' by simp
    have q: "quarantined s'" "t \<le> probe s'" using trip [OF did _ d] Cons.prems(2) s' by simp_all
    have i: "interval s' = interval s" using keep_interval [of t d "Some e" s] s' by simp
    have "sorted_wrt (\<lambda>a b. a + interval s \<le> b) (executed_times att as s') \<and>
        (\<forall>u \<in> set (executed_times att as s'). probe s' + interval s \<le> u)"
      using Cons.IH [of s'] q f i Cons.prems(2,3) rest by simp
    moreover have "did" using did s' by simp
    ultimately show ?thesis using q(2) False Cons.prems(3) s' by (fastforce simp: a ok)
  qed
qed simp

text \<open>The threshold-th failure in a row quarantines.\<close>

lemma failures_quarantine:
  "\<not> (quarantined s \<and> t - probe s < interval s) \<Longrightarrow> threshold \<le> fails s + 1 \<Longrightarrow> 0 \<le> d \<Longrightarrow>
   quarantined (snd (att t d (Some e) s)) \<and> t \<le> probe (snd (att t d (Some e) s))"
  using trip execute by blast

end

section \<open>Both breakers keep it\<close>

definition task_attempt :: "string \<Rightarrow> time \<Rightarrow> time \<Rightarrow> string option \<Rightarrow> task_entry dict \<Rightarrow> bool \<times> task_entry dict" where
  "task_attempt task t d err bs =
     (case check_and_execute_task t task (case err of None \<Rightarrow> Returned () | Some e \<Rightarrow> Raised e) bs of
        (r, bs') \<Rightarrow> (case r of Blocked _ _ \<Rightarrow> False | _ \<Rightarrow> True, bs'))"

definition task_of :: "string \<Rightarrow> task_entry dict \<Rightarrow> task_entry" where
  "task_of task bs = dict_get bs task fresh_entry"

lemmas task_breaker_defs = task_attempt_def check_and_execute_task_def task_of_def task_failed_def Let_def

interpretation tb: breaker "task_attempt task" "\<lambda>bs. te_failures (task_of task bs)"
  "\<lambda>bs. te_state (task_of task bs) = DEGRADED_QUARANTINED" "\<lambda>bs. te_last_probe_time (task_of task bs)"
  "\<lambda>_. PROBE_INTERVAL_SECONDS" FAILURE_THRESHOLD for task
  by unfold_locales (auto simp: task_breaker_defs split: if_splits option.splits)

definition job_attempt :: "string \<Rightarrow> time \<Rightarrow> time \<Rightarrow> string option \<Rightarrow> job_entry dict \<Rightarrow> bool \<times> job_entry dict" where
  "job_attempt job t d err bs =
     (case should_allow_execution t job bs of
        (False, bs') \<Rightarrow> (False, bs')
      | (True, bs') \<Rightarrow> (True, snd (record_result (t + d) job (err = None) (case err of None \<Rightarrow> [] | Some e \<Rightarrow> e) [] bs')))"

definition job_of :: "string \<Rightarrow> job_entry dict \<Rightarrow> job_entry" where
  "job_of job bs = dict_get bs job (new_job [])"

lemmas job_breaker_defs = job_attempt_def should_allow_execution_def record_result_def job_of_def job_failed_def
  dict_get_def new_job_def Let_def

interpretation jb: breaker "job_attempt job" "\<lambda>bs. je_failures (job_of job bs)"
  "\<lambda>bs. je_state (job_of job bs) = DEGRADED_QUARANTINED" "\<lambda>bs. je_last_probe_time (job_of job bs)"
  "\<lambda>bs. je_probe_interval (job_of job bs)" FAILURE_THRESHOLD for job
proof unfold_locales
  fix s :: "job_entry dict" and t d :: time and err :: "string option" and x :: string
  consider (none) "map_of s job = None" | (some) e where "map_of s job = Some e" by (cases "map_of s job") auto
  note cs = this
  show "je_state (job_of job s) = DEGRADED_QUARANTINED \<Longrightarrow> t - je_last_probe_time (job_of job s) < je_probe_interval (job_of job s) \<Longrightarrow>
      job_attempt job t d err s = (False, s)"
    using cs by cases (auto simp: job_breaker_defs)
  show "\<not> (je_state (job_of job s) = DEGRADED_QUARANTINED \<and> t - je_last_probe_time (job_of job s) < je_probe_interval (job_of job s)) \<Longrightarrow>
      fst (job_attempt job t d err s)"
    using cs by cases (auto simp: job_breaker_defs split: breaker_state.splits if_splits)
  show "fst (job_attempt job t d None s) \<Longrightarrow> je_failures (job_of job (snd (job_attempt job t d None s))) = 0 \<and>
      \<not> je_state (job_of job (snd (job_attempt job t d None s))) = DEGRADED_QUARANTINED"
    using cs by cases (auto simp: job_breaker_defs split: breaker_state.splits if_splits)
  show "fst (job_attempt job t d (Some x) s) \<Longrightarrow>
      je_failures (job_of job (snd (job_attempt job t d (Some x) s))) = je_failures (job_of job s) + 1"
    using cs by cases (auto simp: job_breaker_defs FAILURE_THRESHOLD_def split: breaker_state.splits if_splits)
  show "fst (job_attempt job t d (Some x) s) \<Longrightarrow> FAILURE_THRESHOLD \<le> je_failures (job_of job s) + 1 \<Longrightarrow> 0 \<le> d \<Longrightarrow>
      je_state (job_of job (snd (job_attempt job t d (Some x) s))) = DEGRADED_QUARANTINED \<and>
      t \<le> je_last_probe_time (job_of job (snd (job_attempt job t d (Some x) s)))"
    using cs by cases (auto simp: job_breaker_defs split: breaker_state.splits if_splits)
  show "je_probe_interval (job_of job (snd (job_attempt job t d err s))) = je_probe_interval (job_of job s)"
    using cs by cases (auto simp: job_breaker_defs split: breaker_state.splits if_splits)
qed

section \<open>Negative cache\<close>

record negative_entry =
  nc_reason :: string
  nc_recorded_at :: time
  nc_expires_at :: time

text \<open>The seconds left when the resource is blocked.\<close>

definition check_negative_cache :: "time \<Rightarrow> string \<Rightarrow> negative_entry dict \<Rightarrow> int option" where
  "check_negative_cache now key cache =
     (case map_of cache key of
        None \<Rightarrow> None
      | Some e \<Rightarrow> if now < nc_expires_at e then Some (py_int (nc_expires_at e - now)) else None)"

definition control_char :: "char \<Rightarrow> bool" where
  "control_char c \<longleftrightarrow> (let n = (of_char c :: nat) in n \<le> 31 \<or> (127 \<le> n \<and> n \<le> 159))"

text \<open>\<open>sanitize\<close> is \<open>sanitize_secrets\<close> of \<open>security_filter.py\<close>; when it raises the text stays.\<close>

definition record_negative_cache ::
  "(string \<Rightarrow> string option) \<Rightarrow> time \<Rightarrow> string \<Rightarrow> string \<Rightarrow> time \<Rightarrow> negative_entry dict \<Rightarrow> negative_entry dict" where
  "record_negative_cache sanitize now key reason ttl cache =
     (let k = take 255 (strip key);
          r0 = strip (map (\<lambda>c. if control_char c then CHR '' '' else c) (take 200 (strip reason)));
          r = (case sanitize r0 of None \<Rightarrow> r0 | Some x \<Rightarrow> x);
          active = filter (\<lambda>(_, e). now < nc_expires_at e) cache
      in AList.update k \<lparr>nc_reason = r, nc_recorded_at = now, nc_expires_at = now + ttl\<rparr> active)"

definition clear_negative_cache :: "string option \<Rightarrow> negative_entry dict \<Rightarrow> negative_entry dict" where
  "clear_negative_cache key cache = (case key of None \<Rightarrow> [] | Some k \<Rightarrow> filter (\<lambda>(n, _). n \<noteq> k) cache)"

section \<open>Duplicate calls\<close>

text \<open>A call is the tool and the serialised parameters; the deque keeps the newest entries.\<close>

type_synonym call_history = "(string \<times> string \<times> nat) list"

definition deque_append :: "nat \<Rightarrow> 'a \<Rightarrow> 'a list \<Rightarrow> 'a list" where
  "deque_append maxlen x xs = (let ys = xs @ [x] in drop (length ys - maxlen) ys)"

definition call_fingerprint :: "bytes \<Rightarrow> string" where
  "call_fingerprint serialized = take 16 (sha256_hex serialized)"

definition record_and_check :: "nat \<Rightarrow> nat \<Rightarrow> string \<Rightarrow> bytes \<Rightarrow> call_history \<Rightarrow> bool \<times> call_history" where
  "record_and_check max_dup maxlen tool serialized hist =
     (let h = call_fingerprint serialized in
      if hist \<noteq> [] \<and> fst (last hist) = tool \<and> fst (snd (last hist)) = h then
        (let n = snd (snd (last hist)) + 1 in (max_dup \<le> n, butlast hist @ [(tool, h, n)]))
      else (False, deque_append maxlen (tool, h, 1) hist))"

text \<open>The specification: how many of the latest calls, counted back from the newest, are the same.\<close>

fun trailing :: "(string \<times> string) list \<Rightarrow> nat" where
  "trailing [] = 0"
| "trailing (c # cs) = Suc (length (takeWhile (\<lambda>d. d = c) cs))"

fun run_calls :: "nat \<Rightarrow> nat \<Rightarrow> (string \<times> bytes) list \<Rightarrow> call_history \<Rightarrow> call_history" where
  "run_calls m l [] hist = hist"
| "run_calls m l ((t, p) # cs) hist = run_calls m l cs (snd (record_and_check m l t p hist))"

section \<open>Approval timeouts\<close>

definition COOLDOWN_WINDOW_SECONDS :: time where "COOLDOWN_WINDOW_SECONDS = 120"

definition is_in_timeout_cooldown :: "time \<Rightarrow> time \<Rightarrow> bool" where
  "is_in_timeout_cooldown now last_timeout \<longleftrightarrow>
     (if last_timeout \<le> 0 then False else now - last_timeout < COOLDOWN_WINDOW_SECONDS)"

definition record_timeout :: "time \<Rightarrow> time" where "record_timeout now = now"
definition reset_timeout :: time where "reset_timeout = 0"

section \<open>Lemmas\<close>

definition call_key :: "string \<times> bytes \<Rightarrow> string \<times> string" where
  "call_key c = (fst c, call_fingerprint (snd c))"

text \<open>The last entry of the history is the newest call with its trailing count.\<close>

definition history_ok :: "(string \<times> bytes) list \<Rightarrow> call_history \<Rightarrow> bool" where
  "history_ok past hist \<longleftrightarrow>
     (if past = [] then hist = []
      else hist \<noteq> [] \<and> (fst (last hist), fst (snd (last hist))) = call_key (last past) \<and>
           snd (snd (last hist)) = trailing (rev (map call_key past)))"

lemma deque_append_last: "0 < l \<Longrightarrow> deque_append l x xs \<noteq> [] \<and> last (deque_append l x xs) = x"
  by (simp add: deque_append_def Let_def)

lemma record_and_check_ok:
  assumes "history_ok past hist" and "0 < l"
  shows "history_ok (past @ [(t, p)]) (snd (record_and_check m l t p hist))"
    and "fst (record_and_check m l t p hist) \<longleftrightarrow>
           2 \<le> trailing (rev (map call_key (past @ [(t, p)]))) \<and> m \<le> trailing (rev (map call_key (past @ [(t, p)])))"
proof -
  have "history_ok (past @ [(t, p)]) (snd (record_and_check m l t p hist)) \<and>
    (fst (record_and_check m l t p hist) \<longleftrightarrow>
           2 \<le> trailing (rev (map call_key (past @ [(t, p)]))) \<and> m \<le> trailing (rev (map call_key (past @ [(t, p)]))))"
  proof (cases "past = []")
    case True
    then show ?thesis
      using assms deque_append_last [OF assms(2), of "(t, call_fingerprint p, 1)" hist]
      by (simp add: history_ok_def record_and_check_def call_key_def Let_def)
  next
    case False
    then obtain ps c where past: "past = ps @ [c]" by (cases past rule: rev_cases) auto
    from assms(1) past have h: "hist \<noteq> []" "(fst (last hist), fst (snd (last hist))) = call_key c"
        "snd (snd (last hist)) = trailing (call_key c # rev (map call_key ps))"
      by (simp_all add: history_ok_def)
    show ?thesis
    proof (cases "call_key (t, p) = call_key c")
      case True
      then show ?thesis using h past by (auto simp: history_ok_def record_and_check_def call_key_def Let_def)
    next
      case False
      then have "\<not> (fst (last hist) = t \<and> fst (snd (last hist)) = call_fingerprint p)"
        using h(2) by (auto simp: call_key_def)
      with False h past deque_append_last [OF assms(2), of "(t, call_fingerprint p, 1)" hist] show ?thesis
        by (auto simp: history_ok_def record_and_check_def call_key_def Let_def)
    qed
  qed
  then show "history_ok (past @ [(t, p)]) (snd (record_and_check m l t p hist))"
    and "fst (record_and_check m l t p hist) \<longleftrightarrow>
           2 \<le> trailing (rev (map call_key (past @ [(t, p)]))) \<and> m \<le> trailing (rev (map call_key (past @ [(t, p)])))"
    by simp_all
qed

lemma run_calls_ok: "history_ok past hist \<Longrightarrow> 0 < l \<Longrightarrow> history_ok (past @ cs) (run_calls m l cs hist)"
proof (induction cs arbitrary: past hist)
  case (Cons c cs)
  obtain t p where c: "c = (t, p)" by (cases c)
  from Cons.IH [OF record_and_check_ok(1) [OF Cons.prems]] Cons.prems(2) show ?case
    by (simp add: c)
qed simp

text \<open>Alerts of a failing job.\<close>

fun job_alerts :: "string \<Rightarrow> attempt list \<Rightarrow> job_entry dict \<Rightarrow> nat" where
  "job_alerts job [] bs = 0"
| "job_alerts job ((t, d, err) # as) bs =
     (case should_allow_execution t job bs of
        (False, bs') \<Rightarrow> job_alerts job as bs'
      | (True, bs') \<Rightarrow>
          (case record_result (t + d) job (err = None) (case err of None \<Rightarrow> [] | Some e \<Rightarrow> e) [] bs' of
             (rep, bs'') \<Rightarrow> (if jr_alert_needed rep then 1 else 0) + job_alerts job as bs''))"

lemma should_allow_alert: "je_alert_sent (job_of job (snd (should_allow_execution t job bs))) = je_alert_sent (job_of job bs)"
  by (auto simp: should_allow_execution_def job_of_def dict_get_def split: option.splits breaker_state.splits)

lemma record_result_failure_alert:
  "record_result t job False err [] bs = (rep, bs') \<Longrightarrow>
     (if je_alert_sent (job_of job bs) then \<not> jr_alert_needed rep \<and> je_alert_sent (job_of job bs')
      else jr_alert_needed rep \<longrightarrow> je_alert_sent (job_of job bs'))"
  by (auto simp: record_result_def job_of_def job_failed_def dict_get_def new_job_def Let_def
      split: option.splits if_splits prod.splits)

lemma failing_alerts:
  "\<forall>(t, d, err) \<in> set as. err \<noteq> None \<Longrightarrow>
   job_alerts job as bs \<le> (if je_alert_sent (job_of job bs) then 0 else 1)"
proof (induction as arbitrary: bs)
  case (Cons a as)
  obtain t d err where a: "a = (t, d, err)" by (cases a)
  obtain e where ok: "err = Some e" and rest: "\<forall>(t, d, err) \<in> set as. err \<noteq> None" using Cons.prems by (auto simp: a)
  obtain al bs1 where al: "should_allow_execution t job bs = (al, bs1)" by (cases "should_allow_execution t job bs")
  have s1: "je_alert_sent (job_of job bs1) = je_alert_sent (job_of job bs)"
    using should_allow_alert [of job t bs] al by simp
  obtain rep bs2 where r: "record_result (t + d) job False e [] bs1 = (rep, bs2)"
    by (cases "record_result (t + d) job False e [] bs1")
  from Cons.IH [OF rest, of bs1] Cons.IH [OF rest, of bs2] record_result_failure_alert [OF r] s1 ok al r
  show ?case by (cases al) (auto simp: a split: if_splits)
qed simp

section \<open>Properties\<close>

text \<open>A failing task is not retried in a storm. While every attempt fails, a quarantined task is
  executed at least 300 seconds after its last probe and then at least 300 seconds apart, however
  often it is attempted.\<close>

theorem failing_task_is_throttled:
  assumes "te_state (task_of task bs) = DEGRADED_QUARANTINED" and "3 \<le> te_failures (task_of task bs)"
    and "\<forall>(t, d, err) \<in> set as. err \<noteq> None \<and> 0 \<le> d"
  shows "sorted_wrt (\<lambda>a b. a + 300 \<le> b) (executed_times (task_attempt task) as bs) \<and>
    (\<forall>t \<in> set (executed_times (task_attempt task) as bs). te_last_probe_time (task_of task bs) + 300 \<le> t)"
  using tb.failing_attempts_are_spaced [of task bs as] assms
  by (simp add: FAILURE_THRESHOLD_def PROBE_INTERVAL_SECONDS_def)

definition demo_quarantined :: "task_entry dict" where
  "demo_quarantined = [(''t'', \<lparr>te_failures = 3, te_state = DEGRADED_QUARANTINED, te_last_error = ''e'',
     te_last_failure_time = 1000, te_last_probe_time = 1000\<rparr>)]"

theorem failing_task_is_throttled_witness:
  "executed_times (task_attempt ''t'') [(1100, 0, Some ''e''), (1300, 0, Some ''e''), (1400, 0, Some ''e''), (1700, 0, Some ''e'')] demo_quarantined
     = [1300, 1700] \<and> sorted_wrt (\<lambda>a b. a + 300 \<le> b) [1300, 1700 :: time]"
proof -
  have e: "executed_times (task_attempt ''t'') [(1100, 0, Some ''e''), (1300, 0, Some ''e''), (1400, 0, Some ''e''), (1700, 0, Some ''e'')] demo_quarantined
     = [1300, 1700]"
    by (simp add: task_breaker_defs demo_quarantined_def dict_get_def PROBE_INTERVAL_SECONDS_def FAILURE_THRESHOLD_def)
  have "sorted_wrt (\<lambda>a b. a + 300 \<le> b) (executed_times (task_attempt ''t'')
      [(1100, 0, Some ''e''), (1300, 0, Some ''e''), (1400, 0, Some ''e''), (1700, 0, Some ''e'')] demo_quarantined)"
    using failing_task_is_throttled [of "''t''" demo_quarantined
        "[(1100, 0, Some ''e''), (1300, 0, Some ''e''), (1400, 0, Some ''e''), (1700, 0, Some ''e'')]"]
    by (simp add: task_of_def demo_quarantined_def dict_get_def)
  with e show ?thesis by simp
qed

text \<open>A failing cron job is throttled by its own probe interval and alerts once. While every run
  fails, a quarantined job runs at least its interval apart, and whatever state it starts in at
  most one alert is raised, none if one was already sent.\<close>

theorem failing_job_is_throttled:
  assumes "je_state (job_of job bs) = DEGRADED_QUARANTINED" and "3 \<le> je_failures (job_of job bs)"
    and "0 < je_probe_interval (job_of job bs)" and "\<forall>(t, d, err) \<in> set as. err \<noteq> None \<and> 0 \<le> d"
  shows "sorted_wrt (\<lambda>a b. a + je_probe_interval (job_of job bs) \<le> b) (executed_times (job_attempt job) as bs) \<and>
    (\<forall>t \<in> set (executed_times (job_attempt job) as bs).
        je_last_probe_time (job_of job bs) + je_probe_interval (job_of job bs) \<le> t) \<and>
    job_alerts job as bs \<le> (if je_alert_sent (job_of job bs) then 0 else 1)"
proof -
  have "\<forall>(t, d, err) \<in> set as. err \<noteq> None" using assms(4) by auto
  from failing_alerts [OF this] jb.failing_attempts_are_spaced [of job bs as] assms show ?thesis
    by (simp add: FAILURE_THRESHOLD_def)
qed

theorem failing_job_is_throttled_witness:
  "job_alerts ''j'' [(1300, 0, Some ''e'')]
     [(''j'', (new_job [])\<lparr>je_failures := 3, je_state := DEGRADED_QUARANTINED, je_last_probe_time := 1000\<rparr>)] \<le> 1"
  using failing_job_is_throttled [of "''j''"
      "[(''j'', (new_job [])\<lparr>je_failures := 3, je_state := DEGRADED_QUARANTINED, je_last_probe_time := 1000\<rparr>)]"
      "[(1300, 0, Some ''e'')]"]
  by (simp add: job_of_def dict_get_def new_job_def)

text \<open>The duplicate-call detector trips exactly on repetition. After any calls, the next one trips
  when it and the calls right before it are the same tool with the same parameter fingerprint at
  least twice and at least the configured number of times in a row, and only then; the bounded
  history does not matter.\<close>

theorem duplicate_calls_trip:
  assumes "0 < maxlen"
  shows "fst (record_and_check max_dup maxlen t p (run_calls max_dup maxlen calls [])) \<longleftrightarrow>
    2 \<le> trailing (rev (map call_key (calls @ [(t, p)]))) \<and> max_dup \<le> trailing (rev (map call_key (calls @ [(t, p)])))"
  using record_and_check_ok(2) [OF run_calls_ok [of "[]" "[]" maxlen calls max_dup] assms] assms
  by (simp add: history_ok_def)

theorem duplicate_calls_trip_witness:
  "fst (record_and_check 2 1000 ''grep'' ''x'' (run_calls 2 1000 [(''ls'', ''y''), (''grep'', ''x'')] []))"
  using duplicate_calls_trip [of 1000 2 "''grep''" "''x''" "[(''ls'', ''y''), (''grep'', ''x'')]"]
  by (simp add: call_key_def)

text \<open>A negative-cache entry blocks its normalised key until it expires, and only that text: a key that
  is not already stripped and cut to 255 characters is recorded under another text than the one
  looked up.\<close>

lemma negative_cache_blocks:
  "check_negative_cache t (take 255 (strip key)) (record_negative_cache sanitize now key reason ttl cache) =
     (if t < now + ttl then Some (py_int (now + ttl - t)) else None)"
  by (simp add: check_negative_cache_def record_negative_cache_def Let_def)

lemma negative_cache_misses_unnormalised_key:
  assumes "key \<noteq> take 255 (strip key)" and "map_of cache key = None"
  shows "check_negative_cache t key (record_negative_cache sanitize now key reason ttl cache) = None"
proof -
  have "map_of (filter P cache) key = None" for P
    using assms(2) by (auto simp: map_of_eq_None_iff)
  with assms(1) show ?thesis by (simp add: check_negative_cache_def record_negative_cache_def Let_def)
qed

text \<open>While a probe is under way every other execution is allowed too.\<close>

lemma probing_job_is_not_exclusive:
  "map_of bs job = Some e \<Longrightarrow> je_state e = SLOW_PROBING \<Longrightarrow> should_allow_execution now job bs = (True, bs)"
  by (simp add: should_allow_execution_def)

end
