(* ===== verification/Planner.thy ===== *)
theory Planner
  imports PyJson
begin

text \<open>
  \<open>src/capabilities/planner_recovery/planner_recovery_engine.py\<close>: the sub-task state machine with
  partial re-planning. The tasks are a dictionary in insertion order; an operation gets the time
  and returns the new plan, or the exception it raises. Lists given by callers are values here:
  two tasks never share one.
\<close>

section \<open>State\<close>

datatype task_status = PENDING | READY | RUNNING | COMPLETED | FAILED | NEEDS_REPLAN | SKIPPED | ESCALATED

record sub_task =
  st_title :: string
  st_description :: string
  st_dependencies :: "string list"
  st_status :: task_status
  st_replan_count :: int
  st_max_replans :: int
  st_evidence :: json
  st_error_history :: "(time \<times> int \<times> string) list"
  st_created_at :: time
  st_updated_at :: time

record plan =
  pl_plan_id :: string
  pl_goal :: string
  pl_tasks :: "sub_task dict"
  pl_created_at :: time
  pl_updated_at :: time

datatype plan_error =
    TaskExists | SelfDependency | TaskNotFound | NotReady task_status | NotCompletable task_status | NotReplannable task_status

definition new_task :: "time \<Rightarrow> string \<Rightarrow> string \<Rightarrow> string list \<Rightarrow> int \<Rightarrow> int \<Rightarrow> sub_task" where
  "new_task now title desc deps count mx =
     \<lparr>st_title = title, st_description = desc, st_dependencies = deps, st_status = PENDING,
      st_replan_count = count, st_max_replans = mx, st_evidence = JObj [], st_error_history = [],
      st_created_at = now, st_updated_at = now\<rparr>"

definition new_plan :: "time \<Rightarrow> string \<Rightarrow> string \<Rightarrow> plan" where
  "new_plan now pid goal = \<lparr>pl_plan_id = pid, pl_goal = goal, pl_tasks = [], pl_created_at = now, pl_updated_at = now\<rparr>"

section \<open>Operations\<close>

definition dep_completed :: "sub_task dict \<Rightarrow> string \<Rightarrow> bool" where
  "dep_completed ts d = (case map_of ts d of None \<Rightarrow> False | Some t \<Rightarrow> st_status t = COMPLETED)"

definition refreshed :: "time \<Rightarrow> sub_task dict \<Rightarrow> sub_task \<Rightarrow> sub_task" where
  "refreshed now ts t =
     (if st_status t = PENDING \<and> list_all (dep_completed ts) (st_dependencies t)
      then t\<lparr>st_status := READY, st_updated_at := now\<rparr> else t)"

text \<open>\<open>_refresh_task_states\<close>: the loop changes the tasks one after the other, each check reading the
  dictionary as changed so far.\<close>

fun refresh_loop :: "time \<Rightarrow> string list \<Rightarrow> sub_task dict \<Rightarrow> sub_task dict" where
  "refresh_loop now [] ts = ts"
| "refresh_loop now (k # ks) ts =
     refresh_loop now ks (case map_of ts k of None \<Rightarrow> ts | Some t \<Rightarrow> AList.update k (refreshed now ts t) ts)"

definition refresh_task_states :: "time \<Rightarrow> sub_task dict \<Rightarrow> sub_task dict" where
  "refresh_task_states now ts = refresh_loop now (map fst ts) ts"

definition add_task ::
  "time \<Rightarrow> string \<Rightarrow> string \<Rightarrow> string \<Rightarrow> string list \<Rightarrow> int \<Rightarrow> plan \<Rightarrow> plan_error + plan" where
  "add_task now tid title desc deps mx p =
     (if has_key (pl_tasks p) tid then Inl TaskExists
      else if tid \<in> set deps then Inl SelfDependency
      else Inr (p\<lparr>pl_tasks := refresh_task_states now (AList.update tid (new_task now title desc deps 0 mx) (pl_tasks p)),
                  pl_updated_at := now\<rparr>))"

definition get_ready_tasks :: "time \<Rightarrow> plan \<Rightarrow> (string \<times> sub_task) list \<times> plan" where
  "get_ready_tasks now p =
     (let ts = refresh_task_states now (pl_tasks p)
      in (filter (\<lambda>(_, t). st_status t = READY) ts, p\<lparr>pl_tasks := ts\<rparr>))"

definition start_task :: "time \<Rightarrow> string \<Rightarrow> plan \<Rightarrow> plan_error + plan" where
  "start_task now tid p =
     (case map_of (pl_tasks p) tid of
        None \<Rightarrow> Inl TaskNotFound
      | Some t \<Rightarrow>
          (if st_status t \<noteq> READY then Inl (NotReady (st_status t))
           else Inr (p\<lparr>pl_tasks := AList.update tid (t\<lparr>st_status := RUNNING, st_updated_at := now\<rparr>) (pl_tasks p),
                       pl_updated_at := now\<rparr>)))"

definition mark_completed :: "time \<Rightarrow> string \<Rightarrow> json option \<Rightarrow> plan \<Rightarrow> plan_error + plan" where
  "mark_completed now tid evidence p =
     (case map_of (pl_tasks p) tid of
        None \<Rightarrow> Inl TaskNotFound
      | Some t \<Rightarrow>
          (if st_status t \<notin> {RUNNING, READY} then Inl (NotCompletable (st_status t))
           else Inr (p\<lparr>pl_tasks := refresh_task_states now (AList.update tid
                         (t\<lparr>st_status := COMPLETED, st_evidence := (case evidence of None \<Rightarrow> JObj [] | Some e \<Rightarrow> e),
                            st_updated_at := now\<rparr>) (pl_tasks p)),
                       pl_updated_at := now\<rparr>)))"

definition mark_failed :: "time \<Rightarrow> string \<Rightarrow> string \<Rightarrow> plan \<Rightarrow> plan_error + plan" where
  "mark_failed now tid err p =
     (case map_of (pl_tasks p) tid of
        None \<Rightarrow> Inl TaskNotFound
      | Some t \<Rightarrow>
          (let t1 = t\<lparr>st_error_history := st_error_history t @ [(now, st_replan_count t + 1, err)], st_updated_at := now\<rparr>;
               t2 = (if st_replan_count t < st_max_replans t then t1\<lparr>st_status := NEEDS_REPLAN\<rparr>
                     else t1\<lparr>st_status := ESCALATED\<rparr>)
           in Inr (p\<lparr>pl_tasks := AList.update tid t2 (pl_tasks p), pl_updated_at := now\<rparr>)))"

text \<open>A replacement: each key of the given dictionary may be absent. \<open>alt_id\<close> is the generated name.\<close>

record replacement =
  rp_task_id :: "string option"
  rp_title :: "string option"
  rp_description :: "string option"
  rp_dependencies :: "string list option"

definition alt_id :: "string \<Rightarrow> int \<Rightarrow> nat \<Rightarrow> string" where
  "alt_id failed count idx = failed @ ''_alt_'' @ int_str count @ ''_'' @ nat_str (idx + 1)"

text \<open>The loop over the replacements: \<open>prev\<close> is the last one inserted.\<close>

fun insert_replacements ::
  "time \<Rightarrow> string \<Rightarrow> sub_task \<Rightarrow> nat \<Rightarrow> string option \<Rightarrow> replacement list \<Rightarrow> sub_task dict \<Rightarrow>
   sub_task dict \<times> string list \<times> string option" where
  "insert_replacements now failed f idx prev [] ts = (ts, [], prev)"
| "insert_replacements now failed f idx prev (r # rs) ts =
     (let nid = (case rp_task_id r of Some i \<Rightarrow> i | None \<Rightarrow> alt_id failed (st_replan_count f) idx);
          title = (case rp_title r of Some s \<Rightarrow> s | None \<Rightarrow> ''Alternative step for '' @ st_title f);
          desc = (case rp_description r of Some s \<Rightarrow> s | None \<Rightarrow> []);
          deps = (case rp_dependencies r of Some ds \<Rightarrow> ds
                  | None \<Rightarrow> (case prev of None \<Rightarrow> st_dependencies f | Some q \<Rightarrow> [q]));
          t = new_task now title desc deps (st_replan_count f) (st_max_replans f)
      in case insert_replacements now failed f (idx + 1) (Some nid) rs (AList.update nid t ts) of
           (ts', ids, fin) \<Rightarrow> (ts', nid # ids, fin))"

definition redirect :: "string \<Rightarrow> string \<Rightarrow> string list \<Rightarrow> sub_task dict \<Rightarrow> sub_task dict" where
  "redirect failed target new_ids ts =
     map (\<lambda>(k, t). (k, if k \<notin> set new_ids \<and> failed \<in> set (st_dependencies t)
                       then t\<lparr>st_dependencies := map (\<lambda>d. if d = failed then target else d) (st_dependencies t)\<rparr> else t)) ts"

definition partial_replan :: "time \<Rightarrow> string \<Rightarrow> replacement list \<Rightarrow> plan \<Rightarrow> plan_error + string list \<times> plan" where
  "partial_replan now failed rs p =
     (case map_of (pl_tasks p) failed of
        None \<Rightarrow> Inl TaskNotFound
      | Some t \<Rightarrow>
          (if st_status t \<noteq> NEEDS_REPLAN then Inl (NotReplannable (st_status t))
           else
             let f = t\<lparr>st_replan_count := st_replan_count t + 1\<rparr>
             in case insert_replacements now failed f 0 None rs (filter (\<lambda>(k, _). k \<noteq> failed) (pl_tasks p)) of
                  (ts, ids, prev) \<Rightarrow>
                    Inr (ids, p\<lparr>pl_tasks := refresh_task_states now
                                  (case prev of Some q \<Rightarrow> (if q \<noteq> [] then redirect failed q ids ts else ts) | None \<Rightarrow> ts),
                                pl_updated_at := now\<rparr>)))"

definition is_all_completed :: "plan \<Rightarrow> bool" where
  "is_all_completed p \<longleftrightarrow> pl_tasks p \<noteq> [] \<and> list_all (\<lambda>(_, t). st_status t = COMPLETED) (pl_tasks p)"

definition is_blocked :: "plan \<Rightarrow> bool" where
  "is_blocked p \<longleftrightarrow> list_ex (\<lambda>(_, t). st_status t = ESCALATED) (pl_tasks p)"

definition count_status :: "task_status list \<Rightarrow> plan \<Rightarrow> nat" where
  "count_status ss p = length (filter (\<lambda>(_, t). st_status t \<in> set ss) (pl_tasks p))"

text \<open>The summary of \<open>export_ledger\<close>: total, completed, pending, failed or escalated.\<close>

definition ledger_summary :: "plan \<Rightarrow> nat \<times> nat \<times> nat \<times> nat" where
  "ledger_summary p = (length (pl_tasks p), count_status [COMPLETED] p, count_status [PENDING, READY] p,
     count_status [FAILED, NEEDS_REPLAN, ESCALATED] p)"

section \<open>The refresh loop is one pass over the original dictionary\<close>

definition refresh_pass :: "time \<Rightarrow> sub_task dict \<Rightarrow> sub_task dict" where
  "refresh_pass now ts = map (\<lambda>(k, t). (k, refreshed now ts t)) ts"

lemma refreshed_status: "st_status (refreshed now ts t) = COMPLETED \<longleftrightarrow> st_status t = COMPLETED"
  by (simp add: refreshed_def)

lemma dep_completed_update:
  "map_of ts k = Some t \<Longrightarrow> dep_completed (AList.update k (refreshed now ts' t) ts) = dep_completed ts"
  by (rule ext) (auto simp: dep_completed_def refreshed_status)

lemma refreshed_cong: "dep_completed ts = dep_completed ts' \<Longrightarrow> refreshed now ts t = refreshed now ts' t"
  by (simp add: refreshed_def)

lemma refresh_loop_lookup:
  assumes "distinct ks"
  shows "map_of (refresh_loop now ks ts) k =
    (if k \<in> set ks then map_option (refreshed now ts) (map_of ts k) else map_of ts k)"
  using assms
proof (induction ks arbitrary: ts)
  case (Cons j ks)
  show ?case
  proof (cases "map_of ts j")
    case None
    with Cons show ?thesis by auto
  next
    case (Some t)
    have d: "dep_completed (AList.update j (refreshed now ts t) ts) = dep_completed ts"
      by (rule dep_completed_update [OF Some])
    have r: "refreshed now (AList.update j (refreshed now ts t) ts) = refreshed now ts"
      by (rule ext) (rule refreshed_cong [OF d])
    from Cons Some show ?thesis by (simp add: r)
  qed
qed simp

lemma refresh_loop_keys: "map fst (refresh_loop now ks ts) = map fst ts"
proof (induction ks arbitrary: ts)
  case (Cons j ks)
  have "map fst (AList.update j v ts) = map fst ts" if "map_of ts j = Some t" for v t
    using that by (induction ts) (auto split: if_splits)
  with Cons show ?case by (auto split: option.split)
qed simp

lemma wf_dict_refresh [simp]: "wf_dict (refresh_task_states now ts) = wf_dict ts"
  by (simp add: wf_dict_def refresh_task_states_def refresh_loop_keys)

lemma refresh_lookup:
  assumes "wf_dict ts"
  shows "map_of (refresh_task_states now ts) k = map_option (refreshed now ts) (map_of ts k)"
  using assms
  by (auto simp: refresh_task_states_def refresh_loop_lookup wf_dict_def map_of_eq_None_iff split: if_splits)
     (metis map_of_eq_None_iff option.simps(8))

section \<open>Plans as a transition system\<close>

datatype plan_op =
    AddTask string string string "string list" int
  | GetReady
  | StartTask string
  | MarkCompleted string "json option"
  | MarkFailed string string
  | PartialReplan string "replacement list"

text \<open>An operation that raises leaves the plan as it was.\<close>

definition or_same :: "plan_error + plan \<Rightarrow> plan \<Rightarrow> plan" where
  "or_same r p = (case r of Inl _ \<Rightarrow> p | Inr q \<Rightarrow> q)"

fun plan_step :: "time \<Rightarrow> plan_op \<Rightarrow> plan \<Rightarrow> plan" where
  "plan_step now (AddTask tid title desc deps mx) p = or_same (add_task now tid title desc deps mx p) p"
| "plan_step now GetReady p = snd (get_ready_tasks now p)"
| "plan_step now (StartTask tid) p = or_same (start_task now tid p) p"
| "plan_step now (MarkCompleted tid e) p = or_same (mark_completed now tid e p) p"
| "plan_step now (MarkFailed tid err) p = or_same (mark_failed now tid err p) p"
| "plan_step now (PartialReplan tid rs) p = or_same (map_sum id snd (partial_replan now tid rs p)) p"

fun new_ids :: "string \<Rightarrow> int \<Rightarrow> nat \<Rightarrow> replacement list \<Rightarrow> string list" where
  "new_ids failed count idx [] = []"
| "new_ids failed count idx (r # rs) =
     (case rp_task_id r of Some i \<Rightarrow> i | None \<Rightarrow> alt_id failed count idx) # new_ids failed count (idx + 1) rs"

text \<open>The discipline the documentation takes for granted: completed work is not reported as failed, and
  replacements get names no remaining task has.\<close>

fun disciplined :: "plan_op \<Rightarrow> plan \<Rightarrow> bool" where
  "disciplined (MarkFailed tid err) p \<longleftrightarrow> (case map_of (pl_tasks p) tid of None \<Rightarrow> True | Some t \<Rightarrow> st_status t \<noteq> COMPLETED)"
| "disciplined (PartialReplan tid rs) p \<longleftrightarrow>
     (case map_of (pl_tasks p) tid of
        None \<Rightarrow> True
      | Some t \<Rightarrow> \<forall>n \<in> set (new_ids tid (st_replan_count t + 1) 0 rs). n = tid \<or> \<not> has_key (pl_tasks p) n)"
| "disciplined _ p \<longleftrightarrow> True"

inductive plan_reach :: "(plan_op \<Rightarrow> plan \<Rightarrow> bool) \<Rightarrow> plan \<Rightarrow> bool" for ok :: "plan_op \<Rightarrow> plan \<Rightarrow> bool" where
  start: "plan_reach ok (new_plan now pid goal)"
| step: "plan_reach ok p \<Longrightarrow> ok op p \<Longrightarrow> plan_reach ok (plan_step now op p)"

section \<open>Lookups\<close>

lemma map_of_remove: "map_of (filter (\<lambda>(k, _). k \<noteq> j) ts) k = (if k = j then None else map_of ts k)"
  by (induction ts) auto

lemma map_of_redirect:
  "map_of (redirect failed target ids ts) k = map_option (\<lambda>t. if k \<notin> set ids \<and> failed \<in> set (st_dependencies t)
     then t\<lparr>st_dependencies := map (\<lambda>d. if d = failed then target else d) (st_dependencies t)\<rparr> else t) (map_of ts k)"
  by (induction ts) (auto simp: redirect_def)

lemma wf_dict_redirect [simp]: "wf_dict (redirect failed target ids ts) = wf_dict ts"
  by (simp add: wf_dict_def redirect_def comp_def case_prod_beta)

lemma insert_replacements_facts:
  "insert_replacements now failed f idx prev rs ts = (ts', ids, fin) \<Longrightarrow>
   ids = new_ids failed (st_replan_count f) idx rs \<and> (wf_dict ts \<longrightarrow> wf_dict ts') \<and>
   (\<forall>k. k \<notin> set ids \<longrightarrow> map_of ts' k = map_of ts k) \<and>
   (\<forall>k \<in> set ids. \<exists>t. map_of ts' k = Some t \<and> st_status t = PENDING \<and>
      st_replan_count t = st_replan_count f \<and> st_max_replans t = st_max_replans f)"
proof (induction rs arbitrary: idx prev ts ts' ids fin)
  case (Cons r rs)
  define nid where "nid = (case rp_task_id r of Some i \<Rightarrow> i | None \<Rightarrow> alt_id failed (st_replan_count f) idx)"
  obtain t ids2 where t: "insert_replacements now failed f (idx + 1) (Some nid) rs (AList.update nid t ts) = (ts', ids2, fin)"
      "ids = nid # ids2" "st_status t = PENDING" "st_replan_count t = st_replan_count f" "st_max_replans t = st_max_replans f"
    using Cons.prems by (auto simp: nid_def Let_def new_task_def split: prod.splits)
  from Cons.IH [OF t(1)] show ?case
    using t(2-5) by (auto simp flip: nid_def)
qed simp

section \<open>Invariants\<close>

definition replans_bounded :: "sub_task \<Rightarrow> bool" where
  "replans_bounded t \<longleftrightarrow> 0 \<le> st_replan_count t \<and> st_replan_count t \<le> max 0 (st_max_replans t) \<and>
     (st_status t = NEEDS_REPLAN \<longrightarrow> st_replan_count t < st_max_replans t)"

definition started :: "sub_task \<Rightarrow> bool" where
  "started t \<longleftrightarrow> st_status t \<in> {READY, RUNNING, COMPLETED}"

definition order_kept :: "sub_task dict \<Rightarrow> bool" where
  "order_kept ts \<longleftrightarrow> (\<forall>k t. map_of ts k = Some t \<longrightarrow> started t \<longrightarrow> (\<forall>d \<in> set (st_dependencies t). dep_completed ts d))"

definition all_tasks :: "(sub_task \<Rightarrow> bool) \<Rightarrow> sub_task dict \<Rightarrow> bool" where
  "all_tasks P ts \<longleftrightarrow> (\<forall>k t. map_of ts k = Some t \<longrightarrow> P t)"

lemma all_tasks_update: "all_tasks P ts \<Longrightarrow> P t \<Longrightarrow> all_tasks P (AList.update k t ts)"
  by (simp add: all_tasks_def)

lemma all_tasks_refresh:
  "wf_dict ts \<Longrightarrow> all_tasks P ts \<Longrightarrow> (\<And>t ts'. P t \<Longrightarrow> P (refreshed now ts' t)) \<Longrightarrow> all_tasks P (refresh_task_states now ts)"
  by (auto simp: all_tasks_def refresh_lookup)

lemma replans_bounded_refreshed: "replans_bounded t \<Longrightarrow> replans_bounded (refreshed now ts t)"
  by (simp add: replans_bounded_def refreshed_def)

lemma dep_completed_refresh: "wf_dict ts \<Longrightarrow> dep_completed (refresh_task_states now ts) d = dep_completed ts d"
  by (auto simp: dep_completed_def refresh_lookup refreshed_status split: option.splits)

lemma order_kept_refresh:
  assumes "wf_dict ts" and "order_kept ts"
  shows "order_kept (refresh_task_states now ts)"
  using assms
  by (auto simp: order_kept_def refresh_lookup dep_completed_refresh refreshed_def started_def list_all_iff split: if_splits)

definition plan_inv :: "plan \<Rightarrow> bool" where
  "plan_inv p \<longleftrightarrow> wf_dict (pl_tasks p) \<and> all_tasks replans_bounded (pl_tasks p)"

lemma partial_replan_cases:
  assumes "partial_replan now tid rs p = Inr (ids, q)"
  obtains t ts fin where "map_of (pl_tasks p) tid = Some t" and "st_status t = NEEDS_REPLAN"
    and "insert_replacements now tid (t\<lparr>st_replan_count := st_replan_count t + 1\<rparr>) 0 None rs
           (filter (\<lambda>(k, _). k \<noteq> tid) (pl_tasks p)) = (ts, ids, fin)"
    and "pl_tasks q = refresh_task_states now
           (case fin of Some x \<Rightarrow> (if x \<noteq> [] then redirect tid x ids ts else ts) | None \<Rightarrow> ts)"
  using assms that by (auto simp: partial_replan_def Let_def split: option.splits if_splits prod.splits)

lemma plan_inv_replan:
  assumes "plan_inv p" and "partial_replan now tid rs p = Inr (ids, q)"
  shows "plan_inv q"
proof -
  from assms(2) obtain t ts fin where c: "map_of (pl_tasks p) tid = Some t" "st_status t = NEEDS_REPLAN"
      "insert_replacements now tid (t\<lparr>st_replan_count := st_replan_count t + 1\<rparr>) 0 None rs
           (filter (\<lambda>(k, _). k \<noteq> tid) (pl_tasks p)) = (ts, ids, fin)"
      "pl_tasks q = refresh_task_states now
           (case fin of Some x \<Rightarrow> (if x \<noteq> [] then redirect tid x ids ts else ts) | None \<Rightarrow> ts)"
    by (rule partial_replan_cases)
  have b: "0 \<le> st_replan_count t" "st_replan_count t < st_max_replans t"
    using assms(1) c(1,2) by (auto simp: plan_inv_def all_tasks_def replans_bounded_def)
  note f = insert_replacements_facts [OF c(3)]
  have wf: "wf_dict ts" using f assms(1) by (simp add: plan_inv_def)
  have ts: "all_tasks replans_bounded ts"
    unfolding all_tasks_def
  proof (intro allI impI)
    fix k u assume u: "map_of ts k = Some u"
    show "replans_bounded u"
    proof (cases "k \<in> set ids")
      case True
      with f u b show ?thesis by (auto simp: replans_bounded_def)
    next
      case False
      with f u have "map_of (pl_tasks p) k = Some u" by (simp add: map_of_remove split: if_splits)
      with assms(1) show ?thesis by (auto simp: plan_inv_def all_tasks_def)
    qed
  qed
  then have "all_tasks replans_bounded (redirect tid x ids ts)" for x
    by (auto simp: all_tasks_def map_of_redirect replans_bounded_def split: if_splits)
  with ts wf c(4) show ?thesis
    by (auto simp: plan_inv_def all_tasks_refresh replans_bounded_refreshed split: option.splits)
qed

lemma plan_inv_step: "plan_inv p \<Longrightarrow> plan_inv (plan_step now op p)"
proof (cases op)
  case (PartialReplan tid rs)
  show "plan_inv p \<Longrightarrow> plan_inv (plan_step now op p)"
  proof (cases "partial_replan now tid rs p")
    case (Inr x)
    then show "plan_inv p \<Longrightarrow> plan_inv (plan_step now op p)"
      using plan_inv_replan [of p now tid rs "fst x" "snd x"] by (simp add: PartialReplan or_same_def)
  qed (simp add: PartialReplan or_same_def)
next
  case (AddTask tid title desc deps mx)
  have "replans_bounded (new_task now title desc deps 0 mx)" by (simp add: replans_bounded_def new_task_def)
  then show "plan_inv p \<Longrightarrow> plan_inv (plan_step now op p)"
    by (auto simp: AddTask or_same_def add_task_def plan_inv_def
        intro!: all_tasks_refresh all_tasks_update replans_bounded_refreshed split: sum.splits)
next
  case GetReady
  then show "plan_inv p \<Longrightarrow> plan_inv (plan_step now op p)"
    by (auto simp: get_ready_tasks_def plan_inv_def Let_def intro!: all_tasks_refresh replans_bounded_refreshed)
next
  case (StartTask tid)
  then show "plan_inv p \<Longrightarrow> plan_inv (plan_step now op p)"
    by (auto simp: or_same_def start_task_def plan_inv_def all_tasks_def replans_bounded_def split: option.splits)
next
  case (MarkCompleted tid e)
  show "plan_inv p \<Longrightarrow> plan_inv (plan_step now op p)"
    by (auto simp: MarkCompleted or_same_def mark_completed_def plan_inv_def split: option.splits
        intro!: all_tasks_refresh all_tasks_update replans_bounded_refreshed)
       (auto simp: all_tasks_def replans_bounded_def)
next
  case (MarkFailed tid err)
  then show "plan_inv p \<Longrightarrow> plan_inv (plan_step now op p)"
    by (auto simp: or_same_def mark_failed_def plan_inv_def Let_def all_tasks_def replans_bounded_def split: option.splits)
qed

lemma plan_inv_reach: "plan_reach ok p \<Longrightarrow> plan_inv p"
  by (induction rule: plan_reach.induct) (simp_all add: plan_inv_step, simp add: plan_inv_def new_plan_def all_tasks_def)

section \<open>Disciplined plans\<close>

definition keeps_completed :: "sub_task dict \<Rightarrow> sub_task dict \<Rightarrow> bool" where
  "keeps_completed ts ts' \<longleftrightarrow> (\<forall>k t. map_of ts k = Some t \<longrightarrow> st_status t = COMPLETED \<longrightarrow> map_of ts' k = Some t)"

lemma keeps_completed_refl [simp]: "keeps_completed ts ts"
  by (simp add: keeps_completed_def)

lemma keeps_completed_trans: "keeps_completed a b \<Longrightarrow> keeps_completed b c \<Longrightarrow> keeps_completed a c"
  by (simp add: keeps_completed_def)

lemma keeps_completed_refresh: "wf_dict ts \<Longrightarrow> keeps_completed ts (refresh_task_states now ts)"
  by (simp add: keeps_completed_def refresh_lookup refreshed_def)

lemma keeps_completed_update:
  "(case map_of ts k of None \<Rightarrow> True | Some t \<Rightarrow> st_status t \<noteq> COMPLETED) \<Longrightarrow> keeps_completed ts (AList.update k t' ts)"
  by (auto simp: keeps_completed_def)

lemma dep_completed_mono: "keeps_completed ts ts' \<Longrightarrow> dep_completed ts d \<Longrightarrow> dep_completed ts' d"
  by (force simp: keeps_completed_def dep_completed_def split: option.splits)

lemma order_kept_update:
  assumes "order_kept ts" and "keeps_completed ts (AList.update k t' ts)"
    and "started t' \<Longrightarrow> \<forall>d \<in> set (st_dependencies t'). dep_completed ts d"
  shows "order_kept (AList.update k t' ts)"
  using assms dep_completed_mono [OF assms(2)] unfolding order_kept_def map_of_update
  by (metis option.inject)

definition good_tasks :: "sub_task dict \<Rightarrow> sub_task dict \<Rightarrow> bool" where
  "good_tasks ts ts' \<longleftrightarrow> order_kept ts' \<and> keeps_completed ts ts'"

lemma good_update:
  assumes "order_kept ts" and "case map_of ts k of None \<Rightarrow> True | Some t \<Rightarrow> st_status t \<noteq> COMPLETED"
    and "started t' \<Longrightarrow> \<forall>d \<in> set (st_dependencies t'). dep_completed ts d"
  shows "good_tasks ts (AList.update k t' ts)"
  using keeps_completed_update [OF assms(2)] order_kept_update [OF assms(1) _ assms(3)] by (auto simp: good_tasks_def)

lemma good_refresh: "wf_dict ts' \<Longrightarrow> good_tasks ts ts' \<Longrightarrow> good_tasks ts (refresh_task_states now ts')"
  using keeps_completed_trans keeps_completed_refresh order_kept_refresh by (auto simp: good_tasks_def)

lemma good_replan:
  assumes "wf_dict (pl_tasks p)" and "order_kept (pl_tasks p)" and "disciplined (PartialReplan tid rs) p"
    and "partial_replan now tid rs p = Inr (ids, q)"
  shows "good_tasks (pl_tasks p) (pl_tasks q)"
proof -
  let ?ts0 = "pl_tasks p"
  from assms(4) obtain t ts fin where c: "map_of ?ts0 tid = Some t" "st_status t = NEEDS_REPLAN"
      "insert_replacements now tid (t\<lparr>st_replan_count := st_replan_count t + 1\<rparr>) 0 None rs
           (filter (\<lambda>(k, _). k \<noteq> tid) ?ts0) = (ts, ids, fin)"
      "pl_tasks q = refresh_task_states now
           (case fin of Some x \<Rightarrow> (if x \<noteq> [] then redirect tid x ids ts else ts) | None \<Rightarrow> ts)"
    by (rule partial_replan_cases)
  note f = insert_replacements_facts [OF c(3)]
  have wf: "wf_dict ts" using f assms(1) by simp
  have fresh: "map_of ?ts0 n = None" if "n \<in> set ids" "n \<noteq> tid" for n
    using that assms(3) f c(1) by (auto simp: has_key_def)
  have old: "map_of ts k = map_of ?ts0 k" if "k \<notin> set ids" "k \<noteq> tid" for k
    using that f by (simp add: map_of_remove)
  have comp: "map_of ts k = Some u \<and> k \<notin> set ids" if "map_of ?ts0 k = Some u" "st_status u = COMPLETED" for k u
    using that c(1,2) fresh [of k] old [of k] by (cases "k = tid"; cases "k \<in> set ids") auto
  then have keep: "keeps_completed ?ts0 ts" by (auto simp: keeps_completed_def)
  have from_old: "k \<notin> set ids \<and> map_of ?ts0 k = Some u" if "map_of ts k = Some u" "started u" for k u
  proof (cases "k \<in> set ids")
    case True
    with f that show ?thesis by (auto simp: started_def)
  next
    case False
    with f that show ?thesis by (auto simp: map_of_remove split: if_splits)
  qed
  have no_dep: "tid \<notin> set (st_dependencies u)" if "map_of ?ts0 k = Some u" "started u" for k u
    using that assms(2) c(1,2) by (fastforce simp: order_kept_def dep_completed_def)
  have order: "order_kept ts"
    unfolding order_kept_def
  proof (intro allI impI ballI)
    fix k u d assume u: "map_of ts k = Some u" "started u" "d \<in> set (st_dependencies u)"
    from from_old [OF u(1,2)] assms(2) u(2,3) have "dep_completed ?ts0 d" by (auto simp: order_kept_def)
    then show "dep_completed ts d" by (rule dep_completed_mono [OF keep])
  qed
  have red: "good_tasks ?ts0 (redirect tid x ids ts)" for x
  proof -
    have same: "map_of (redirect tid x ids ts) k = Some u" if "map_of ts k = Some u" "started u" for k u
      using that from_old [OF that] no_dep [of k u] by (simp add: map_of_redirect)
    have k2: "keeps_completed ts (redirect tid x ids ts)"
      using same by (auto simp: keeps_completed_def started_def)
    have "order_kept (redirect tid x ids ts)"
      unfolding order_kept_def
    proof (intro allI impI ballI)
      fix k v d assume v: "map_of (redirect tid x ids ts) k = Some v" "started v" "d \<in> set (st_dependencies v)"
      then obtain u where u: "map_of ts k = Some u" "started u"
        by (auto simp: map_of_redirect started_def split: if_splits)
      with same [OF u] v order have "dep_completed ts d" by (auto simp: order_kept_def)
      then show "dep_completed (redirect tid x ids ts) d" by (rule dep_completed_mono [OF k2])
    qed
    with keeps_completed_trans [OF keep k2] show ?thesis by (simp add: good_tasks_def)
  qed
  have "good_tasks ?ts0 ts" using order keep by (simp add: good_tasks_def)
  with red wf show ?thesis
    unfolding c(4) by (intro good_refresh) (auto split: option.splits)
qed

lemma good_step:
  assumes "wf_dict (pl_tasks p)" and "order_kept (pl_tasks p)" and "disciplined op p"
  shows "good_tasks (pl_tasks p) (pl_tasks (plan_step now op p))"
proof -
  have same: "good_tasks (pl_tasks p) (pl_tasks p)" using assms(2) by (simp add: good_tasks_def)
  show ?thesis
  proof (cases op)
    case (AddTask tid title desc deps mx)
    have "good_tasks (pl_tasks p) (AList.update tid (new_task now title desc deps 0 mx) (pl_tasks p))"
      if "\<not> has_key (pl_tasks p) tid"
      using that by (intro good_update [OF assms(2)]) (auto simp: has_key_def started_def new_task_def)
    with assms(1) same show ?thesis
      by (auto simp: AddTask or_same_def add_task_def intro!: good_refresh)
  next
    case GetReady
    with assms(1) same show ?thesis by (auto simp: get_ready_tasks_def Let_def intro!: good_refresh)
  next
    case (StartTask tid)
    have "good_tasks (pl_tasks p) (AList.update tid (t\<lparr>st_status := RUNNING, st_updated_at := now\<rparr>) (pl_tasks p))"
      if "map_of (pl_tasks p) tid = Some t" "st_status t = READY" for t
      using that assms(2) by (intro good_update) (auto simp: order_kept_def started_def)
    with same show ?thesis by (auto simp: StartTask or_same_def start_task_def split: option.splits)
  next
    case (MarkCompleted tid e)
    have "good_tasks (pl_tasks p) (AList.update tid (t\<lparr>st_status := COMPLETED,
        st_evidence := (case e of None \<Rightarrow> JObj [] | Some e \<Rightarrow> e), st_updated_at := now\<rparr>) (pl_tasks p))"
      if "map_of (pl_tasks p) tid = Some t" "st_status t \<in> {RUNNING, READY}" for t
      using that assms(2) by (intro good_update) (auto simp: order_kept_def started_def)
    with assms(1) same show ?thesis
      by (auto simp: MarkCompleted or_same_def mark_completed_def split: option.splits intro!: good_refresh)
  next
    case (MarkFailed tid err)
    with assms same show ?thesis
      by (auto simp: or_same_def mark_failed_def Let_def started_def split: option.splits intro!: good_update)
  next
    case (PartialReplan tid rs)
    with good_replan [OF assms(1,2), of tid rs now] assms(3) same show ?thesis
      by (cases "partial_replan now tid rs p") (auto simp: or_same_def)
  qed
qed

lemma order_kept_reach: "plan_reach disciplined p \<Longrightarrow> order_kept (pl_tasks p)"
proof (induction rule: plan_reach.induct)
  case (step p op now)
  then have "wf_dict (pl_tasks p)" using plan_inv_reach [OF step.hyps(1)] by (simp add: plan_inv_def)
  with good_step [OF _ step.IH step.hyps(2)] show ?case by (simp add: good_tasks_def)
qed (simp add: new_plan_def order_kept_def)

section \<open>Properties\<close>

text \<open>C26: re-planning is bounded. However a plan is operated, every task's count of re-plans lies between
  zero and its limit, and a task that asks to be re-planned is strictly below it: at the limit a
  failure escalates to a human.\<close>

theorem replans_are_bounded:
  assumes "plan_reach (\<lambda>_ _. True) p" and "map_of (pl_tasks p) tid = Some t"
  shows "0 \<le> st_replan_count t \<and> st_replan_count t \<le> max 0 (st_max_replans t) \<and>
    (st_status t = NEEDS_REPLAN \<longrightarrow> st_replan_count t < st_max_replans t) \<and>
    (st_replan_count t = st_max_replans t \<longrightarrow>
       (\<exists>p' t'. mark_failed now tid err p = Inr p' \<and> map_of (pl_tasks p') tid = Some t' \<and> st_status t' = ESCALATED))"
  using plan_inv_reach [OF assms(1)] assms(2)
  by (auto simp: plan_inv_def all_tasks_def replans_bounded_def mark_failed_def Let_def)

text \<open>C27: work proceeds in order and completed work is immutable. In a plan operated with discipline
  (completed work is not reported as failed, replacements get fresh names) a task is ready, running
  or completed only when all its dependencies are completed, and one more disciplined operation
  leaves every completed task, its evidence included, exactly as it is.\<close>

theorem completed_work_is_immutable:
  assumes "plan_reach disciplined p" and "disciplined op p"
  shows "(\<forall>k t. map_of (pl_tasks p) k = Some t \<and> st_status t \<in> {READY, RUNNING, COMPLETED} \<longrightarrow>
       (\<forall>d \<in> set (st_dependencies t). dep_completed (pl_tasks p) d)) \<and>
    (\<forall>k t. map_of (pl_tasks p) k = Some t \<and> st_status t = COMPLETED \<longrightarrow>
       map_of (pl_tasks (plan_step now op p)) k = Some t)"
proof -
  have wf: "wf_dict (pl_tasks p)" using plan_inv_reach [OF assms(1)] by (simp add: plan_inv_def)
  note o = order_kept_reach [OF assms(1)]
  from good_step [OF wf o assms(2), of now] o show ?thesis
    unfolding good_tasks_def keeps_completed_def order_kept_def started_def by blast
qed

text \<open>Without the discipline the protection fails: reporting a failure checks no status, so a
  completed task below its limit goes to re-planning, with its completion lost, and re-planning
  then removes it.\<close>

theorem completed_task_can_be_failed:
  assumes "map_of (pl_tasks p) tid = Some t" and "st_status t = COMPLETED" and "st_replan_count t < st_max_replans t"
  shows "\<exists>p' t'. mark_failed now tid err p = Inr p' \<and> map_of (pl_tasks p') tid = Some t' \<and> st_status t' = NEEDS_REPLAN \<and>
    (\<exists>p''. partial_replan now tid [] p' = Inr ([], p'') \<and> length (pl_tasks p'') < length (pl_tasks p'))"
proof -
  define t' where "t' = t\<lparr>st_error_history := st_error_history t @ [(now, st_replan_count t + 1, err)], st_updated_at := now,
    st_status := NEEDS_REPLAN\<rparr>"
  define p' where "p' = p\<lparr>pl_tasks := AList.update tid t' (pl_tasks p), pl_updated_at := now\<rparr>"
  have f: "mark_failed now tid err p = Inr p'"
    using assms by (simp add: mark_failed_def p'_def t'_def Let_def)
  have l: "map_of (pl_tasks p') tid = Some t'" by (simp add: p'_def)
  have "length (refresh_task_states now ts) = length ts" for ts
    by (metis length_map refresh_loop_keys refresh_task_states_def)
  moreover have "length (filter (\<lambda>(k, _). k \<noteq> tid) (pl_tasks p')) < length (pl_tasks p')"
    by (rule length_filter_less [of "(tid, t')"]) (use map_of_SomeD [OF l] in auto)
  ultimately have "\<exists>p''. partial_replan now tid [] p' = Inr ([], p'') \<and> length (pl_tasks p'') < length (pl_tasks p')"
    using l by (simp add: partial_replan_def t'_def)
  with f l show ?thesis by (auto simp: t'_def)
qed

section \<open>A concrete plan\<close>

definition demo_plan :: plan where
  "demo_plan = plan_step 2 (MarkCompleted ''a'' None) (plan_step 1 (AddTask ''a'' [] [] [] 2) (new_plan 0 [] []))"

lemma demo_plan_tasks: "map_of (pl_tasks demo_plan) ''a'' = Some \<lparr>st_title = [], st_description = [], st_dependencies = [],
    st_status = COMPLETED, st_replan_count = 0, st_max_replans = 2, st_evidence = JObj [], st_error_history = [],
    st_created_at = 1, st_updated_at = 2\<rparr>"
  by (simp add: demo_plan_def new_plan_def add_task_def mark_completed_def or_same_def new_task_def
      refresh_task_states_def refreshed_def has_key_def)

lemma demo_plan_reach: "plan_reach disciplined demo_plan" "plan_reach (\<lambda>_ _. True) demo_plan"
  unfolding demo_plan_def
  by (rule plan_reach.step, rule plan_reach.step, rule plan_reach.start, simp, simp)+

theorem replans_are_bounded_witness:
  "\<exists>t. map_of (pl_tasks demo_plan) ''a'' = Some t \<and> st_replan_count t \<le> max 0 (st_max_replans t)"
  using replans_are_bounded [OF demo_plan_reach(2) demo_plan_tasks] by (simp add: demo_plan_tasks)

theorem completed_work_is_immutable_witness:
  "map_of (pl_tasks (plan_step 3 (AddTask ''b'' [] [] [''a''] 2) demo_plan)) ''a'' = map_of (pl_tasks demo_plan) ''a''"
  using completed_work_is_immutable [OF demo_plan_reach(1), of "AddTask ''b'' [] [] [''a''] 2" 3] demo_plan_tasks
  by simp

theorem completed_task_can_be_failed_witness:
  "\<exists>p' t'. mark_failed 3 ''a'' [] demo_plan = Inr p' \<and> map_of (pl_tasks p') ''a'' = Some t' \<and> st_status t' = NEEDS_REPLAN"
  using completed_task_can_be_failed [OF demo_plan_tasks, of 3 "[]"] by auto

end
