(* ===== verification/FastPath.thy ===== *)
theory FastPath
  imports PyRegex "HOL-Library.Code_Target_Nat"
begin

text \<open>
  The fast path, \<open>src/agent/fast_path.py\<close>: the tier a message is given by the side effects its text
  shows, and the tools a tier exposes. Messages are lists of code points; words written with CJK
  code points carry an English gloss. Tool names are Latin-1 strings. The tiers are ordered by risk.
\<close>

section \<open>Tiers and actions\<close>

datatype FastPathTier = L0_DIRECT_LLM | L1_READONLY_TOOL | L2_STANDARD | L3_HIGH_RISK

datatype ActionKind =
    READ | WRITE | DELETE | MOVE_COPY | PERMISSION | SYSTEM_MUTATION | EXECUTE | CONVERSATION | UNKNOWN

fun tier_value :: "FastPathTier \<Rightarrow> string" where
  "tier_value L0_DIRECT_LLM = ''L0''"
| "tier_value L1_READONLY_TOOL = ''L1''"
| "tier_value L2_STANDARD = ''L2''"
| "tier_value L3_HIGH_RISK = ''L3''"

fun tier_level :: "FastPathTier \<Rightarrow> nat" where
  "tier_level L0_DIRECT_LLM = 0"
| "tier_level L1_READONLY_TOOL = 1"
| "tier_level L2_STANDARD = 2"
| "tier_level L3_HIGH_RISK = 3"

lemma tier_level_inj: "tier_level a = tier_level b \<longleftrightarrow> a = b"
  by (cases a; cases b) simp_all

instantiation FastPathTier :: linorder
begin

definition less_eq_FastPathTier :: "FastPathTier \<Rightarrow> FastPathTier \<Rightarrow> bool" where
  "less_eq_FastPathTier a b \<longleftrightarrow> tier_level a \<le> tier_level b"

definition less_FastPathTier :: "FastPathTier \<Rightarrow> FastPathTier \<Rightarrow> bool" where
  "less_FastPathTier a b \<longleftrightarrow> tier_level a < tier_level b"

instance
  by standard (auto simp: less_eq_FastPathTier_def less_FastPathTier_def tier_level_inj)

end

section \<open>Tools of a tier\<close>

definition READONLY_TOOL_NAMES :: "string list" where
  "READONLY_TOOL_NAMES =
     [''read_file'', ''view_file'', ''read_code'', ''grep'', ''find'', ''skills_list'', ''skill_view'', ''session_search'',
      ''clarify'', ''todo'', ''web_search'', ''web_extract'', ''read_terminal'', ''open_preview'', ''x_search'',
      ''browser_view'', ''read_extract'']"

definition MUTATING_TOOL_PATTERNS :: "string list" where
  "MUTATING_TOOL_PATTERNS =
     [''write_'', ''patch_'', ''delete_'', ''create_'', ''edit_'', ''terminal'', ''execute_'', ''install'', ''cron'', ''send_'',
      ''computer_use'', ''desktop_ui'', ''close_terminal'', ''skill_manager'', ''memory_write'', ''homeassistant'', ''discord'']"

definition tool_key :: "string \<Rightarrow> string" where
  "tool_key name = py_lower (strip name)"

definition is_tool_allowed_in_tier :: "string \<Rightarrow> FastPathTier \<Rightarrow> bool" where
  "is_tool_allowed_in_tier tool tier \<longleftrightarrow>
     (let name = tool_key tool in
      case tier of
        L0_DIRECT_LLM \<Rightarrow> False
      | L1_READONLY_TOOL \<Rightarrow>
          (if name \<in> set READONLY_TOOL_NAMES then True
           else if list_ex (\<lambda>pat. starts_with name pat \<or> contains name pat) MUTATING_TOOL_PATTERNS then False
           else False)
      | _ \<Rightarrow> True)"

text \<open>A tool definition: what its \<open>type\<close>, its nested \<open>function\<close> name and its own name are; an entry
  that is no dictionary has none of them.\<close>

record tool_def =
  tool_type :: "string option"
  tool_function :: "string option option"
  tool_name :: "string option"

definition tool_def_name :: "tool_def \<Rightarrow> string" where
  "tool_def_name t =
     (let get = (\<lambda>v. case v of None \<Rightarrow> [] | Some s \<Rightarrow> s) in
      if tool_type t = Some ''function'' then
        (case tool_function t of Some f \<Rightarrow> get f | None \<Rightarrow> get (tool_name t))
      else get (tool_name t))"

definition filter_tools_for_tier :: "tool_def list \<Rightarrow> FastPathTier \<Rightarrow> tool_def list" where
  "filter_tools_for_tier tools tier =
     (case tier of
        L0_DIRECT_LLM \<Rightarrow> []
      | L1_READONLY_TOOL \<Rightarrow> filter (\<lambda>t. is_tool_allowed_in_tier (tool_def_name t) tier) tools
      | _ \<Rightarrow> tools)"

definition get_tool_side_effect :: "string \<Rightarrow> ActionKind" where
  "get_tool_side_effect tool =
     (let name = tool_key tool in
      if name \<in> set READONLY_TOOL_NAMES \<or>
         name \<in> set [''read_file'', ''view_file'', ''search_files'', ''read_code'', ''grep'', ''find'', ''list_dir''] then READ
      else if name \<in> set [''write_file'', ''create_file'', ''patch'', ''patch_file_op'', ''edit_file''] then WRITE
      else if name \<in> set [''delete_file'', ''remove_file''] then DELETE
      else if name \<in> set [''terminal'', ''bash'', ''execute_code''] then EXECUTE
      else UNKNOWN)"

section \<open>Patterns\<close>

text \<open>Helpers: any character but a newline, a class up to case, a set of words between boundaries.\<close>

definition dot :: regex where "dot = Cls (\<lambda>c. c \<noteq> 10)"
definition cls_ci :: "(nat \<Rightarrow> bool) \<Rightarrow> regex" where "cls_ci P = Cls (ci P)"
definition words_ci :: "string list \<Rightarrow> regex" where "words_ci ws = word_b (alts (map lit_ci ws))"

definition CORE_PATH_PATTERNS :: "regex list" where
  "CORE_PATH_PATTERNS =
     [seqs [lit_ci ''/haos/0'', Cls u_digit, lit_ci ''_'', star dot, lit_ci ''.md''],
      lit_ci ''00_Constitution.md'', lit_ci ''01_Core.md'', lit_ci ''02_Policy.md'', lit_ci ''19_Config.md'',
      lit_ci ''20_SecurityFilter.md'', lit_ci ''27_SafetyPermission.md'', lit_ci ''/etc/'', lit_ci ''.ssh/'',
      lit_ci ''config.yaml'', lit_ci ''SOUL.md'', lit_ci ''haos-guardian'']"

definition ALWAYS_CRITICAL_COMMANDS :: "regex list" where
  "ALWAYS_CRITICAL_COMMANDS =
     [seqs [WordB, lit_ci ''rm'', plus space, lit ''-'', between 1 4 (cls_ci (any_of ''rfRF'')), WordB],
      word_b (lit_ci ''sudo''), word_b (lit_ci ''chattr''), word_b (lit_ci ''mkfs''),
      seqs [WordB, lit_ci ''chmod'', plus space, lit ''777'', WordB],
      seqs [WordB, lit_ci ''kill'', plus space, lit ''-9'', WordB],
      seqs [WordB, lit_ci ''dd'', plus space, lit_ci ''if='' ],
      word_b (lit_ci ''format'')]"

definition SHELL_CHAIN_SPLIT :: regex where
  "SHELL_CHAIN_SPLIT = seqs [star space, alts [lit ''&&'', lit ''||'', lit '';'', lit ''|''], star space]"

definition not_operator :: "nat \<Rightarrow> bool" where
  "not_operator c \<longleftrightarrow> \<not> u_space c \<and> none_of '';&|'' c"

definition SHELL_REDIRECT_WRITE_RE :: regex where
  "SHELL_REDIRECT_WRITE_RE =
     seqs [opt (Cls (\<lambda>c. (48 \<le> c \<and> c \<le> 57) \<or> c = 38)), between 1 2 (lit ''>''), star space,
       Grp 1 (plus (Cls not_operator))]"

definition TEE_RE :: regex where
  "TEE_RE = seqs [WordB, lit ''tee'', plus space, opt (seqs [lit ''-a'', plus space]), Grp 1 (plus (Cls not_operator))]"

definition SED_I_RE :: regex where
  "SED_I_RE = seqs [WordB, lit ''sed'', plus space, lit ''-i'', WordB]"

definition DELETE_CMD_RE :: regex where
  "DELETE_CMD_RE = words_ci [''rm'', ''unlink'', ''delete'', ''clear'', ''purge'']"

definition WRITE_CMD_RE :: regex where
  "WRITE_CMD_RE = words_ci [''write'', ''patch'', ''edit'', ''overwrite'', ''modify'', ''update'', ''truncate'']"

definition CP_MV_RE :: regex where
  "CP_MV_RE = word_b (alts [lit ''cp'', lit ''mv''])"

definition PERM_CMD_RE :: regex where
  "PERM_CMD_RE = word_b (alts [lit ''chmod'', lit ''chown'', lit ''chgrp'', lit ''chattr''])"

text \<open>Words for: modify, alter, write in, add in writing, supplement, update, delete, overwrite, create a
  file, change, refactor, replace, empty, append, add, register, back up, correct, adjust, fill in,
  complete, add on, put in, write into.\<close>

definition CHINESE_MUTATION_WORDS :: "ustr list" where
  "CHINESE_MUTATION_WORDS = [
     [0x4FEE, 0x6539], [0x6539, 0x52D5], [0x5BEB, 0x5165], [0x88DC, 0x5BEB], [0x88DC, 0x5145],
     [0x66F4, 0x65B0], [0x522A, 0x9664], [0x8986, 0x5BEB], [0x5EFA, 0x7ACB, 0x65B0, 0x6A94],
     [0x8B8A, 0x66F4], [0x91CD, 0x69CB], [0x66FF, 0x63DB], [0x6E05, 0x7A7A], [0x8FFD, 0x52A0],
     [0x65B0, 0x589E], [0x767B, 0x8A18], [0x5099, 0x4EFD], [0x4FEE, 0x6B63], [0x8ABF, 0x6574],
     [0x586B, 0x5165], [0x88DC, 0x4E0A], [0x52A0, 0x4E0A], [0x653E, 0x9032], [0x5BEB, 0x9032]]"

text \<open>Confirm or check, then one of: content, state, file, log, progress, record, receipt.\<close>

definition CHECK_STATUS_RE :: regex where
  "CHECK_STATUS_RE =
     seqs [alts [
     cps [0x78BA, 0x8A8D], cps [0x6AA2, 0x67E5]], star space, alts [
     cps [0x5167, 0x5BB9], cps [0x72C0, 0x614B], cps [0x6A94, 0x6848], cps [0x65E5, 0x8A8C],
     cps [0x9032, 0x5EA6], cps [0x7D00, 0x9304], cps [0x55AE, 0x64DA]]]"

definition quote_cls :: regex where "quote_cls = Cls (\<lambda>c. c = 39 \<or> c = 34)"

definition PYTHON_MUTATION_RE :: regex where
  "PYTHON_MUTATION_RE =
     alts [seqs [WordB, lit ''open'', star space, lit ''('', star space, quote_cls,
             plus (Cls (\<lambda>c. c \<noteq> 39 \<and> c \<noteq> 34)), quote_cls, star space, lit '','', star space, quote_cls,
             star (Cls (any_of ''rwa+'')), Cls (any_of ''wa+''), star (Cls (any_of ''rwa+'')), quote_cls, star space, lit '')''],
           word_b (lit ''write_text''), word_b (lit ''write_bytes''), word_b (lit ''os.remove''),
           word_b (lit ''shutil.rmtree'')]"

text \<open>Greetings; who are you, introduce yourself; please explain, what is, why; translate, summarise,
  rewrite, polish; write an article, a poem, a paragraph, tell a joke, brainstorm.\<close>

definition PURE_TEXT_PATTERNS :: "regex list" where
  "PURE_TEXT_PATTERNS =
     [Seq TextStart (alts ([
     cps [0x4F60, 0x597D], cps [0x60A8, 0x597D], cps [0x54C8, 0x56C9]] @
        [Seq (lit_ci ''hi'') WordB, Seq (lit_ci ''hello'') WordB, Seq (lit_ci ''hey'') WordB] @ [
     cps [0x65E9, 0x5B89], cps [0x5348, 0x5B89], cps [0x665A, 0x5B89], cps [0x55E8]])),
      alts [
     cps [0x4F60, 0x662F, 0x8AB0], cps [0x4ECB, 0x7D39, 0x4E00, 0x4E0B, 0x4F60, 0x81EA, 0x5DF1],
     lit_ci ''what is your name'', lit_ci ''who are you''],
      alts [
     cps [0x8ACB, 0x89E3, 0x91CB], cps [0x8AAA, 0x660E, 0x4E00, 0x4E0B], cps [0x4EC0, 0x9EBC, 0x662F],
     cps [0x4EC0, 0x9EBC, 0x610F, 0x601D], cps [0x70BA, 0x4F55], cps [0x70BA, 0x4EC0, 0x9EBC],
     lit_ci ''how does'', lit_ci ''what is'', lit_ci ''explain''],
      alts [
     cps [0x7FFB, 0x8B6F], lit_ci ''translate'', cps [0x7E3D, 0x7D50], cps [0x6458, 0x8981],
     cps [0x6539, 0x5BEB], cps [0x6F64, 0x98FE]],
      alts [
     cps [0x5BEB, 0x4E00, 0x7BC7], cps [0x5BEB, 0x4E00, 0x9996], cps [0x5BEB, 0x4E00, 0x6BB5],
     cps [0x8B1B, 0x500B, 0x7B11, 0x8A71], cps [0x767C, 0x60F3]]]"

text \<open>At most a hundred characters on one line, as few as possible.\<close>

definition short_gap :: regex where
  "short_gap = Rep (Cls (\<lambda>c. c \<noteq> 13 \<and> c \<noteq> 10)) 0 (Some 100) False"

definition verbs_b :: "string list \<Rightarrow> regex list" where
  "verbs_b ws = map (\<lambda>w. Seq (lit_ci w) WordB) ws"

text \<open>Look at, read, inspect, look up, have a look, read through, query; file, content, what it looks
  like, what it says; search, look up, find, query, then keyword, record, log, history, file.\<close>

definition READONLY_VERBS :: "regex list" where
  "READONLY_VERBS =
     [Seq TextStart (alts ([
     cps [0x67E5, 0x770B], cps [0x8B80, 0x53D6], cps [0x6AA2, 0x8996], cps [0x67E5, 0x95B1],
     cps [0x770B, 0x4E0B], cps [0x8B80, 0x4E00, 0x4E0B]] @
        verbs_b [''cat'', ''view'', ''read'', ''grep'', ''find'', ''search'', ''search_files'', ''view_file'', ''read_file'',
          ''read_code'', ''list_dir'', ''inspect'', ''check''] @ [
     cps [0x67E5, 0x8A62]])),
      seqs [TextStart, cps [0x6A94, 0x6848], plus space, short_gap, alts [
     cps [0x5167, 0x5BB9], cps [0x9577, 0x600E, 0x6A23], cps [0x5BEB, 0x4EC0, 0x9EBC]]],
      seqs [alts [
     cps [0x641C, 0x5C0B], cps [0x67E5, 0x4E00, 0x4E0B], cps [0x627E, 0x4E00, 0x4E0B],
     cps [0x67E5, 0x8A62], lit_ci ''search''], plus space, short_gap,
        alts [
     cps [0x95DC, 0x9375, 0x5B57], cps [0x7D00, 0x9304], cps [0x65E5, 0x8A8C], lit_ci ''log'',
     cps [0x6B77, 0x53F2], cps [0x6A94, 0x6848], lit_ci ''file'']],
      seqs [TextStart, alts (map lit_ci [''grep'', ''find'', ''cat'', ''head'', ''tail'',
         ''ls'', ''search_files'', ''view_file'', ''read_file'']), WordB]]"

definition SENSITIVE_READ_PATTERNS :: "regex list" where
  "SENSITIVE_READ_PATTERNS =
     [Seq (lit_ci ''.ssh/id_'') (plus (cls_ci alnum_ascii)), lit_ci ''/etc/shadow'', lit_ci ''/etc/sudoers'',
      lit_ci ''.aws/credentials'', lit_ci ''.gnupg/secring'']"

definition is_sensitive_read_target :: "uni \<Rightarrow> ustr \<Rightarrow> bool" where
  "is_sensitive_read_target un text \<longleftrightarrow> list_ex (\<lambda>pat. re_found un pat text) SENSITIVE_READ_PATTERNS"

section \<open>Side effects of a text\<close>

text \<open>\<open>str.strip\<close> on code points.\<close>

definition u_strip :: "ustr \<Rightarrow> ustr" where
  "u_strip s = rev (dropWhile u_space (rev (dropWhile u_space s)))"

text \<open>The index of the first core pattern found.\<close>

fun first_found :: "uni \<Rightarrow> nat \<Rightarrow> regex list \<Rightarrow> ustr \<Rightarrow> nat option" where
  "first_found un i [] text = None"
| "first_found un i (pat # pats) text = (if re_found un pat text then Some i else first_found un (i + 1) pats text)"

definition touches_core_path :: "uni \<Rightarrow> ustr \<Rightarrow> nat option" where
  "touches_core_path un text = first_found un 0 CORE_PATH_PATTERNS text"

definition mutation_kinds :: "ActionKind set" where
  "mutation_kinds = {WRITE, DELETE, MOVE_COPY, PERMISSION}"

definition segment_mutations :: "uni \<Rightarrow> ustr \<Rightarrow> ActionKind set" where
  "segment_mutations un seg =
     (if re_findall un SHELL_REDIRECT_WRITE_RE 1 seg \<noteq> [] \<or> re_found un TEE_RE seg \<or> re_found un SED_I_RE seg \<or>
         re_found un WRITE_CMD_RE seg \<or> re_found un PYTHON_MUTATION_RE seg \<or>
         list_ex (\<lambda>w. contains seg w) CHINESE_MUTATION_WORDS then {WRITE} else {}) \<union>
     (if re_found un DELETE_CMD_RE seg then {DELETE} else {}) \<union>
     (if re_found un CP_MV_RE seg then {MOVE_COPY} else {}) \<union>
     (if re_found un PERM_CMD_RE seg then {PERMISSION} else {}) \<union>
     (if list_ex (\<lambda>pat. re_found un pat seg) ALWAYS_CRITICAL_COMMANDS then {SYSTEM_MUTATION} else {})"

definition analyze_segment :: "uni \<Rightarrow> ustr \<Rightarrow> ActionKind set \<times> ustr set" where
  "analyze_segment un segment =
     (let seg = u_strip segment in
      if seg = [] then ({}, {})
      else
        let targets = set (map u_strip (re_findall un SHELL_REDIRECT_WRITE_RE 1 seg)) \<union>
              (case re_search un TEE_RE seg of None \<Rightarrow> {} | Some (_, gs) \<Rightarrow> {u_strip (group gs 1)});
            acts = segment_mutations un seg;
            acts1 = (if acts = {} \<and> list_ex (\<lambda>pat. re_found un pat seg) READONLY_VERBS then {READ} else acts)
        in (if acts1 = {} then {EXECUTE} else acts1, targets))"

definition analyze_full_query :: "uni \<Rightarrow> ustr \<Rightarrow> ActionKind set \<times> nat option" where
  "analyze_full_query un query =
     (let q = u_strip query in
      if q = [] then ({CONVERSATION}, None)
      else (\<Union>seg \<in> set (re_split un SHELL_CHAIN_SPLIT q). fst (analyze_segment un seg), touches_core_path un q))"

section \<open>The tier of a message\<close>

definition is_critical_escalation :: "uni \<Rightarrow> ustr \<Rightarrow> bool" where
  "is_critical_escalation un query \<longleftrightarrow>
     (case analyze_full_query un query of
        (actions, core) \<Rightarrow> SYSTEM_MUTATION \<in> actions \<or> core \<noteq> None \<and> actions \<inter> mutation_kinds \<noteq> {})"

text \<open>Send to me, transfer to me, send this picture, send the file, push to the chat room, send the
  attachment, send the photo, send the file, send this post, post the article, send this post, send
  this picture, send this copy.\<close>

definition ATTACHMENT_WORDS :: "ustr list" where
  "ATTACHMENT_WORDS = [
     [0x767C, 0x7D66, 0x6211], [0x50B3, 0x7D66, 0x6211], [0x50B3, 0x9019, 0x5F35],
     [0x50B3, 0x9001, 0x6A94, 0x6848], [0x63A8, 0x9001, 0x5230, 0x804A, 0x5929, 0x5BA4],
     [0x50B3, 0x9001, 0x9644, 0x4EF6], [0x50B3, 0x7167, 0x7247], [0x50B3, 0x6A94, 0x6848],
     [0x767C, 0x9019, 0x7BC7], [0x767C, 0x6587, 0x7AE0], [0x50B3, 0x9019, 0x7BC7],
     [0x50B3, 0x9001, 0x9019, 0x5F35], [0x50B3, 0x9001, 0x9019, 0x4EFD]]"

text \<open>The markers of background injection: archive search done, archive search result; picture uploaded
  and archived automatically.\<close>

definition pre_injected :: "ustr \<Rightarrow> bool" where
  "pre_injected msg \<longleftrightarrow>
     contains msg [91, 0x7CFB, 0x7D71, 0x63D0, 0x793A, 0xFF1A, 0x6B78, 0x6A94, 0x6AA2, 0x7D22, 0x5F15, 0x64CE,
       0x5DF2, 0x5728, 0x5F8C, 0x53F0, 0x5B8C, 0x6210, 0x5FEB, 0x901F, 0x6AA2, 0x7D22] \<or>
     contains msg [45, 45, 45, 32, 0x6B78, 0x6A94, 0x6AA2, 0x7D22, 0x7D50, 0x679C, 32, 45, 45, 45] \<or>
     (contains msg [91, 0x7CFB, 0x7D71, 0x63D0, 0x793A, 0xFF1A, 0x4F7F, 0x7528, 0x8005, 0x5DF2, 0x4E0A, 0x50B3,
       0x4E00, 0x5F35] \<and>
      contains msg [0x7CFB, 0x7D71, 0x5DF2, 0x5728, 0x5F8C, 0x53F0, 32, 48, 32, 0x79D2, 0x81EA, 0x52D5, 0x5B8C,
       0x6210])"

text \<open>Read, look up, look at, inspect, git log, git status, compare.\<close>

definition READ_WORDS :: "ustr list" where
  "READ_WORDS = [
     [0x8B80, 0x53D6], [0x67E5, 0x95B1], [0x67E5, 0x770B], [0x6AA2, 0x8996], u_str ''git log'',
     u_str ''git status'', [0x6BD4, 0x5C0D]]"

text \<open>File, directory, article, git, log, technical knowledge base, program, module.\<close>

definition FILE_WORDS :: "ustr list" where
  "FILE_WORDS = [
     [0x6A94, 0x6848], [0x76EE, 0x9304], [0x6587, 0x7AE0], u_str ''git'', u_str ''log'',
     [0x6280, 0x8853, 0x77E5, 0x8B58, 0x5EAB], [0x7A0B, 0x5F0F], [0x6A21, 0x7D44]]"

text \<open>Modify, write in, update, delete, execute and the command words.\<close>

definition ACTION_WORDS :: "ustr list" where
  "ACTION_WORDS = [
     [0x4FEE, 0x6539], [0x5BEB, 0x5165], [0x66F4, 0x65B0], [0x522A, 0x9664], [0x57F7, 0x884C],
     u_str ''build'', u_str ''test'', u_str ''patch'', u_str ''install'', u_str ''terminal'',
     u_str ''run'', u_str ''cat'', u_str ''grep'', u_str ''ls'']"

definition mentions :: "ustr list \<Rightarrow> ustr \<Rightarrow> bool" where
  "mentions ws msg \<longleftrightarrow> list_ex (\<lambda>w. contains msg w) ws"

text \<open>\<open>None\<close> stands for a message that is no string.\<close>

definition classify :: "uni \<Rightarrow> ustr option \<Rightarrow> FastPathTier" where
  "classify un message =
     (case message of
        None \<Rightarrow> L0_DIRECT_LLM
      | Some raw \<Rightarrow>
          let msg = u_strip raw in
          if msg = [] then L0_DIRECT_LLM
          else if is_critical_escalation un msg then L3_HIGH_RISK
          else case analyze_full_query un msg of
            (actions, core) \<Rightarrow>
              let mutates = (actions \<inter> insert SYSTEM_MUTATION mutation_kinds \<noteq> {}) in
              if mentions ATTACHMENT_WORDS msg then L2_STANDARD
              else if pre_injected msg then L0_DIRECT_LLM
              else if \<not> mutates \<and> (mentions READ_WORDS msg \<or> re_found un CHECK_STATUS_RE msg \<or>
                        list_ex (\<lambda>pat. re_found un pat msg) READONLY_VERBS) then L1_READONLY_TOOL
              else if \<not> mutates \<and> core = None \<and> \<not> mentions FILE_WORDS msg \<and>
                        list_ex (\<lambda>pat. re_found un pat msg) PURE_TEXT_PATTERNS \<and> \<not> mentions ACTION_WORDS msg
                then L0_DIRECT_LLM
              else if core \<noteq> None then (if actions = {READ} then L1_READONLY_TOOL else L3_HIGH_RISK)
              else L2_STANDARD)"

definition should_start_planner :: "FastPathTier \<Rightarrow> int \<Rightarrow> bool" where
  "should_start_planner tier subtasks \<longleftrightarrow>
     (if tier \<in> {L0_DIRECT_LLM, L1_READONLY_TOOL} then False else 1 < subtasks \<or> tier = L3_HIGH_RISK)"

definition should_start_reviewer :: "FastPathTier \<Rightarrow> bool \<Rightarrow> bool \<Rightarrow> bool" where
  "should_start_reviewer tier has_mutation verifier_failed \<longleftrightarrow>
     (if tier = L0_DIRECT_LLM then False
      else if tier = L1_READONLY_TOOL \<and> \<not> verifier_failed then False
      else tier = L3_HIGH_RISK \<or> verifier_failed)"

definition should_run_verifier :: "FastPathTier \<Rightarrow> bool \<Rightarrow> bool" where
  "should_run_verifier tier had_mutations \<longleftrightarrow> tier \<notin> {L0_DIRECT_LLM, L1_READONLY_TOOL}"

section \<open>Lemmas\<close>

lemmas tier_order = less_eq_FastPathTier_def less_FastPathTier_def

lemma tool_allowed_L1: "is_tool_allowed_in_tier tool L1_READONLY_TOOL \<longleftrightarrow> tool_key tool \<in> set READONLY_TOOL_NAMES"
  by (simp add: is_tool_allowed_in_tier_def)

text \<open>The actions of a query that is not blank are those of its segments.\<close>

lemma analyze_full_query_nonblank:
  "u_strip q \<noteq> [] \<Longrightarrow> fst (analyze_full_query un q) =
     (\<Union>seg \<in> set (re_split un SHELL_CHAIN_SPLIT (u_strip q)). fst (analyze_segment un seg))"
  by (simp add: analyze_full_query_def Let_def)

lemma dropWhile_rev_idem:
  "dropWhile P (rev (dropWhile P (rev (dropWhile P s)))) = rev (dropWhile P (rev (dropWhile P s)))"
proof (cases "dropWhile P s")
  case (Cons c r)
  then have "\<not> P c" by (metis hd_dropWhile list.sel(1) list.distinct(1))
  then show ?thesis using Cons by (simp add: dropWhile_append3)
next
  case Nil
  show ?thesis by (simp only: Nil rev.simps dropWhile.simps)
qed

lemma dropWhile_idem [simp]: "dropWhile P (dropWhile P s) = dropWhile P s"
  by (induction s) auto

lemma u_strip_idem [simp]: "u_strip (u_strip s) = u_strip s"
  by (simp add: u_strip_def dropWhile_rev_idem)

text \<open>What the classifier looks at: the actions and the core pattern of a message.\<close>

definition actions_of :: "uni \<Rightarrow> ustr \<Rightarrow> ActionKind set" where
  "actions_of un raw = fst (analyze_full_query un raw)"

definition core_of :: "uni \<Rightarrow> ustr \<Rightarrow> nat option" where
  "core_of un raw = snd (analyze_full_query un raw)"

lemma analyze_strip: "analyze_full_query un (u_strip raw) = analyze_full_query un raw"
  by (simp add: analyze_full_query_def)

lemma classify_Some:
  "u_strip raw \<noteq> [] \<Longrightarrow> classify un (Some raw) =
    (if SYSTEM_MUTATION \<in> actions_of un raw \<or> core_of un raw \<noteq> None \<and> actions_of un raw \<inter> mutation_kinds \<noteq> {}
     then L3_HIGH_RISK
     else let msg = u_strip raw; mutates = (actions_of un raw \<inter> insert SYSTEM_MUTATION mutation_kinds \<noteq> {}) in
       if mentions ATTACHMENT_WORDS msg then L2_STANDARD
       else if pre_injected msg then L0_DIRECT_LLM
       else if \<not> mutates \<and> (mentions READ_WORDS msg \<or> re_found un CHECK_STATUS_RE msg \<or>
                 list_ex (\<lambda>pat. re_found un pat msg) READONLY_VERBS) then L1_READONLY_TOOL
       else if \<not> mutates \<and> core_of un raw = None \<and> \<not> mentions FILE_WORDS msg \<and>
                 list_ex (\<lambda>pat. re_found un pat msg) PURE_TEXT_PATTERNS \<and> \<not> mentions ACTION_WORDS msg
         then L0_DIRECT_LLM
       else if core_of un raw \<noteq> None then (if actions_of un raw = {READ} then L1_READONLY_TOOL else L3_HIGH_RISK)
       else L2_STANDARD)"
  by (cases "analyze_full_query un raw")
     (simp only: classify_def is_critical_escalation_def actions_of_def core_of_def analyze_strip Let_def
        option.case prod.case fst_conv snd_conv if_False)

text \<open>The decision alone, over its conditions.\<close>

definition decide :: "bool \<Rightarrow> bool \<Rightarrow> bool \<Rightarrow> bool \<Rightarrow> bool \<Rightarrow> bool \<Rightarrow> bool \<Rightarrow> bool \<Rightarrow> FastPathTier" where
  "decide crit attach inject mutates reading talk core only_read =
     (if crit then L3_HIGH_RISK
      else if attach then L2_STANDARD
      else if inject then L0_DIRECT_LLM
      else if \<not> mutates \<and> reading then L1_READONLY_TOOL
      else if \<not> mutates \<and> talk then L0_DIRECT_LLM
      else if core then (if only_read then L1_READONLY_TOOL else L3_HIGH_RISK)
      else L2_STANDARD)"

lemma decide_crit: "decide True attach inject mutates reading talk core only_read = L3_HIGH_RISK"
  by (simp add: decide_def)

lemma decide_mutates:
  "decide crit attach inject True reading talk core False \<in> {L2_STANDARD, L3_HIGH_RISK} \<or>
   decide crit attach inject True reading talk core False = L0_DIRECT_LLM \<and> inject"
  by (simp add: decide_def)

lemma classify_decide:
  assumes "u_strip raw \<noteq> []"
  shows "\<exists>attach reading talk. classify un (Some raw) =
    decide (SYSTEM_MUTATION \<in> actions_of un raw \<or> core_of un raw \<noteq> None \<and> actions_of un raw \<inter> mutation_kinds \<noteq> {})
      attach (pre_injected (u_strip raw)) (actions_of un raw \<inter> insert SYSTEM_MUTATION mutation_kinds \<noteq> {})
      reading talk (core_of un raw \<noteq> None) (actions_of un raw = {READ})"
  unfolding classify_Some [OF assms] decide_def Let_def by (intro exI) (rule refl)

lemma no_actions_disjoint: "READ \<notin> insert SYSTEM_MUTATION mutation_kinds"
  by (simp add: mutation_kinds_def)

section \<open>Properties\<close>

text \<open>Side effects raise the tier. A message with a system-critical command in any of its chained
  segments, or that names a core path and mutates, is L3; a message with any mutation is at least L2
  unless it carries a marker of background injection (then it is L0); and a message classified L1
  has no mutation in any segment.\<close>

theorem side_effects_raise_the_tier:
  assumes "u_strip raw \<noteq> []"
  shows "(SYSTEM_MUTATION \<in> actions_of un raw \<or> core_of un raw \<noteq> None \<and> actions_of un raw \<inter> mutation_kinds \<noteq> {} \<longrightarrow>
          classify un (Some raw) = L3_HIGH_RISK) \<and>
    (actions_of un raw \<inter> insert SYSTEM_MUTATION mutation_kinds \<noteq> {} \<longrightarrow>
          L2_STANDARD \<le> classify un (Some raw) \<or>
          classify un (Some raw) = L0_DIRECT_LLM \<and> pre_injected (u_strip raw)) \<and>
    (classify un (Some raw) = L1_READONLY_TOOL \<longrightarrow>
       (\<forall>seg \<in> set (re_split un SHELL_CHAIN_SPLIT (u_strip raw)).
          fst (analyze_segment un seg) \<inter> insert SYSTEM_MUTATION mutation_kinds = {}))"
proof -
  let ?mut = "actions_of un raw \<inter> insert SYSTEM_MUTATION mutation_kinds \<noteq> {}"
  let ?crit = "SYSTEM_MUTATION \<in> actions_of un raw \<or> core_of un raw \<noteq> None \<and> actions_of un raw \<inter> mutation_kinds \<noteq> {}"
  let ?tier = "classify un (Some raw)"
  obtain attach reading talk where c: "?tier = decide ?crit attach (pre_injected (u_strip raw)) ?mut reading talk
      (core_of un raw \<noteq> None) (actions_of un raw = {READ})"
    using classify_decide [OF assms, of un] by (elim exE)
  have read: "\<not> ?mut" if "actions_of un raw = {READ}" unfolding that by (simp add: mutation_kinds_def)
  have first: "?crit \<Longrightarrow> ?tier = L3_HIGH_RISK" unfolding c by (simp only: decide_crit)
  have second: "?tier \<in> {L2_STANDARD, L3_HIGH_RISK} \<or> ?tier = L0_DIRECT_LLM \<and> pre_injected (u_strip raw)" if m: ?mut
  proof -
    have "?mut = True" and "(actions_of un raw = {READ}) = False" using m read by iprover+
    then show ?thesis unfolding c by (simp only: decide_mutates)
  qed
  have third: "\<not> ?mut" if t: "?tier = L1_READONLY_TOOL"
  proof
    assume ?mut
    from second [OF this] show False unfolding t by simp
  qed
  have "?tier = L1_READONLY_TOOL \<longrightarrow>
       (\<forall>seg \<in> set (re_split un SHELL_CHAIN_SPLIT (u_strip raw)).
          fst (analyze_segment un seg) \<inter> insert SYSTEM_MUTATION mutation_kinds = {})"
  proof (intro impI ballI)
    fix seg
    assume "?tier = L1_READONLY_TOOL" and seg: "seg \<in> set (re_split un SHELL_CHAIN_SPLIT (u_strip raw))"
    then have "\<not> ?mut" using third by iprover
    then show "fst (analyze_segment un seg) \<inter> insert SYSTEM_MUTATION mutation_kinds = {}"
      using seg unfolding actions_of_def analyze_full_query_nonblank [OF assms] by blast
  qed
  moreover have "L2_STANDARD \<le> ?tier \<or> ?tier = L0_DIRECT_LLM \<and> pre_injected (u_strip raw)" if ?mut
    using second [OF that] by (elim disjE) (auto simp: tier_order)
  ultimately show ?thesis using first by iprover
qed

theorem side_effects_raise_the_tier_witness:
  "u_strip (u_str ''ls;rm x'') \<noteq> [] \<and> L2_STANDARD \<le> classify (\<lambda>_. False) (Some (u_str ''ls;rm x''))"
proof -
  have s: "u_strip (u_str ''ls;rm x'') \<noteq> []" by code_simp
  have m: "actions_of (\<lambda>_. False) (u_str ''ls;rm x'') \<inter> insert SYSTEM_MUTATION mutation_kinds \<noteq> {}" by code_simp
  have "\<not> pre_injected (u_strip (u_str ''ls;rm x''))" by code_simp
  with side_effects_raise_the_tier [OF s, of "\<lambda>_. False"] m s show ?thesis by blast
qed

text \<open>Exposure and protection grow with the tier. A higher tier exposes at least the tools of a lower
  one; L0 exposes none, L1 exactly those whose normalised name is on the read-only list (the list of
  mutating patterns changes nothing); and a planner, reviewer or verifier started for a tier is
  started for every higher one.\<close>

theorem exposure_grows_with_the_tier:
  assumes "a \<le> b"
  shows "set (filter_tools_for_tier tools a) \<subseteq> set (filter_tools_for_tier tools b) \<and>
    filter_tools_for_tier tools L0_DIRECT_LLM = [] \<and>
    filter_tools_for_tier tools L1_READONLY_TOOL =
      filter (\<lambda>t. tool_key (tool_def_name t) \<in> set READONLY_TOOL_NAMES) tools \<and>
    (should_start_planner a n \<longrightarrow> should_start_planner b n) \<and>
    (should_start_reviewer a mut failed \<longrightarrow> should_start_reviewer b mut failed) \<and>
    (should_run_verifier a mut \<longrightarrow> should_run_verifier b mut)"
  using assms
  by (cases a; cases b)
     (auto simp: filter_tools_for_tier_def tool_allowed_L1 should_start_planner_def should_start_reviewer_def
        should_run_verifier_def tier_order)

theorem exposure_grows_with_the_tier_witness:
  "set (filter_tools_for_tier [\<lparr>tool_type = None, tool_function = None, tool_name = Some '' Grep''\<rparr>] L1_READONLY_TOOL) \<subseteq>
   set (filter_tools_for_tier [\<lparr>tool_type = None, tool_function = None, tool_name = Some '' Grep''\<rparr>] L3_HIGH_RISK)"
  by (rule exposure_grows_with_the_tier [of L1_READONLY_TOOL L3_HIGH_RISK, THEN conjunct1]) (simp add: tier_order)

text \<open>A core path is not always L3 or pure reading. Once no segment mutates, a leading reading word is
  enough for L1, although another segment executes something under a core path.\<close>

theorem reading_words_lower_the_tier:
  "core_of (\<lambda>_. False) (u_str ''ls;sh /etc/x'') \<noteq> None \<and>
   actions_of (\<lambda>_. False) (u_str ''ls;sh /etc/x'') = {READ, EXECUTE} \<and>
   classify (\<lambda>_. False) (Some (u_str ''ls;sh /etc/x'')) = L1_READONLY_TOOL"
  by code_simp

end
