(* ===== verification/RuntimeControl.thy ===== *)
theory RuntimeControl
  imports FastPath PyJson PyCodec
begin

text \<open>
  Runtime control, \<open>src/agent/runtime_control.py\<close>: the budget of a task, the detector of tool loops and
  the compaction of tool output. The clock is an argument; the text that says why a call is blocked
  is a constructor. The handover report is in the theory \<open>Handover\<close>.
\<close>

section \<open>Budgets\<close>

text \<open>\<open>TIER_BUDGET_DEFAULTS\<close>: seconds, tool calls, iterations.\<close>

fun tier_budget :: "FastPathTier \<Rightarrow> time \<times> int \<times> int" where
  "tier_budget L0_DIRECT_LLM = (30, 0, 2)"
| "tier_budget L1_READONLY_TOOL = (180, 6, 12)"
| "tier_budget L2_STANDARD = (400, 24, 24)"
| "tier_budget L3_HIGH_RISK = (360, 24, 16)"

record budget =
  bt_tier :: FastPathTier
  bt_start_time :: time
  bt_last_activity_time :: time
  bt_max_inactivity :: time
  bt_max_seconds :: time
  bt_max_tool_calls :: int
  bt_max_iterations :: int
  bt_tool_call_count :: int
  bt_iteration_count :: int

definition new_budget ::
  "FastPathTier \<Rightarrow> time \<Rightarrow> time \<Rightarrow> time option \<Rightarrow> int option \<Rightarrow> int option \<Rightarrow> budget" where
  "new_budget tier start max_inactive max_s max_t max_i =
     (case tier_budget tier of
        (s, t, i) \<Rightarrow>
          \<lparr>bt_tier = tier, bt_start_time = start, bt_last_activity_time = start, bt_max_inactivity = max_inactive,
           bt_max_seconds = (case max_s of None \<Rightarrow> s | Some x \<Rightarrow> x),
           bt_max_tool_calls = (case max_t of None \<Rightarrow> t | Some x \<Rightarrow> x),
           bt_max_iterations = (case max_i of None \<Rightarrow> i | Some x \<Rightarrow> x),
           bt_tool_call_count = 0, bt_iteration_count = 0\<rparr>)"

definition elapsed_seconds :: "time \<Rightarrow> budget \<Rightarrow> time" where
  "elapsed_seconds now b = now - bt_start_time b"

definition inactive_seconds :: "time \<Rightarrow> budget \<Rightarrow> time" where
  "inactive_seconds now b = now - bt_last_activity_time b"

definition remaining_seconds :: "time \<Rightarrow> budget \<Rightarrow> time" where
  "remaining_seconds now b = max 0 (bt_max_seconds b - elapsed_seconds now b)"

definition touch_activity :: "time \<Rightarrow> budget \<Rightarrow> budget" where
  "touch_activity now b = b\<lparr>bt_last_activity_time := now\<rparr>"

definition record_tool_call :: "time \<Rightarrow> budget \<Rightarrow> budget" where
  "record_tool_call now b = touch_activity now (b\<lparr>bt_tool_call_count := bt_tool_call_count b + 1\<rparr>)"

definition record_iteration :: "time \<Rightarrow> budget \<Rightarrow> budget" where
  "record_iteration now b = touch_activity now (b\<lparr>bt_iteration_count := bt_iteration_count b + 1\<rparr>)"

definition is_stalled :: "time \<Rightarrow> budget \<Rightarrow> bool" where
  "is_stalled now b \<longleftrightarrow> bt_max_inactivity b \<le> inactive_seconds now b"

definition is_time_exhausted :: "time \<Rightarrow> budget \<Rightarrow> bool" where
  "is_time_exhausted now b \<longleftrightarrow> (if is_stalled now b then True else bt_max_seconds b \<le> elapsed_seconds now b)"

definition is_tool_budget_exhausted :: "budget \<Rightarrow> bool" where
  "is_tool_budget_exhausted b \<longleftrightarrow>
     (if bt_tier b = L0_DIRECT_LLM then 0 < bt_tool_call_count b else bt_max_tool_calls b \<le> bt_tool_call_count b)"

definition is_iteration_exhausted :: "budget \<Rightarrow> bool" where
  "is_iteration_exhausted b \<longleftrightarrow> bt_max_iterations b \<le> bt_iteration_count b"

definition is_near_exhaustion :: "time \<Rightarrow> rat \<Rightarrow> budget \<Rightarrow> bool" where
  "is_near_exhaustion now threshold b \<longleftrightarrow>
     (if bt_tier b = L0_DIRECT_LLM then False
      else threshold \<le> elapsed_seconds now b / max 1 (bt_max_seconds b) \<or>
           threshold \<le> of_int (bt_tool_call_count b) / of_int (max 1 (bt_max_tool_calls b)) \<or>
           threshold \<le> of_int (bt_iteration_count b) / of_int (max 1 (bt_max_iterations b)))"

datatype exhaustion = Inactivity time time | TimeOut time time | ToolCalls int int | Iterations int int

definition get_exhaustion_reason :: "time \<Rightarrow> budget \<Rightarrow> exhaustion option" where
  "get_exhaustion_reason now b =
     (if is_stalled now b then Some (Inactivity (inactive_seconds now b) (bt_max_inactivity b))
      else if is_time_exhausted now b then Some (TimeOut (elapsed_seconds now b) (bt_max_seconds b))
      else if is_tool_budget_exhausted b then Some (ToolCalls (bt_tool_call_count b) (bt_max_tool_calls b))
      else if is_iteration_exhausted b then Some (Iterations (bt_iteration_count b) (bt_max_iterations b))
      else None)"

lemmas budget_defs = get_exhaustion_reason_def is_stalled_def is_time_exhausted_def is_tool_budget_exhausted_def
  is_iteration_exhausted_def elapsed_seconds_def inactive_seconds_def record_tool_call_def record_iteration_def
  touch_activity_def

section \<open>Tool loops\<close>

text \<open>The arguments of a call: a dictionary, a text, or another value with its text.\<close>

datatype tool_args = ArgsDict "json dict" | ArgsText string | ArgsOther string

text \<open>\<open>json.dumps(args, sort_keys=True)\<close> with the default separators.\<close>

fun dumps_spaced :: "json \<Rightarrow> string" where
  "dumps_spaced (JObj kvs) = ''{'' @ join '', '' (map (\<lambda>(k, v). str_json k @ '': '' @ dumps_spaced v) kvs) @ ''}''"
| "dumps_spaced (JArr vs) = ''['' @ join '', '' (map dumps_spaced vs) @ '']''"
| "dumps_spaced v = dumps v"

definition hash_args :: "tool_args \<Rightarrow> string" where
  "hash_args args =
     (let normalized = (case args of
          ArgsDict d \<Rightarrow> dumps_spaced (sort_keys (JObj d))
        | ArgsText t \<Rightarrow> t
        | ArgsOther t \<Rightarrow> t)
      in take 16 (sha256_hex (map char_of (utf8_encode (u_str normalized)))))"

text \<open>The truth value of a JSON value, and \<open>str\<close> of one: of what is not a string a parameter.\<close>

fun truthy :: "json \<Rightarrow> bool" where
  "truthy JNull = False"
| "truthy (JBool b) = b"
| "truthy (JInt i) = (i \<noteq> 0)"
| "truthy (JFloat x) = (x \<noteq> 0)"
| "truthy (JStr s) = (s \<noteq> [])"
| "truthy (JArr vs) = (vs \<noteq> [])"
| "truthy (JObj kvs) = (kvs \<noteq> [])"

definition or_else :: "json option \<Rightarrow> json \<Rightarrow> json" where
  "or_else v w = (case v of Some x \<Rightarrow> (if truthy x then x else w) | None \<Rightarrow> w)"

definition raw_command :: "(json \<Rightarrow> string) \<Rightarrow> tool_args \<Rightarrow> string" where
  "raw_command py_str args =
     (case args of
        ArgsDict d \<Rightarrow>
          (case or_else (map_of d ''command'') (or_else (map_of d ''cmd'') (or_else (map_of d ''path'') (JStr []))) of
             JStr s \<Rightarrow> s
           | v \<Rightarrow> py_str v)
      | ArgsText t \<Rightarrow> t
      | ArgsOther _ \<Rightarrow> [])"

definition home_dir :: "uni \<Rightarrow> regex" where
  "home_dir un = Seq (lit_ci ''/home/'') (plus (cls_ci (u_word un)))"

definition broad_scan_patterns :: "uni \<Rightarrow> regex list" where
  "broad_scan_patterns un =
     [seqs [lit_ci ''grep'', plus space, star dot,
        alts [home_dir un, lit_ci ''/home'', lit_ci ''/root'', lit_ci ''/var'', lit_ci ''/usr'', lit_ci ''/etc''],
        star space, LineEnd],
      seqs [lit_ci ''find'', plus space, alts [home_dir un, lit_ci ''/home'', lit_ci ''/root'', lit_ci ''/''],
        plus space, alts [lit_ci ''-name'', lit_ci ''-type'']]]"

type_synonym call_signature = "string \<times> string"

record detector =
  td_history_window :: nat
  td_call_history :: "call_signature list"
  td_blocked_counts :: "(call_signature \<times> nat) list"
  td_suppressed_tools :: "string list"
  td_hard_tripped :: bool
  td_tool_call_counts :: "nat dict"

definition new_detector :: "nat \<Rightarrow> detector" where
  "new_detector w = \<lparr>td_history_window = w, td_call_history = [], td_blocked_counts = [], td_suppressed_tools = [],
     td_hard_tripped = False, td_tool_call_counts = []\<rparr>"

text \<open>\<open>xs[-n:]\<close> of a list: all of it when \<open>n\<close> is 0.\<close>

definition py_last :: "nat \<Rightarrow> 'a list \<Rightarrow> 'a list" where
  "py_last n xs = (if n = 0 then xs else drop (length xs - n) xs)"

datatype call_verdict =
    Allowed
  | Suppressed
  | SearchConvergence nat
  | BroadScan
  | CircuitBreaker nat
  | Repeated nat

text \<open>The set of suppressed tools is a list without duplicates.\<close>

definition suppress :: "string \<Rightarrow> detector \<Rightarrow> detector" where
  "suppress tool d = d\<lparr>td_suppressed_tools := List.insert tool (td_suppressed_tools d), td_hard_tripped := True\<rparr>"

definition inspect_tool_call ::
  "uni \<Rightarrow> (json \<Rightarrow> string) \<Rightarrow> string \<Rightarrow> tool_args \<Rightarrow> detector \<Rightarrow> call_verdict \<times> detector" where
  "inspect_tool_call un py_str tool args d =
     (if tool \<in> set (td_suppressed_tools d) then (Suppressed, d)
      else
        let n = dict_get (td_tool_call_counts d) tool 0 + 1;
            d1 = d\<lparr>td_tool_call_counts := AList.update tool n (td_tool_call_counts d)\<rparr>
        in if tool = ''session_search'' \<and> 3 < n then (SearchConvergence n, suppress tool d1)
           else if list_ex (\<lambda>pat. re_found un pat (u_str (strip (raw_command py_str args)))) (broad_scan_patterns un)
             then (BroadScan, d1)
           else
             let sig = (tool, hash_args args);
                 recent = length (filter (\<lambda>x. x = sig) (py_last (td_history_window d1) (td_call_history d1)))
             in if 2 \<le> recent then
                  (let k = (case map_of (td_blocked_counts d1) sig of None \<Rightarrow> 0 | Some m \<Rightarrow> m) + 1;
                       d2 = d1\<lparr>td_blocked_counts := AList.update sig k (td_blocked_counts d1)\<rparr>
                   in if 2 \<le> k then (CircuitBreaker (k + 1), suppress tool d2) else (Repeated (recent + 1), d2))
                else
                  (let h = td_call_history d1 @ [sig]
                   in (Allowed, d1\<lparr>td_call_history := (if 50 < length h then drop 1 h else h)\<rparr>)))"

text \<open>A sequence of calls: the verdicts, and the detector left.\<close>

fun run_tool_calls ::
  "uni \<Rightarrow> (json \<Rightarrow> string) \<Rightarrow> (string \<times> tool_args) list \<Rightarrow> detector \<Rightarrow> call_verdict list \<times> detector" where
  "run_tool_calls un py_str [] d = ([], d)"
| "run_tool_calls un py_str ((t, a) # cs) d =
     (case inspect_tool_call un py_str t a d of
        (v, d') \<Rightarrow> (case run_tool_calls un py_str cs d' of (vs, d'') \<Rightarrow> (v # vs, d'')))"

text \<open>The calls that are executed, by signature.\<close>

definition executed_calls ::
  "uni \<Rightarrow> (json \<Rightarrow> string) \<Rightarrow> (string \<times> tool_args) list \<Rightarrow> detector \<Rightarrow> call_signature list" where
  "executed_calls un py_str cs d =
     map (\<lambda>((t, a), v). (t, hash_args a)) (filter (\<lambda>(c, v). v = Allowed) (zip cs (fst (run_tool_calls un py_str cs d))))"

section \<open>Compaction of output\<close>

text \<open>\<open>str.splitlines\<close>.\<close>

definition line_break :: "nat \<Rightarrow> bool" where
  "line_break c \<longleftrightarrow> (10 \<le> c \<and> c \<le> 13) \<or> (28 \<le> c \<and> c \<le> 30) \<or> c = 133 \<or> c = 8232 \<or> c = 8233"

fun split_lines :: "ustr \<Rightarrow> ustr \<Rightarrow> ustr list" where
  "split_lines line [] = (if line = [] then [] else [rev line])"
| "split_lines line (c # s) =
     (if line_break c then
        rev line # split_lines [] (if c = 13 \<and> s \<noteq> [] \<and> hd s = 10 then tl s else s)
      else split_lines (c # line) s)"

fun u_join :: "ustr \<Rightarrow> ustr list \<Rightarrow> ustr" where
  "u_join sep [] = []"
| "u_join sep [x] = x"
| "u_join sep (x # y # zs) = x @ sep @ u_join sep (y # zs)"

text \<open>\<open>encode\<close> with \<open>errors="replace"\<close> writes a question mark for a surrogate; without, it raises.\<close>

definition encode_replace :: "ustr \<Rightarrow> nat list" where
  "encode_replace s = utf8_encode (map (\<lambda>c. if valid_cp c then c else 63) s)"

definition encodable :: "ustr \<Rightarrow> bool" where
  "encodable s \<longleftrightarrow> list_all valid_cp s"

definition truncated_marker :: ustr where
  "truncated_marker = 10 # u_str ''... [TRUNCATED DUE TO SIZE] ...''"

definition omission_note :: "nat \<Rightarrow> int \<Rightarrow> ustr" where
  "omission_note n_lines n_bytes =
     [10, 10] @ u_str (''... [RUNTIME CONTROL: '' @ nat_str n_lines @ '' lines ('' @ int_str n_bytes @
       '' bytes) omitted to protect KV Cache] ...'') @ [10, 10]"

text \<open>\<open>None\<close> is the encoding error.\<close>

definition compact_output :: "ustr \<Rightarrow> nat \<Rightarrow> nat \<Rightarrow> nat \<Rightarrow> ustr option" where
  "compact_output text max_bytes keep_head keep_tail =
     (if text = [] then Some text
      else
        let encoded = encode_replace text in
        if length encoded \<le> max_bytes then Some text
        else
          let lines = split_lines [] text in
          if length lines \<le> keep_head + keep_tail then
            Some (utf8_decode_ignore (take max_bytes encoded) @ truncated_marker)
          else
            let head = u_join [10] (take keep_head lines);
                tail = u_join [10] (py_last keep_tail lines)
            in if \<not> encodable head \<or> \<not> encodable tail then None
               else Some (head @
                 omission_note (length lines - (keep_head + keep_tail))
                   (int (length encoded) - (int (length (utf8_encode head)) + int (length (utf8_encode tail)))) @ tail))"

section \<open>Lemmas on the detector\<close>

text \<open>Every element of a log occurs at most once among the \<open>w\<close> before it.\<close>

definition spaced :: "nat \<Rightarrow> 'a list \<Rightarrow> bool" where
  "spaced w xs \<longleftrightarrow>
     (\<forall>pre s post. xs = pre @ s # post \<longrightarrow> length (filter (\<lambda>x. x = s) (drop (length pre - w) pre)) \<le> 1)"

lemma spaced_Nil [simp]: "spaced w []"
  by (simp add: spaced_def)

lemma spaced_snoc:
  "spaced w (xs @ [s]) \<longleftrightarrow> spaced w xs \<and> length (filter (\<lambda>x. x = s) (drop (length xs - w) xs)) \<le> 1"
  (is "?l \<longleftrightarrow> ?r")
proof
  assume ?l
  then show ?r unfolding spaced_def by (metis append.assoc append_Cons append_Nil)
next
  assume r: ?r
  show ?l unfolding spaced_def
  proof (intro allI impI)
    fix pre t post
    assume eq: "xs @ [s] = pre @ t # post"
    show "length (filter (\<lambda>x. x = t) (drop (length pre - w) pre)) \<le> 1"
    proof (cases post rule: rev_cases)
      case Nil
      with eq r show ?thesis by simp
    next
      case (snoc p u)
      with eq have "xs = pre @ t # p" by simp
      with r show ?thesis unfolding spaced_def by blast
    qed
  qed
qed

lemma spaced_window:
  assumes "spaced w (pre @ mid @ post)" and "length mid \<le> w + 1"
  shows "length (filter (\<lambda>x. x = s) mid) \<le> 2"
proof (cases "s \<in> set mid")
  case True
  then obtain a b where mid: "mid = a @ s # b" and b: "s \<notin> set b" by (metis split_list_last)
  have "length (filter (\<lambda>x. x = s) (drop (length (pre @ a) - w) (pre @ a))) \<le> 1"
    using assms(1) mid unfolding spaced_def by (metis append.assoc append_Cons)
  moreover have "drop (length (pre @ a) - w) (pre @ a) = drop (length (pre @ a) - w) pre @ a"
    using assms(2) mid by simp
  moreover have "filter (\<lambda>x. x = s) b = []" using b by (induction b) auto
  ultimately show ?thesis by (simp add: mid)
next
  case False
  then have "filter (\<lambda>x. x = s) mid = []" by (induction mid) auto
  then show ?thesis by simp
qed

text \<open>What the detector remembers of the calls executed so far.\<close>

definition remembers :: "detector \<Rightarrow> call_signature list \<Rightarrow> bool" where
  "remembers d calls \<longleftrightarrow> td_call_history d = drop (length calls - 50) calls \<and>
     0 < td_history_window d \<and> td_history_window d \<le> 50 \<and> spaced (td_history_window d) calls"

definition searches :: "call_signature list \<Rightarrow> nat" where
  "searches calls = length (filter (\<lambda>c. fst c = ''session_search'') calls)"

definition detector_ok :: "detector \<Rightarrow> call_signature list \<Rightarrow> bool" where
  "detector_ok d calls \<longleftrightarrow> remembers d calls \<and>
     (td_hard_tripped d \<longleftrightarrow> td_suppressed_tools d \<noteq> []) \<and> distinct (td_suppressed_tools d) \<and>
     searches calls \<le> dict_get (td_tool_call_counts d) ''session_search'' 0 \<and> searches calls \<le> 3"

lemma detector_ok_new: "0 < w \<Longrightarrow> w \<le> 50 \<Longrightarrow> detector_ok (new_detector w) []"
  by (simp add: detector_ok_def remembers_def new_detector_def searches_def dict_get_def)

lemma remembered_window: "w \<le> 50 \<Longrightarrow> 0 < w \<Longrightarrow> py_last w (drop (length calls - 50) calls) = drop (length calls - w) calls"
proof -
  assume "w \<le> 50" and "0 < w"
  then have "length calls - (length calls - 50 + w) + (length calls - 50) = length calls - w" by arith
  then show ?thesis using \<open>0 < w\<close> by (simp add: py_last_def)
qed

lemma remembered_append:
  "(let h = drop (length calls - 50) calls @ [c] in if 50 < length h then drop 1 h else h) =
   drop (length (calls @ [c]) - 50) (calls @ [c])"
proof (cases "50 \<le> length calls")
  case True
  then have "Suc (length calls - 50) = length calls - 49" by arith
  with True show ?thesis by (simp add: Let_def)
qed (simp add: Let_def)

lemma List_insert_ne [simp]: "List.insert x xs \<noteq> []"
  by (simp add: List.insert_def) auto

lemma dict_get_count: "dict_get (AList.update t (dict_get d t 0 + 1) d) s (0::nat) = (if s = t then dict_get d s 0 + 1 else dict_get d s 0)"
  by simp

lemma inspect_keeps_ok:
  assumes ok: "detector_ok d calls" and v: "inspect_tool_call un py_str t a d = (v, d')"
  shows "detector_ok d' (calls @ (if v = Allowed then [(t, hash_args a)] else []))"
proof -
  let ?n = "dict_get (td_tool_call_counts d) t 0 + 1"
  let ?d1 = "d\<lparr>td_tool_call_counts := AList.update t ?n (td_tool_call_counts d)\<rparr>"
  let ?broad = "list_ex (\<lambda>pat. re_found un pat (u_str (strip (raw_command py_str a)))) (broad_scan_patterns un)"
  let ?sig = "(t, hash_args a)"
  let ?w = "td_history_window d"
  have ok1: "detector_ok ?d1 calls"
    using ok by (auto simp: detector_ok_def remembers_def)
  have sup: "detector_ok (suppress t e) calls" if "detector_ok e calls" for e
    using that by (auto simp: detector_ok_def remembers_def suppress_def)
  have blk: "detector_ok (e\<lparr>td_blocked_counts := b\<rparr>) calls" if "detector_ok e calls" for e b
    using that by (auto simp: detector_ok_def remembers_def)
  have win: "py_last ?w (td_call_history d) = drop (length calls - ?w) calls"
    using ok remembered_window [of ?w calls] by (simp add: detector_ok_def remembers_def)
  have rec: "detector_ok (?d1\<lparr>td_call_history :=
        (let h = td_call_history d @ [?sig] in if 50 < length h then drop 1 h else h)\<rparr>) (calls @ [?sig])"
    if few: "length (filter (\<lambda>x. x = ?sig) (drop (length calls - ?w) calls)) \<le> 1"
      and n: "\<not> (t = ''session_search'' \<and> 3 < ?n)"
  proof -
    have h: "td_call_history d = drop (length calls - 50) calls" using ok by (simp add: detector_ok_def remembers_def)
    show ?thesis
      using ok few n unfolding h remembered_append
      by (auto simp: detector_ok_def remembers_def spaced_snoc searches_def)
  qed
  show ?thesis
    using v ok ok1 sup [OF ok1] sup [OF blk [OF ok1]] blk [OF ok1] rec
    by (auto simp: inspect_tool_call_def win Let_def not_le split: if_splits option.splits)
qed

lemma executed_calls_Nil [simp]: "executed_calls un py_str [] d = []"
  by (simp add: executed_calls_def)

lemma executed_calls_Cons:
  "inspect_tool_call un py_str t a d = (v, d') \<Longrightarrow>
   executed_calls un py_str ((t, a) # cs) d =
     (if v = Allowed then [(t, hash_args a)] else []) @ executed_calls un py_str cs d'"
  by (simp add: executed_calls_def split: prod.split)

lemma run_keeps_ok:
  "detector_ok d calls \<Longrightarrow>
   detector_ok (snd (run_tool_calls un py_str cs d)) (calls @ executed_calls un py_str cs d)"
proof (induction cs arbitrary: d calls)
  case (Cons c cs)
  obtain t a where c: "c = (t, a)" by (cases c)
  obtain v d' where v: "inspect_tool_call un py_str t a d = (v, d')" by (cases "inspect_tool_call un py_str t a d")
  from Cons.IH [OF inspect_keeps_ok [OF Cons.prems v]] show ?case
    by (cases "run_tool_calls un py_str cs d'") (simp add: c v executed_calls_Cons [OF v] split: if_splits)
qed simp

lemma length_executed_calls: "length (executed_calls un py_str cs d) \<le> length cs"
  unfolding executed_calls_def length_map by (rule order_trans [OF length_filter_le]) simp

lemma inspect_window: "inspect_tool_call un py_str t a d = (v, d') \<Longrightarrow> td_history_window d' = td_history_window d"
  by (auto simp: inspect_tool_call_def suppress_def Let_def split: if_splits)

lemma run_window: "td_history_window (snd (run_tool_calls un py_str cs d)) = td_history_window d"
  by (induction cs arbitrary: d) (auto split: prod.splits dest!: inspect_window, metis snd_conv)

lemma suppressed_run:
  "t \<in> set (td_suppressed_tools d) \<Longrightarrow>
   run_tool_calls un py_str (replicate n (t, a)) d = (replicate n Suppressed, d)"
  by (induction n) (simp_all add: inspect_tool_call_def)

section \<open>Lemmas on compaction\<close>

lemma split_lines_set: "l \<in> set (split_lines acc s) \<Longrightarrow> set l \<subseteq> set acc \<union> set s"
proof (induction acc s arbitrary: l rule: split_lines.induct)
  case (2 line c s)
  show ?case
  proof (cases "line_break c")
    case True
    then consider "l = rev line" | "l \<in> set (split_lines [] (if c = 13 \<and> s \<noteq> [] \<and> hd s = 10 then tl s else s))"
      using "2.prems" by auto
    then show ?thesis
    proof cases
      case 2
      from "2.IH"(1) [OF True this] have "set l \<subseteq> set (if c = 13 \<and> s \<noteq> [] \<and> hd s = 10 then tl s else s)" by simp
      also have "\<dots> \<subseteq> set s" by (auto dest: list.set_sel(2))
      finally show ?thesis by auto
    qed auto
  next
    case False
    with "2.IH"(2) [OF False, of l] "2.prems" show ?thesis by auto
  qed
qed (auto split: if_splits)

lemma u_join_set: "set (u_join sep ls) \<subseteq> set sep \<union> \<Union> (set ` set ls)"
  by (induction sep ls rule: u_join.induct) auto

lemma encodable_join:
  assumes "encodable text" and "set ls \<subseteq> set (split_lines [] text)"
  shows "encodable (u_join [10] ls)"
proof -
  have "set (u_join [10] ls) \<subseteq> {10} \<union> \<Union> (set ` set ls)" using u_join_set [of "[10]" ls] by simp
  also have "\<dots> \<subseteq> {10} \<union> set text" using split_lines_set [of _ "[]" "text"] assms(2) by fastforce
  finally show ?thesis using assms(1) by (auto simp: encodable_def list_all_iff valid_cp_def)
qed

lemma encode_replace_encodable: "encodable text \<Longrightarrow> encode_replace text = utf8_encode text"
  unfolding encode_replace_def encodable_def list_all_iff by (simp cong: map_cong)

lemma set_py_last: "set (py_last n xs) \<subseteq> set xs"
  by (auto simp: py_last_def dest: in_set_dropD)

lemma line_break_simps [simp]: "line_break 10" "\<not> line_break 97"
  by (simp_all add: line_break_def)

lemma split_lines_as: "split_lines acc (replicate n 97 @ 10 # s) = (rev acc @ replicate n 97) # split_lines [] s"
  by (induction n arbitrary: acc) (simp_all add: replicate_app_Cons_same)

lemma split_lines_newlines: "split_lines [] (replicate n 10) = replicate n []"
  by (induction n) auto

lemma u_join_length: "length (u_join sep (x # ls)) \<ge> length x"
  by (cases ls) auto

lemma enc_ascii: "length (utf8_encode (replicate n 97)) = n"
  by (induction n) (auto simp: enc_cp_def)

lemma enc_length: "length s \<le> length (utf8_encode s)"
proof (induction s)
  case (Cons c s)
  have "1 \<le> length (enc_cp c)" by (simp add: enc_cp_def)
  with Cons.IH show ?case by simp
qed simp

lemma compact_long:
  assumes "encodable text" and "m < length (utf8_encode text)" and "h + t < length (split_lines [] text)"
  shows "\<exists>msg. compact_output text m h t =
    Some (u_join [10] (take h (split_lines [] text)) @ msg @ u_join [10] (py_last t (split_lines [] text)))"
  using assms encodable_join [OF assms(1) set_take_subset] encodable_join [OF assms(1) set_py_last]
  by (auto simp: compact_output_def Let_def encode_replace_encodable)

text \<open>A search of the whole of a system directory escapes the patterns by a trailing slash.\<close>

lemma trailing_slash_is_not_broad:
  "list_ex (\<lambda>pat. re_found (\<lambda>_. False) pat (u_str ''grep -r x /etc'')) (broad_scan_patterns (\<lambda>_. False)) \<and>
   \<not> list_ex (\<lambda>pat. re_found (\<lambda>_. False) pat (u_str ''grep -r x /etc/'')) (broad_scan_patterns (\<lambda>_. False))"
  by code_simp

section \<open>Properties\<close>

text \<open>C32: tool calls do not loop. Whatever is called in whatever order on a fresh detector with a window of
  1 to 50, no call is executed a third time with the same arguments within the window plus one
  executed calls, \<open>session_search\<close> is executed at most three times, and the detector has tripped
  exactly when some tool is suppressed.\<close>

theorem tool_calls_do_not_loop:
  assumes "0 < w" and "w \<le> 50" and "executed_calls un py_str cs (new_detector w) = pre @ mid @ post"
    and "length mid \<le> w + 1"
  shows "length (filter (\<lambda>c. c = sig) mid) \<le> 2 \<and>
    searches (executed_calls un py_str cs (new_detector w)) \<le> 3 \<and>
    (td_hard_tripped (snd (run_tool_calls un py_str cs (new_detector w))) \<longleftrightarrow>
       td_suppressed_tools (snd (run_tool_calls un py_str cs (new_detector w))) \<noteq> [])"
proof -
  have ok: "detector_ok (snd (run_tool_calls un py_str cs (new_detector w)))
      (executed_calls un py_str cs (new_detector w))"
    using run_keeps_ok [OF detector_ok_new [OF assms(1,2)]] by simp
  have "spaced w (pre @ mid @ post)"
    using ok run_window [of un py_str cs "new_detector w"] assms(3)
    by (simp add: detector_ok_def remembers_def new_detector_def)
  from spaced_window [OF this assms(4)] ok show ?thesis by (simp add: detector_ok_def)
qed

theorem tool_calls_do_not_loop_witness:
  "length (filter (\<lambda>c. c = (''ls'', []))
     (executed_calls (\<lambda>_. False) (\<lambda>_. []) (replicate 13 (''ls'', ArgsText ''x'')) (new_detector 12))) \<le> 2"
  using tool_calls_do_not_loop [of 12 "\<lambda>_. False" "\<lambda>_. []" "replicate 13 (''ls'', ArgsText ''x'')" "[]" _ "[]" "(''ls'', [])"]
    length_executed_calls [of "\<lambda>_. False" "\<lambda>_. []" "replicate 13 (''ls'', ArgsText ''x'')" "new_detector 12"]
  by simp

text \<open>Repetition is halted for good. The same call made again and again on a fresh detector, if it is
  no broad scan, is executed twice, refused with a warning, trips the breaker at the fourth attempt
  and is suppressed from then on.\<close>

theorem repetition_is_halted:
  assumes "\<not> list_ex (\<lambda>pat. re_found un pat (u_str (strip (raw_command py_str a)))) (broad_scan_patterns un)"
    and "w \<noteq> 1" and "t \<noteq> ''session_search''"
  shows "fst (run_tool_calls un py_str (replicate (n + 4) (t, a)) (new_detector w)) =
      [Allowed, Allowed, Repeated 3, CircuitBreaker 3] @ replicate n Suppressed \<and>
    td_hard_tripped (snd (run_tool_calls un py_str (replicate (n + 4) (t, a)) (new_detector w)))"
  using assms
  by (simp add: numeral_eq_Suc inspect_tool_call_def new_detector_def dict_get_def py_last_def suppress_def Let_def
      suppressed_run split: prod.split)

theorem repetition_is_halted_witness:
  "fst (run_tool_calls (\<lambda>_. False) (\<lambda>_. []) (replicate (1 + 4) (''cat'', ArgsText ''x'')) (new_detector 12)) =
      [Allowed, Allowed, Repeated 3, CircuitBreaker 3, Suppressed]"
proof -
  have "\<not> list_ex (\<lambda>pat. re_found (\<lambda>_. False) pat (u_str (strip (raw_command (\<lambda>_. []) (ArgsText ''x'')))))
      (broad_scan_patterns (\<lambda>_. False))"
    by code_simp
  from repetition_is_halted [OF this, of 12 "''cat''" 1] show ?thesis by simp
qed

text \<open>Budgets are exact and never come back. A reason to stop is reported exactly when the task is
  stalled or its time, tool or iteration budget is used up; recording calls or iterations never
  takes a used-up tool or iteration budget back; and, in the tiers with tools, a budget of at least
  one is announced as nearly exhausted by the time it is, for a threshold of at most 1.\<close>

theorem budgets_are_exact:
  assumes "threshold \<le> 1"
  shows "(get_exhaustion_reason now b = None \<longleftrightarrow>
        now - bt_last_activity_time b < bt_max_inactivity b \<and> now - bt_start_time b < bt_max_seconds b \<and>
        (if bt_tier b = L0_DIRECT_LLM then bt_tool_call_count b \<le> 0 else bt_tool_call_count b < bt_max_tool_calls b) \<and>
        bt_iteration_count b < bt_max_iterations b) \<and>
    (is_tool_budget_exhausted b \<or> is_iteration_exhausted b \<longrightarrow>
        get_exhaustion_reason now' (record_tool_call now b) \<noteq> None \<and>
        get_exhaustion_reason now' (record_iteration now b) \<noteq> None) \<and>
    (bt_tier b \<noteq> L0_DIRECT_LLM \<and>
       (1 \<le> bt_max_tool_calls b \<and> is_tool_budget_exhausted b \<or>
        1 \<le> bt_max_iterations b \<and> is_iteration_exhausted b \<or>
        1 \<le> bt_max_seconds b \<and> bt_max_seconds b \<le> elapsed_seconds now b) \<longrightarrow>
     is_near_exhaustion now threshold b)"
proof -
  have ratio: "threshold \<le> x / max 1 m" if "1 \<le> m" "m \<le> x" for x m :: rat
  proof -
    have "1 \<le> x / max 1 m" using that by (simp add: max_def)
    with assms show ?thesis by linarith
  qed
  have counts: "threshold \<le> of_int k / of_int (max 1 m)" if "1 \<le> m" "m \<le> k" for k m :: int
    using ratio [of "of_int m" "of_int k"] that by (simp add: max_def split: if_splits)
  have near: "is_near_exhaustion now threshold b"
    if "bt_tier b \<noteq> L0_DIRECT_LLM" and "1 \<le> bt_max_tool_calls b \<and> is_tool_budget_exhausted b \<or>
        1 \<le> bt_max_iterations b \<and> is_iteration_exhausted b \<or>
        1 \<le> bt_max_seconds b \<and> bt_max_seconds b \<le> elapsed_seconds now b"
    using that ratio counts
    by (auto simp: is_near_exhaustion_def is_tool_budget_exhausted_def is_iteration_exhausted_def)
  then show ?thesis by (auto simp: budget_defs)
qed

theorem budgets_are_exact_witness:
  "is_near_exhaustion 0 (92 / 100)
     ((new_budget L1_READONLY_TOOL 0 120 None None None)\<lparr>bt_tool_call_count := 6\<rparr>)"
  using budgets_are_exact [of "92 / 100" 0 "(new_budget L1_READONLY_TOOL 0 120 None None None)\<lparr>bt_tool_call_count := 6\<rparr>"]
  by (simp add: new_budget_def is_tool_budget_exhausted_def)

text \<open>Compaction keeps what fits and both ends, and nothing bounds it in general. Encodable output always
  compacts: to itself when it fits, within \<open>max_bytes\<close> plus 32 bytes when it has few lines, else to its
  first and last lines around a note; but with the default limit and line counts, output of one long
  line and thirty empty ones exceeds any given size.\<close>

theorem compaction_keeps_both_ends:
  assumes "encodable text"
  shows "(\<exists>r. compact_output text m h t = Some r \<and>
      (length (utf8_encode text) \<le> m \<longrightarrow> r = text) \<and>
      (length (split_lines [] text) \<le> h + t \<longrightarrow> length (utf8_encode r) \<le> m + 32) \<and>
      (m < length (utf8_encode text) \<and> h + t < length (split_lines [] text) \<longrightarrow>
         (\<exists>note. r = u_join [10] (take h (split_lines [] text)) @ note @ u_join [10] (py_last t (split_lines [] text))))) \<and>
    (\<exists>big r. encodable big \<and> compact_output big 4096 15 15 = Some r \<and> n < length (utf8_encode r))"
proof (intro conjI)
  let ?ls = "split_lines [] text"
  have enc: "encode_replace text = utf8_encode text" using assms by (rule encode_replace_encodable)
  have head: "encodable (u_join [10] (take h ?ls))" using encodable_join [OF assms set_take_subset] .
  have tail: "encodable (u_join [10] (py_last t ?ls))" using encodable_join [OF assms set_py_last] .
  have cut: "length (utf8_encode (utf8_decode_ignore (take m (utf8_encode text)))) \<le> m"
    using utf8_cut [of "text" m] assms by (simp add: encodable_def list_all_iff)
  have marker: "length (utf8_encode truncated_marker) = 32" by code_simp
  show "\<exists>r. compact_output text m h t = Some r \<and> (length (utf8_encode text) \<le> m \<longrightarrow> r = text) \<and>
      (length ?ls \<le> h + t \<longrightarrow> length (utf8_encode r) \<le> m + 32) \<and>
      (m < length (utf8_encode text) \<and> h + t < length ?ls \<longrightarrow>
         (\<exists>note. r = u_join [10] (take h ?ls) @ note @ u_join [10] (py_last t ?ls)))"
    using head tail cut marker by (auto simp: compact_output_def Let_def enc)
next
  let ?k = "Suc (max n 4096)"
  let ?big = "replicate ?k 97 @ 10 # replicate 30 (10 :: nat)"
  have ls: "split_lines [] ?big = replicate ?k 97 # replicate 30 []"
    by (simp only: split_lines_as split_lines_newlines rev.simps append_Nil)
  have e: "encodable ?big" by (auto simp: encodable_def list_all_iff valid_cp_def)
  let ?head = "u_join [10] (take 15 (split_lines [] ?big))"
  let ?tail = "u_join [10] (py_last 15 (split_lines [] ?big))"
  have long: "4096 < length (utf8_encode ?big)" using enc_length [of ?big] by simp
  have many: "15 + 15 < length (split_lines [] ?big)" unfolding ls by simp
  obtain msg where r: "compact_output ?big 4096 15 15 = Some (?head @ msg @ ?tail)"
    using compact_long [OF e long many] by blast
  have "n < length ?head" using u_join_length [of "replicate ?k 97" "[10]" "replicate 14 []"] unfolding ls by simp
  also have "\<dots> \<le> length (utf8_encode (?head @ msg @ ?tail))"
    using enc_length [of "?head @ msg @ ?tail"] by simp
  finally show "\<exists>big r. encodable big \<and> compact_output big 4096 15 15 = Some r \<and> n < length (utf8_encode r)"
    using e r by blast
qed

theorem compaction_keeps_both_ends_witness:
  "encodable [97] \<and> (\<exists>big r. encodable big \<and> compact_output big 4096 15 15 = Some r \<and> 5000 < length (utf8_encode r))"
proof -
  have e: "encodable [97]" by code_simp
  from compaction_keeps_both_ends [OF this, of 1 1 1 5000] e show ?thesis by blast
qed

end
