(* ===== verification/PyShell.thy ===== *)
theory PyShell
  imports PyText PyJson
begin

text \<open>
  Python's \<open>os.path\<close> on POSIX (\<open>normpath\<close>, \<open>expanduser\<close>, \<open>basename\<close>, \<open>abspath\<close>) and \<open>shlex.split\<close>,
  as the guards call them, with what they promise.
\<close>

section \<open>Paths\<close>

text \<open>The loop of \<open>normpath\<close>: the components kept so far, newest first.\<close>

fun norm_comps :: "bool \<Rightarrow> string list \<Rightarrow> string list \<Rightarrow> string list" where
  "norm_comps absolute kept [] = rev kept"
| "norm_comps absolute kept (c # cs) =
     (if c = [] \<or> c = ''.'' then norm_comps absolute kept cs
      else if c \<noteq> ''..'' \<or> (\<not> absolute \<and> kept = []) \<or> (kept \<noteq> [] \<and> hd kept = ''..'')
        then norm_comps absolute (c # kept) cs
      else norm_comps absolute (tl kept) cs)"

definition initial_slashes :: "string \<Rightarrow> string" where
  "initial_slashes p =
     (if starts_with p ''//'' \<and> \<not> starts_with p ''///'' then ''//'' else if starts_with p ''/'' then ''/'' else [])"

definition normpath :: "string \<Rightarrow> string" where
  "normpath p =
     (if p = [] then ''.''
      else
        let q = initial_slashes p @ join ''/'' (norm_comps (initial_slashes p \<noteq> []) [] (split_on CHR ''/'' p))
        in if q = [] then ''.'' else q)"

text \<open>\<open>home\<close> gives the home directory of a user, of the own one for the empty name.\<close>

definition expanduser :: "(string \<Rightarrow> string option) \<Rightarrow> string \<Rightarrow> string" where
  "expanduser home p =
     (if \<not> starts_with p ''~'' then p
      else
        let user = takeWhile (\<lambda>c. c \<noteq> CHR ''/'') (tl p); rest = dropWhile (\<lambda>c. c \<noteq> CHR ''/'') (tl p)
        in case home user of
             None \<Rightarrow> p
           | Some h \<Rightarrow> (let q = rstrip_chars ''/'' h @ rest in if q = [] then ''/'' else q))"

definition basename :: "string \<Rightarrow> string" where
  "basename p = rev (takeWhile (\<lambda>c. c \<noteq> CHR ''/'') (rev p))"

definition isabs :: "string \<Rightarrow> bool" where
  "isabs p \<longleftrightarrow> starts_with p ''/''"

definition abspath :: "string \<Rightarrow> string \<Rightarrow> string" where
  "abspath cwd p =
     normpath (if isabs p then p else if cwd = [] \<or> ends_with cwd ''/'' then cwd @ p else cwd @ ''/'' @ p)"

text \<open>An absolute path is normalised to components without dots.\<close>

lemma norm_comps_absolute:
  "\<forall>c \<in> set kept. c \<notin> {[], ''.'', ''..''} \<Longrightarrow> c \<in> set (norm_comps True kept cs) \<Longrightarrow> c \<notin> {[], ''.'', ''..''}"
proof (induction cs arbitrary: kept)
  case (Cons d cs)
  let ?k = "if d = [] \<or> d = ''.'' then kept else if d \<noteq> ''..'' \<or> kept \<noteq> [] \<and> hd kept = ''..'' then d # kept else tl kept"
  have hd: "kept \<noteq> [] \<Longrightarrow> hd kept \<noteq> ''..''" using Cons.prems(1) by (cases kept) auto
  have "\<forall>c \<in> set ?k. c \<notin> {[], ''.'', ''..''}" using Cons.prems(1) hd by (cases kept) auto
  moreover have "norm_comps True kept (d # cs) = norm_comps True ?k cs" by simp
  ultimately show ?case using Cons.IH [of ?k] Cons.prems(2) by metis
qed simp

section \<open>Shell words\<close>

datatype lex_mode = Blank | Word | Quoted char | Escaped "char option"

definition lex_blank :: "char \<Rightarrow> bool" where
  "lex_blank c \<longleftrightarrow> c \<in> {CHR '' '', CHR 0x09, CHR 0x0D, CHR 0x0A}"

definition lex_quote :: "char \<Rightarrow> bool" where
  "lex_quote c \<longleftrightarrow> c \<in> {CHR 0x27, CHR 0x22}"

text \<open>\<open>shlex.split\<close>: the mode, the token so far (newest first), whether it was quoted. \<open>None\<close> is the
  \<open>ValueError\<close> of an open quotation or escape.\<close>

fun shlex_words :: "lex_mode \<Rightarrow> string \<Rightarrow> bool \<Rightarrow> string \<Rightarrow> string list option" where
  "shlex_words m tok q [] =
     (case m of
        Quoted _ \<Rightarrow> None
      | Escaped _ \<Rightarrow> None
      | _ \<Rightarrow> Some (if tok \<noteq> [] \<or> q then [rev tok] else []))"
| "shlex_words m tok q (c # s) =
     (case m of
        Blank \<Rightarrow>
          (if lex_blank c then shlex_words Blank [] False s
           else if c = CHR 0x5C then shlex_words (Escaped None) [] False s
           else if lex_quote c then shlex_words (Quoted c) [] False s
           else shlex_words Word [c] False s)
      | Quoted d \<Rightarrow>
          (if c = d then shlex_words Word tok True s
           else if c = CHR 0x5C \<and> d = CHR 0x22 then shlex_words (Escaped (Some d)) tok True s
           else shlex_words (Quoted d) (c # tok) True s)
      | Escaped None \<Rightarrow> shlex_words Word (c # tok) q s
      | Escaped (Some d) \<Rightarrow>
          shlex_words (Quoted d) (if c \<noteq> CHR 0x5C \<and> c \<noteq> d then c # CHR 0x5C # tok else c # tok) q s
      | Word \<Rightarrow>
          (if lex_blank c then
             (if tok \<noteq> [] \<or> q then map_option ((#) (rev tok)) (shlex_words Blank [] False s)
              else shlex_words Blank [] False s)
           else if lex_quote c then shlex_words (Quoted c) tok q s
           else if c = CHR 0x5C then shlex_words (Escaped None) tok q s
           else shlex_words Word (c # tok) q s))"

definition shlex_split :: "string \<Rightarrow> string list option" where
  "shlex_split s = shlex_words Blank [] False s"

text \<open>Plain words separated by blanks are read back as they are.\<close>

definition plain_char :: "char \<Rightarrow> bool" where
  "plain_char c \<longleftrightarrow> \<not> lex_blank c \<and> \<not> lex_quote c \<and> c \<noteq> CHR 0x5C"

lemma shlex_plain_word:
  "list_all plain_char w \<Longrightarrow> shlex_words Word tok q (w @ s) = shlex_words Word (rev w @ tok) q s"
  by (induction w arbitrary: tok) (auto simp: plain_char_def)

lemma shlex_split_plain:
  assumes "list_all plain_char w" and "w \<noteq> []" and "lex_blank b"
  shows "shlex_split (w @ b # s) = map_option ((#) w) (shlex_split s)"
proof -
  obtain c v where w: "w = c # v" using assms(2) by (cases w) auto
  then have c: "plain_char c" and v: "list_all plain_char v" using assms(1) by auto
  show ?thesis using c shlex_plain_word [OF v, of "[c]" False "b # s"] assms(3)
    by (simp add: w shlex_split_def plain_char_def)
qed

end
