(* ===== verification/TrustBoundary.thy ===== *)
theory TrustBoundary
  imports PyShell FastPath
begin

text \<open>
  The trust boundary, \<open>src/hermes_core/trust_boundary.py\<close>: the memory filter and taint gate, the protected
  files, the background guard, the detection of chained commands and the authorisation of a task's
  commands. Messages are constructors; home directories and the working directory are arguments.
\<close>

section \<open>A sandbox that fails\<close>

text \<open>\<open>sf_error\<close> is the error in the text of \<open>stderr\<close>.\<close>

record sandbox_failure =
  sf_status :: string
  sf_exit_code :: int
  sf_stdout :: string
  sf_error :: string
  sf_sandboxed :: bool
  sf_fail_closed :: bool

definition fail_closed_sandbox_result :: "string \<Rightarrow> sandbox_failure" where
  "fail_closed_sandbox_result err =
     \<lparr>sf_status = ''BLOCKED'', sf_exit_code = - 1, sf_stdout = [], sf_error = err, sf_sandboxed = True, sf_fail_closed = True\<rparr>"

section \<open>Persistent memory\<close>

text \<open>The second anchor reads: the constitution of evolution the system may not shake.\<close>

definition IMMUTABLE_ANCHORS :: "ustr list" where
  "IMMUTABLE_ANCHORS = [
     u_str ''IMMUTABLE ANCHOR'',
     [0x7CFB, 0x7D71, 0x4E0D, 0x53EF, 0x52D5, 0x6416, 0x6F14, 0x9032, 0x61B2, 0x6CD5],
     u_str ''CONSTITUTIONAL ANCHOR'']"

definition opt_word :: "string \<Rightarrow> regex" where "opt_word w = opt (seqs [lit_ci w, plus space])"

definition words_seq :: "string list \<Rightarrow> regex list" where
  "words_seq ws = concat (map (\<lambda>w. [plus space, lit_ci w]) ws)"

definition PROMPT_INJECTION_PATTERNS :: "regex list" where
  "PROMPT_INJECTION_PATTERNS =
     [seqs [WordB, lit_ci ''ignore'', plus space, opt_word ''all'', alts [lit_ci ''previous'', lit_ci ''prior''],
        plus space, lit_ci ''instructions'', WordB],
      seqs ([WordB, lit_ci ''system''] @ words_seq [''override''] @ [WordB]),
      seqs ([WordB, lit_ci ''you''] @ words_seq [''are'', ''now'', ''in'', ''developer'', ''mode''] @ [WordB]),
      seqs [WordB, lit_ci ''disregard'', plus space, opt_word ''all'', lit_ci ''safety'', plus space, lit_ci ''guidelines'', WordB],
      seqs ([WordB, lit_ci ''new''] @ words_seq [''system'', ''prompt''] @ [WordB])]"

definition shell_word :: regex where "shell_word = Seq (opt (lit ''ba'')) (lit ''sh'')"

definition piped_shell :: "string \<Rightarrow> regex" where
  "piped_shell tool = seqs [WordB, lit tool, plus space, Rep (Cls (\<lambda>c. c \<noteq> 124 \<and> c \<noteq> 10)) 1 None False,
     lit ''|'', star space, shell_word, WordB]"

definition octet_re :: regex where "octet_re = between 1 3 (Cls u_digit)"

definition MALICIOUS_SHELL_PATTERNS :: "regex list" where
  "MALICIOUS_SHELL_PATTERNS =
     [piped_shell ''curl'', piped_shell ''wget'',
      seqs [WordB, lit ''rm'', plus space, lit ''-'', Cls (any_of ''rR''), lit ''f'', plus space, lit ''/'', WordB],
      seqs [WordB, lit ''chmod'', plus space, opt (Seq (lit ''-R'') (plus space)), lit ''777'', plus space, lit ''/'', WordB],
      seqs [WordB, alts [lit ''nc'', lit ''ncat'', lit ''netcat''], plus space, lit ''-'', plus (Cls (any_of ''lvpne'')), WordB],
      seqs [WordB, lit ''base64'', plus space, lit ''-d'', star space, lit ''|'', star space, shell_word, WordB],
      seqs [WordB, lit ''dev/tcp/'', octet_re, lit ''.'', octet_re, lit ''.'', octet_re, lit ''.'', octet_re, WordB]]"

datatype memory_block = AnchorProtected | PromptInjection | ShellPayload

definition action_key :: "string \<Rightarrow> string" where
  "action_key action = strip (py_lower action)"

definition verify_memory_content_safety :: "uni \<Rightarrow> string \<Rightarrow> ustr \<Rightarrow> ustr \<Rightarrow> memory_block option" where
  "verify_memory_content_safety un action content old_text =
     (let act = action_key action in
      if act \<in> {''remove'', ''replace''} \<and> list_ex (\<lambda>a. contains old_text a) IMMUTABLE_ANCHORS then Some AnchorProtected
      else if act \<in> {''add'', ''replace''} \<and> list_ex (\<lambda>p. re_found un p content) PROMPT_INJECTION_PATTERNS
        then Some PromptInjection
      else if act \<in> {''add'', ''replace''} \<and> list_ex (\<lambda>p. re_found un p content) MALICIOUS_SHELL_PATTERNS
        then Some ShellPayload
      else None)"

text \<open>\<open>Some\<close> is the refused tag. A \<open>TaintTag\<close> is given by its value.\<close>

definition verify_memory_taint_provenance :: "string \<Rightarrow> string \<Rightarrow> string option" where
  "verify_memory_taint_provenance action taint =
     (if action_key action \<notin> {''add'', ''replace''} then None
      else if py_upper taint \<in> {''UNTRUSTED_WEB'', ''EXTERNAL_INPUT'', ''UNTRUSTED'', ''EXTERNAL''} then Some (py_upper taint)
      else None)"

section \<open>Protected files\<close>

datatype path_block = MemoryFile | WhitelistFile

definition check_protected_file_paths :: "(string \<Rightarrow> string option) \<Rightarrow> string \<Rightarrow> path_block option" where
  "check_protected_file_paths home target =
     (if target = [] then None
      else
        let raw = strip target in
        if raw = [] then None
        else
          let norm = normpath (expanduser home raw) in
          if contains norm ''/.hermes/memories'' \<or> ends_with norm ''/MEMORY.md'' \<or> ends_with norm ''/USER.md'' \<or>
             ends_with norm ''/SOUL.md'' then Some MemoryFile
          else if ends_with norm ''/command_whitelist.json'' \<or> ends_with norm ''command_whitelist.json'' then Some WhitelistFile
          else None)"

section \<open>Background commands\<close>

definition mutating_binaries :: "string list" where
  "mutating_binaries =
     [''mkdir'', ''rm'', ''git'', ''chmod'', ''chown'', ''mv'', ''cp'', ''touch'', ''curl'', ''wget'', ''dd'', ''truncate'', ''tee'',
      ''kill'', ''pkill'', ''sed'', ''awk'', ''perl'', ''ruby'']"

definition interpreters :: "string list" where
  "interpreters = [''python'', ''python3'', ''bash'', ''sh'', ''zsh'', ''node'']"

datatype background_block = MutatingBinary string | InterpreterEval string string

definition guard_background_command :: "string \<Rightarrow> bool \<Rightarrow> bool \<Rightarrow> bool \<Rightarrow> background_block option" where
  "guard_background_command command in_sandbox is_background sandbox_verified =
     (if \<not> is_background then None
      else
        let cmd = strip command in
        if cmd = [] then None
        else case (case shlex_split cmd of Some ts \<Rightarrow> ts | None \<Rightarrow> split_ws cmd) of
            [] \<Rightarrow> None
          | t0 # ts \<Rightarrow>
              let first = basename t0 in
              if first \<in> set mutating_binaries \<and> \<not> (in_sandbox \<and> sandbox_verified) then Some (MutatingBinary first)
              else if first \<in> set interpreters \<and> \<not> (in_sandbox \<and> sandbox_verified) \<and>
                      list_ex (\<lambda>t. t \<in> {''-c'', ''-e''}) (take 2 ts)
                then Some (InterpreterEval first (hd ts))
              else None)"

section \<open>Chained commands\<close>

text \<open>\<open>has_command_chaining\<close>: inside single quotes, inside double quotes, after a backslash.\<close>

fun chained :: "bool \<Rightarrow> bool \<Rightarrow> bool \<Rightarrow> string \<Rightarrow> bool" where
  "chained sq dq esc [] = False"
| "chained sq dq esc (c # s) =
     (if esc then chained sq dq False s
      else if c = CHR 0x5C then chained sq dq True s
      else if c = CHR 0x27 \<and> \<not> dq then chained (\<not> sq) dq False s
      else if c = CHR 0x22 \<and> \<not> sq then chained sq (\<not> dq) False s
      else if \<not> sq \<and> \<not> dq \<and> (c = CHR '';'' \<or> (c = CHR ''&'' \<and> s \<noteq> [] \<and> hd s = CHR ''&'') \<or> c = CHR ''|'') then True
      else chained sq dq False s)"

definition has_command_chaining :: "string \<Rightarrow> bool" where
  "has_command_chaining command = chained False False False command"

section \<open>Authorisation of a task\<close>

text \<open>The whitelist: the dry-run switch of the security model and the jobs; \<open>None\<close> is an entry that is no
  dictionary, and of a job an absent name or enabled flag, or absent lists.\<close>

record job_rule =
  jb_job_id :: "string option"
  jb_name :: "string option"
  jb_enabled :: "bool option"
  jb_allowed_commands :: "string list"
  jb_allowed_prefixes :: "string list"

record whitelist =
  wl_dry_run :: bool
  wl_jobs :: "job_rule option list"

datatype deny_reason = UnknownTask | TaskDisabled | Chaining | Traversal string | NotListed
datatype grant_reason = AuthorizedExact | AuthorizedExactNormalized | AuthorizedPrefix

datatype auth_action = LOG_ONLY | BLOCKED | EXECUTE_COMMAND

record auth_decision =
  ad_approved :: bool
  ad_dry_run_mode :: bool
  ad_action :: auth_action
  ad_message :: "deny_reason + grant_reason"

definition deny_decision :: "bool \<Rightarrow> deny_reason \<Rightarrow> auth_decision" where
  "deny_decision dry_run msg =
     (if dry_run then \<lparr>ad_approved = False, ad_dry_run_mode = True, ad_action = LOG_ONLY, ad_message = Inl msg\<rparr>
      else \<lparr>ad_approved = False, ad_dry_run_mode = False, ad_action = BLOCKED, ad_message = Inl msg\<rparr>)"

definition grant_decision :: "bool \<Rightarrow> grant_reason \<Rightarrow> auth_decision" where
  "grant_decision dry_run msg =
     \<lparr>ad_approved = True, ad_dry_run_mode = dry_run, ad_action = EXECUTE_COMMAND, ad_message = Inr msg\<rparr>"

definition jobs_dict :: "job_rule option list \<Rightarrow> job_rule dict" where
  "jobs_dict js =
     foldl (\<lambda>d j. case j of None \<Rightarrow> d | Some r \<Rightarrow> (case jb_job_id r of None \<Rightarrow> d | Some i \<Rightarrow> (if i = [] then d else AList.update i r d)))
       [] js"

text \<open>\<open>s.split(maxsplit=1)\<close>: the first word and what follows it.\<close>

definition split_once :: "string \<Rightarrow> (string \<times> string) option" where
  "split_once s =
     (let t = lstrip s in
      if t = [] then None
      else Some (takeWhile (\<lambda>c. \<not> py_space c) t, lstrip (dropWhile (\<lambda>c. \<not> py_space c) t)))"

text \<open>The command with the script of an interpreter made absolute; \<open>None\<close> where the code does not try.\<close>

definition normalized_command :: "string \<Rightarrow> string \<Rightarrow> string option" where
  "normalized_command cwd cmd =
     (case split_once cmd of
        None \<Rightarrow> None
      | Some (interp, rest) \<Rightarrow>
          (if interp \<notin> {''python'', ''python3'', ''bash'', ''sh''} then None
           else case split_once rest of
               None \<Rightarrow> None
             | Some (script, args) \<Rightarrow>
                 (if isabs script then None
                  else Some (interp @ '' '' @ abspath cwd script @ (if args = [] then [] else '' '' @ args)))))"

fun prefix_decision :: "bool \<Rightarrow> string \<Rightarrow> string list \<Rightarrow> auth_decision option" where
  "prefix_decision dry_run cmd [] = None"
| "prefix_decision dry_run cmd (p # ps) =
     (if p \<noteq> [] \<and> starts_with cmd p then
        Some (if contains (drop (length p) cmd) ''..'' then deny_decision dry_run (Traversal p)
              else grant_decision dry_run AuthorizedPrefix)
      else prefix_decision dry_run cmd ps)"

definition verify_task_authorization :: "string \<Rightarrow> string \<Rightarrow> string \<Rightarrow> whitelist \<Rightarrow> auth_decision" where
  "verify_task_authorization cwd command task_id wl =
     (let cmd = strip command; tid = strip task_id; dry = wl_dry_run wl in
      case (if tid = [] then None else map_of (jobs_dict (wl_jobs wl)) tid) of
        None \<Rightarrow> deny_decision dry UnknownTask
      | Some job \<Rightarrow>
          (if jb_enabled job = Some False then deny_decision dry TaskDisabled
           else if has_command_chaining cmd then deny_decision dry Chaining
           else if cmd \<in> set (jb_allowed_commands job) then grant_decision dry AuthorizedExact
           else if (case normalized_command cwd cmd of None \<Rightarrow> False | Some n \<Rightarrow> n \<in> set (jb_allowed_commands job))
             then grant_decision dry AuthorizedExactNormalized
           else case prefix_decision dry cmd (jb_allowed_prefixes job) of
               Some d \<Rightarrow> d
             | None \<Rightarrow> deny_decision dry NotListed))"

section \<open>Quoting as the shell does it\<close>

text \<open>The reference: each character with whether it is active, that is neither quoted nor escaped. Inside
  single quotes a backslash is an ordinary character.\<close>

fun active :: "char option \<Rightarrow> string \<Rightarrow> (char \<times> bool) list" where
  "active q [] = []"
| "active None (c # s) =
     (if c = CHR 0x5C then (case s of [] \<Rightarrow> [(c, False)] | d # r \<Rightarrow> (c, False) # (d, False) # active None r)
      else if c = CHR 0x27 \<or> c = CHR 0x22 then (c, False) # active (Some c) s
      else (c, True) # active None s)"
| "active (Some q) (c # s) =
     (if c = q then (c, False) # active None s
      else if c = CHR 0x5C \<and> q = CHR 0x22 then (case s of [] \<Rightarrow> [(c, False)] | d # r \<Rightarrow> (c, False) # (d, False) # active (Some q) r)
      else (c, False) # active (Some q) s)"

fun chain_operator :: "(char \<times> bool) list \<Rightarrow> bool" where
  "chain_operator [] = False"
| "chain_operator ((c, a) # s) \<longleftrightarrow>
     a \<and> (c = CHR '';'' \<or> c = CHR ''|'' \<or> c = CHR ''&'' \<and> s \<noteq> [] \<and> hd s = (CHR ''&'', True)) \<or> chain_operator s"

lemma active_amp:
  "active None s \<noteq> [] \<and> hd (active None s) = (CHR ''&'', True) \<longleftrightarrow> s \<noteq> [] \<and> hd s = CHR ''&''"
  by (cases s) (auto split: list.splits)

lemma active_esc: "active None (CHR 0x5C # s) = (CHR 0x5C, False) # (case s of [] \<Rightarrow> [] | d # r \<Rightarrow> (d, False) # active None r)"
  by (simp split: list.splits)

text \<open>Without single quotes, or without backslashes, the scanner reads the quoting as the shell does.\<close>

lemma chained_no_single:
  "CHR 0x27 \<notin> set s \<Longrightarrow>
   chained False False False s = chain_operator (active None s) \<and>
   chained False True False s = chain_operator (active (Some CHR 0x22) s)"
proof (induction s rule: length_induct)
  case (1 s)
  note IH = "1.IH"
  show ?case
  proof (cases s)
    case (Cons c r)
    have r: "CHR 0x27 \<notin> set r" and c: "c \<noteq> CHR 0x27" using "1.prems" Cons by auto
    have here: "chained False False False r = chain_operator (active None r) \<and>
        chained False True False r = chain_operator (active (Some CHR 0x22) r)"
      using IH r Cons by simp
    show ?thesis
    proof (cases "c = CHR 0x5C")
      case True
      show ?thesis
      proof (cases r)
        case (Cons d t)
        have "CHR 0x27 \<notin> set t" using r Cons by simp
        then have "chained False False False t = chain_operator (active None t) \<and>
            chained False True False t = chain_operator (active (Some CHR 0x22) t)"
          using IH \<open>s = c # r\<close> Cons by simp
        then show ?thesis by (simp add: \<open>s = c # r\<close> Cons True)
      qed (simp add: Cons True)
    next
      case False
      then show ?thesis using c here active_amp [of r] by (auto simp: Cons)
    qed
  qed simp
qed

lemma chained_no_backslash:
  "CHR 0x5C \<notin> set s \<Longrightarrow>
   chained False False False s = chain_operator (active None s) \<and>
   chained False True False s = chain_operator (active (Some CHR 0x22) s) \<and>
   chained True False False s = chain_operator (active (Some CHR 0x27) s)"
  using active_amp by (induction s) (auto split: if_splits)

section \<open>Lemmas\<close>

lemma jobs_dict_lookup:
  "map_of (jobs_dict js) i = Some r \<Longrightarrow> Some r \<in> set js \<and> jb_job_id r = Some i"
proof -
  let ?f = "\<lambda>d j. case j of None \<Rightarrow> d | Some r \<Rightarrow> (case jb_job_id r of None \<Rightarrow> d | Some i \<Rightarrow> (if i = [] then d else AList.update i r d))"
  have "map_of (foldl ?f d js) i = Some r \<Longrightarrow>
      (Some r \<in> set js \<and> jb_job_id r = Some i) \<or> map_of d i = Some r" for d
  proof (induction js arbitrary: d)
    case (Cons j js)
    from Cons.IH [of "?f d j"] Cons.prems show ?case by (auto split: option.splits if_splits)
  qed simp
  from this [of "[]"] show "map_of (jobs_dict js) i = Some r \<Longrightarrow> Some r \<in> set js \<and> jb_job_id r = Some i"
    by (simp add: jobs_dict_def)
qed

text \<open>The first matching prefix decides.\<close>

definition prefix_matches :: "string \<Rightarrow> string \<Rightarrow> bool" where
  "prefix_matches cmd p \<longleftrightarrow> p \<noteq> [] \<and> starts_with cmd p"

lemma prefix_decision_find:
  "prefix_decision dry cmd ps =
     (case find (prefix_matches cmd) ps of
        None \<Rightarrow> None
      | Some p \<Rightarrow> Some (if contains (drop (length p) cmd) ''..'' then deny_decision dry (Traversal p)
                        else grant_decision dry AuthorizedPrefix))"
  by (induction ps) (simp_all add: prefix_matches_def)

lemmas decision_defs = deny_decision_def grant_decision_def

text \<open>What a rule allows.\<close>

definition rule_allows :: "string \<Rightarrow> string \<Rightarrow> job_rule \<Rightarrow> bool" where
  "rule_allows cwd cmd job \<longleftrightarrow>
     cmd \<in> set (jb_allowed_commands job) \<or>
     (\<exists>n. normalized_command cwd cmd = Some n \<and> n \<in> set (jb_allowed_commands job)) \<or>
     (\<exists>p. find (prefix_matches cmd) (jb_allowed_prefixes job) = Some p \<and> \<not> contains (drop (length p) cmd) ''..'')"

lemma verify_unfold:
  "verify_task_authorization cwd command task_id wl =
    (if strip task_id = [] then deny_decision (wl_dry_run wl) UnknownTask
     else case map_of (jobs_dict (wl_jobs wl)) (strip task_id) of
        None \<Rightarrow> deny_decision (wl_dry_run wl) UnknownTask
      | Some job \<Rightarrow>
          if jb_enabled job = Some False then deny_decision (wl_dry_run wl) TaskDisabled
          else if has_command_chaining (strip command) then deny_decision (wl_dry_run wl) Chaining
          else if strip command \<in> set (jb_allowed_commands job) then grant_decision (wl_dry_run wl) AuthorizedExact
          else if (case normalized_command cwd (strip command) of None \<Rightarrow> False | Some n \<Rightarrow> n \<in> set (jb_allowed_commands job))
            then grant_decision (wl_dry_run wl) AuthorizedExactNormalized
          else case prefix_decision (wl_dry_run wl) (strip command) (jb_allowed_prefixes job) of
               Some d \<Rightarrow> d
             | None \<Rightarrow> deny_decision (wl_dry_run wl) NotListed)"
  by (simp add: verify_task_authorization_def Let_def)

text \<open>A removal of the root directory itself is not a shell payload, of a directory in it is.\<close>

lemma root_removal_is_not_detected:
  "verify_memory_content_safety (\<lambda>_. False) ''add'' (u_str ''rm -rf /'') [] = None \<and>
   verify_memory_content_safety (\<lambda>_. False) ''add'' (u_str ''rm -rf /x'') [] = Some ShellPayload"
  by code_simp

text \<open>Only the first word of a background command is looked at.\<close>

lemma background_guard_sees_the_first_word:
  "guard_background_command ''true; rm -rf x'' False True False = None \<and>
   guard_background_command ''rm -rf x'' False True False = Some (MutatingBinary ''rm'')"
  by code_simp

text \<open>A memory file named without a directory is not protected, the whitelist is.\<close>

lemma bare_memory_file_is_not_protected:
  "check_protected_file_paths home ''MEMORY.md'' = None \<and>
   check_protected_file_paths home ''command_whitelist.json'' = Some WhitelistFile"
  by code_simp

section \<open>Properties\<close>

text \<open>C29: authorisation is exact. A command is approved exactly when its task is registered in the whitelist,
  not disabled, not seen as chained, and the task's rule lists it, lists it with its script made
  absolute, or has it under the first matching prefix without dots after it; it is to be executed
  exactly when approved, and a refusal is logged only in dry-run mode and blocked otherwise.\<close>

theorem authorisation_is_exact:
  "(ad_approved (verify_task_authorization cwd command task_id wl) \<longleftrightarrow>
      strip task_id \<noteq> [] \<and>
      (\<exists>job. map_of (jobs_dict (wl_jobs wl)) (strip task_id) = Some job \<and> Some job \<in> set (wl_jobs wl) \<and>
         jb_job_id job = Some (strip task_id) \<and> jb_enabled job \<noteq> Some False \<and>
         \<not> has_command_chaining (strip command) \<and> rule_allows cwd (strip command) job)) \<and>
   ad_action (verify_task_authorization cwd command task_id wl) =
     (if ad_approved (verify_task_authorization cwd command task_id wl) then EXECUTE_COMMAND
      else if wl_dry_run wl then LOG_ONLY else BLOCKED)"
proof (cases "map_of (jobs_dict (wl_jobs wl)) (strip task_id)")
  case None
  then show ?thesis by (auto simp: verify_unfold decision_defs)
next
  case (Some job)
  then show ?thesis using jobs_dict_lookup [OF Some]
    by (auto simp: verify_unfold decision_defs rule_allows_def prefix_decision_find split: option.splits)
qed

text \<open>Chained commands are seen except behind a quoted backslash. For a command without single quotes or
  without backslashes the scanner finds an operator exactly when the shell has an active one; but a
  backslash inside single quotes hides the closing quote from it, so that a task with one allowed
  prefix is approved to run a second command.\<close>

theorem chaining_is_seen:
  "(CHR 0x27 \<notin> set cmd \<or> CHR 0x5C \<notin> set cmd \<longrightarrow> has_command_chaining cmd = chain_operator (active None cmd)) \<and>
   chain_operator (active None (''echo '' @ [CHR 0x27, CHR 0x5C, CHR 0x27] @ ''; id'')) \<and>
   ad_approved (verify_task_authorization ''/w'' (''echo '' @ [CHR 0x27, CHR 0x5C, CHR 0x27] @ ''; id'') ''job''
     \<lparr>wl_dry_run = False, wl_jobs = [Some \<lparr>jb_job_id = Some ''job'', jb_name = None, jb_enabled = None,
        jb_allowed_commands = [], jb_allowed_prefixes = [''echo '']\<rparr>]\<rparr>)"
proof (intro conjI impI)
  show "has_command_chaining cmd = chain_operator (active None cmd)" if "CHR 0x27 \<notin> set cmd \<or> CHR 0x5C \<notin> set cmd"
    using that chained_no_single [of cmd] chained_no_backslash [of cmd] by (auto simp: has_command_chaining_def)
qed code_simp+

theorem chaining_is_seen_witness: "has_command_chaining ''ls; id'' = chain_operator (active None ''ls; id'')"
  using chaining_is_seen [of "''ls; id''"] by simp

end
