(* ===== verification/PathSanitizer.thy ===== *)
theory PathSanitizer
  imports PyRegex "HOL-Library.Multiset" "HOL-Library.Code_Target_Nat"
begin

text \<open>
  The path sanitizer, \<open>src/hermes_core/path_sanitizer.py\<close>. Paths are \<open>pathlib\<close> paths: a root and the
  parts after it, as lists of code points. What the operating system answers (is it a link, where
  does it point, what is the real path, does it exist) is the record \<open>fs\<close>; Unicode normalisation and
  lower case are parameters. \<open>safe_open\<close> returns the events it causes, in order, so that what is
  opened, how, and what is closed can be stated.
\<close>

section \<open>Paths\<close>

record ppath =
  pp_root :: ustr
  pp_parts :: "ustr list"

definition slash :: nat where "slash = 47"

definition ppath_of :: "ustr \<Rightarrow> ppath" where
  "ppath_of s =
     \<lparr>pp_root = (if starts_with s [slash, slash] \<and> \<not> starts_with s [slash, slash, slash] then [slash, slash]
                 else if starts_with s [slash] then [slash] else []),
      pp_parts = filter (\<lambda>c. c \<noteq> [] \<and> c \<noteq> [46]) (split_on slash s)\<rparr>"

definition is_absolute :: "ppath \<Rightarrow> bool" where
  "is_absolute p \<longleftrightarrow> pp_root p \<noteq> []"

text \<open>\<open>left / right\<close>, \<open>parent\<close>, \<open>parts\<close>, \<open>str\<close>.\<close>

definition path_join :: "ppath \<Rightarrow> ppath \<Rightarrow> ppath" where
  "path_join a b = (if is_absolute b then b else \<lparr>pp_root = pp_root a, pp_parts = pp_parts a @ pp_parts b\<rparr>)"

definition parent :: "ppath \<Rightarrow> ppath" where
  "parent p = p\<lparr>pp_parts := butlast (pp_parts p)\<rparr>"

definition all_parts :: "ppath \<Rightarrow> ustr list" where
  "all_parts p = (if is_absolute p then [pp_root p] else []) @ pp_parts p"

fun slash_join :: "ustr list \<Rightarrow> ustr" where
  "slash_join [] = []"
| "slash_join [c] = c"
| "slash_join (c # d # cs) = c @ slash # slash_join (d # cs)"

definition path_str :: "ppath \<Rightarrow> ustr" where
  "path_str p = (let s = pp_root p @ slash_join (pp_parts p) in if s = [] then [46] else s)"

text \<open>\<open>a.relative_to(b)\<close>: the parts of \<open>a\<close> below \<open>b\<close>; \<open>None\<close> is the \<open>ValueError\<close>.\<close>

definition relative_to :: "ppath \<Rightarrow> ppath \<Rightarrow> ustr list option" where
  "relative_to a b =
     (if pp_root a = pp_root b \<and> starts_with (pp_parts a) (pp_parts b) then Some (drop (length (pp_parts b)) (pp_parts a))
      else None)"

text \<open>\<open>os.path.commonpath\<close> of two texts; \<open>None\<close> is the \<open>ValueError\<close> of mixing kinds.\<close>

fun common_prefix :: "'a list \<Rightarrow> 'a list \<Rightarrow> 'a list" where
  "common_prefix (x # xs) (y # ys) = (if x = y then x # common_prefix xs ys else [])"
| "common_prefix _ _ = []"

definition commonpath :: "ustr \<Rightarrow> ustr \<Rightarrow> ustr option" where
  "commonpath a b =
     (if starts_with a [slash] \<noteq> starts_with b [slash] then None
      else
        let comps = (\<lambda>s. filter (\<lambda>c. c \<noteq> [] \<and> c \<noteq> [46]) (split_on slash s))
        in Some ((if starts_with a [slash] then [slash] else []) @ slash_join (common_prefix (comps a) (comps b))))"

text \<open>\<open>suffix\<close>: from the last dot of the name, unless it is the first or the last character.\<close>

definition suffix :: "ppath \<Rightarrow> ustr" where
  "suffix p =
     (if pp_parts p = [] then []
      else
        let name = last (pp_parts p);
            after = rev (takeWhile (\<lambda>c. c \<noteq> 46) (rev name));
            i = length name - length after
        in if 46 \<in> set name \<and> 1 < i \<and> after \<noteq> [] then 46 # after else [])"

section \<open>Decoding\<close>

text \<open>UTF-8 with \<open>errors="replace"\<close>: one replacement character for each maximal invalid piece.\<close>

fun utf8_decode_replace :: "nat list \<Rightarrow> ustr" where
  "utf8_decode_replace [] = []"
| "utf8_decode_replace (b # bs) =
     (if b < 128 then b # utf8_decode_replace bs
      else if 194 \<le> b \<and> b < 224 then
        (case bs of [] \<Rightarrow> [0xFFFD]
         | c # cs \<Rightarrow> if cont_byte c then ((b - 192) * 64 + (c - 128)) # utf8_decode_replace cs
                     else 0xFFFD # utf8_decode_replace bs)
      else if 224 \<le> b \<and> b < 240 then
        (case bs of [] \<Rightarrow> [0xFFFD]
         | c # cs \<Rightarrow> if \<not> second_ok b c then 0xFFFD # utf8_decode_replace bs
             else (case cs of [] \<Rightarrow> [0xFFFD]
               | d # ds \<Rightarrow> if cont_byte d
                   then ((b - 224) * 4096 + (c - 128) * 64 + (d - 128)) # utf8_decode_replace ds
                   else 0xFFFD # utf8_decode_replace cs))
      else if 240 \<le> b \<and> b < 245 then
        (case bs of [] \<Rightarrow> [0xFFFD]
         | c # cs \<Rightarrow> if \<not> second_ok b c then 0xFFFD # utf8_decode_replace bs
             else (case cs of [] \<Rightarrow> [0xFFFD]
               | d # ds \<Rightarrow> if \<not> cont_byte d then 0xFFFD # utf8_decode_replace cs
                   else (case ds of [] \<Rightarrow> [0xFFFD]
                     | e # es \<Rightarrow> if cont_byte e
                         then ((b - 240) * 262144 + (c - 128) * 4096 + (d - 128) * 64 + (e - 128)) # utf8_decode_replace es
                         else 0xFFFD # utf8_decode_replace ds)))
      else 0xFFFD # utf8_decode_replace bs)"

definition hex_digit :: "nat \<Rightarrow> nat option" where
  "hex_digit c =
     (if 48 \<le> c \<and> c \<le> 57 then Some (c - 48) else if 65 \<le> c \<and> c \<le> 70 then Some (c - 55)
      else if 97 \<le> c \<and> c \<le> 102 then Some (c - 87) else None)"

text \<open>\<open>unquote_to_bytes\<close> on a run of ASCII.\<close>

fun percent_bytes :: "nat list \<Rightarrow> nat list" where
  "percent_bytes (c # a # b # s) =
     (if c = 37 then
        (case (hex_digit a, hex_digit b) of
           (Some x, Some y) \<Rightarrow> (16 * x + y) # percent_bytes s
         | _ \<Rightarrow> c # percent_bytes (a # b # s))
      else c # percent_bytes (a # b # s))"
| "percent_bytes s = s"

function unquote :: "ustr \<Rightarrow> ustr" where
  "unquote [] = []"
| "unquote (c # s) =
     (if c < 128 then utf8_decode_replace (percent_bytes (takeWhile (\<lambda>x. x < 128) (c # s))) @ unquote (dropWhile (\<lambda>x. x < 128) s)
      else c # unquote s)"
  by pat_completeness auto
termination
  by (relation "measure length") (auto simp: le_imp_less_Suc length_dropWhile_le)

section \<open>The sanitizer\<close>

definition DEFAULT_BLOCKED_NAMES :: "ustr list" where
  "DEFAULT_BLOCKED_NAMES = map u_str
     [''.ssh'', ''.gnupg'', ''.aws'', ''.azure'', ''.gcp'', ''.kube'', ''.docker'', ''.npmrc'', ''.nuget'', ''.nugetrc'', ''.env'',
      ''.env.local'', ''.env.production'', ''config.yaml'', ''.git'', ''.bashrc'', ''.bash_profile'', ''.profile'', ''.zshrc'',
      ''.local'', ''id_rsa'', ''id_ed25519'', ''authorized_keys'', ''known_hosts'', ''passwd'', ''shadow'', ''sudoers'',
      ''credentials'', ''credentials.json'', ''service_account.json'', ''master.key'', ''.vscode'', ''.idea'', ''.terraform'',
      ''Dockerfile'', ''docker-compose.yml'', ''docker-compose.yaml'']"

definition DEFAULT_BLOCKED_EXTENSIONS :: "ustr list" where
  "DEFAULT_BLOCKED_EXTENSIONS = map u_str
     [''.pem'', ''.key'', ''.p12'', ''.pfx'', ''.jks'', ''.crt'', ''.cer'', ''.der'', ''.enc'', ''.gpg'', ''.asc'', ''.kdbx'', ''.tfvars'']"

definition DEFAULT_BLOCKED_SYSTEM_PREFIXES :: "ustr list" where
  "DEFAULT_BLOCKED_SYSTEM_PREFIXES = map u_str
     [''/etc'', ''/proc'', ''/sys'', ''/dev'', ''/root'', ''/var/run'', ''/boot'']"

record fs =
  fs_is_symlink :: "ppath \<Rightarrow> bool"
  fs_readlink :: "ppath \<Rightarrow> ustr option"
  fs_resolve :: "ppath \<Rightarrow> ppath option"
  fs_exists :: "ppath \<Rightarrow> bool"
  fs_home :: "ustr \<Rightarrow> ustr option"
  fs_tempdir :: ppath

record unicode_db =
  ud_nfkc :: "ustr \<Rightarrow> ustr"
  ud_lower :: "ustr \<Rightarrow> ustr"

record sanitizer =
  ps_root :: ppath
  ps_blocked_names :: "ustr list"
  ps_blocked_extensions :: "ustr list"
  ps_allow_temp :: bool

datatype traversal_error =
    EmptyPath | NullByte | SymlinkLoop | UnreadableLink | ParseFailed | OutsideWorkspace | SubdirectoryNotAllowed
datatype sensitive_error =
    SystemPath | BlockedName "ustr list" | BlockedExtension ustr
  | IntermediateNotOpened ustr | IntermediateNotDirectory ustr | LeafNotOpened ustr | InodeChanged

datatype sanitizer_error = PathTraversal traversal_error | SensitivePath sensitive_error | FileNotFound | OsFailure

text \<open>\<open>Path(s).expanduser()\<close>; the home directory that cannot be found raises.\<close>

definition path_expanduser :: "fs \<Rightarrow> ppath \<Rightarrow> ppath option" where
  "path_expanduser f p =
     (if \<not> is_absolute p \<and> pp_parts p \<noteq> [] \<and> starts_with (hd (pp_parts p)) [126] then
        (case fs_home f (tl (hd (pp_parts p))) of
           None \<Rightarrow> None
         | Some h \<Rightarrow> Some (path_join (ppath_of h) \<lparr>pp_root = [], pp_parts = tl (pp_parts p)\<rparr>))
      else Some p)"

text \<open>The workspace is the argument, else the environment variable, else the working directory; \<open>None\<close> is
  the exception of \<open>expanduser\<close> or \<open>resolve\<close>.\<close>

definition new_sanitizer ::
  "fs \<Rightarrow> ustr option \<Rightarrow> ustr option \<Rightarrow> ppath \<Rightarrow> ustr list option \<Rightarrow> ustr list option \<Rightarrow> bool \<Rightarrow> sanitizer option" where
  "new_sanitizer f workspace env_root cwd names exts allow_temp =
     (let given = (\<lambda>w. Option.bind (path_expanduser f (ppath_of w)) (fs_resolve f));
          root = (case workspace of
              Some w \<Rightarrow> if w \<noteq> [] then given w
                        else (case env_root of Some e \<Rightarrow> if e \<noteq> [] then given e else fs_resolve f cwd | None \<Rightarrow> fs_resolve f cwd)
            | None \<Rightarrow> (case env_root of Some e \<Rightarrow> if e \<noteq> [] then given e else fs_resolve f cwd | None \<Rightarrow> fs_resolve f cwd))
      in map_option (\<lambda>r.
           \<lparr>ps_root = r,
            ps_blocked_names = (case names of Some n \<Rightarrow> n | None \<Rightarrow> DEFAULT_BLOCKED_NAMES),
            ps_blocked_extensions = (case exts of Some e \<Rightarrow> e | None \<Rightarrow> DEFAULT_BLOCKED_EXTENSIONS),
            ps_allow_temp = allow_temp\<rparr>) root)"

section \<open>Sanitizing a path\<close>

function follow_links :: "fs \<Rightarrow> nat \<Rightarrow> ustr list \<Rightarrow> ppath \<Rightarrow> traversal_error + ppath" where
  "follow_links f hops seen cur =
     (if \<not> fs_is_symlink f cur then Inr cur
      else if 32 < hops + 1 \<or> path_str cur \<in> set seen then Inl SymlinkLoop
      else case fs_readlink f cur of
          None \<Rightarrow> Inl UnreadableLink
        | Some t \<Rightarrow> follow_links f (hops + 1) (path_str cur # seen) (path_join (parent cur) (ppath_of t)))"
  by pat_completeness auto
termination
  by (relation "measure (\<lambda>(f, hops, seen, cur). 32 - hops)") auto

declare follow_links.simps [simp del]

definition inside :: "ppath \<Rightarrow> ppath \<Rightarrow> ustr list option" where
  "inside base p =
     (case relative_to p base of
        None \<Rightarrow> None
      | Some rel \<Rightarrow> (if commonpath (path_str p) (path_str base) = Some (path_str base) then Some rel else None))"

definition system_path :: "ppath \<Rightarrow> bool" where
  "system_path p \<longleftrightarrow>
     list_ex (\<lambda>pre. path_str p = pre \<or> starts_with (path_str p) (pre @ [slash])) DEFAULT_BLOCKED_SYSTEM_PREFIXES"

definition sanitize_path ::
  "unicode_db \<Rightarrow> fs \<Rightarrow> sanitizer \<Rightarrow> ustr \<Rightarrow> bool \<Rightarrow> bool \<Rightarrow> sanitizer_error + ppath" where
  "sanitize_path u f ps target must_exist allow_sub =
     (if target = [] then Inl (PathTraversal EmptyPath)
      else
        let norm = ud_nfkc u (unquote target) in
        if 0 \<in> set norm \<or> contains norm (u_str ''%00'') then Inl (PathTraversal NullByte)
        else case path_expanduser f (ppath_of norm) of
          None \<Rightarrow> Inl (PathTraversal ParseFailed)
        | Some raw \<Rightarrow>
            (case follow_links f 0 [] (if is_absolute raw then raw else path_join (ps_root ps) raw) of
               Inl e \<Rightarrow> Inl (PathTraversal e)
             | Inr cur \<Rightarrow>
                 (case fs_resolve f cur of
                    None \<Rightarrow> Inl (PathTraversal ParseFailed)
                  | Some resolved \<Rightarrow>
                      (if system_path resolved then Inl (SensitivePath SystemPath)
                       else
                         let rel = inside (ps_root ps) resolved in
                         if rel = None \<and> \<not> (ps_allow_temp ps \<and> inside (fs_tempdir f) resolved \<noteq> None)
                           then Inl (PathTraversal OutsideWorkspace)
                         else if \<not> allow_sub \<and> (case rel of None \<Rightarrow> False | Some r \<Rightarrow> 1 < length r)
                           then Inl (PathTraversal SubdirectoryNotAllowed)
                         else
                           let hits = filter (\<lambda>n. n \<in> set (all_parts resolved)) (ps_blocked_names ps) in
                           if hits \<noteq> [] then Inl (SensitivePath (BlockedName hits))
                           else if ud_lower u (suffix resolved) \<in> set (ps_blocked_extensions ps)
                             then Inl (SensitivePath (BlockedExtension (suffix resolved)))
                           else if must_exist \<and> \<not> fs_exists f resolved then Inl FileNotFound
                           else Inr resolved))))"

definition is_safe_path :: "unicode_db \<Rightarrow> fs \<Rightarrow> sanitizer \<Rightarrow> ustr \<Rightarrow> bool \<Rightarrow> bool" where
  "is_safe_path u f ps target must_exist =
     (case sanitize_path u f ps target must_exist True of Inl _ \<Rightarrow> False | Inr _ \<Rightarrow> True)"

section \<open>Opening a file\<close>

datatype open_flag = RDONLY | WRONLY | RDWR | CREAT | APPEND | TRUNC | DIRECTORY | NOFOLLOW

definition open_flags :: "string \<Rightarrow> open_flag list" where
  "open_flags mode =
     (let has = (\<lambda>c. c \<in> set mode) in
      if has CHR ''b'' then
        (if has CHR ''+'' \<or> has CHR ''w'' then RDWR # (if has CHR ''w'' then [CREAT] else [])
         else if has CHR ''a'' then [WRONLY, APPEND, CREAT]
         else [RDONLY])
      else
        (if has CHR ''+'' \<or> has CHR ''w'' then RDWR # (if has CHR ''w'' then [CREAT] else [])
         else if has CHR ''a'' then [WRONLY, APPEND, CREAT]
         else [RDONLY]))"

text \<open>The answers of the system while a file is opened. An intermediate descriptor is a directory, is
  none, or its \<open>fstat\<close> raises. The built-in \<open>open\<close> makes a file object of a descriptor, refuses and leaves the
  descriptor open (a bad mode, a directory), or fails after it has taken the descriptor over (an unknown
  encoding) and closes it.\<close>

datatype dir_answer = IsDirectory | IsNoDirectory | StatRaises

datatype wrap_answer = Wrapped | LeftOpen | ClosedByOpen

text \<open>The device and inode the path has before (\<open>None\<close>: there is nothing; finding out may raise), the
  descriptors, which of them report an error when they are closed (they are closed nevertheless), the
  device and inode of the one opened, what becomes of the file object, and whether the caller's block
  and the closing of the file object raise.\<close>

record open_env =
  oe_before :: "(int \<times> int) option"
  oe_before_raises :: bool
  oe_base :: "int option"
  oe_dir :: "int \<Rightarrow> ustr \<Rightarrow> (int \<times> dir_answer) option"
  oe_close_raises :: "int \<Rightarrow> bool"
  oe_leaf :: "int \<Rightarrow> ustr \<Rightarrow> open_flag list \<Rightarrow> int option"
  oe_stat :: "int \<Rightarrow> (int \<times> int) option"
  oe_wrap :: wrap_answer
  oe_body_raises :: bool
  oe_file_close_raises :: bool

text \<open>\<open>CloseFd\<close> is a call that closes, also when it finds the descriptor closed already.\<close>

datatype open_event =
    OpenBase ppath int
  | OpenAt int ustr "open_flag list" int
  | Yield int
  | CloseFd int

text \<open>\<open>NotWrapped\<close> says whether the built-in \<open>open\<close> had closed the descriptor.\<close>

datatype open_result = Completed | BodyRaised | FileCloseRaised | NotWrapped bool | OpenRefused sanitizer_error

text \<open>The walk over the intermediate directories from a descriptor: the events, and the last descriptor
  or the refusal.\<close>

definition dir_flags :: "open_flag list" where "dir_flags = [RDONLY, DIRECTORY, NOFOLLOW]"

fun walk_dirs :: "open_env \<Rightarrow> int \<Rightarrow> ustr list \<Rightarrow> open_event list \<times> (sanitizer_error + int)" where
  "walk_dirs e fd [] = ([], Inr fd)"
| "walk_dirs e fd (c # cs) =
     (case oe_dir e fd c of
        None \<Rightarrow> ([CloseFd fd], Inl (SensitivePath (IntermediateNotOpened c)))
      | Some (nfd, StatRaises) \<Rightarrow> ([OpenAt fd c dir_flags nfd, CloseFd fd], Inl OsFailure)
      | Some (nfd, IsNoDirectory) \<Rightarrow>
          ([OpenAt fd c dir_flags nfd, CloseFd nfd, CloseFd fd],
           Inl (if oe_close_raises e nfd then OsFailure else SensitivePath (IntermediateNotDirectory c)))
      | Some (nfd, IsDirectory) \<Rightarrow>
          (if oe_close_raises e fd then ([OpenAt fd c dir_flags nfd, CloseFd fd, CloseFd fd], Inl OsFailure)
           else case walk_dirs e nfd cs of
               (evs, r) \<Rightarrow> (OpenAt fd c dir_flags nfd # CloseFd fd # evs, r)))"

definition after_open :: "open_env \<Rightarrow> int \<Rightarrow> open_event list \<times> open_result" where
  "after_open e fd =
     (case oe_stat e fd of
        None \<Rightarrow> ([CloseFd fd], OpenRefused OsFailure)
      | Some after \<Rightarrow>
          (if (case oe_before e of None \<Rightarrow> False | Some st \<Rightarrow> st \<noteq> after)
             then ([CloseFd fd], OpenRefused (SensitivePath InodeChanged))
           else case oe_wrap e of
               LeftOpen \<Rightarrow> ([CloseFd fd], NotWrapped False)
             | ClosedByOpen \<Rightarrow> ([CloseFd fd, CloseFd fd], NotWrapped True)
             | Wrapped \<Rightarrow>
                 (if oe_file_close_raises e then ([Yield fd, CloseFd fd, CloseFd fd], FileCloseRaised)
                  else if oe_body_raises e then ([Yield fd, CloseFd fd, CloseFd fd], BodyRaised)
                  else ([Yield fd, CloseFd fd], Completed))))"

definition open_below :: "open_env \<Rightarrow> string \<Rightarrow> ppath \<Rightarrow> ustr list \<Rightarrow> open_event list \<times> open_result" where
  "open_below e mode base rel =
     (case (if oe_before_raises e then None else oe_base e) of
        None \<Rightarrow> ([], OpenRefused OsFailure)
      | Some bfd \<Rightarrow>
          (case walk_dirs e bfd (butlast rel) of
             (evs, Inl err) \<Rightarrow> (OpenBase base bfd # evs, OpenRefused err)
           | (evs, Inr dfd) \<Rightarrow>
               (let leaf = (if rel = [] then [46] else last rel);
                    flags = open_flags mode @ [NOFOLLOW]
                in case oe_leaf e dfd leaf flags of
                     None \<Rightarrow> (OpenBase base bfd # evs @ [CloseFd dfd], OpenRefused (SensitivePath (LeafNotOpened leaf)))
                   | Some fd \<Rightarrow>
                       (case after_open e fd of
                          (evs', r) \<Rightarrow> (OpenBase base bfd # evs @ [OpenAt dfd leaf flags fd, CloseFd dfd] @ evs', r)))))"

definition safe_open ::
  "unicode_db \<Rightarrow> fs \<Rightarrow> sanitizer \<Rightarrow> open_env \<Rightarrow> ustr \<Rightarrow> string \<Rightarrow> open_event list \<times> open_result" where
  "safe_open u f ps e target mode =
     (case sanitize_path u f ps target (CHR ''r'' \<in> set mode) True of
        Inl err \<Rightarrow> ([], OpenRefused err)
      | Inr clean \<Rightarrow>
          (case relative_to clean (ps_root ps) of
             Some rel \<Rightarrow> open_below e mode (ps_root ps) rel
           | None \<Rightarrow>
               (if ps_allow_temp ps then
                  (case relative_to clean (fs_tempdir f) of
                     Some rel \<Rightarrow> open_below e mode (fs_tempdir f) rel
                   | None \<Rightarrow> ([], OpenRefused OsFailure))
                else ([], OpenRefused (PathTraversal OutsideWorkspace)))))"

section \<open>Lemmas\<close>

lemma follow_links_Inr: "follow_links f hops seen p = Inr q \<Longrightarrow> \<not> fs_is_symlink f q"
proof (induction f hops seen p rule: follow_links.induct)
  case (1 f hops seen p)
  from "1.prems" show ?case
    using "1.IH" by (subst (asm) follow_links.simps) (auto split: if_splits option.splits)
qed

lemma inside_relative: "inside base p = Some rel \<Longrightarrow> relative_to p base = Some rel"
  by (auto simp: inside_def split: option.splits if_splits)

text \<open>What is known of a path that was accepted.\<close>

definition path_accepted :: "unicode_db \<Rightarrow> fs \<Rightarrow> sanitizer \<Rightarrow> bool \<Rightarrow> ppath \<Rightarrow> bool" where
  "path_accepted u f ps must_exist p \<longleftrightarrow>
     (relative_to p (ps_root ps) \<noteq> None \<or> ps_allow_temp ps \<and> relative_to p (fs_tempdir f) \<noteq> None) \<and>
     \<not> system_path p \<and> set (all_parts p) \<inter> set (ps_blocked_names ps) = {} \<and>
     ud_lower u (suffix p) \<notin> set (ps_blocked_extensions ps) \<and> (must_exist \<longrightarrow> fs_exists f p) \<and>
     (\<exists>c. \<not> fs_is_symlink f c \<and> fs_resolve f c = Some p)"

lemma sanitize_accepted:
  "sanitize_path u f ps target must_exist allow_sub = Inr p \<Longrightarrow> path_accepted u f ps must_exist p"
  using follow_links_Inr inside_relative
  by (fastforce simp: sanitize_path_def path_accepted_def Let_def filter_empty_conv disjoint_iff
      split: if_splits option.splits sum.splits)

text \<open>The events: what is opened, what is closed, the names opened in order.\<close>

fun opens :: "open_event list \<Rightarrow> int list" where
  "opens [] = []"
| "opens (OpenBase p fd # es) = fd # opens es"
| "opens (OpenAt d c fl fd # es) = fd # opens es"
| "opens (_ # es) = opens es"

fun closes :: "open_event list \<Rightarrow> int list" where
  "closes [] = []"
| "closes (CloseFd fd # es) = fd # closes es"
| "closes (_ # es) = closes es"

fun names :: "open_event list \<Rightarrow> ustr list" where
  "names [] = []"
| "names (OpenAt d c fl fd # es) = c # names es"
| "names (_ # es) = names es"

text \<open>Every name is opened below the descriptor opened right before, and never through a link.\<close>

fun chained_opens :: "int \<Rightarrow> open_event list \<Rightarrow> bool" where
  "chained_opens cur [] = True"
| "chained_opens cur (OpenBase p fd # es) = chained_opens fd es"
| "chained_opens cur (OpenAt d c fl fd # es) = (d = cur \<and> NOFOLLOW \<in> set fl \<and> chained_opens fd es)"
| "chained_opens cur (_ # es) = chained_opens cur es"

lemma opens_append [simp]: "opens (xs @ ys) = opens xs @ opens ys"
  by (induction xs rule: opens.induct) auto

lemma closes_append [simp]: "closes (xs @ ys) = closes xs @ closes ys"
  by (induction xs rule: closes.induct) auto

lemma names_append [simp]: "names (xs @ ys) = names xs @ names ys"
  by (induction xs rule: names.induct) auto

text \<open>How far the closing calls match the descriptors opened. Neither an \<open>fstat\<close> nor the closing of an
  intermediate directory fails: the walk is \<open>smooth\<close>.\<close>

definition smooth :: "open_env \<Rightarrow> bool" where
  "smooth e \<longleftrightarrow> (\<forall>fd c nfd. oe_dir e fd c \<noteq> Some (nfd, StatRaises)) \<and> (\<forall>fd. \<not> oe_close_raises e fd)"

definition balanced :: "open_event list \<Rightarrow> bool" where
  "balanced evs \<longleftrightarrow> mset (closes evs) = mset (opens evs)"

definition last_leaks :: "open_env \<Rightarrow> open_event list \<Rightarrow> bool" where
  "last_leaks e evs \<longleftrightarrow> opens evs \<noteq> [] \<and>
     (add_mset (last (opens evs)) (mset (closes evs)) = mset (opens evs) \<or>
      (\<exists>fd \<in> set (opens evs). oe_close_raises e fd \<and>
         add_mset (last (opens evs)) (mset (closes evs)) = add_mset fd (mset (opens evs))))"

lemma walk_dirs_opened:
  assumes "walk_dirs e fd cs = (evs, r)"
  shows "(case r of
      Inr dfd \<Rightarrow> add_mset dfd (mset (closes evs)) = add_mset fd (mset (opens evs)) \<and> last (fd # opens evs) = dfd
    | Inl err \<Rightarrow> mset (closes evs) = add_mset fd (mset (opens evs)) \<or>
        err = OsFailure \<and> \<not> smooth e \<and> last_leaks e (OpenBase base fd # evs))"
  using assms
proof (induction cs arbitrary: fd evs)
  case (Cons c cs)
  show ?case
  proof (cases "\<exists>nfd. oe_dir e fd c = Some (nfd, IsDirectory) \<and> \<not> oe_close_raises e fd")
    case True
    then obtain nfd where n: "oe_dir e fd c = Some (nfd, IsDirectory)" "\<not> oe_close_raises e fd" by blast
    from Cons.prems n obtain evs1 where w: "walk_dirs e nfd cs = (evs1, r)"
        and evs: "evs = OpenAt fd c dir_flags nfd # CloseFd fd # evs1"
      by (auto split: prod.splits)
    have leak: "last_leaks e (OpenBase base nfd # evs1) \<Longrightarrow> last_leaks e (OpenBase base fd # evs)"
      unfolding last_leaks_def evs
      by (auto simp: add_mset_commute [of _ fd])
    from Cons.IH [OF w] leak show ?thesis
      by (auto simp: evs add_mset_commute split: sum.splits)
  next
    case False
    have "oe_dir e fd c = Some (nfd, StatRaises) \<or> oe_close_raises e fd \<Longrightarrow> \<not> smooth e" for nfd
      by (auto simp: smooth_def)
    with Cons.prems False show ?thesis
      by (auto simp: last_leaks_def split: option.splits dir_answer.splits if_splits) blast
  qed
qed auto

lemma walk_dirs_Inr:
  "walk_dirs e fd cs = (evs, Inr dfd) \<Longrightarrow>
   names evs = cs \<and> chained_opens fd (evs @ rest) = chained_opens dfd rest \<and> Yield y \<notin> set evs"
  by (induction cs arbitrary: fd evs) (auto simp: dir_flags_def split: option.splits dir_answer.splits if_splits prod.splits)

lemma walk_dirs_no_yield: "walk_dirs e fd cs = (evs, r) \<Longrightarrow> Yield y \<notin> set evs"
  by (induction cs arbitrary: fd evs r) (auto split: option.splits dir_answer.splits if_splits prod.splits)

text \<open>Every descriptor is closed once; the leaf once more when the file object had closed it already; and
  the last one not at all when the walk itself met an error.\<close>

definition closed_twice :: "open_result \<Rightarrow> bool" where
  "closed_twice r \<longleftrightarrow> r = BodyRaised \<or> r = FileCloseRaised \<or> r = NotWrapped True"

lemma open_below_balance:
  assumes "open_below e mode base rel = (evs, r)"
  shows "(if closed_twice r then mset (closes evs) = add_mset (last (opens evs)) (mset (opens evs))
     else balanced evs \<or> r = OpenRefused OsFailure \<and> \<not> smooth e \<and> last_leaks e evs)"
proof (cases "if oe_before_raises e then None else oe_base e")
  case None
  with assms show ?thesis by (auto simp: open_below_def balanced_def closed_twice_def)
next
  case (Some bfd)
  obtain wevs wr where w: "walk_dirs e bfd (butlast rel) = (wevs, wr)" by (cases "walk_dirs e bfd (butlast rel)")
  note walk = walk_dirs_opened [OF w, of base]
  show ?thesis
  proof (cases wr)
    case (Inl err)
    with assms Some w have "evs = OpenBase base bfd # wevs" "r = OpenRefused err" by (auto simp: open_below_def)
    with walk Inl show ?thesis by (auto simp: balanced_def closed_twice_def)
  next
    case (Inr dfd)
    let ?leaf = "if rel = [] then [46] else last rel" and ?flags = "open_flags mode @ [NOFOLLOW]"
    have e: "(evs, r) = (case oe_leaf e dfd ?leaf ?flags of
         None \<Rightarrow> (OpenBase base bfd # wevs @ [CloseFd dfd], OpenRefused (SensitivePath (LeafNotOpened ?leaf)))
       | Some fd \<Rightarrow>
           (case after_open e fd of
              (evs', r) \<Rightarrow> (OpenBase base bfd # wevs @ [OpenAt dfd ?leaf ?flags fd, CloseFd dfd] @ evs', r)))"
      using assms Some w Inr by (simp add: open_below_def Let_def)
    from walk Inr have m: "add_mset dfd (mset (closes wevs)) = add_mset bfd (mset (opens wevs))" by simp
    show ?thesis
      using e m
      by (auto simp: after_open_def balanced_def closed_twice_def add_mset_commute
          split: option.splits if_splits wrap_answer.splits)
  qed
qed

lemma open_below_yield:
  assumes "open_below e mode base rel = (evs, r)" and "Yield fd \<in> set evs"
  shows "chained_opens b evs \<and> names evs = (if rel = [] then [[46]] else rel) \<and> fd = last (opens evs) \<and>
    (\<forall>st. oe_before e = Some st \<longrightarrow> oe_stat e fd = Some st) \<and> (\<exists>bfd rest. evs = OpenBase base bfd # rest)"
proof -
  obtain bfd where b: "\<not> oe_before_raises e" "oe_base e = Some bfd"
    using assms by (auto simp: open_below_def split: option.splits if_splits)
  obtain wevs wr where w: "walk_dirs e bfd (butlast rel) = (wevs, wr)" by (cases "walk_dirs e bfd (butlast rel)")
  have ny: "Yield y \<notin> set wevs" for y using walk_dirs_no_yield [OF w] .
  obtain dfd where d: "wr = Inr dfd"
    using assms b w ny by (cases wr) (auto simp: open_below_def)
  note walk = walk_dirs_Inr [OF w [unfolded d]]
  have rel: "butlast rel @ [last rel] = rel" if "rel \<noteq> []" using that by simp
  show ?thesis
    using assms b w d ny walk rel
    by (auto simp: open_below_def after_open_def Let_def split: option.splits if_splits wrap_answer.splits)
qed

lemma open_flags_never: "TRUNC \<notin> set (open_flags mode) \<and> (CHR ''+'' \<in> set mode \<longrightarrow> APPEND \<notin> set (open_flags mode))"
  by (simp add: open_flags_def Let_def)

section \<open>Properties\<close>

text \<open>C30: sanitized paths are confined. A path that is accepted is a real path below the workspace, or below
  the temporary directory where that is allowed, lies under no system prefix, has no blocked component
  and no blocked extension, exists when it must, and is what the system resolves a non-link to.\<close>

theorem sanitized_paths_are_confined:
  assumes "sanitize_path u f ps target must_exist allow_sub = Inr p"
  shows "path_accepted u f ps must_exist p"
  using assms by (rule sanitize_accepted)

text \<open>A file is opened below the root without following links. When a file object is handed out, the
  path was accepted, the root of the workspace or of the temporary directory was opened first, the
  components of the path below it were opened one after the other, each below the descriptor before
  and without following links, the last descriptor is the one handed out, and it has the device and
  inode the path had before.\<close>

theorem files_are_opened_below_the_root:
  assumes "safe_open u f ps e target mode = (evs, r)" and "Yield fd \<in> set evs"
  shows "\<exists>p base rel. sanitize_path u f ps target (CHR ''r'' \<in> set mode) True = Inr p \<and>
    path_accepted u f ps (CHR ''r'' \<in> set mode) p \<and> relative_to p base = Some rel \<and>
    (base = ps_root ps \<or> ps_allow_temp ps \<and> base = fs_tempdir f) \<and>
    (\<exists>bfd rest. evs = OpenBase base bfd # rest) \<and> chained_opens b evs \<and>
    names evs = (if rel = [] then [[46]] else rel) \<and> fd = last (opens evs) \<and>
    (\<forall>st. oe_before e = Some st \<longrightarrow> oe_stat e fd = Some st)"
proof -
  obtain p where p: "sanitize_path u f ps target (CHR ''r'' \<in> set mode) True = Inr p"
    using assms by (auto simp: safe_open_def split: sum.splits)
  obtain base rel where base: "base = ps_root ps \<or> ps_allow_temp ps \<and> base = fs_tempdir f"
      and rel: "relative_to p base = Some rel" and evs: "open_below e mode base rel = (evs, r)"
    using assms p by (auto simp: safe_open_def split: option.splits if_splits)
  from open_below_yield [OF evs assms(2), of b] sanitize_accepted [OF p] p base rel show ?thesis by blast
qed

text \<open>C31: how the descriptors are closed. However opening ends, with three exceptions, every descriptor that was opened is
  closed exactly once. The file's own descriptor is closed a second time when the caller's block or the closing of the file
  object raises, and when the built-in \<open>open\<close> fails after it took the descriptor over. The last descriptor opened is not closed
  at all when the walk ends because \<open>fstat\<close> of an intermediate directory or the closing of one raises (the one whose closing
  raised is then closed twice); without such an error none leaks. And no mode truncates the file, nor does an updating mode
  append.\<close>

theorem descriptors_are_closed:
  assumes "safe_open u f ps e target mode = (evs, r)"
  shows "(if r = BodyRaised \<or> r = FileCloseRaised \<or> r = NotWrapped True
      then mset (closes evs) = add_mset (last (opens evs)) (mset (opens evs))
      else mset (closes evs) = mset (opens evs) \<or>
        r = OpenRefused OsFailure \<and> \<not> smooth e \<and> opens evs \<noteq> [] \<and>
        (add_mset (last (opens evs)) (mset (closes evs)) = mset (opens evs) \<or>
         (\<exists>fd \<in> set (opens evs). oe_close_raises e fd \<and>
            add_mset (last (opens evs)) (mset (closes evs)) = add_mset fd (mset (opens evs))))) \<and>
    TRUNC \<notin> set (open_flags mode) \<and> (CHR ''+'' \<in> set mode \<longrightarrow> APPEND \<notin> set (open_flags mode))"
proof -
  have "if closed_twice r then mset (closes evs) = add_mset (last (opens evs)) (mset (opens evs))
     else balanced evs \<or> r = OpenRefused OsFailure \<and> \<not> smooth e \<and> last_leaks e evs"
    using assms
    by (auto simp: safe_open_def balanced_def closed_twice_def split: sum.splits option.splits if_splits
        dest: open_below_balance)
  then show ?thesis using open_flags_never unfolding closed_twice_def balanced_def last_leaks_def by (auto split: if_splits)
qed

section \<open>A concrete run\<close>

definition demo_fs :: fs where
  "demo_fs = \<lparr>fs_is_symlink = (\<lambda>_. False), fs_readlink = (\<lambda>_. None), fs_resolve = Some, fs_exists = (\<lambda>_. True),
     fs_home = (\<lambda>_. None), fs_tempdir = ppath_of (u_str ''/tmp'')\<rparr>"

definition demo_unicode :: unicode_db where
  "demo_unicode = \<lparr>ud_nfkc = (\<lambda>s. s), ud_lower = (\<lambda>s. s)\<rparr>"

definition demo_sanitizer :: sanitizer where
  "demo_sanitizer = \<lparr>ps_root = ppath_of (u_str ''/w''), ps_blocked_names = [u_str ''.ssh''],
     ps_blocked_extensions = [u_str ''.pem''], ps_allow_temp = False\<rparr>"

definition demo_path :: ppath where
  "demo_path = ppath_of (u_str ''/w/a/b'')"

definition demo_open :: open_env where
  "demo_open = \<lparr>oe_before = Some (1, 2), oe_before_raises = False, oe_base = Some 3, oe_dir = (\<lambda>_ _. Some (4, IsDirectory)),
     oe_close_raises = (\<lambda>_. False), oe_leaf = (\<lambda>_ _ _. Some 5), oe_stat = (\<lambda>_. Some (1, 2)), oe_wrap = Wrapped,
     oe_body_raises = True, oe_file_close_raises = False\<rparr>"

lemma demo_sanitize: "sanitize_path demo_unicode demo_fs demo_sanitizer (u_str ''%61/b'') True True = Inr demo_path"
  by code_simp

definition demo_events :: "open_event list" where
  "demo_events =
     [OpenBase (ppath_of (u_str ''/w'')) 3, OpenAt 3 (u_str ''a'') [RDONLY, DIRECTORY, NOFOLLOW] 4, CloseFd 3,
      OpenAt 4 (u_str ''b'') [RDWR, CREAT, NOFOLLOW] 5, CloseFd 4, Yield 5, CloseFd 5, CloseFd 5]"

lemma demo_safe_open:
  "safe_open demo_unicode demo_fs demo_sanitizer demo_open (u_str ''a/b'') ''w'' = (demo_events, BodyRaised)"
  by code_simp

theorem sanitized_paths_are_confined_witness:
  "path_accepted demo_unicode demo_fs demo_sanitizer True demo_path"
  using sanitized_paths_are_confined [OF demo_sanitize] .

theorem files_are_opened_below_the_root_witness:
  "chained_opens 0 demo_events \<and> names demo_events = [u_str ''a'', u_str ''b'']"
proof -
  have "Yield 5 \<in> set demo_events" by (simp add: demo_events_def)
  from files_are_opened_below_the_root [OF demo_safe_open this, of 0] have "chained_opens 0 demo_events" by blast
  then show ?thesis by (simp add: demo_events_def)
qed

theorem descriptors_are_closed_witness:
  "mset (closes demo_events) = mset (opens demo_events) + {#5#}"
  using descriptors_are_closed [OF demo_safe_open] by (simp add: demo_events_def)

section \<open>Findings\<close>

text \<open>When \<open>fstat\<close> of an intermediate directory raises, its descriptor is never closed.\<close>

lemma failing_stat_leaks:
  "safe_open demo_unicode demo_fs demo_sanitizer (demo_open\<lparr>oe_dir := (\<lambda>_ _. Some (4, StatRaises))\<rparr>) (u_str ''a/b'') ''w'' =
     ([OpenBase (ppath_of (u_str ''/w'')) 3, OpenAt 3 (u_str ''a'') [RDONLY, DIRECTORY, NOFOLLOW] 4, CloseFd 3],
      OpenRefused OsFailure)"
  by code_simp

text \<open>An unknown encoding makes the built-in \<open>open\<close> close the descriptor, and it is closed once more.\<close>

lemma failing_wrap_closes_twice:
  "snd (safe_open demo_unicode demo_fs demo_sanitizer (demo_open\<lparr>oe_wrap := ClosedByOpen\<rparr>) (u_str ''a/b'') ''w'') = NotWrapped True \<and>
   count (mset (closes (fst (safe_open demo_unicode demo_fs demo_sanitizer (demo_open\<lparr>oe_wrap := ClosedByOpen\<rparr>) (u_str ''a/b'') ''w'')))) 5 = 2"
  by code_simp

end
