(* ===== verification/SecurityFilter.thy ===== *)
theory SecurityFilter
  imports FastPath PyJson
begin

text \<open>
  The security filter, \<open>src/hermes_core/security_filter.py\<close>: the rules for secrets, their detection and
  redaction in texts and in nested data, the ingress filter and the removal of null bytes. Texts are
  code points, the strings of nested data Latin-1; Unicode normalisation is a parameter.
\<close>

section \<open>Rules\<close>

definition REDACTED :: ustr where "REDACTED = u_str ''[REDACTED]''"

text \<open>\<open>s[-n:]\<close>: the whole of \<open>s\<close> when \<open>n\<close> is 0.\<close>

definition last_chars :: "nat \<Rightarrow> 'a list \<Rightarrow> 'a list" where
  "last_chars n s = (if n = 0 then s else drop (length s - n) s)"

definition mask_secret_string :: "nat \<Rightarrow> nat \<Rightarrow> ustr \<Rightarrow> ustr" where
  "mask_secret_string pre suf secret =
     (if secret = [] then REDACTED
      else let s = u_strip secret in
           if length s \<le> pre + suf then REDACTED else take pre s @ u_str ''***'' @ last_chars suf s)"

type_synonym groups = "(nat \<times> nat list) list"

record secret_rule =
  sr_name :: string
  sr_pattern :: regex
  sr_category :: string
  sr_redactor :: "(groups \<Rightarrow> bool \<Rightarrow> ustr) option"

definition key_char :: "nat \<Rightarrow> bool" where "key_char c \<longleftrightarrow> alnum_ascii c \<or> c = 95 \<or> c = 45"
definition upper_digit :: "nat \<Rightarrow> bool" where "upper_digit c \<longleftrightarrow> u_digit c \<or> (65 \<le> c \<and> c \<le> 90)"
definition pem_char :: "nat \<Rightarrow> bool" where "pem_char c \<longleftrightarrow> upper_digit c \<or> c = 95 \<or> c = 45"
definition opt_quote :: regex where "opt_quote = opt quote_cls"
definition plain_value :: "nat \<Rightarrow> bool" where "plain_value c \<longleftrightarrow> c \<noteq> 39 \<and> c \<noteq> 34 \<and> \<not> u_space c"
definition not_in_url :: "nat \<Rightarrow> bool" where "not_in_url c \<longleftrightarrow> c \<noteq> 58 \<and> c \<noteq> 47 \<and> \<not> u_space c"
definition not_at :: "nat \<Rightarrow> bool" where "not_at c \<longleftrightarrow> c \<noteq> 64 \<and> c \<noteq> 47 \<and> \<not> u_space c"
definition cookie_char :: "nat \<Rightarrow> bool" where "cookie_char c \<longleftrightarrow> c \<noteq> 59 \<and> c \<noteq> 13 \<and> c \<noteq> 10"

definition simple_rule :: "string \<Rightarrow> regex \<Rightarrow> string \<Rightarrow> secret_rule" where
  "simple_rule name r cat = \<lparr>sr_name = name, sr_pattern = seqs [WordB, Grp 1 r, WordB], sr_category = cat, sr_redactor = None\<rparr>"

definition masked :: "groups \<Rightarrow> nat \<Rightarrow> bool \<Rightarrow> ustr" where
  "masked gs i full = (if full then REDACTED else mask_secret_string 3 2 (group gs i))"

definition pem_label :: regex where "pem_label = opt (Seq (plus (Cls pem_char)) (lit '' ''))"

definition RULES :: "secret_rule list" where
  "RULES =
     [simple_rule ''OPENAI_KEY'' (Seq (lit ''sk-'') (at_least 16 (Cls key_char))) ''api_key'',
      simple_rule ''ANTHROPIC_KEY'' (Seq (lit ''sk-ant-'') (at_least 20 (Cls key_char))) ''api_key'',
      simple_rule ''GITHUB_TOKEN''
        (seqs [lit ''gh'', Cls (any_of ''pousr''), lit ''_'', at_least 20 (Cls alnum_ascii)]) ''token'',
      simple_rule ''AWS_KEY_ID'' (Seq (lit ''AKIA'') (exactly 16 (Cls upper_digit))) ''cloud_credential'',
      \<lparr>sr_name = ''AWS_SECRET'',
       sr_pattern = seqs [alts [lit_ci ''aws_secret_access_key'', lit_ci ''aws_secret''], star space, Cls (any_of '':=''),
         star space, opt_quote, Grp 1 (exactly 40 (Cls (ci (\<lambda>c. alnum_ascii c \<or> any_of ''/+='' c)))), opt_quote],
       sr_category = ''cloud_credential'',
       sr_redactor = Some (\<lambda>gs full. u_str ''aws_secret='' @ masked gs 1 full)\<rparr>,
      \<lparr>sr_name = ''BEARER_TOKEN'',
       sr_pattern = seqs [WordB, lit_ci ''Bearer'', plus space, Grp 1 (at_least 20 (Cls (ci (\<lambda>c. key_char c \<or> c = 46)))), WordB],
       sr_category = ''auth'',
       sr_redactor = Some (\<lambda>gs full. u_str ''Bearer '' @ masked gs 1 full)\<rparr>,
      simple_rule ''JWT_TOKEN''
        (seqs [lit ''eyJ'', at_least 10 (Cls key_char), lit ''.'', at_least 10 (Cls key_char), lit ''.'', at_least 10 (Cls key_char)])
        ''token'',
      \<lparr>sr_name = ''AUTHORIZATION_HEADER'',
       sr_pattern = seqs [WordB,
         Grp 1 (seqs [lit_ci ''Authorization'', star space, lit '':'', star space,
           alts [lit_ci ''Bearer'', lit_ci ''Basic'', lit_ci ''Token''], plus space]),
         Grp 2 (plus (Cls (\<lambda>c. c \<noteq> 13 \<and> c \<noteq> 10 \<and> c \<noteq> 44 \<and> c \<noteq> 59)))],
       sr_category = ''auth'',
       sr_redactor = Some (\<lambda>gs full. group gs 1 @ masked gs 2 full)\<rparr>,
      \<lparr>sr_name = ''COOKIE_CREDENTIAL'',
       sr_pattern = seqs [WordB, alts [lit_ci ''cookie'', lit_ci ''set-cookie''], star space, lit '':'', star space,
         Grp 1 (seqs [star (Cls cookie_char),
           alts [lit_ci ''session'', lit_ci ''token'', lit_ci ''auth'', lit_ci ''jwt'', lit_ci ''id''], star (Cls cookie_char)])],
       sr_category = ''auth'',
       sr_redactor = Some (\<lambda>gs full. u_str ''Cookie: [REDACTED]'')\<rparr>,
      \<lparr>sr_name = ''URL_CREDENTIALS'',
       sr_pattern = seqs [Grp 1 (Seq (lit ''://'') (between 0 256 (Cls not_in_url))), lit '':'', Grp 2 (between 1 256 (Cls not_at)), lit ''@''],
       sr_category = ''credential'',
       sr_redactor = Some (\<lambda>gs full. group gs 1 @ u_str '':[REDACTED]@'')\<rparr>,
      \<lparr>sr_name = ''DB_URL_CREDENTIALS'',
       sr_pattern = seqs [WordB,
         Grp 1 (seqs [alts (map lit_ci [''postgres'', ''postgresql'', ''mysql'', ''mssql'', ''oracle'', ''mongodb'', ''redis'']),
           lit ''://'', star (Cls not_in_url)]), lit '':'', Grp 2 (plus (Cls not_at)), lit ''@''],
       sr_category = ''credential'',
       sr_redactor = Some (\<lambda>gs full. group gs 1 @ u_str '':[REDACTED]@'')\<rparr>,
      \<lparr>sr_name = ''KV_PASSWORD'',
       sr_pattern = seqs [
         Grp 1 (seqs [opt_quote,
           alts (map lit_ci [''password'', ''passwd'', ''secret'', ''api_key'', ''token'', ''access_token'', ''private_key'']),
           opt_quote, star space, Cls (any_of '':=''), star space, quote_cls]),
         Grp 2 (Rep (Cls plain_value) 6 (Some 128) False), Grp 3 quote_cls],
       sr_category = ''credential'',
       sr_redactor = Some (\<lambda>gs full. group gs 1 @ masked gs 2 full @ group gs 3)\<rparr>,
      \<lparr>sr_name = ''GENERIC_ENV_SECRET'',
       sr_pattern = seqs [WordB,
         Grp 1 (Seq (star (Cls (ci (\<lambda>c. upper_digit c \<or> c = 95))))
           (alts (map lit_ci [''TOKEN'', ''SECRET'', ''PASSWORD'', ''PASSWD'', ''APIKEY'', ''API_KEY'']))),
         star space, lit ''='', star space, opt_quote, Grp 2 (Rep (Cls plain_value) 6 (Some 128) False), opt_quote,
         Ahead (Alt space LineEnd)],
       sr_category = ''credential'',
       sr_redactor = Some (\<lambda>gs full. group gs 1 @ u_str ''='' @ masked gs 2 full)\<rparr>,
      \<lparr>sr_name = ''PRIVATE_KEY_BLOCK'',
       sr_pattern = seqs [lit ''-----BEGIN '', pem_label, lit ''PRIVATE KEY-----'', Rep (Cls (\<lambda>_. True)) 1 None False,
         lit ''-----END '', pem_label, lit ''PRIVATE KEY-----''],
       sr_category = ''private_key'',
       sr_redactor = Some (\<lambda>gs full. u_str ''[REDACTED_PRIVATE_KEY_BLOCK]'')\<rparr>]"

section \<open>Detection and redaction\<close>

record secret_policy =
  sp_full_redact :: bool
  sp_mask_prefix :: nat
  sp_mask_suffix :: nat
  sp_enabled_categories :: "string list option"

definition default_policy :: secret_policy where
  "default_policy = \<lparr>sp_full_redact = True, sp_mask_prefix = 3, sp_mask_suffix = 2, sp_enabled_categories = None\<rparr>"

definition contains_secrets :: "uni \<Rightarrow> secret_rule list \<Rightarrow> ustr \<Rightarrow> bool" where
  "contains_secrets un rules txt \<longleftrightarrow> txt \<noteq> [] \<and> list_ex (\<lambda>r. re_found un (sr_pattern r) txt) rules"

text \<open>A finding: the rule, its category and the span.\<close>

fun spans :: "nat \<Rightarrow> (ustr \<times> ustr \<times> groups) list \<Rightarrow> (nat \<times> nat) list" where
  "spans pos [] = []"
| "spans pos ((gap, m, gs) # ms) =
     (pos + length gap, pos + length gap + length m) # spans (pos + length gap + length m) ms"

definition detect :: "uni \<Rightarrow> secret_rule list \<Rightarrow> ustr \<Rightarrow> (string \<times> string \<times> nat \<times> nat) list" where
  "detect un rules txt =
     (if txt = [] then []
      else concat (map (\<lambda>r. map (\<lambda>(a, b). (sr_name r, sr_category r, a, b))
                              (spans 0 (fst (scan_from un (sr_pattern r) [] [] txt)))) rules))"

definition rule_enabled :: "secret_policy \<Rightarrow> secret_rule \<Rightarrow> bool" where
  "rule_enabled pol r \<longleftrightarrow>
     (case sp_enabled_categories pol of None \<Rightarrow> True | Some cs \<Rightarrow> cs = [] \<or> sr_category r \<in> set cs)"

definition rule_replace :: "secret_policy \<Rightarrow> bool \<Rightarrow> secret_rule \<Rightarrow> ustr \<Rightarrow> groups \<Rightarrow> ustr" where
  "rule_replace pol full r m gs =
     (case sr_redactor r of
        Some f \<Rightarrow> f gs full
      | None \<Rightarrow> (if full then REDACTED else mask_secret_string (sp_mask_prefix pol) (sp_mask_suffix pol) (group gs 1)))"

definition redact_text :: "uni \<Rightarrow> secret_policy \<Rightarrow> secret_rule list \<Rightarrow> bool option \<Rightarrow> ustr \<Rightarrow> ustr" where
  "redact_text un pol rules full_redact txt =
     (if txt = [] then []
      else
        let full = (case full_redact of None \<Rightarrow> sp_full_redact pol | Some b \<Rightarrow> b)
        in foldl (\<lambda>s r. if rule_enabled pol r then re_sub un (sr_pattern r) (rule_replace pol full r) s else s) txt rules)"

definition SENSITIVE_KEYS :: "string list" where
  "SENSITIVE_KEYS = [''password'', ''passwd'', ''secret'', ''token'', ''key'', ''credential'', ''auth'']"

definition sensitive_key :: "string \<Rightarrow> bool" where
  "sensitive_key k \<longleftrightarrow> list_ex (\<lambda>s. contains (py_lower k) s) SENSITIVE_KEYS"

definition latin :: "ustr \<Rightarrow> string" where "latin s = map char_of s"

fun redact_structure :: "uni \<Rightarrow> secret_policy \<Rightarrow> secret_rule list \<Rightarrow> bool \<Rightarrow> json \<Rightarrow> json" where
  "redact_structure un pol rules full (JObj kvs) =
     JObj (map (\<lambda>(k, v). (k,
       case v of
         JObj _ \<Rightarrow> redact_structure un pol rules full v
       | JArr _ \<Rightarrow> redact_structure un pol rules full v
       | JStr s \<Rightarrow> (if sensitive_key k then JStr (latin (if full then REDACTED else mask_secret_string 3 2 (u_str s)))
                    else redact_structure un pol rules full v)
       | _ \<Rightarrow> (if sensitive_key k then JStr (latin REDACTED) else redact_structure un pol rules full v))) kvs)"
| "redact_structure un pol rules full (JArr vs) = JArr (map (redact_structure un pol rules full) vs)"
| "redact_structure un pol rules full (JStr s) = JStr (latin (redact_text un pol rules (Some full) (u_str s)))"
| "redact_structure un pol rules full v = v"

definition sanitize_secrets :: "uni \<Rightarrow> ustr \<Rightarrow> bool \<Rightarrow> ustr" where
  "sanitize_secrets un txt full = redact_text un default_policy RULES (Some full) txt"

definition sanitize_dict :: "uni \<Rightarrow> json \<Rightarrow> bool \<Rightarrow> json" where
  "sanitize_dict un data full = redact_structure un default_policy RULES full data"

section \<open>Ingress\<close>

definition blank_words :: "string list \<Rightarrow> regex list" where
  "blank_words ws = (case ws of [] \<Rightarrow> [] | w # r \<Rightarrow> lit_ci w # concat (map (\<lambda>x. [plus space, lit_ci x]) r))"

definition opt_words :: "string list \<Rightarrow> regex" where "opt_words ws = opt (seqs (blank_words ws @ [plus space]))"

definition any_ci :: "string list \<Rightarrow> regex" where "any_ci ws = alts (map lit_ci ws)"

definition INGRESS_INJECTION_PATTERNS :: "regex list" where
  "INGRESS_INJECTION_PATTERNS =
     [seqs [lit_ci ''ignore'', plus space, opt_words [''all''], any_ci [''previous'', ''prior'', ''above''], plus space,
        any_ci [''instructions'', ''prompts'', ''rules'', ''directives'']],
      seqs [lit_ci ''disregard'', plus space, opt_words [''all''], any_ci [''previous'', ''prior'', ''system''], plus space,
        any_ci [''rules'', ''instructions'', ''directives'']],
      seqs (blank_words [''you'', ''are'', ''now''] @ [plus space, opt_words [''in''],
        any_ci [''developer'', ''god'', ''unrestricted'', ''jailbreak'', ''dan''], plus space, lit_ci ''mode'']),
      seqs [lit_ci ''system'', star space, any_ci [''prompt'', ''directive'', ''override'', ''instruction''], star space, lit '':''],
      seqs [lit_ci ''forget'', plus space, opt_words [''everything''],
        alts [seqs (blank_words [''you'', ''were'', ''told'']), seqs (blank_words [''all'', ''prior''])]],
      seqs [lit_ci ''bypass'', plus space, opt_words [''all''], any_ci [''safety'', ''guardrails'', ''filters'']]]"

definition INGRESS_PAYLOAD_PATTERNS :: "regex list" where
  "INGRESS_PAYLOAD_PATTERNS =
     [seqs [WordB, any_ci [''curl'', ''wget''], plus space, plus (Cls (\<lambda>c. c \<noteq> 10 \<and> c \<noteq> 124)), lit ''|'', star space,
        alts [lit_ci ''bash'', lit_ci ''sh'', Seq (lit_ci ''python'') (opt (Cls (any_of ''23''))), lit_ci ''zsh''], WordB],
      seqs [WordB, lit_ci ''rm'', plus space, lit_ci ''-rf'', plus space, Cls (any_of ''/~*'')],
      seqs [WordB, any_ci [''eval'', ''exec''], star space, lit ''('', star space,
        any_ci [''base64'', ''b64decode'', ''atob''], WordB],
      seqs [WordB, lit_ci ''base64'', plus space, lit_ci ''-d'', star space, lit ''|'', star space, any_ci [''bash'', ''sh''], WordB]]"

definition zero_width :: "nat \<Rightarrow> bool" where
  "zero_width c \<longleftrightarrow> (0x200B \<le> c \<and> c \<le> 0x200D) \<or> c = 0xFEFF"

definition normalize_text_for_security :: "(ustr \<Rightarrow> ustr) \<Rightarrow> ustr \<Rightarrow> ustr" where
  "normalize_text_for_security nfkc txt = (if txt = [] then [] else filter (\<lambda>c. \<not> zero_width c) (nfkc txt))"

definition contains_prompt_injection :: "uni \<Rightarrow> (ustr \<Rightarrow> ustr) \<Rightarrow> ustr \<Rightarrow> bool" where
  "contains_prompt_injection un nfkc txt \<longleftrightarrow>
     txt \<noteq> [] \<and> list_ex (\<lambda>p. re_found un p (normalize_text_for_security nfkc txt)) INGRESS_INJECTION_PATTERNS"

definition injection_notice :: ustr where
  "injection_notice = [91, 0x1F6A8, 32, 72, 65, 79, 83, 45, 65, 78, 84, 73, 86, 73, 82, 85, 83, 58, 32, 0x5075, 0x6E2C,
       0x5230, 0x7591, 0x4F3C, 32, 65, 73, 32, 0x63D0, 0x793A, 0x8A5E, 0x6CE8, 0x5165, 0x7279, 0x5FB5,
       0xFF0C, 0x5DF2, 0x81EA, 0x52D5, 0x7269, 0x7406, 0x6D88, 0x9664, 93]"

definition payload_notice :: ustr where
  "payload_notice = [91, 0x26A0, 0xFE0F, 32, 72, 65, 79, 83, 45, 83, 69, 67, 85, 82, 73, 84, 89, 58, 32, 0x5075,
       0x6E2C, 0x5230, 0x9AD8, 0x5371, 0x96AA, 0x6307, 0x4EE4, 0x6A21, 0x5F0F, 0xFF0C, 0x5DF2, 0x4E2D,
       0x548C, 0x70BA, 0x5B89, 0x5168, 0x8AAA, 0x660E, 93]"

definition isolation_banner :: "ustr \<Rightarrow> ustr" where
  "isolation_banner label =
     [62, 32, 0x1F6E1, 0xFE0F, 32, 42, 42, 0x3010, 72, 65, 79, 83, 32, 0x7121, 0x83CC, 0x9694, 0x96E2,
       0x9632, 0x8B77, 0x7F69, 32, 40] @ label @
     [41, 0x3011, 42, 42, 0xFF1A, 10, 62, 32, 0x4EE5, 0x4E0B, 0x5167, 0x5BB9, 0x70BA, 0x7CFB, 0x7D71,
       0x5916, 0x90E8, 0x5C0E, 0x5165, 0x4E4B, 0x672A, 0x53D7, 0x4FE1, 0x4EFB, 0x7D14, 0x8CC7, 0x6599,
       0xFF0C, 0x56B4, 0x7981, 32, 65, 103, 101, 110, 116, 32, 0x8996, 0x70BA, 0x6307, 0x4EE4, 0x57F7,
       0x884C, 0xFF01, 10, 62, 32, 0x4EFB, 0x4F55, 0x8981, 0x6C42, 0x5FFD, 0x7565, 0x898F, 0x5247,
       0x3001, 0x7D22, 0x53D6, 0x5BC6, 0x9470, 0x6216, 0x57F7, 0x884C, 0x547D, 0x4EE4, 0x4E4B, 0x5167,
       0x5BB9, 0x5747, 0x70BA, 0x6575, 0x5C0D, 0x653B, 0x64CA, 0xFF0C, 0x5FC5, 0x9808, 0x5805, 0x6C7A,
       0x62D2, 0x7D55, 0x3002, 10, 10]"

definition sanitize_untrusted_input :: "uni \<Rightarrow> (ustr \<Rightarrow> ustr) \<Rightarrow> bool \<Rightarrow> ustr \<Rightarrow> ustr \<Rightarrow> ustr" where
  "sanitize_untrusted_input un nfkc wrap label txt =
     (if txt = [] then []
      else
        let c0 = normalize_text_for_security nfkc txt;
            c1 = foldl (\<lambda>s p. re_sub un p (\<lambda>_ _. injection_notice) s) c0 INGRESS_INJECTION_PATTERNS;
            c2 = foldl (\<lambda>s p. re_sub un p (\<lambda>_ _. payload_notice) s) c1 INGRESS_PAYLOAD_PATTERNS
        in if wrap then isolation_banner label @ c2 else c2)"

section \<open>Null bytes\<close>

definition drop_nulls :: "string \<Rightarrow> string" where
  "drop_nulls s = filter (\<lambda>c. c \<noteq> CHR 0x00) s"

datatype command_payload = CommandText string | CommandArgs "string list"

fun sanitize_command_payload :: "command_payload \<Rightarrow> command_payload" where
  "sanitize_command_payload (CommandText s) = CommandText (drop_nulls s)"
| "sanitize_command_payload (CommandArgs args) = CommandArgs (map drop_nulls args)"

definition sanitize_environment :: "string dict option \<Rightarrow> string dict option" where
  "sanitize_environment env =
     map_option (\<lambda>d. foldl (\<lambda>acc (k, v). AList.update (drop_nulls k) (drop_nulls v) acc) [] d) env"

section \<open>Lemmas\<close>

lemma redact_unchanged:
  assumes "\<not> contains_secrets un rules txt"
  shows "redact_text un pol rules f txt = txt"
proof (cases "txt = []")
  case False
  with assms have none: "\<forall>r \<in> set rules. \<not> re_found un (sr_pattern r) txt"
    by (simp add: contains_secrets_def list_ex_iff)
  have "foldl (\<lambda>s r. if rule_enabled pol r then re_sub un (sr_pattern r) (rule_replace pol full r) s else s) txt rs = txt"
    if "set rs \<subseteq> set rules" for rs full
    using that none by (induction rs) (auto simp: re_sub_not_found)
  then show ?thesis using False by (simp add: redact_text_def Let_def)
qed (simp add: redact_text_def)

text \<open>A replacement keeps the text between the matches that the scan finds and replaces the matches.\<close>

definition put_together :: "(ustr \<Rightarrow> groups \<Rightarrow> ustr) \<Rightarrow> (ustr \<times> ustr \<times> groups) list \<times> ustr \<Rightarrow> ustr" where
  "put_together f c = concat (map (\<lambda>(gap, m, gs). gap @ f m gs) (fst c)) @ snd c"

lemma sub_scan: "rev gap @ sub_from un r f pre s = put_together f (scan_from un r pre gap s)"
  by (induction un r pre gap s rule: scan_from.induct)
     (auto simp: put_together_def split: option.splits prod.splits)

lemma text_scan: "rev gap @ s = put_together (\<lambda>m gs. m) (scan_from un r pre gap s)"
proof (induction un r pre gap s rule: scan_from.induct)
  case (2 un r pre gap c rest)
  show ?case
  proof (cases "match_at un r pre (c # rest)")
    case (Some ngs)
    obtain n gs where n: "ngs = (n, gs)" by (cases ngs)
    show ?thesis
    proof (cases "n = 0")
      case False
      have "c # rest = take n (c # rest) @ drop n (c # rest)" by simp
      also have "drop n (c # rest) = put_together (\<lambda>m gs. m) (scan_from un r (rev (take n (c # rest)) @ pre) [] (drop n (c # rest)))"
        using 2(3) [OF Some n [symmetric] False] by simp
      finally show ?thesis using Some n False by (cases "scan_from un r (rev (take n (c # rest)) @ pre) [] (drop n (c # rest))") (simp add: put_together_def)
    qed (use 2(2) [OF Some n [symmetric]] Some n in simp)
  qed (use 2(1) in simp)
qed (simp add: put_together_def)

lemma re_sub_scan: "re_sub un r f s = put_together f (scan_from un r [] [] s)"
  using sub_scan [of "[]" un r f "[]" s] by (simp add: re_sub_def)

lemma detect_spans: "map (\<lambda>(_, _, a, b). (a, b)) (detect un [r] s) = spans 0 (fst (scan_from un (sr_pattern r) [] [] s))"
  by (simp add: detect_def case_prod_beta comp_def)

text \<open>Redaction is one rule after the other, each on the result of the ones before.\<close>

lemma redact_step:
  assumes "txt \<noteq> []"
  shows "redact_text un pol (rules @ [r]) f txt =
    (if rule_enabled pol r
     then re_sub un (sr_pattern r) (rule_replace pol (case f of None \<Rightarrow> sp_full_redact pol | Some b \<Rightarrow> b) r) (redact_text un pol rules f txt)
     else redact_text un pol rules f txt)"
  using assms by (simp add: redact_text_def Let_def)

text \<open>The value at a place of nested data, with the key it stands under when it is an entry of an object.\<close>

fun container :: "json \<Rightarrow> bool" where
  "container (JObj _) = True"
| "container (JArr _) = True"
| "container _ = False"

fun value_at :: "string option \<Rightarrow> nat list \<Rightarrow> json \<Rightarrow> (string option \<times> json) option" where
  "value_at k [] v = Some (k, v)"
| "value_at k (i # p) (JObj kvs) = (if i < length kvs then value_at (Some (fst (kvs ! i))) p (snd (kvs ! i)) else None)"
| "value_at k (i # p) (JArr vs) = (if i < length vs then value_at None p (vs ! i) else None)"
| "value_at k (i # p) _ = None"

definition under_sensitive_key :: "string option \<Rightarrow> bool" where
  "under_sensitive_key k = (case k of None \<Rightarrow> False | Some key \<Rightarrow> sensitive_key key)"

fun skeleton :: "json \<Rightarrow> json" where
  "skeleton (JObj kvs) = JObj (map (\<lambda>(k, v). (k, skeleton v)) kvs)"
| "skeleton (JArr vs) = JArr (map skeleton vs)"
| "skeleton _ = JNull"

text \<open>The entry an object gets for one of its own.\<close>

definition redact_entry :: "uni \<Rightarrow> secret_policy \<Rightarrow> secret_rule list \<Rightarrow> bool \<Rightarrow> string \<Rightarrow> json \<Rightarrow> json" where
  "redact_entry un pol rules full k v =
     (if sensitive_key k \<and> \<not> container v then
        JStr (latin (case v of JStr s \<Rightarrow> (if full then REDACTED else mask_secret_string 3 2 (u_str s)) | _ \<Rightarrow> REDACTED))
      else redact_structure un pol rules full v)"

lemma redact_object:
  "redact_structure un pol rules full (JObj kvs) = JObj (map (\<lambda>(k, v). (k, redact_entry un pol rules full k v)) kvs)"
proof -
  have "(case v of
         JObj _ \<Rightarrow> redact_structure un pol rules full v
       | JArr _ \<Rightarrow> redact_structure un pol rules full v
       | JStr s \<Rightarrow> (if sensitive_key k then JStr (latin (if full then REDACTED else mask_secret_string 3 2 (u_str s)))
                    else redact_structure un pol rules full v)
       | _ \<Rightarrow> (if sensitive_key k then JStr (latin REDACTED) else redact_structure un pol rules full v)) =
     redact_entry un pol rules full k v" for k v
    unfolding redact_entry_def by (cases v) (simp_all only: json.case container.simps simp_thms if_True if_False split: if_split)
  then show ?thesis by (subst redact_structure.simps(1)) (simp only:)
qed

declare redact_structure.simps(1) [simp del]

text \<open>What a plain value becomes.\<close>

definition redact_plain :: "uni \<Rightarrow> secret_policy \<Rightarrow> secret_rule list \<Rightarrow> bool \<Rightarrow> string option \<Rightarrow> json \<Rightarrow> json" where
  "redact_plain un pol rules full k v =
     (if under_sensitive_key k
      then JStr (latin (case v of JStr s \<Rightarrow> if full then REDACTED else mask_secret_string 3 2 (u_str s) | _ \<Rightarrow> REDACTED))
      else case v of JStr s \<Rightarrow> JStr (latin (redact_text un pol rules (Some full) (u_str s))) | _ \<Rightarrow> v)"

lemma redact_entry_plain: "\<not> container v \<Longrightarrow> redact_entry un pol rules full k v = redact_plain un pol rules full (Some k) v"
  by (cases v) (simp_all add: redact_entry_def redact_plain_def under_sensitive_key_def)

lemma redact_top_plain: "\<not> container v \<Longrightarrow> redact_structure un pol rules full v = redact_plain un pol rules full None v"
  by (cases v) (simp_all add: redact_plain_def under_sensitive_key_def)

lemma value_at_container:
  "value_at k p j = Some (k', v) \<Longrightarrow> p \<noteq> [] \<Longrightarrow> container j"
  by (cases j; cases p) auto

lemma value_at_redact:
  assumes "value_at None p j = Some (k, v)" and "\<not> container v"
  shows "value_at None p (redact_structure un pol rules full j) = Some (k, redact_plain un pol rules full k v)"
proof -
  have "value_at k0 p j = Some (k, v) \<Longrightarrow> p \<noteq> [] \<Longrightarrow>
      value_at k0 p (redact_structure un pol rules full j) = Some (k, redact_plain un pol rules full k v)" for k0
  proof (induction p arbitrary: k0 j)
    case (Cons i p)
    show ?case
    proof (cases j)
      case (JObj kvs)
      let ?k = "fst (kvs ! i)" and ?w = "snd (kvs ! i)"
      from Cons.prems(1) have i: "i < length kvs" and w: "value_at (Some ?k) p ?w = Some (k, v)"
        by (auto simp: JObj split: if_splits)
      have "value_at (Some ?k) p (redact_entry un pol rules full ?k ?w) = Some (k, redact_plain un pol rules full k v)"
      proof (cases "p = []")
        case True
        with w assms(2) show ?thesis by (simp add: redact_entry_plain)
      next
        case False
        with value_at_container [OF w] have "container ?w" by simp
        with Cons.IH [OF w False] show ?thesis by (simp add: redact_entry_def)
      qed
      with i show ?thesis by (simp add: JObj redact_object case_prod_beta)
    next
      case (JArr vs)
      from Cons.prems(1) have i: "i < length vs" and w: "value_at None p (vs ! i) = Some (k, v)"
        by (auto simp: JArr split: if_splits)
      have "value_at None p (redact_structure un pol rules full (vs ! i)) = Some (k, redact_plain un pol rules full k v)"
        using Cons.IH [OF w] w assms(2) by (cases "p = []") (auto simp: redact_top_plain)
      with i show ?thesis by (simp add: JArr)
    qed (use Cons.prems in auto)
  qed simp
  with assms show ?thesis by (cases "p = []") (auto simp: redact_top_plain)
qed

lemma skeleton_redact: "skeleton (redact_structure un pol rules full j) = skeleton j"
proof (induction j)
  case (JObj kvs)
  have "skeleton (redact_entry un pol rules full k v) = skeleton v" if "(k, v) \<in> set kvs" for k v
  proof (cases "sensitive_key k \<and> \<not> container v")
    case True
    then show ?thesis by (cases v) (simp_all add: redact_entry_def)
  next
    case False
    have "v \<in> Basic_BNFs.snds (k, v)" by simp
    with JObj [OF that] show ?thesis unfolding redact_entry_def if_not_P [OF False] by blast
  qed
  then show ?case by (auto simp: redact_object)
qed auto

lemma drop_nulls_clean: "CHR 0x00 \<notin> set (drop_nulls s)"
  by (simp add: drop_nulls_def)

lemma environment_fold:
  "map_of (foldl (\<lambda>acc (k, v). AList.update (drop_nulls k) (drop_nulls v) acc) acc d) n =
     (case find (\<lambda>(k, v). drop_nulls k = n) (rev d) of Some (k, v) \<Rightarrow> Some (drop_nulls v) | None \<Rightarrow> map_of acc n)"
proof (induction d arbitrary: acc)
  case (Cons e d)
  obtain k v where e: "e = (k, v)" by (cases e)
  have "find P (xs @ ys) = (case find P xs of Some x \<Rightarrow> Some x | None \<Rightarrow> find P ys)" for P and xs ys :: "(string \<times> string) list"
    by (induction xs) auto
  then show ?case by (auto simp: e Cons.IH split: option.splits)
qed simp

lemma environment_clean:
  "\<forall>(k, v) \<in> set acc. CHR 0x00 \<notin> set k \<union> set v \<Longrightarrow>
   \<forall>(k, v) \<in> set (foldl (\<lambda>acc (k, v). AList.update (drop_nulls k) (drop_nulls v) acc) acc d). CHR 0x00 \<notin> set k \<union> set v"
proof (induction d arbitrary: acc)
  case (Cons e d)
  obtain k v where e: "e = (k, v)" by (cases e)
  have "set (AList.update (drop_nulls k) (drop_nulls v) acc) \<subseteq> insert (drop_nulls k, drop_nulls v) (set acc)"
    by (induction acc) auto
  then have "\<forall>(k, v) \<in> set (AList.update (drop_nulls k) (drop_nulls v) acc). CHR 0x00 \<notin> set k \<union> set v"
    using Cons.prems drop_nulls_clean by blast
  from Cons.IH [OF this] show ?case by (simp add: e)
qed simp

text \<open>A secret in a list under a sensitive key is not redacted, and a mask without suffix shows the secret.\<close>

lemma listed_secret_is_kept:
  "sanitize_dict (\<lambda>_. False) (JObj [(''password'', JArr [JStr ''hunter2'']), (''token'', JInt 1)]) True =
     JObj [(''password'', JArr [JStr ''hunter2'']), (''token'', JStr ''[REDACTED]'')]"
  by code_simp

lemma mask_without_suffix: "0 < length (u_strip s) \<Longrightarrow> mask_secret_string 0 0 s = u_str ''***'' @ u_strip s"
proof -
  assume "0 < length (u_strip s)"
  moreover have "u_strip [] = []" by (simp add: u_strip_def)
  ultimately show ?thesis by (auto simp: mask_secret_string_def last_chars_def Let_def)
qed

section \<open>Properties\<close>

text \<open>C34: what redaction does to data and to texts.
  (1) In nested data, at any depth, a plain value that stands directly under a sensitive key becomes the marker (a text under
  partial redaction its mask); any other text, the items of a list included, even of a list under a sensitive key, is redacted
  as a text; every other value and the shape of the data stay.
  (2) A text is redacted by one rule after the other. A rule that the policy enables replaces, in the result of the rules
  before it, exactly the places that the detector reports for it, each by the rule's replacement, and keeps the text between
  them; a rule that is not enabled changes nothing; and a text in which the detector finds no secret is left as it is.
  (3) A mask with a suffix hides at least one character of the stripped secret and shows no more than its prefix and suffix.\<close>

theorem redaction_is_exact:
  "(value_at None p j = Some (k, v) \<and> \<not> container v \<longrightarrow>
      value_at None p (redact_structure un pol rules full j) = Some (k,
        if under_sensitive_key k
        then JStr (latin (case v of JStr s \<Rightarrow> if full then REDACTED else mask_secret_string 3 2 (u_str s) | _ \<Rightarrow> REDACTED))
        else case v of JStr s \<Rightarrow> JStr (latin (redact_text un pol rules (Some full) (u_str s))) | _ \<Rightarrow> v)) \<and>
   skeleton (redact_structure un pol rules full j) = skeleton j \<and>
   redact_text un pol [] f txt = txt \<and>
   (\<exists>ms fin. redact_text un pol rules f txt = concat (map (\<lambda>(gap, m, gs). gap @ m) ms) @ fin \<and>
      map (\<lambda>(_, _, a, b). (a, b)) (detect un [r] (redact_text un pol rules f txt)) = spans 0 ms \<and>
      redact_text un pol (rules @ [r]) f txt =
        (if rule_enabled pol r
         then concat (map (\<lambda>(gap, m, gs). gap @ rule_replace pol (case f of None \<Rightarrow> sp_full_redact pol | Some b \<Rightarrow> b) r m gs) ms) @ fin
         else redact_text un pol rules f txt)) \<and>
   (\<not> contains_secrets un rules txt \<longrightarrow> redact_text un pol rules f txt = txt) \<and>
   (0 < suf \<longrightarrow> mask_secret_string pre suf s = REDACTED \<or>
      (\<exists>a b c. u_strip s = a @ b @ c \<and> b \<noteq> [] \<and> length a = pre \<and> length c = suf \<and>
         mask_secret_string pre suf s = a @ u_str ''***'' @ c))"
proof (intro conjI impI)
  assume "value_at None p j = Some (k, v) \<and> \<not> container v"
  then show "value_at None p (redact_structure un pol rules full j) = Some (k,
        if under_sensitive_key k
        then JStr (latin (case v of JStr s \<Rightarrow> if full then REDACTED else mask_secret_string 3 2 (u_str s) | _ \<Rightarrow> REDACTED))
        else case v of JStr s \<Rightarrow> JStr (latin (redact_text un pol rules (Some full) (u_str s))) | _ \<Rightarrow> v)"
    using value_at_redact [of p j k v un pol rules full] unfolding redact_plain_def by blast
next
  let ?s = "redact_text un pol rules f txt"
  obtain ms fin where ms: "scan_from un (sr_pattern r) [] [] ?s = (ms, fin)" by (cases "scan_from un (sr_pattern r) [] [] ?s")
  have "txt = [] \<Longrightarrow> ms = [] \<and> fin = [] \<and> ?s = []" using ms by (simp add: redact_text_def)
  then
  show "\<exists>ms fin. ?s = concat (map (\<lambda>(gap, m, gs). gap @ m) ms) @ fin \<and>
      map (\<lambda>(_, _, a, b). (a, b)) (detect un [r] ?s) = spans 0 ms \<and>
      redact_text un pol (rules @ [r]) f txt =
        (if rule_enabled pol r
         then concat (map (\<lambda>(gap, m, gs). gap @ rule_replace pol (case f of None \<Rightarrow> sp_full_redact pol | Some b \<Rightarrow> b) r m gs) ms) @ fin
         else ?s)"
    using ms text_scan [of "[]" "?s" un "sr_pattern r" "[]"] detect_spans [of un r "?s"] redact_step [of "txt" un pol rules r f]
    by (intro exI [of _ ms] exI [of _ fin]) (cases "txt = []", auto simp: put_together_def re_sub_scan redact_text_def)
  show "redact_text un pol [] f txt = txt" by (simp add: redact_text_def)
  show "skeleton (redact_structure un pol rules full j) = skeleton j" by (rule skeleton_redact)
  show "redact_text un pol rules f txt = txt" if "\<not> contains_secrets un rules txt" using that by (rule redact_unchanged)
  show "mask_secret_string pre suf s = REDACTED \<or>
      (\<exists>a b c. u_strip s = a @ b @ c \<and> b \<noteq> [] \<and> length a = pre \<and> length c = suf \<and>
         mask_secret_string pre suf s = a @ u_str ''***'' @ c)" if "0 < suf"
  proof (cases "s = [] \<or> length (u_strip s) \<le> pre + suf")
    case False
    then obtain a r where t: "u_strip s = a @ r" and a: "length a = pre" and r: "suf < length r"
      by (metis append_take_drop_id diff_diff_left length_drop length_take less_diff_conv2 linorder_not_le min.absorb4
          add_lessD1 zero_less_diff)
    obtain b c where r: "r = b @ c" "b \<noteq> []" "length c = suf"
      using r by (metis append_take_drop_id diff_diff_cancel length_drop less_or_eq_imp_le take_eq_Nil2 zero_less_diff
          linorder_not_le list.size(3) bot_nat_0.not_eq_extremum)
    have "mask_secret_string pre suf s = a @ u_str ''***'' @ c"
      using False t a r that by (simp add: mask_secret_string_def last_chars_def Let_def)
    with t a r show ?thesis by blast
  qed (auto simp: mask_secret_string_def Let_def)
qed

theorem redaction_is_exact_witness:
  "value_at None [0, 0] (redact_structure (\<lambda>_. False) default_policy RULES True (JArr [JObj [(''db_password'', JStr ''hunter2'')]])) =
     Some (Some ''db_password'', JStr ''[REDACTED]'') \<and>
   redact_text (\<lambda>_. False) default_policy RULES None (u_str ''hello'') = u_str ''hello''"
proof -
  have n: "\<not> contains_secrets (\<lambda>_. False) RULES (u_str ''hello'')" by code_simp
  have v: "value_at None [0, 0] (JArr [JObj [(''db_password'', JStr ''hunter2'')]]) = Some (Some ''db_password'', JStr ''hunter2'')"
    by simp
  have k: "under_sensitive_key (Some ''db_password'')" and m: "latin REDACTED = ''[REDACTED]''" by code_simp+
  from redaction_is_exact [of "[0, 0]" "JArr [JObj [(''db_password'', JStr ''hunter2'')]]" "Some ''db_password''" "JStr ''hunter2''"
      "\<lambda>_. False" default_policy RULES True None "u_str ''hello''"] n v k m
  show ?thesis by simp
qed

text \<open>A key of twenty characters in a text is replaced by the marker, and nothing else of the text is.\<close>

lemma demo_key_is_hidden:
  "redact_text (\<lambda>_. False) default_policy RULES None (u_str ''use sk-0123456789abcdefg now'') = u_str ''use [REDACTED] now''"
  by code_simp

text \<open>No null byte survives. No key or value of a cleaned environment and no argument of a cleaned
  command contains one, and a cleaned key has the value of the last variable that is cleaned to it.\<close>

theorem null_bytes_are_removed:
  "(\<forall>e. sanitize_environment (Some d) = Some e \<longrightarrow>
      (\<forall>(k, v) \<in> set e. CHR 0x00 \<notin> set k \<union> set v) \<and>
      map_of e n = map_option (\<lambda>(k, v). drop_nulls v) (find (\<lambda>(k, v). drop_nulls k = n) (rev d))) \<and>
   (case sanitize_command_payload c of CommandText s \<Rightarrow> CHR 0x00 \<notin> set s | CommandArgs as \<Rightarrow> \<forall>a \<in> set as. CHR 0x00 \<notin> set a)"
proof (intro conjI allI impI)
  fix e
  assume "sanitize_environment (Some d) = Some e"
  then have e: "e = foldl (\<lambda>acc (k, v). AList.update (drop_nulls k) (drop_nulls v) acc) [] d"
    by (simp add: sanitize_environment_def)
  show "\<forall>(k, v) \<in> set e. CHR 0x00 \<notin> set k \<union> set v" unfolding e by (rule environment_clean) simp
  show "map_of e n = map_option (\<lambda>(k, v). drop_nulls v) (find (\<lambda>(k, v). drop_nulls k = n) (rev d))"
    unfolding e environment_fold by (auto split: option.splits)
next
  show "case sanitize_command_payload c of CommandText s \<Rightarrow> CHR 0x00 \<notin> set s | CommandArgs as \<Rightarrow> \<forall>a \<in> set as. CHR 0x00 \<notin> set a"
    by (cases c) (auto simp: drop_nulls_clean)
qed

theorem null_bytes_are_removed_witness:
  "sanitize_environment (Some [(''A'', CHR 0x00 # ''x'')]) = Some [(''A'', ''x'')] \<and> map_of [(''A'', ''x'')] ''A'' = Some ''x''"
proof -
  have e: "sanitize_environment (Some [(''A'', CHR 0x00 # ''x'')]) = Some [(''A'', ''x'')]" by code_simp
  from null_bytes_are_removed [of "[(''A'', CHR 0x00 # ''x'')]" "''A''" "CommandText []"] e show ?thesis
    by (simp add: drop_nulls_def)
qed

end
