(* ===== verification/InlinePatch.thy ===== *)
theory InlinePatch
  imports PathSanitizer RuntimeControl
begin

text \<open>
  The inline patch engine, \<open>src/capabilities/inline_patch/inline_patch_engine.py\<close>: the sandbox of the
  path, the exact and the fuzzy search for a block of lines, and the replacement. What the system
  answers is \<open>fs\<close> and \<open>patch_env\<close>; whether Python can parse a text is a parameter. The result says
  what is written. The unified diff of a success is not modelled.
\<close>

section \<open>The sandbox\<close>

definition BLOCKED_SENSITIVE_TARGETS :: "ustr list" where
  "BLOCKED_SENSITIVE_TARGETS = map u_str
     [''.ssh'', ''.gnupg'', ''.env'', ''config.yaml'', ''.git'', ''.bashrc'', ''.profile'', ''.zshrc'', ''.bash_profile'',
      ''passwd'', ''shadow'']"

definition PATCH_SYSTEM_DIRS :: "ustr list" where
  "PATCH_SYSTEM_DIRS = map u_str [''/etc'', ''/proc'', ''/sys'', ''/dev'', ''/root'']"

datatype boundary_error = NoPath | NullInPath | InvalidPath | OutsideRoot | SensitiveTarget ustr | SystemDirectory

definition validate_path_sandbox :: "fs \<Rightarrow> ppath \<Rightarrow> ustr \<Rightarrow> boundary_error + ppath" where
  "validate_path_sandbox f allowed file_path =
     (if file_path = [] then Inl NoPath
      else if 0 \<in> set file_path \<or> contains file_path (u_str ''%00'') then Inl NullInPath
      else case Option.bind (path_expanduser f (ppath_of file_path)) (fs_resolve f) of
          None \<Rightarrow> Inl InvalidPath
        | Some resolved \<Rightarrow>
            (if relative_to resolved allowed = None then Inl OutsideRoot
             else case find (\<lambda>p. p \<in> set BLOCKED_SENSITIVE_TARGETS) (all_parts resolved) of
                 Some p \<Rightarrow> Inl (SensitiveTarget p)
               | None \<Rightarrow>
                   (if list_ex (\<lambda>d. starts_with (path_str resolved) d) PATCH_SYSTEM_DIRS then Inl SystemDirectory
                    else Inr resolved)))"

section \<open>Lines\<close>

text \<open>\<open>splitlines(keepends=True)\<close>.\<close>

fun split_keep :: "ustr \<Rightarrow> ustr \<Rightarrow> ustr list" where
  "split_keep line [] = (if line = [] then [] else [rev line])"
| "split_keep line (c # s) =
     (if line_break c then
        (if c = 13 \<and> s \<noteq> [] \<and> hd s = 10 then (rev line @ [13, 10]) # split_keep [] (tl s)
         else (rev line @ [c]) # split_keep [] s)
      else split_keep (c # line) s)"

text \<open>Reading in text mode turns every line ending into a newline.\<close>

fun universal_newlines :: "ustr \<Rightarrow> ustr" where
  "universal_newlines [] = []"
| "universal_newlines (c # s) =
     (if c = 13 then 10 # universal_newlines (if s \<noteq> [] \<and> hd s = 10 then tl s else s) else c # universal_newlines s)"

definition u_rstrip :: "ustr \<Rightarrow> ustr" where
  "u_rstrip s = rev (dropWhile u_space (rev s))"

definition slice :: "nat \<Rightarrow> nat \<Rightarrow> 'a list \<Rightarrow> 'a list" where
  "slice a b xs = take (b - a) (drop a xs)"

definition block_starts :: "'a list \<Rightarrow> 'a list \<Rightarrow> nat list" where
  "block_starts content target =
     filter (\<lambda>i. slice i (i + length target) content = target) [0..<Suc (length content) - length target]"

definition find_block_matches :: "ustr list \<Rightarrow> ustr list \<Rightarrow> nat list" where
  "find_block_matches content target = (if target = [] then [] else block_starts content target)"

definition find_normalized_matches :: "ustr list \<Rightarrow> ustr list \<Rightarrow> nat list" where
  "find_normalized_matches content target = block_starts (map u_rstrip content) (map u_rstrip target)"

text \<open>The last line gets a newline when the file's first line has one and it has none.\<close>

definition complete_last :: "ustr list \<Rightarrow> ustr list \<Rightarrow> ustr list" where
  "complete_last original lines =
     (if lines \<noteq> [] \<and> \<not> (ends_with (last lines) [10] \<or> ends_with (last lines) [13]) \<and>
         original \<noteq> [] \<and> ends_with (hd original) [10]
      then butlast lines @ [last lines @ [10]] else lines)"

text \<open>The loop over the matches: what is copied before each one, and what is left after the last.\<close>

fun replace_blocks :: "ustr list \<Rightarrow> nat \<Rightarrow> ustr list \<Rightarrow> nat \<Rightarrow> nat list \<Rightarrow> ustr list" where
  "replace_blocks original len replacement last_end [] = drop last_end original"
| "replace_blocks original len replacement last_end (i # is) =
     slice last_end i original @ replacement @ replace_blocks original len replacement (i + len) is"

section \<open>The patch\<close>

datatype patch_failure =
    Boundary boundary_error | NoFile | NotAFile | NotUtf8 | BlockNotFound nat | AmbiguousBlock "nat list"
  | SyntaxBroken | DiskWrite

record patch_success =
  pt_matches :: nat
  pt_match_lines :: "nat list"
  pt_fuzzy :: bool
  pt_lines_changed :: nat

text \<open>\<open>pe_content\<close> is the text of the file before newlines are translated; \<open>None\<close> if it is not UTF-8.\<close>

record patch_env =
  pe_is_file :: bool
  pe_content :: "ustr option"
  pe_write_ok :: bool

definition search_block :: "ustr list \<Rightarrow> ustr list \<Rightarrow> nat list \<times> bool" where
  "search_block original target =
     (let exact = find_block_matches original target in
      if exact \<noteq> [] then (exact, False)
      else let fuzzy = find_normalized_matches original target in (fuzzy, fuzzy \<noteq> []))"

definition patch_lines ::
  "(ustr \<Rightarrow> bool) \<Rightarrow> bool \<Rightarrow> bool \<Rightarrow> bool \<Rightarrow> ustr list \<Rightarrow> ustr list \<Rightarrow> ustr list \<Rightarrow>
   patch_failure + patch_success \<times> ustr list" where
  "patch_lines ast_ok check_ast write_ok allow_multiple original target replacement =
     (case search_block original target of (idx, fuzzy) \<Rightarrow>
        (if idx = [] then Inl (BlockNotFound (length original))
         else if 1 < length idx \<and> \<not> allow_multiple then Inl (AmbiguousBlock (map (\<lambda>i. i + 1) idx))
         else
           let new = replace_blocks original (length target) replacement 0 idx in
           if check_ast \<and> \<not> ast_ok (concat new) then Inl SyntaxBroken
           else if \<not> write_ok then Inl DiskWrite
           else Inr (\<lparr>pt_matches = length idx, pt_match_lines = map (\<lambda>i. i + 1) idx, pt_fuzzy = fuzzy,
                      pt_lines_changed = nat \<bar>int (length new) - int (length original)\<bar> + length target\<rparr>, new)))"

text \<open>The result, and the path and text written, if any.\<close>

definition apply_inline_patch ::
  "fs \<Rightarrow> ppath \<Rightarrow> (ustr \<Rightarrow> bool) \<Rightarrow> patch_env \<Rightarrow> ustr \<Rightarrow> ustr \<Rightarrow> ustr \<Rightarrow> bool \<Rightarrow> bool \<Rightarrow>
   (patch_failure + patch_success) \<times> (ppath \<times> ustr) option" where
  "apply_inline_patch f allowed ast_ok e file_path target_block replacement_block allow_multiple validate_ast =
     (case validate_path_sandbox f allowed file_path of
        Inl b \<Rightarrow> (Inl (Boundary b), None)
      | Inr path \<Rightarrow>
          (if \<not> fs_exists f path then (Inl NoFile, None)
           else if \<not> pe_is_file e then (Inl NotAFile, None)
           else case pe_content e of
               None \<Rightarrow> (Inl NotUtf8, None)
             | Some raw \<Rightarrow>
                 (let original = split_keep [] (universal_newlines raw);
                      target = complete_last original (split_keep [] target_block);
                      replacement = complete_last original (split_keep [] replacement_block)
                  in case patch_lines ast_ok (validate_ast \<and> suffix path = u_str ''.py'') (pe_write_ok e) allow_multiple
                            original target replacement of
                       Inl e \<Rightarrow> (Inl e, None)
                     | Inr (s, new) \<Rightarrow> (Inr s, Some (path, concat new)))))"

section \<open>Lemmas\<close>

lemma slice_length: "slice a (a + n) xs = ys \<Longrightarrow> length ys = n \<Longrightarrow> a + n \<le> length xs \<or> n = 0"
  by (auto simp: slice_def)

lemma in_block_starts:
  "i \<in> set (block_starts content target) \<longleftrightarrow>
     (\<exists>pre post. content = pre @ target @ post \<and> length pre = i)"
proof
  assume "i \<in> set (block_starts content target)"
  then have i: "i + length target \<le> length content" "take (length target) (drop i content) = target"
    by (auto simp: block_starts_def slice_def)
  then have "content = take i content @ target @ drop (i + length target) content"
    by (metis append_take_drop_id add.commute drop_drop)
  with i show "\<exists>pre post. content = pre @ target @ post \<and> length pre = i"
    by (metis add_leD1 length_take min.absorb2)
next
  assume "\<exists>pre post. content = pre @ target @ post \<and> length pre = i"
  then show "i \<in> set (block_starts content target)" by (auto simp: block_starts_def slice_def)
qed

lemma map_eq_app3:
  "map f xs = a @ b @ c \<Longrightarrow> \<exists>x y z. xs = x @ y @ z \<and> map f x = a \<and> map f y = b \<and> map f z = c"
  unfolding map_eq_append_conv by (elim exE conjE) (metis append_eq_map_conv)

text \<open>Two blocks of lines agree, exactly or up to trailing blanks.\<close>

definition same_block :: "bool \<Rightarrow> ustr list \<Rightarrow> ustr list \<Rightarrow> bool" where
  "same_block fuzzy a b \<longleftrightarrow> (if fuzzy then map u_rstrip a = map u_rstrip b else a = b)"

lemma search_block_starts:
  assumes "search_block original target = (idx, fuzzy)" and "idx \<noteq> []"
  shows "i \<in> set idx \<longleftrightarrow> (\<exists>pre mid post. original = pre @ mid @ post \<and> length pre = i \<and> same_block fuzzy mid target)"
proof (cases fuzzy)
  case False
  with assms have "idx = block_starts original target"
    by (auto simp: search_block_def find_block_matches_def Let_def split: if_splits)
  then show ?thesis using False by (simp add: in_block_starts same_block_def)
next
  case True
  with assms have idx: "idx = block_starts (map u_rstrip original) (map u_rstrip target)"
    by (auto simp: search_block_def find_normalized_matches_def Let_def split: if_splits)
  show ?thesis
  proof
    assume "i \<in> set idx"
    then obtain a c where "map u_rstrip original = a @ map u_rstrip target @ c" and i: "length a = i"
      unfolding idx in_block_starts by blast
    from map_eq_app3 [OF this(1)] obtain x y z where "original = x @ y @ z" and x: "map u_rstrip x = a"
        and "map u_rstrip y = map u_rstrip target" by blast
    moreover have "length x = i" using x i by (metis length_map)
    ultimately show "\<exists>pre mid post. original = pre @ mid @ post \<and> length pre = i \<and> same_block fuzzy mid target"
      using True unfolding same_block_def by auto
  next
    assume "\<exists>pre mid post. original = pre @ mid @ post \<and> length pre = i \<and> same_block fuzzy mid target"
    then obtain pre mid post where "original = pre @ mid @ post" "length pre = i" "map u_rstrip mid = map u_rstrip target"
      using True unfolding same_block_def by auto
    then have "map u_rstrip original = map u_rstrip pre @ map u_rstrip target @ map u_rstrip post \<and>
        length (map u_rstrip pre) = i" by simp
    then show "i \<in> set idx" unfolding idx in_block_starts by blast
  qed
qed

lemma replace_one:
  "original = pre @ mid @ post \<Longrightarrow> length mid = len \<Longrightarrow>
   replace_blocks original len replacement 0 [length pre] = pre @ replacement @ post"
  by (simp add: slice_def)

lemma same_block_length: "same_block fuzzy a b \<Longrightarrow> length a = length b"
  by (auto simp: same_block_def dest: map_eq_imp_length_eq split: if_splits)

text \<open>Overlapping matches swallow lines: of three equal lines, a block of two is replaced twice and nothing of
  the file is left. An empty block matches everywhere. A file with carriage returns loses them all.\<close>

lemma overlapping_matches:
  "patch_lines (\<lambda>_. True) False True True [[97, 10], [97, 10], [97, 10]] [[97, 10], [97, 10]] [[98, 10]] =
     Inr (\<lparr>pt_matches = 2, pt_match_lines = [1, 2], pt_fuzzy = False, pt_lines_changed = 3\<rparr>, [[98, 10], [98, 10]])"
  by code_simp

lemma empty_block_matches_everywhere:
  "patch_lines (\<lambda>_. True) False True True [[97, 10], [98, 10]] [] [[120, 10]] =
     Inr (\<lparr>pt_matches = 3, pt_match_lines = [1, 2, 3], pt_fuzzy = True, pt_lines_changed = 3\<rparr>,
       [[120, 10], [97, 10], [120, 10], [98, 10], [120, 10]])"
  by code_simp

definition demo_patch :: "(patch_failure + patch_success) \<times> (ppath \<times> ustr) option" where
  "demo_patch = apply_inline_patch demo_fs (ppath_of (u_str ''/w'')) (\<lambda>_. True)
     \<lparr>pe_is_file = True, pe_content = Some [97, 13, 10, 98, 13, 10], pe_write_ok = True\<rparr>
     (u_str ''/w/f'') (u_str ''a'') (u_str ''c'') False True"

lemma carriage_returns_are_lost:
  "demo_patch = (Inr \<lparr>pt_matches = 1, pt_match_lines = [1], pt_fuzzy = False, pt_lines_changed = 1\<rparr>,
     Some (ppath_of (u_str ''/w/f''), [99, 10, 98, 10]))"
  by code_simp

text \<open>What a success of the line patch means.\<close>

lemma patch_lines_Inr:
  assumes "patch_lines ast_ok check_ast write_ok multiple original target replacement = Inr (s, new)"
    and "search_block original target = (idx, fuzzy)"
  shows "idx \<noteq> []" and "length idx = 1 \<or> multiple" and "pt_fuzzy s = fuzzy"
    and "new = replace_blocks original (length target) replacement 0 idx"
    and "pt_match_lines s = map (\<lambda>i. i + 1) idx" and "check_ast \<longrightarrow> ast_ok (concat new)"
proof -
  note d = assms(1) [unfolded patch_lines_def assms(2) prod.case Let_def]
  show "idx \<noteq> []" using d by (simp split: if_splits)
  moreover show "length idx = 1 \<or> multiple" using d by (cases idx) (auto split: if_splits)
  ultimately show "pt_fuzzy s = fuzzy" "new = replace_blocks original (length target) replacement 0 idx"
      "pt_match_lines s = map (\<lambda>i. i + 1) idx" "check_ast \<longrightarrow> ast_ok (concat new)"
    using d by (simp_all split: if_splits) auto
qed

section \<open>Properties\<close>

text \<open>What the sandbox accepts.\<close>

definition patch_target_ok :: "ppath \<Rightarrow> ppath \<Rightarrow> bool" where
  "patch_target_ok allowed p \<longleftrightarrow>
     relative_to p allowed \<noteq> None \<and> set (all_parts p) \<inter> set BLOCKED_SENSITIVE_TARGETS = {} \<and>
     (\<forall>d \<in> set PATCH_SYSTEM_DIRS. \<not> starts_with (path_str p) d)"

lemma validate_target_ok: "validate_path_sandbox f allowed file_path = Inr p \<Longrightarrow> patch_target_ok allowed p"
  by (auto simp: validate_path_sandbox_def patch_target_ok_def find_None_iff list_ex_iff disjoint_iff
      split: if_splits option.splits)

lemma concat_split_keep: "concat (split_keep line s) = rev line @ s"
  by (induction line s rule: split_keep.induct) (auto simp: neq_Nil_conv)

lemma universal_newlines_id: "13 \<notin> set s \<Longrightarrow> universal_newlines s = s"
  by (induction s rule: universal_newlines.induct) auto

text \<open>C33: a patch replaces its block, at one place only. The lines of a file are those of its text with every line ending
  turned into a newline, which is how the engine reads it; so a file that has carriage returns loses them when it is
  patched. When a patch that may not match twice writes, then the path is inside the sandbox, these lines contain the
  block, exactly or up to trailing blanks, at one place, and what is written are these lines with the replacement in its
  place, where in a file without carriage returns the lines before and after the block are its text, character by
  character; where validation is on, a Python file is then parsable; and the result is a success. Nothing is written with
  a failure.\<close>

theorem patch_replaces_only_its_block:
  assumes "apply_inline_patch f allowed ast_ok e file_path target_block replacement_block False validate = (res, Some (p, out))"
    and "pe_content e = Some raw" and "original = split_keep [] (universal_newlines raw)"
  shows "patch_target_ok allowed p \<and> (validate \<and> suffix p = u_str ''.py'' \<longrightarrow> ast_ok out) \<and>
    (\<exists>s pre mid post. res = Inr s \<and> original = pre @ mid @ post \<and>
       (13 \<notin> set raw \<longrightarrow> raw = concat pre @ concat mid @ concat post) \<and>
       same_block (pt_fuzzy s) mid (complete_last original (split_keep [] target_block)) \<and>
       pt_match_lines s = [length pre + 1] \<and>
       out = concat pre @ concat (complete_last original (split_keep [] replacement_block)) @ concat post \<and>
       (\<forall>pre' mid' post'. original = pre' @ mid' @ post' \<and>
          same_block (pt_fuzzy s) mid' (complete_last original (split_keep [] target_block)) \<longrightarrow> pre' = pre))"
proof -
  let ?target = "complete_last original (split_keep [] target_block)"
  let ?repl = "complete_last original (split_keep [] replacement_block)"
  obtain s new where v: "validate_path_sandbox f allowed file_path = Inr p" and res: "res = Inr s"
      and out: "out = concat new"
      and lines: "patch_lines ast_ok (validate \<and> suffix p = u_str ''.py'') (pe_write_ok e) False original ?target ?repl = Inr (s, new)"
    using assms by (auto simp: apply_inline_patch_def Let_def split: sum.splits option.splits if_splits)
  obtain idx fuzzy where se: "search_block original ?target = (idx, fuzzy)" by (cases "search_block original ?target")
  note l = patch_lines_Inr [OF lines se]
  note ne = l(1) and fz = l(3) and new = l(4) and ml = l(5)
  have ast: "validate \<and> suffix p = u_str ''.py'' \<longrightarrow> ast_ok (concat new)" using l(6) by iprover
  have "length idx = 1" using l(2) by simp
  then obtain i where idx: "idx = [i]" by (metis One_nat_def length_0_conv length_Suc_conv)
  note starts = search_block_starts [OF se ne]
  have "i \<in> set idx" by (simp add: idx)
  then obtain pre mid post where o: "original = pre @ mid @ post" and i: "length pre = i"
      and sb: "same_block fuzzy mid ?target"
    unfolding starts by (elim exE conjE)
  have uniq: "pre' = pre" if "original = pre' @ mid' @ post'" "same_block fuzzy mid' ?target" for pre' mid' post'
  proof -
    have "length pre' \<in> set idx" unfolding starts using that by blast
    then have "length pre' = length pre" by (simp add: idx i)
    with that(1) o show ?thesis by (metis append_eq_append_conv)
  qed
  have "new = pre @ ?repl @ post"
    using replace_one [OF o same_block_length [OF sb]] new idx i by simp
  then have "out = concat pre @ concat ?repl @ concat post" and "pt_match_lines s = [length pre + 1]"
    using out ml idx i by simp_all
  moreover have "13 \<notin> set raw \<longrightarrow> raw = concat pre @ concat mid @ concat post"
    using o assms(3) concat_split_keep [of "[]" raw] by (metis append_Nil concat_append rev.simps(1) universal_newlines_id)
  moreover have "\<forall>pre' mid' post'. original = pre' @ mid' @ post' \<and> same_block (pt_fuzzy s) mid' ?target \<longrightarrow> pre' = pre"
    using uniq fz by blast
  moreover have "same_block (pt_fuzzy s) mid ?target" using sb fz by simp
  moreover have "validate \<and> suffix p = u_str ''.py'' \<longrightarrow> ast_ok out" using ast out by simp
  ultimately show ?thesis using o res validate_target_ok [OF v] by iprover
qed

theorem patch_replaces_only_its_block_witness:
  "patch_target_ok (ppath_of (u_str ''/w'')) (ppath_of (u_str ''/w/f'')) \<and>
   (\<exists>pre mid post. split_keep [] (universal_newlines [97, 13, 10, 98, 13, 10]) = pre @ mid @ post \<and> length pre = 0)"
proof -
  note p = patch_replaces_only_its_block [OF carriage_returns_are_lost [unfolded demo_patch_def], of "[97, 13, 10, 98, 13, 10]"
      "split_keep [] (universal_newlines [97, 13, 10, 98, 13, 10])"]
  have "patch_target_ok (ppath_of (u_str ''/w'')) (ppath_of (u_str ''/w/f''))" using p by simp
  moreover have "\<exists>pre mid post. split_keep [] (universal_newlines [97, 13, 10, 98, 13, 10]) = pre @ mid @ post \<and> length pre = 0"
    using p by auto
  ultimately show ?thesis by blast
qed

end
