(* ===== verification/SemanticCache.thy ===== *)
theory SemanticCache
  imports SecurityFilter PyCodec
begin

text \<open>
  The semantic cache, \<open>src/hermes_core/semantic_cache.py\<close>: how a query is normalised, the key under which
  a response is kept for a scope and a caller, and the operations on the table. The table is the list
  of its rows by key; whether the database answers is an argument. Lower case above ASCII is a
  parameter; secrets are removed by the filter of \<open>SecurityFilter\<close>.
\<close>

section \<open>Constants\<close>

definition TRUSTED_CALLERS :: "string list" where
  "TRUSTED_CALLERS = [''agent'', ''system'', ''user'', ''hermes_core'', ''cron'', ''test'', ''internal_service'']"

text \<open>Introductory phrases: may I ask, please look up for me, please help me, look up, have a look, help me
  see, I want to know, please tell me, I want to understand, check.\<close>

definition NOISE_PREFIXES :: "ustr list" where
  "NOISE_PREFIXES = [
     [0x8ACB, 0x554F, 0x4E00, 0x4E0B], [0x8ACB, 0x5E6B, 0x6211, 0x67E5, 0x4E00, 0x4E0B],
     [0x8ACB, 0x5E6B, 0x6211, 0x67E5], [0x8ACB, 0x5E6B, 0x6211], [0x8ACB, 0x554F],
     [0x5E6B, 0x6211, 0x67E5, 0x4E00, 0x4E0B], [0x5E6B, 0x6211, 0x67E5], [0x5E6B, 0x6211],
     [0x67E5, 0x4E00, 0x4E0B], [0x67E5, 0x8A62, 0x4E00, 0x4E0B], [0x67E5, 0x8A62],
     [0x770B, 0x4E00, 0x4E0B], [0x5E6B, 0x770B], [0x60F3, 0x77E5, 0x9053],
     [0x8ACB, 0x544A, 0x8A34, 0x6211], [0x6211, 0x60F3, 0x4E86, 0x89E3], [0x67E5]]"

text \<open>Particles.\<close>

definition STOP_WORDS :: "ustr list" where
  "STOP_WORDS = [
     [0x7684], [0x4E86], [0x55CE], [0x5462], [0x5427], [0x5440], [0x554A], [0x4E00, 0x4E0B], [0x500B]]"

definition default_ttl :: "string \<Rightarrow> int" where
  "default_ttl cat =
     (if cat = ''stock'' then 60 else if cat = ''price'' then 300 else if cat = ''health'' then 180
      else if cat = ''archive'' then 600 else 300)"

definition MAX_QUERY_LENGTH :: nat where "MAX_QUERY_LENGTH = 4096"
definition MAX_RESPONSE_LENGTH :: nat where "MAX_RESPONSE_LENGTH = 16384"
definition MAX_CACHE_TTL_SECONDS :: int where "MAX_CACHE_TTL_SECONDS = 86400"

section \<open>Normalising a query\<close>

definition cache_punct :: "nat \<Rightarrow> bool" where
  "cache_punct c \<longleftrightarrow> u_space c \<or> any_of ''.,!?;:~-_/()'' c \<or> c = 0x5C \<or>
     c \<in> set [0xFF0C, 0x3002, 0xFF01, 0xFF1F, 0xFF1B, 0xFF1A, 0xFF08, 0xFF09, 0x300C, 0x300D, 0x300E, 0x300F]"

text \<open>\<open>re.sub("[...]+", " ", s)\<close>: each run of such characters becomes one blank.\<close>

fun blank_runs :: "(nat \<Rightarrow> bool) \<Rightarrow> ustr \<Rightarrow> ustr" where
  "blank_runs P [] = []"
| "blank_runs P (c # s) =
     (if P c then (if s \<noteq> [] \<and> P (hd s) then blank_runs P s else 32 # blank_runs P s) else c # blank_runs P s)"

text \<open>One pass over the prefixes: the text, and whether it changed.\<close>

definition noise_pass :: "ustr \<Rightarrow> ustr \<times> bool" where
  "noise_pass txt =
     foldl (\<lambda>(t, ch) p. if starts_with t p then (u_strip (drop (length p) t), True) else (t, ch)) (txt, False) NOISE_PREFIXES"

lemma u_strip_length: "length (u_strip s) \<le> length s"
  using length_dropWhile_le [of u_space "rev (dropWhile u_space s)"] length_dropWhile_le [of u_space s]
  by (simp add: u_strip_def)

lemma noise_fold:
  assumes "\<forall>p \<in> set ps. p \<noteq> []"
    and "foldl (\<lambda>(t, ch) p. if starts_with t p then (u_strip (drop (length p) t), True) else (t, ch)) (t, ch) ps = (u, ch')"
  shows "length u \<le> length t \<and> (ch \<longrightarrow> ch') \<and> (ch' \<longrightarrow> ch \<or> length u < length t) \<and>
         (\<not> ch' \<longrightarrow> u = t \<and> (\<forall>p \<in> set ps. \<not> starts_with t p))"
  using assms
proof (induction ps arbitrary: t ch)
  case (Cons p ps)
  show ?case
  proof (cases "starts_with t p")
    case True
    let ?t = "u_strip (drop (length p) t)"
    have "p \<noteq> []" using Cons.prems by simp
    obtain r where r: "t = p @ r" using True by (auto simp: starts_with_iff)
    have shorter: "length ?t < length t"
      using u_strip_length [of r] \<open>p \<noteq> []\<close> by (cases p) (simp_all add: r)
    have "length u \<le> length ?t" and "ch'"
      using Cons.IH [of ?t True] Cons.prems True by auto
    with shorter show ?thesis by simp
  next
    case False
    with Cons.IH [of t ch] Cons.prems show ?thesis by auto
  qed
qed simp

lemma noise_prefixes_nonempty: "\<forall>p \<in> set NOISE_PREFIXES. p \<noteq> []"
  by (simp add: NOISE_PREFIXES_def)

lemma noise_pass_shorter: "noise_pass t = (u, True) \<Longrightarrow> length u < length t"
  using noise_fold [OF noise_prefixes_nonempty, of t False u True] by (simp add: noise_pass_def)

lemma noise_pass_done: "noise_pass t = (u, False) \<Longrightarrow> u = t \<and> (\<forall>p \<in> set NOISE_PREFIXES. \<not> starts_with t p)"
  using noise_fold [OF noise_prefixes_nonempty, of t False u False] by (simp add: noise_pass_def)

text \<open>The loop ends, because a pass that changes the text shortens it.\<close>

function strip_noise :: "ustr \<Rightarrow> ustr" where
  "strip_noise t = (case noise_pass (u_strip t) of (u, ch) \<Rightarrow> (if ch then strip_noise u else u))"
  by pat_completeness auto
termination
proof (relation "measure length")
  fix t u ch
  assume "(u, ch) = noise_pass (u_strip t)" and ch
  then have "length u < length (u_strip t)" using noise_pass_shorter by metis
  then show "(u, t) \<in> measure length" using u_strip_length [of t] by simp
qed simp

declare strip_noise.simps [simp del]

text \<open>\<open>str.replace\<close> of a nonempty text.\<close>

function u_replace :: "ustr \<Rightarrow> ustr \<Rightarrow> ustr \<Rightarrow> ustr" where
  "u_replace old new [] = []"
| "u_replace old new (c # s) =
     (if old \<noteq> [] \<and> starts_with (c # s) old then new @ u_replace old new (drop (length old) (c # s))
      else c # u_replace old new s)"
  by pat_completeness auto
termination
  by (relation "measure (\<lambda>(old, new, s). length s)") auto

definition normalize_query :: "uni \<Rightarrow> (ustr \<Rightarrow> ustr) \<Rightarrow> ustr \<Rightarrow> ustr" where
  "normalize_query un lower query =
     (let desensitized = sanitize_secrets un (lower (u_strip query)) True;
          txt = strip_noise (blank_runs cache_punct desensitized);
          stopped = foldl (\<lambda>t w. u_replace w [32] t) txt STOP_WORDS
      in filter (\<lambda>c. \<not> u_space c) stopped)"

definition or_default :: "ustr \<Rightarrow> string \<Rightarrow> ustr" where
  "or_default s d = u_strip (if s = [] then u_str d else s)"

text \<open>The text that is hashed, and the key.\<close>

definition cache_payload :: "ustr \<Rightarrow> ustr \<Rightarrow> ustr \<Rightarrow> ustr" where
  "cache_payload nq scope caller = or_default scope ''default'' @ [58] @ or_default caller ''agent'' @ [58] @ nq"

definition payload_key :: "ustr \<Rightarrow> string" where
  "payload_key p = take 32 (sha256_hex (map char_of (utf8_encode p)))"

definition compute_cache_key :: "ustr \<Rightarrow> ustr \<Rightarrow> ustr \<Rightarrow> string" where
  "compute_cache_key nq scope caller = payload_key (cache_payload nq scope caller)"

text \<open>Healthy, state, alive, disk, memory; search, query, retrieve, receipt, document, knowledge base;
  quotation, price, market, cost.\<close>

definition infer_category :: "(ustr \<Rightarrow> ustr) \<Rightarrow> ustr \<Rightarrow> string" where
  "infer_category lower query =
     (let q = lower query in
      if mentions [
     [0x5065, 0x5EB7], [0x72C0, 0x614B], u_str ''health'', u_str ''status'', [0x5B58, 0x6D3B],
     [0x786C, 0x789F], u_str ''cpu'', [0x8A18, 0x61B6, 0x9AD4]] q then ''health''
      else if mentions [
     [0x641C, 0x5C0B], [0x67E5, 0x8A62], [0x6AA2, 0x7D22], [0x55AE, 0x64DA], [0x6587, 0x6A94],
     [0x77E5, 0x8B58, 0x5EAB], u_str ''search'', u_str ''query''] q then ''archive''
      else if mentions [
     [0x5831, 0x50F9], [0x50F9, 0x683C], [0x884C, 0x60C5], [0x8CBB, 0x7528], u_str ''price'',
     u_str ''cost''] q then ''price''
      else ''general'')"

section \<open>The table\<close>

record cache_row =
  qr_scope_id :: ustr
  qr_caller_id :: ustr
  qr_normalized_query :: ustr
  qr_category :: string
  qr_response_text :: ustr
  qr_created_at :: time
  qr_expire_at :: time
  qr_hit_count :: int

record cache_hit =
  ch_response :: ustr
  ch_category :: string
  ch_remaining_ttl :: int
  ch_hit_count :: int

text \<open>Refresh, query again, force.\<close>

definition BYPASS_WORDS :: "ustr list" where
  "BYPASS_WORDS = [
     [0x5237, 0x65B0], [0x91CD, 0x65B0, 0x67E5, 0x8A62], [0x5F37, 0x5236], u_str ''--no-cache'',
     u_str ''-f'']"

text \<open>The scope and the caller as the key has them, and the normalised query.\<close>

definition cache_identity :: "uni \<Rightarrow> (ustr \<Rightarrow> ustr) \<Rightarrow> ustr \<Rightarrow> ustr \<Rightarrow> ustr \<Rightarrow> ustr \<times> ustr \<times> ustr" where
  "cache_identity un lower query scope caller =
     (or_default (or_default scope ''default'') ''default'', or_default (or_default caller ''agent'') ''agent'',
      normalize_query un lower query)"

definition cache_category :: "(ustr \<Rightarrow> ustr) \<Rightarrow> ustr \<Rightarrow> string option \<Rightarrow> string" where
  "cache_category lower query category =
     (case category of Some c \<Rightarrow> (if c = [] then infer_category lower query else c) | None \<Rightarrow> infer_category lower query)"

definition get_cached_response ::
  "uni \<Rightarrow> (ustr \<Rightarrow> ustr) \<Rightarrow> bool \<Rightarrow> time \<Rightarrow> ustr \<Rightarrow> ustr \<Rightarrow> ustr \<Rightarrow> cache_row dict \<Rightarrow> cache_hit option \<times> cache_row dict" where
  "get_cached_response un lower db_ok now query scope caller db =
     (if mentions BYPASS_WORDS (lower query) then (None, db)
      else
        let nq = normalize_query un lower query in
        if nq = [] then (None, db)
        else
          let key = compute_cache_key nq (or_default scope ''default'') (or_default caller ''agent'') in
          if \<not> db_ok then (None, db)
          else case map_of db key of
              None \<Rightarrow> (None, db)
            | Some r \<Rightarrow>
                (if now < qr_expire_at r then
                   (Some \<lparr>ch_response = qr_response_text r, ch_category = qr_category r,
                          ch_remaining_ttl = py_int (qr_expire_at r - now), ch_hit_count = qr_hit_count r + 1\<rparr>,
                    AList.update key (r\<lparr>qr_hit_count := qr_hit_count r + 1\<rparr>) db)
                 else (None, db)))"

definition cache_ttl :: "int option \<Rightarrow> string \<Rightarrow> int" where
  "cache_ttl ttl cat = min (max 1 (case ttl of Some t \<Rightarrow> t | None \<Rightarrow> default_ttl cat)) MAX_CACHE_TTL_SECONDS"

text \<open>\<open>Inl\<close> is the \<open>PermissionError\<close>.\<close>

definition set_cached_response ::
  "uni \<Rightarrow> (ustr \<Rightarrow> ustr) \<Rightarrow> bool \<Rightarrow> time \<Rightarrow> ustr \<Rightarrow> ustr \<Rightarrow> int option \<Rightarrow> string option \<Rightarrow> ustr option \<Rightarrow> ustr \<Rightarrow> bool \<Rightarrow>
   cache_row dict \<Rightarrow> (unit + bool) \<times> cache_row dict" where
  "set_cached_response un lower db_ok now query response ttl category caller scope strict db =
     (case caller of
        None \<Rightarrow> (if strict then Inl () else Inr False, db)
      | Some cid0 \<Rightarrow>
          (if cid0 = [] \<or> cid0 \<notin> set (map u_str TRUSTED_CALLERS) then (if strict then Inl () else Inr False, db)
           else if MAX_QUERY_LENGTH < length query \<or> MAX_RESPONSE_LENGTH < length response then (Inr False, db)
           else
             let nq = normalize_query un lower query in
             if nq = [] \<or> 0 \<in> set nq \<or> u_strip response = [] then (Inr False, db)
             else
               let clean_query = sanitize_secrets un (u_strip query) True;
                   clean_response = sanitize_secrets un (u_strip response) True;
                   cid = or_default cid0 ''agent'';
                   sc = or_default scope ''default'';
                   key = compute_cache_key nq sc cid;
                   cat = cache_category lower query category;
                   expire = now + of_int (cache_ttl ttl cat);
                   row = (case map_of db key of
                       None \<Rightarrow> \<lparr>qr_scope_id = sc, qr_caller_id = cid, qr_normalized_query = clean_query, qr_category = cat,
                           qr_response_text = clean_response, qr_created_at = now, qr_expire_at = expire, qr_hit_count = 1\<rparr>
                     | Some r \<Rightarrow> r\<lparr>qr_response_text := clean_response, qr_normalized_query := clean_query,
                           qr_created_at := now, qr_expire_at := expire\<rparr>)
               in if \<not> db_ok then (Inr False, db) else (Inr True, AList.update key row db)))"

definition prune_expired_cache :: "bool \<Rightarrow> time \<Rightarrow> cache_row dict \<Rightarrow> nat \<times> cache_row dict" where
  "prune_expired_cache db_ok now db =
     (if \<not> db_ok then (0, db)
      else let kept = filter (\<lambda>(_, r). \<not> qr_expire_at r \<le> now) db in (length db - length kept, kept))"

section \<open>Lemmas\<close>

lemma strip_noise_result:
  "u_strip (strip_noise t) = strip_noise t \<and> list_all (\<lambda>p. \<not> starts_with (strip_noise t) p) NOISE_PREFIXES"
proof (induction t rule: strip_noise.induct)
  case (1 t)
  obtain u ch where p: "noise_pass (u_strip t) = (u, ch)" by fastforce
  show ?case
  proof (cases ch)
    case True
    with 1 [OF p [symmetric]] p show ?thesis by (simp add: strip_noise.simps [of t])
  next
    case False
    with noise_pass_done [of "u_strip t" u] p show ?thesis
      by (simp add: strip_noise.simps [of t] list_all_iff)
  qed
qed

lemma noise_pass_stable:
  "list_all (\<lambda>p. \<not> starts_with t p) NOISE_PREFIXES \<Longrightarrow> u_strip t = t \<Longrightarrow> noise_pass (u_strip t) = (t, False)"
proof -
  assume none: "list_all (\<lambda>p. \<not> starts_with t p) NOISE_PREFIXES" and st: "u_strip t = t"
  have "foldl (\<lambda>(t, ch) p. if starts_with t p then (u_strip (drop (length p) t), True) else (t, ch)) (t, ch) ps = (t, ch)"
    if "list_all (\<lambda>p. \<not> starts_with t p) ps" for ch ps
    using that by (induction ps) auto
  with none st show ?thesis by (simp add: noise_pass_def)
qed

lemma strip_noise_iterates:
  "length t < k \<Longrightarrow> ((\<lambda>s. fst (noise_pass (u_strip s))) ^^ k) t = strip_noise t"
proof (induction t arbitrary: k rule: strip_noise.induct)
  case (1 t)
  obtain u ch where p: "noise_pass (u_strip t) = (u, ch)" by fastforce
  obtain j where k: "k = Suc j" using "1.prems" by (cases k) auto
  show ?case
  proof (cases ch)
    case True
    then have "length u < j"
      using noise_pass_shorter [of "u_strip t" u] u_strip_length [of t] p "1.prems" k by simp
    with "1.IH" [OF p [symmetric] True, of j] p True show ?thesis
      by (simp add: k funpow_Suc_right strip_noise.simps [of t] del: funpow.simps)
  next
    case False
    then have u: "strip_noise t = u" using p by (simp add: strip_noise.simps [of t])
    have "((\<lambda>s. fst (noise_pass (u_strip s))) ^^ j) u = u" for j
      using noise_pass_stable [of u] strip_noise_result [of t] unfolding u by (induction j) auto
    with p u show ?thesis by (simp add: k funpow_Suc_right del: funpow.simps)
  qed
qed

text \<open>No colon survives in a normalised query, and no trusted caller has one.\<close>

lemma u_strip_set: "set (u_strip s) \<subseteq> set s"
  by (auto simp: u_strip_def dest!: set_dropWhileD)

lemma noise_pass_set: "set (fst (noise_pass t)) \<subseteq> set t"
proof -
  have "set (fst (foldl (\<lambda>(t, ch) p. if starts_with t p then (u_strip (drop (length p) t), True) else (t, ch)) (t, ch) ps)) \<subseteq> set t"
    for ch ps
  proof (induction ps arbitrary: t ch)
    case (Cons p ps)
    have "set (u_strip (drop (length p) t)) \<subseteq> set t"
      using u_strip_set [of "drop (length p) t"] set_drop_subset [of "length p" t] by blast
    with Cons.IH [of "u_strip (drop (length p) t)" True] Cons.IH [of t ch] show ?case by auto
  qed simp
  then show ?thesis by (simp add: noise_pass_def)
qed

lemma strip_noise_set: "set (strip_noise t) \<subseteq> set t"
proof (induction t rule: strip_noise.induct)
  case (1 t)
  obtain u ch where p: "noise_pass (u_strip t) = (u, ch)" by fastforce
  have "set u \<subseteq> set t" using noise_pass_set [of "u_strip t"] u_strip_set [of t] p by auto
  with 1 [OF p [symmetric]] p show ?case by (cases ch) (auto simp: strip_noise.simps [of t])
qed

lemma u_replace_set: "set (u_replace old new s) \<subseteq> set new \<union> set s"
proof (induction old new s rule: u_replace.induct)
  case (2 old new c s)
  have "set (drop (length old) (c # s)) \<subseteq> insert c (set s)"
    using set_drop_subset [of "length old" "c # s"] by simp
  with 2 show ?case by (cases "old \<noteq> [] \<and> starts_with (c # s) old") auto
qed simp

lemma stop_words_set: "set (foldl (\<lambda>t w. u_replace w [32] t) t ws) \<subseteq> insert 32 (set t)"
proof (induction ws arbitrary: t)
  case (Cons w ws)
  from Cons.IH [of "u_replace w [32] t"] u_replace_set [of w "[32]" t] show ?case by auto
qed auto

lemma blank_runs_set: "c \<in> set (blank_runs P s) \<Longrightarrow> c = 32 \<or> \<not> P c"
  by (induction P s rule: blank_runs.induct) (auto split: if_splits)

lemma normalized_has_no_colon: "58 \<notin> set (normalize_query un lower q)"
proof
  assume "58 \<in> set (normalize_query un lower q)"
  then obtain s where "58 \<in> set (foldl (\<lambda>t w. u_replace w [32] t) (strip_noise (blank_runs cache_punct s)) STOP_WORDS)"
    by (auto simp: normalize_query_def Let_def)
  then have "58 \<in> set (blank_runs cache_punct s)"
    using stop_words_set strip_noise_set by fastforce
  moreover have "cache_punct 58" by (simp add: cache_punct_def any_of_def u_str_def)
  ultimately show False using blank_runs_set by fastforce
qed

lemma trusted_caller: "c \<in> set (map u_str TRUSTED_CALLERS) \<Longrightarrow> or_default c ''agent'' = c \<and> 58 \<notin> set c"
  by (auto simp: TRUSTED_CALLERS_def or_default_def u_str_def u_strip_def u_space_def)

text \<open>Hence the text that is hashed determines the identity.\<close>

lemma append_colon_unique:
  "58 \<notin> set b \<Longrightarrow> 58 \<notin> set b' \<Longrightarrow> a @ [58] @ b = a' @ [58] @ b' \<Longrightarrow> a = a' \<and> b = (b' :: ustr)"
proof (induction a arbitrary: a')
  case Nil
  then show ?case by (cases a') auto
next
  case (Cons x a)
  then show ?case by (cases a') auto
qed

lemma payload_identity:
  assumes "cache_payload n s c = cache_payload n' s' c'" "58 \<notin> set n" "58 \<notin> set n'"
    "58 \<notin> set (or_default c ''agent'')" "58 \<notin> set (or_default c' ''agent'')"
  shows "n = n' \<and> or_default s ''default'' = or_default s' ''default'' \<and> or_default c ''agent'' = or_default c' ''agent''"
proof -
  have "(or_default s ''default'' @ [58] @ or_default c ''agent'') @ [58] @ n =
      (or_default s' ''default'' @ [58] @ or_default c' ''agent'') @ [58] @ n'"
    using assms(1) by (simp add: cache_payload_def)
  from append_colon_unique [OF assms(2,3) this] append_colon_unique [OF assms(4,5)] show ?thesis by blast
qed

section \<open>Histories\<close>

text \<open>The calls on one table, in their order.\<close>

datatype cache_op =
    CacheSet bool time ustr ustr "int option" "string option" "ustr option" ustr bool
  | CacheGet bool time ustr ustr ustr
  | CachePrune bool time

fun cache_step :: "uni \<Rightarrow> (ustr \<Rightarrow> ustr) \<Rightarrow> cache_row dict \<Rightarrow> cache_op \<Rightarrow> cache_row dict" where
  "cache_step un lower db (CacheSet ok now q resp ttl cat c sc strict) =
     snd (set_cached_response un lower ok now q resp ttl cat c sc strict db)"
| "cache_step un lower db (CacheGet ok now q sc c) = snd (get_cached_response un lower ok now q sc c db)"
| "cache_step un lower db (CachePrune ok now) = snd (prune_expired_cache ok now db)"

definition cache_table :: "uni \<Rightarrow> (ustr \<Rightarrow> ustr) \<Rightarrow> cache_op list \<Rightarrow> cache_row dict" where
  "cache_table un lower ops = foldl (cache_step un lower) [] ops"

fun op_payload :: "uni \<Rightarrow> (ustr \<Rightarrow> ustr) \<Rightarrow> cache_op \<Rightarrow> ustr list" where
  "op_payload un lower (CacheSet ok now q resp ttl cat (Some c) sc strict) =
     [cache_payload (normalize_query un lower q) (or_default sc ''default'') (or_default c ''agent'')]"
| "op_payload un lower _ = []"

text \<open>A row under a key was written by a call of a trusted caller with that key.\<close>

definition written_by :: "uni \<Rightarrow> (ustr \<Rightarrow> ustr) \<Rightarrow> cache_op list \<Rightarrow> string \<Rightarrow> cache_row \<Rightarrow> bool" where
  "written_by un lower ops key r \<longleftrightarrow>
     (\<exists>now q resp ttl cat c sc strict. CacheSet True now q resp ttl cat (Some c) sc strict \<in> set ops \<and>
        c \<in> set (map u_str TRUSTED_CALLERS) \<and>
        key = compute_cache_key (normalize_query un lower q) (or_default sc ''default'') (or_default c ''agent'') \<and>
        qr_response_text r = sanitize_secrets un (u_strip resp) True \<and>
        qr_expire_at r = now + of_int (cache_ttl ttl (cache_category lower q cat)))"

lemma get_cases:
  assumes "get_cached_response un lower ok now q sc c db = (h, db')"
  obtains "h = None" "db' = db"
  | r where "ok" "\<not> mentions BYPASS_WORDS (lower q)" "normalize_query un lower q \<noteq> []"
      "map_of db (compute_cache_key (normalize_query un lower q) (or_default sc ''default'') (or_default c ''agent'')) = Some r"
      "now < qr_expire_at r"
      "h = Some \<lparr>ch_response = qr_response_text r, ch_category = qr_category r,
                 ch_remaining_ttl = py_int (qr_expire_at r - now), ch_hit_count = qr_hit_count r + 1\<rparr>"
      "db' = AList.update (compute_cache_key (normalize_query un lower q) (or_default sc ''default'') (or_default c ''agent''))
               (r\<lparr>qr_hit_count := qr_hit_count r + 1\<rparr>) db"
  using assms unfolding get_cached_response_def Let_def by (auto split: if_splits option.splits)

lemma set_cases:
  assumes "set_cached_response un lower ok now q resp ttl cat caller sc strict db = (res, db')"
  obtains "res \<noteq> Inr True" "db' = db"
  | c r where "ok" "caller = Some c" "c \<in> set (map u_str TRUSTED_CALLERS)" "res = Inr True"
      "length q \<le> MAX_QUERY_LENGTH" "length resp \<le> MAX_RESPONSE_LENGTH" "normalize_query un lower q \<noteq> []"
      "qr_response_text r = sanitize_secrets un (u_strip resp) True"
      "qr_expire_at r = now + of_int (cache_ttl ttl (cache_category lower q cat))"
      "qr_normalized_query r = sanitize_secrets un (u_strip q) True"
      "db' = AList.update (compute_cache_key (normalize_query un lower q) (or_default sc ''default'') (or_default c ''agent'')) r db"
proof (cases caller)
  case None
  with assms that(1) show ?thesis by (auto simp: set_cached_response_def split: if_splits)
next
  case (Some c)
  show ?thesis
  proof (cases "c = [] \<or> c \<notin> set (map u_str TRUSTED_CALLERS) \<or>
      MAX_QUERY_LENGTH < length q \<or> MAX_RESPONSE_LENGTH < length resp \<or>
      normalize_query un lower q = [] \<or> 0 \<in> set (normalize_query un lower q) \<or> u_strip resp = [] \<or> \<not> ok")
    case True
    then have "res \<noteq> Inr True \<and> db' = db"
      using assms unfolding set_cached_response_def Some option.case Let_def
      by (elim disjE) (simp_all split: if_splits, blast+)
    with that(1) show ?thesis by blast
  next
    case False
    let ?key = "compute_cache_key (normalize_query un lower q) (or_default sc ''default'') (or_default c ''agent'')"
    let ?expire = "now + of_int (cache_ttl ttl (cache_category lower q cat))"
    let ?row = "case map_of db ?key of
        None \<Rightarrow> \<lparr>qr_scope_id = or_default sc ''default'', qr_caller_id = or_default c ''agent'',
          qr_normalized_query = sanitize_secrets un (u_strip q) True, qr_category = cache_category lower q cat,
          qr_response_text = sanitize_secrets un (u_strip resp) True, qr_created_at = now, qr_expire_at = ?expire,
          qr_hit_count = 1\<rparr>
      | Some r \<Rightarrow> r\<lparr>qr_response_text := sanitize_secrets un (u_strip resp) True,
          qr_normalized_query := sanitize_secrets un (u_strip q) True, qr_created_at := now, qr_expire_at := ?expire\<rparr>"
    from False have n: "\<not> (c = [] \<or> c \<notin> set (map u_str TRUSTED_CALLERS))"
      "\<not> (MAX_QUERY_LENGTH < length q \<or> MAX_RESPONSE_LENGTH < length resp)"
      "\<not> (normalize_query un lower q = [] \<or> 0 \<in> set (normalize_query un lower q) \<or> u_strip resp = [])" "\<not> \<not> ok"
      by blast+
    have e: "(Inr True, AList.update ?key ?row db) = (res, db')"
      using assms unfolding set_cached_response_def Some option.case Let_def if_not_P [OF n(1)] if_not_P [OF n(2)]
        if_not_P [OF n(3)] if_not_P [OF n(4)] .
    show ?thesis
      by (rule that(2) [OF _ Some, where r = ?row]) (use n e in \<open>auto simp del: set_map split: option.split\<close>)
  qed
qed

lemma map_of_filter_in: "wf_dict d \<Longrightarrow> map_of (filter P d) k = Some v \<Longrightarrow> map_of d k = Some v"
  using wf_dict_filter [of d P] by (auto simp: wf_dict_def)

lemma cache_step_wf: "wf_dict db \<Longrightarrow> wf_dict (cache_step un lower db op)"
proof (cases op)
  case (CacheSet ok now q resp ttl cat caller sc strict)
  obtain res db' where e: "set_cached_response un lower ok now q resp ttl cat caller sc strict db = (res, db')"
    by fastforce
  moreover assume "wf_dict db"
  ultimately have "wf_dict db'" by (cases rule: set_cases) simp_all
  then show ?thesis by (simp add: CacheSet e)
next
  case (CacheGet ok now q sc c)
  obtain h db' where e: "get_cached_response un lower ok now q sc c db = (h, db')"
    by fastforce
  moreover assume "wf_dict db"
  ultimately have "wf_dict db'" by (cases rule: get_cases) simp_all
  then show ?thesis by (simp add: CacheGet e)
next
  case (CachePrune ok now)
  moreover assume "wf_dict db"
  ultimately show ?thesis by (simp add: prune_expired_cache_def Let_def)
qed

lemma cache_table_snoc: "cache_table un lower (ops @ [op]) = cache_step un lower (cache_table un lower ops) op"
  by (simp add: cache_table_def)

lemma cache_table_wf: "wf_dict (cache_table un lower ops)"
  by (induction ops rule: rev_induct) (simp_all add: cache_table_snoc cache_step_wf, simp add: cache_table_def)

lemma cache_rows_written:
  "map_of (cache_table un lower ops) key = Some r \<Longrightarrow> written_by un lower ops key r"
proof (induction ops arbitrary: key r rule: rev_induct)
  case (snoc op ops)
  have more: "written_by un lower ops k x \<Longrightarrow> written_by un lower (ops @ [op]) k x" for k x
    unfolding written_by_def set_append by blast
  have tab: "map_of (cache_step un lower (cache_table un lower ops) op) key = Some r"
    using snoc.prems by (simp only: cache_table_snoc)
  show ?case
  proof (cases op)
    case (CacheSet ok now q resp ttl cat caller sc strict)
    obtain res db' where e: "set_cached_response un lower ok now q resp ttl cat caller sc strict (cache_table un lower ops) = (res, db')"
      by fastforce
    with tab have tab: "map_of db' key = Some r" by (simp add: CacheSet)
    from e show ?thesis
    proof (cases rule: set_cases)
      case 1
      with tab snoc.IH more show ?thesis by blast
    next
      case (2 c r')
      show ?thesis
      proof (cases "key = compute_cache_key (normalize_query un lower q) (or_default sc ''default'') (or_default c ''agent'')")
        case True
        then have "r = r'" using tab 2(11) by (simp add: update_conv)
        then show ?thesis
          unfolding written_by_def CacheSet using 2 True by (metis in_set_conv_decomp)
      next
        case False
        with tab 2(11) have "map_of (cache_table un lower ops) key = Some r" by (simp add: update_conv)
        with snoc.IH more show ?thesis by blast
      qed
    qed
  next
    case (CacheGet ok now q sc c)
    obtain h db' where e: "get_cached_response un lower ok now q sc c (cache_table un lower ops) = (h, db')"
      by fastforce
    with tab have tab: "map_of db' key = Some r" by (simp add: CacheGet)
    from e show ?thesis
    proof (cases rule: get_cases)
      case 1
      with tab snoc.IH more show ?thesis by blast
    next
      case (2 r')
      let ?k = "compute_cache_key (normalize_query un lower q) (or_default sc ''default'') (or_default c ''agent'')"
      show ?thesis
      proof (cases "key = ?k")
        case True
        then have "r = r'\<lparr>qr_hit_count := qr_hit_count r' + 1\<rparr>" using tab 2(7) by (simp add: update_conv)
        moreover have "written_by un lower ops key r'" using snoc.IH 2(4) True by simp
        ultimately have "written_by un lower ops key r" unfolding written_by_def by simp
        with more show ?thesis by blast
      next
        case False
        with tab 2(7) have "map_of (cache_table un lower ops) key = Some r" by (simp add: update_conv)
        with snoc.IH more show ?thesis by blast
      qed
    qed
  next
    case (CachePrune ok now)
    have "map_of (cache_table un lower ops) key = Some r"
      using tab unfolding CachePrune
      by (auto simp: prune_expired_cache_def Let_def split: if_splits
          intro: map_of_filter_in [OF cache_table_wf])
    with snoc.IH more show ?thesis by blast
  qed
qed (simp add: cache_table_def)

lemma cache_ttl_range: "1 \<le> cache_ttl ttl cat \<and> cache_ttl ttl cat \<le> 86400"
  by (simp add: cache_ttl_def MAX_CACHE_TTL_SECONDS_def)

lemma stored_is_found:
  assumes "set_cached_response un lower ok t q resp ttl cat (Some c) sc strict db = (Inr True, db')"
    and "ok" and "now < t + of_int (cache_ttl ttl (cache_category lower q cat))"
  shows "1 \<le> cache_ttl ttl (cache_category lower q cat) \<and> cache_ttl ttl (cache_category lower q cat) \<le> 86400 \<and>
         map_option ch_response (fst (get_cached_response un lower ok now q sc c db')) =
           (if mentions BYPASS_WORDS (lower q) then None else Some (sanitize_secrets un (u_strip resp) True))"
  using assms(1)
proof (cases rule: set_cases)
  case (2 c' r)
  then show ?thesis
    using assms(2,3) cache_ttl_range [of ttl "cache_category lower q cat"] by (simp add: get_cached_response_def Let_def)
qed simp

section \<open>Properties\<close>

text \<open>C35: a cached answer is never given to another scope, caller or query: whatever calls filled the
  table, if SHA-256 (cut to 32 digits) has no collision between the keys of those calls and the one
  looked up, and the caller who asks has no colon in the name, then an answer that is found was stored by
  a trusted caller of the same name, for the same scope and the same normalised query, is the redacted
  answer of that call, and is less than a day old\<close>

theorem cached_answers_are_isolated:
  assumes "inj_on payload_key (insert (cache_payload (normalize_query un lower q) (or_default sc ''default'') (or_default c ''agent''))
             (\<Union>op \<in> set ops. set (op_payload un lower op)))"
    and "58 \<notin> set c"
    and "get_cached_response un lower ok now q sc c (cache_table un lower ops) = (Some hit, db')"
  shows "\<exists>t q' resp ttl cat sc' c' strict.
           CacheSet True t q' resp ttl cat (Some c') sc' strict \<in> set ops \<and> c' \<in> set (map u_str TRUSTED_CALLERS) \<and>
           cache_identity un lower q' sc' c' = cache_identity un lower q sc c \<and>
           ch_response hit = sanitize_secrets un (u_strip resp) True \<and> now < t + 86400"
proof -
  let ?p = "cache_payload (normalize_query un lower q) (or_default sc ''default'') (or_default c ''agent'')"
  from assms(3) show ?thesis
  proof (cases rule: get_cases)
    case (2 r)
    from cache_rows_written [OF 2(4)] obtain t q' resp ttl cat c' sc' strict where
      w: "CacheSet True t q' resp ttl cat (Some c') sc' strict \<in> set ops" "c' \<in> set (map u_str TRUSTED_CALLERS)"
        "payload_key ?p = payload_key (cache_payload (normalize_query un lower q') (or_default sc' ''default'') (or_default c' ''agent''))"
        "qr_response_text r = sanitize_secrets un (u_strip resp) True"
        "qr_expire_at r = t + of_int (cache_ttl ttl (cache_category lower q' cat))"
      unfolding written_by_def compute_cache_key_def by blast
    have mem: "cache_payload (normalize_query un lower q') (or_default sc' ''default'') (or_default c' ''agent'')
        \<in> (\<Union>op \<in> set ops. set (op_payload un lower op))"
      by (rule UN_I [OF w(1)]) simp
    have same: "?p = cache_payload (normalize_query un lower q') (or_default sc' ''default'') (or_default c' ''agent'')"
      by (rule inj_onD [OF assms(1) w(3) insertI1 insertI2 [OF mem]])
    have "58 \<notin> set (or_default s ''agent'')" if "58 \<notin> set s" for s
      using that u_strip_set [of s] u_strip_set [of "u_str ''agent''"] by (auto simp: or_default_def u_str_def)
    then have "58 \<notin> set (or_default (or_default c ''agent'') ''agent'')" using assms(2) by blast
    moreover have "58 \<notin> set (or_default (or_default c' ''agent'') ''agent'')"
      using trusted_caller [OF w(2)] by simp
    ultimately have "cache_identity un lower q' sc' c' = cache_identity un lower q sc c"
      using payload_identity [OF same normalized_has_no_colon normalized_has_no_colon] by (simp add: cache_identity_def)
    moreover have "now < t + 86400"
    proof -
      have "(of_int (cache_ttl ttl (cache_category lower q' cat)) :: rat) \<le> of_int 86400"
        using cache_ttl_range [of ttl "cache_category lower q' cat"] by (simp only: of_int_le_iff)
      with 2(5) w(5) show ?thesis by simp
    qed
    moreover have "ch_response hit = sanitize_secrets un (u_strip resp) True" using 2(6) w(4) by simp
    ultimately show ?thesis
      by (intro exI [of _ t] exI [of _ q'] exI [of _ resp] exI [of _ ttl] exI [of _ cat] exI [of _ sc'] exI [of _ c']
          exI [of _ strict] conjI w(1,2))
  qed simp
qed

lemma demo_normalized: "normalize_query (\<lambda>_. False) id (u_str ''a'') = u_str ''a''"
  by code_simp

lemma demo_redacted: "sanitize_secrets (\<lambda>_. False) (u_strip (u_str ''b'')) True = u_str ''b''"
  by code_simp

lemma demo_set:
  "fst (set_cached_response (\<lambda>_. False) id True 0 (u_str ''a'') (u_str ''b'') None None (Some (u_str ''agent'')) [] False []) = Inr True"
proof -
  have "u_str ''agent'' \<in> set (map u_str TRUSTED_CALLERS)" "u_str ''agent'' \<noteq> []" "u_strip (u_str ''b'') \<noteq> []"
    "u_str ''a'' \<noteq> []" "0 \<notin> set (u_str ''a'')" "length (u_str ''a'') = 1" "length (u_str ''b'') = 1"
    by code_simp+
  then show ?thesis
    by (simp only: set_cached_response_def Let_def demo_normalized MAX_QUERY_LENGTH_def MAX_RESPONSE_LENGTH_def option.case) simp
qed

lemma demo_table:
  "\<exists>db. set_cached_response (\<lambda>_. False) id True 0 (u_str ''a'') (u_str ''b'') None None (Some (u_str ''agent'')) [] False [] =
      (Inr True, db) \<and> cache_table (\<lambda>_. False) id [CacheSet True 0 (u_str ''a'') (u_str ''b'') None None (Some (u_str ''agent'')) [] False] = db"
  using demo_set by (simp add: cache_table_def) (metis prod.collapse)

theorem cached_answers_are_isolated_witness:
  "\<exists>hit db'. get_cached_response (\<lambda>_. False) id True 1 (u_str ''a'') [] (u_str ''agent'')
     (cache_table (\<lambda>_. False) id [CacheSet True 0 (u_str ''a'') (u_str ''b'') None None (Some (u_str ''agent'')) [] False]) = (Some hit, db') \<and>
     ch_response hit = u_str ''b''"
proof -
  let ?ops = "[CacheSet True 0 (u_str ''a'') (u_str ''b'') None None (Some (u_str ''agent'')) [] False]"
  let ?tab = "cache_table (\<lambda>_. False) id ?ops"
  have set: "set_cached_response (\<lambda>_. False) id True 0 (u_str ''a'') (u_str ''b'') None None (Some (u_str ''agent'')) [] False [] =
      (Inr True, ?tab)"
    using demo_table by blast
  have "\<not> mentions BYPASS_WORDS (id (u_str ''a''))" "cache_ttl None (cache_category id (u_str ''a'') None) = 300" by code_simp+
  with set obtain hit db' where hit:
    "get_cached_response (\<lambda>_. False) id True 1 (u_str ''a'') [] (u_str ''agent'') ?tab = (Some hit, db')"
    using stored_is_found [OF set, of 1] by (auto simp: fst_def split: prod.splits)
  have "58 \<notin> set (u_str ''agent'')" by code_simp
  from cached_answers_are_isolated [OF _ this hit] have "ch_response hit = u_str ''b''"
    by (simp add: demo_redacted)
  with hit show ?thesis by blast
qed

text \<open>What a trusted caller stores is found again: the call that stores it says whether it did, and until the
  time to live has passed (1 second to 24 hours, whatever is asked for) the same query, scope and
  caller get the redacted answer, except that a query with one of the refreshing words is never answered from
  the table\<close>

theorem cached_answers_are_found:
  assumes "set_cached_response un lower ok t q resp ttl cat (Some c) sc strict db = (Inr True, db')"
    and "ok" and "now < t + of_int (cache_ttl ttl (cache_category lower q cat))"
  shows "1 \<le> cache_ttl ttl (cache_category lower q cat) \<and> cache_ttl ttl (cache_category lower q cat) \<le> 86400 \<and>
         map_option ch_response (fst (get_cached_response un lower ok now q sc c db')) =
           (if mentions BYPASS_WORDS (lower q) then None else Some (sanitize_secrets un (u_strip resp) True))"
  using stored_is_found [OF assms] .

theorem cached_answers_are_found_witness:
  "map_option ch_response (fst (get_cached_response (\<lambda>_. False) id True 1 (u_str ''a'') [] (u_str ''agent'')
     (snd (set_cached_response (\<lambda>_. False) id True 0 (u_str ''a'') (u_str ''b'') None None (Some (u_str ''agent'')) [] False [])))) =
   Some (u_str ''b'')"
proof -
  have "set_cached_response (\<lambda>_. False) id True 0 (u_str ''a'') (u_str ''b'') None None (Some (u_str ''agent'')) [] False [] =
     (Inr True, snd (set_cached_response (\<lambda>_. False) id True 0 (u_str ''a'') (u_str ''b'') None None (Some (u_str ''agent'')) [] False []))"
    using demo_set by (metis prod.collapse)
  moreover have "cache_ttl None (cache_category id (u_str ''a'') None) = 300" "\<not> mentions BYPASS_WORDS (id (u_str ''a''))"
    by code_simp+
  ultimately show ?thesis
    using cached_answers_are_found [of "\<lambda>_. False" id True 0 "u_str ''a''" "u_str ''b''" None None "u_str ''agent''" "[]" False "[]" _ 1]
    by (simp add: demo_redacted)
qed

text \<open>C36: the loop that removes introductory phrases ends after at most one more pass than the text has
  characters (every pass that changes the text shortens it), and what it leaves starts with no such phrase
  and has no blanks around it\<close>

theorem noise_loop_ends:
  "((\<lambda>s. fst (noise_pass (u_strip s))) ^^ Suc (length t)) t = strip_noise t \<and>
   list_all (\<lambda>p. \<not> starts_with (strip_noise t) p) NOISE_PREFIXES \<and> u_strip (strip_noise t) = strip_noise t"
  using strip_noise_iterates [of t "Suc (length t)"] strip_noise_result [of t] by blast

text \<open>A colon in the caller confuses two scopes, and a query that only contains the letters of the option is
  not answered from the table.\<close>

lemma colon_confuses_scopes:
  "compute_cache_key n (u_str ''user'') (u_str ''s1:agent'') = compute_cache_key n (u_str ''user:s1'') (u_str ''agent'')"
  by (simp add: compute_cache_key_def cache_payload_def or_default_def u_str_def u_strip_def u_space_def)

lemma option_letters_bypass_the_cache: "mentions BYPASS_WORDS (u_str ''state of wi-fi'')"
  by code_simp

end
