(* ===== verification/McpBridge.thy ===== *)
theory McpBridge
  imports SecurityFilter PathSanitizer PyCodec
begin

unbundle bit_operations_syntax

text \<open>
  The sandboxed MCP bridge, \<open>src/capabilities/sandboxed_mcp/sandboxed_mcp_bridge.py\<close>: the gate that searches
  nested arguments (paths, commands, SQL, private keys), approval tokens, the table of tools and their invocation.
  What the file system answers, Unicode normalisation and lower case, the environment and the handlers
  of the tools are parameters. Names, tokens and secrets are Latin-1, the texts of arguments code points.
\<close>

section \<open>Constants\<close>

definition DEFAULT_SENSITIVE_NAMES :: "ustr list" where
  "DEFAULT_SENSITIVE_NAMES = map u_str
     [''.ssh'', ''.gnupg'', ''.aws'', ''.azure'', ''.gcp'', ''.env'', ''.env.local'', ''config.yaml'', ''.git'', ''.kube'',
      ''.docker'', ''.npmrc'', ''.bash_history'', ''.vscode'', ''.idea'', ''.terraform'', ''id_rsa'', ''id_ed25519'',
      ''authorized_keys'', ''keyrings'']"

definition dot_star :: regex where "dot_star = star (Cls (\<lambda>c. c \<noteq> 10))"
definition shell_name :: regex where "shell_name = alts (map lit_ci [''bash'', ''sh'', ''zsh''])"

definition mode_digit :: "nat \<Rightarrow> bool" where "mode_digit c \<longleftrightarrow> 48 \<le> c \<and> c \<le> 55"

definition DANGEROUS_COMMAND_PATTERNS :: "regex list" where
  "DANGEROUS_COMMAND_PATTERNS =
     [seqs [WordB, lit_ci ''rm'', plus space, lit ''-'', plus (Cls (ci (any_of ''rfRF''))), plus space, Cls (any_of ''/~*'')],
      seqs [WordB, lit_ci ''rm'', plus space, lit_ci ''--no-preserve-root'', WordB],
      word_b (lit_ci ''sudo''),
      word_b (lit_ci ''mkfs''),
      seqs [WordB, lit_ci ''dd'', plus space, lit_ci ''if='' ],
      seqs [WordB, lit_ci ''chmod'', plus space,
        Grp 1 (Alt (between 3 4 (Cls mode_digit)) (plus (Cls (ci (any_of ''ugoarwx+=-''))))), WordB, dot_star,
        Alt (lit ''/'') (word_b (lit ''777''))],
      seqs [lit '':()'', star space, lit ''{'', star space, lit '':'', star space, lit ''|'', star space, lit '':'', star space,
        lit ''&'', star space, lit ''}'', star space, lit '';''],
      seqs [WordB, lit ''>'', star space, lit_ci ''/dev/sd'', Cls (ci (\<lambda>c. 97 \<le> c \<and> c \<le> 122))],
      seqs [WordB, alts [lit_ci ''curl'', lit_ci ''wget''], plus space, plus (Cls (\<lambda>c. c \<noteq> 10 \<and> c \<noteq> 124)), lit ''|'', star space,
        alts [lit_ci ''bash'', lit_ci ''sh'', Seq (lit_ci ''python'') (opt (Cls (any_of ''23''))), lit_ci ''zsh''], WordB],
      seqs [WordB, shell_name, plus space, lit_ci ''-i'', star space, lit ''>'', opt (lit ''&''), star space, lit_ci ''/dev/tcp/''],
      seqs [WordB, alts [lit_ci ''nc'', lit_ci ''netcat''], plus space, dot_star, lit_ci ''-e'', plus space, lit_ci ''/bin/''],
      seqs [WordB, lit_ci ''base64'', plus space, lit_ci ''-d'', star space, lit ''|'', star space,
        alts [lit_ci ''bash'', lit_ci ''sh''], WordB],
      seqs [WordB, alts [lit_ci ''eval'', lit_ci ''exec''], star space, lit ''('', star space,
        alts (map lit_ci [''base64'', ''b64decode'', ''atob'']), WordB]]"

definition DESTRUCTIVE_SQL_PATTERNS :: "regex list" where
  "DESTRUCTIVE_SQL_PATTERNS =
     map word_b
       [seqs [lit_ci ''DROP'', plus space, lit_ci ''TABLE''], seqs [lit_ci ''DROP'', plus space, lit_ci ''DATABASE''],
        seqs [lit_ci ''TRUNCATE'', plus space, lit_ci ''TABLE''], seqs [lit_ci ''DELETE'', plus space, lit_ci ''FROM''],
        seqs [lit_ci ''ALTER'', plus space, lit_ci ''TABLE''],
        seqs [lit_ci ''GRANT'', plus space, dot_star, plus space, lit_ci ''TO''],
        seqs [lit_ci ''REVOKE'', plus space, dot_star, plus space, lit_ci ''FROM'']]"

section \<open>Environment variables in a path\<close>

text \<open>\<open>os.path.expandvars\<close>: \<open>$name\<close> and \<open>${name}\<close> with the value where there is one. \<open>var_at\<close> reads the variable
  after a dollar sign: its name, the text as written, and the rest.\<close>

definition ascii_word :: "nat \<Rightarrow> bool" where "ascii_word c \<longleftrightarrow> alnum_ascii c \<or> c = 95"

definition var_at :: "ustr \<Rightarrow> (ustr \<times> ustr \<times> ustr) option" where
  "var_at s =
     (if s \<noteq> [] \<and> hd s = 123 then
        (if 125 \<in> set s then
           let name = takeWhile (\<lambda>c. c \<noteq> 125) (tl s) in Some (name, 123 # name @ [125], drop (length name + 2) s)
         else None)
      else
        let name = takeWhile ascii_word s in
        if name = [] then None else Some (name, name, drop (length name) s))"

lemma var_at_shorter: "var_at s = Some (n, raw, r) \<Longrightarrow> length r \<le> length s"
  by (auto simp: var_at_def Let_def split: if_splits)

function expandvars :: "(ustr \<Rightarrow> ustr option) \<Rightarrow> ustr \<Rightarrow> ustr" where
  "expandvars env [] = []"
| "expandvars env (c # s) =
     (if c = 36 then
        (case var_at s of
           None \<Rightarrow> c # expandvars env s
         | Some (n, raw, r) \<Rightarrow> (case env n of None \<Rightarrow> c # raw | Some v \<Rightarrow> v) @ expandvars env r)
      else c # expandvars env s)"
  by pat_completeness auto
termination
  by (relation "measure (\<lambda>(env, s). length s)") (auto dest: var_at_shorter)

section \<open>Arguments\<close>

text \<open>The values of arguments; a set is given in the order in which it is gone through.\<close>

datatype mcp_arg =
    AStr ustr
  | AList "mcp_arg list"
  | ATuple "mcp_arg list"
  | ASet "mcp_arg list"
  | ADict "(ustr \<times> mcp_arg) list"
  | ANone
  | ABool bool
  | AInt int
  | AFloat rat

record mcp_env =
  me_fs :: fs
  me_unicode :: unicode_db
  me_uni :: uni
  me_environ :: "ustr \<Rightarrow> ustr option"
  me_home :: ppath

record mcp_tool =
  mt_server_name :: string
  mt_tool_name :: string
  mt_description :: string
  mt_input_schema :: json
  mt_is_mutating :: bool

datatype gate_block =
    TooDeep | NullInKey | NullInPath | InvalidPath | OutsideWorkspace | SymlinkTarget | SymlinkParent
  | SensitivePart | SensitiveRoot | DangerousCommand | MutatingSql | PrivateKeyBlock

definition SENSITIVE_REL_PATHS :: "ustr list" where
  "SENSITIVE_REL_PATHS = map u_str
     [''.ssh'', ''.gnupg'', ''.aws'', ''.azure'', ''.gcp'', ''.env'', ''.env.local'', ''config.yaml'', ''.git'', ''.kube'',
      ''.docker'', ''.npmrc'', ''.bash_history'', ''.local/share/keyrings'', ''.vscode'', ''.idea'', ''.terraform'']"

definition blocked_sensitive_paths :: "ppath \<Rightarrow> ppath \<Rightarrow> ppath list" where
  "blocked_sensitive_paths workspace home =
     concat (map (\<lambda>r. map (\<lambda>rel. path_join r (ppath_of rel)) SENSITIVE_REL_PATHS) [workspace, home])"

text \<open>\<open>path.parents\<close>, nearest first.\<close>

definition parents :: "ppath \<Rightarrow> ppath list" where
  "parents p = map (\<lambda>i. p\<lparr>pp_parts := take i (pp_parts p)\<rparr>) (rev [0..<length (pp_parts p)])"

definition PATH_WORDS :: "ustr list" where
  "PATH_WORDS = map u_str [''path'', ''file'', ''dir'', ''uri'', ''target'', ''dest'', ''source'', ''location'']"

definition PATH_FEATURES :: "ustr list" where
  "PATH_FEATURES = map u_str [''..'', ''/'', [CHR 0x5C], ''~'', ''%2e'', ''%2E''] @ [[0xFF0E], [0], u_str ''%00'']"

definition has_any :: "ustr \<Rightarrow> string list \<Rightarrow> bool" where
  "has_any s ws \<longleftrightarrow> list_ex (\<lambda>w. contains s (u_str w)) ws"

text \<open>Which texts are taken for paths.\<close>

definition path_like :: "ustr \<Rightarrow> ustr \<Rightarrow> bool" where
  "path_like ctx v \<longleftrightarrow>
     list_ex (contains ctx) PATH_WORDS \<or>
     list_ex (contains v) PATH_FEATURES \<and> \<not> has_any ctx [''command'', ''cmd'', ''exec'', ''sql'', ''query'']"

definition decode_path :: "unicode_db \<Rightarrow> ustr \<Rightarrow> ustr" where
  "decode_path u v =
     (let d = unquote v;
          d' = (if has_any (ud_lower u d) [''%2e'', ''%2f'', ''%5c''] then unquote d else d)
      in ud_nfkc u d')"

text \<open>The location a path text means: as written below the workspace, and resolved.\<close>

definition locate :: "mcp_env \<Rightarrow> ppath \<Rightarrow> ustr \<Rightarrow> gate_block + ppath \<times> ppath" where
  "locate e workspace v =
     (let normalized = decode_path (me_unicode e) v in
      if 0 \<in> set normalized \<or> contains normalized (u_str ''%00'') then Inl NullInPath
      else case path_expanduser (me_fs e) (ppath_of (expandvars (me_environ e) normalized)) of
          None \<Rightarrow> Inl InvalidPath
        | Some raw \<Rightarrow>
            let target = (if is_absolute raw then raw else path_join workspace raw) in
            (case fs_resolve (me_fs e) target of None \<Rightarrow> Inl InvalidPath | Some resolved \<Rightarrow> Inr (target, resolved)))"

definition check_path :: "mcp_env \<Rightarrow> ppath \<Rightarrow> ustr \<Rightarrow> gate_block option" where
  "check_path e workspace v =
     (case locate e workspace v of
        Inl b \<Rightarrow> Some b
      | Inr (target, resolved) \<Rightarrow>
          (if relative_to resolved workspace = None then Some OutsideWorkspace
           else if fs_is_symlink (me_fs e) target then Some SymlinkTarget
           else if list_ex (\<lambda>p. (p = workspace \<or> workspace \<in> set (parents p)) \<and> fs_is_symlink (me_fs e) p) (parents target)
             then Some SymlinkParent
           else if list_ex (\<lambda>n. n \<in> set (all_parts resolved)) DEFAULT_SENSITIVE_NAMES \<or>
                   list_ex (\<lambda>n. n \<in> set (all_parts target)) DEFAULT_SENSITIVE_NAMES then Some SensitivePart
           else if list_ex (\<lambda>s. resolved = s \<or> s \<in> set (parents resolved) \<or> target = s \<or> s \<in> set (parents target))
                     (blocked_sensitive_paths workspace (me_home e)) then Some SensitiveRoot
           else None))"

text \<open>Commands are searched in every text: the two branches on the context are the same.\<close>

definition check_command :: "mcp_env \<Rightarrow> ustr \<Rightarrow> gate_block option" where
  "check_command e v =
     (if list_ex (\<lambda>p. re_found (me_uni e) p v) DANGEROUS_COMMAND_PATTERNS then Some DangerousCommand else None)"

definition readonly_tool :: "unicode_db \<Rightarrow> ustr \<Rightarrow> bool \<Rightarrow> bool" where
  "readonly_tool u tool mutating \<longleftrightarrow> has_any (ud_lower u tool) [''readonly'', ''query''] \<or> \<not> mutating"

definition check_sql :: "mcp_env \<Rightarrow> ustr \<Rightarrow> bool \<Rightarrow> ustr \<Rightarrow> ustr \<Rightarrow> gate_block option" where
  "check_sql e tool mutating ctx v =
     (let ro = readonly_tool (me_unicode e) tool mutating;
          sql = has_any ctx [''sql'', ''query'', ''statement'', ''mutation'']
      in if (sql \<or> ro) \<and> ro \<and> list_ex (\<lambda>p. re_found (me_uni e) p v) DESTRUCTIVE_SQL_PATTERNS then Some MutatingSql else None)"

definition check_credential :: "ustr \<Rightarrow> ustr \<Rightarrow> gate_block option" where
  "check_credential ctx v =
     (if has_any ctx [''token'', ''credential'', ''password'', ''passwd'', ''secret'', ''key''] \<and>
         contains v (u_str ''-----BEGIN '') \<and> contains v (u_str ''PRIVATE KEY-----'') then Some PrivateKeyBlock else None)"

text \<open>The first check that refuses.\<close>

fun first_block :: "gate_block option list \<Rightarrow> gate_block option" where
  "first_block [] = None"
| "first_block (None # bs) = first_block bs"
| "first_block (Some b # bs) = Some b"

definition check_text :: "mcp_env \<Rightarrow> ppath \<Rightarrow> ustr \<Rightarrow> bool \<Rightarrow> ustr \<Rightarrow> ustr \<Rightarrow> gate_block option" where
  "check_text e workspace tool mutating context v =
     (let ctx = ud_lower (me_unicode e) context in
      first_block
        [if path_like ctx v then check_path e workspace v else None, check_command e v,
         check_sql e tool mutating ctx v, check_credential ctx v])"

definition key_context :: "ustr \<Rightarrow> ustr \<Rightarrow> ustr" where
  "key_context ctx k = (if ctx = [] then k else ctx @ u_str ''.'' @ k)"

definition index_context :: "ustr \<Rightarrow> nat \<Rightarrow> ustr" where
  "index_context ctx i = ctx @ u_str (''['' @ nat_str i @ '']'')"

definition MAX_ARG_DEPTH :: nat where "MAX_ARG_DEPTH = 20"

text \<open>\<open>Inl\<close> is a refusal (the data given with a refusal is the argument itself, which no caller uses), \<open>Inr\<close> the
  validated copy.\<close>

fun validate_nested :: "mcp_env \<Rightarrow> ppath \<Rightarrow> ustr \<Rightarrow> bool \<Rightarrow> nat \<Rightarrow> ustr \<Rightarrow> nat \<Rightarrow> mcp_arg \<Rightarrow> gate_block + mcp_arg"
  and validate_entries ::
    "mcp_env \<Rightarrow> ppath \<Rightarrow> ustr \<Rightarrow> bool \<Rightarrow> nat \<Rightarrow> ustr \<Rightarrow> nat \<Rightarrow> (ustr \<times> mcp_arg) list \<Rightarrow> gate_block + (ustr \<times> mcp_arg) list"
  and validate_items ::
    "mcp_env \<Rightarrow> ppath \<Rightarrow> ustr \<Rightarrow> bool \<Rightarrow> nat \<Rightarrow> ustr \<Rightarrow> nat \<Rightarrow> nat \<Rightarrow> mcp_arg list \<Rightarrow> gate_block + mcp_arg list" where
  "validate_nested e w tool mut mx ctx d (ADict kvs) =
     (if mx < d then Inl TooDeep else map_sum id ADict (validate_entries e w tool mut mx ctx d kvs))"
| "validate_nested e w tool mut mx ctx d (AList vs) =
     (if mx < d then Inl TooDeep else map_sum id AList (validate_items e w tool mut mx ctx d 0 vs))"
| "validate_nested e w tool mut mx ctx d (ATuple vs) =
     (if mx < d then Inl TooDeep else map_sum id ATuple (validate_items e w tool mut mx ctx d 0 vs))"
| "validate_nested e w tool mut mx ctx d (ASet vs) =
     (if mx < d then Inl TooDeep else map_sum id ASet (validate_items e w tool mut mx ctx d 0 vs))"
| "validate_nested e w tool mut mx ctx d (AStr s) =
     (if mx < d then Inl TooDeep
      else case check_text e w tool mut ctx s of Some b \<Rightarrow> Inl b | None \<Rightarrow> Inr (AStr s))"
| "validate_nested e w tool mut mx ctx d v = (if mx < d then Inl TooDeep else Inr v)"
| "validate_entries e w tool mut mx ctx d [] = Inr []"
| "validate_entries e w tool mut mx ctx d ((k, v) # kvs) =
     (if 0 \<in> set k \<or> contains k (u_str ''%00'') then Inl NullInKey
      else case validate_nested e w tool mut mx (key_context ctx k) (d + 1) v of
          Inl b \<Rightarrow> Inl b
        | Inr v' \<Rightarrow> map_sum id (\<lambda>r. (k, v') # r) (validate_entries e w tool mut mx ctx d kvs))"
| "validate_items e w tool mut mx ctx d i [] = Inr []"
| "validate_items e w tool mut mx ctx d i (v # vs) =
     (case validate_nested e w tool mut mx (index_context ctx i) (d + 1) v of
        Inl b \<Rightarrow> Inl b
      | Inr v' \<Rightarrow> map_sum id (\<lambda>r. v' # r) (validate_items e w tool mut mx ctx d (i + 1) vs))"

definition validate_and_sanitize_arguments ::
  "mcp_env \<Rightarrow> ppath \<Rightarrow> ustr \<Rightarrow> (ustr \<times> mcp_arg) list \<Rightarrow> bool \<Rightarrow> gate_block + mcp_arg" where
  "validate_and_sanitize_arguments e w tool args mut = validate_nested e w tool mut MAX_ARG_DEPTH [] 0 (ADict args)"

section \<open>Approval tokens\<close>

text \<open>HMAC with SHA-256.\<close>

definition xor_bytes :: "nat \<Rightarrow> bytes \<Rightarrow> bytes" where
  "xor_bytes k bs = map (\<lambda>c. char_of ((of_char c :: nat) XOR k)) bs"

definition hmac_sha256 :: "bytes \<Rightarrow> bytes \<Rightarrow> bytes" where
  "hmac_sha256 key msg =
     (let k = (if 64 < length key then sha256 key else key);
          k0 = k @ replicate (64 - length k) (CHR 0x00)
      in sha256 (xor_bytes 0x5C k0 @ sha256 (xor_bytes 0x36 k0 @ msg)))"

definition token_signature :: "string \<Rightarrow> string \<Rightarrow> string" where
  "token_signature secret payload = hexdigest (hmac_sha256 (encoded secret) (encoded payload))"

definition token_payload :: "string \<Rightarrow> int \<Rightarrow> string" where
  "token_payload full_key expire = full_key @ '':'' @ int_str expire"

text \<open>The secret of the instance, else of the environment; an empty one counts as none.\<close>

definition get_approval_secret :: "string option \<Rightarrow> string option \<Rightarrow> string option" where
  "get_approval_secret own env =
     (let s = (case own of Some s \<Rightarrow> (if s = [] then env else Some s) | None \<Rightarrow> env)
      in if s = Some [] then None else s)"

text \<open>\<open>None\<close> is the \<open>RuntimeError\<close>.\<close>

definition create_approval_token :: "string option \<Rightarrow> time \<Rightarrow> string \<Rightarrow> int \<Rightarrow> string option" where
  "create_approval_token secret now full_key ttl =
     map_option (\<lambda>s. let payload = token_payload full_key (py_int now + ttl) in payload @ '':'' @ token_signature s payload) secret"

text \<open>\<open>token.rsplit(":", 2)\<close> where it gives three parts.\<close>

definition rsplit2 :: "string \<Rightarrow> (string \<times> string \<times> string) option" where
  "rsplit2 s =
     (case rpartition_at CHR '':'' s of
        (a, found, c) \<Rightarrow>
          (case rpartition_at CHR '':'' a of (k, found', b) \<Rightarrow> if found \<and> found' then Some (k, b, c) else None))"

text \<open>\<open>None\<close> is the \<open>TypeError\<close> that \<open>hmac.compare_digest\<close> raises for text that is not ASCII.\<close>

definition compare_digest :: "string \<Rightarrow> string \<Rightarrow> bool option" where
  "compare_digest a b = (if list_all (\<lambda>c. (of_char c :: nat) < 128) (a @ b) then Some (a = b) else None)"

definition verify_approval_token :: "string option \<Rightarrow> time \<Rightarrow> string option \<Rightarrow> string \<Rightarrow> bool option" where
  "verify_approval_token secret now token full_key =
     (case (secret, token) of
        (Some s, Some t) \<Rightarrow>
          (if t = [] then Some False
           else case rsplit2 t of
               None \<Rightarrow> Some False
             | Some (tok_key, exp_str, sig) \<Rightarrow>
                 (if tok_key \<noteq> full_key then Some False
                  else case parse_int exp_str of
                      None \<Rightarrow> Some False
                    | Some expiry \<Rightarrow>
                        (if of_int expiry < now then Some False
                         else compare_digest sig (token_signature s (tok_key @ '':'' @ exp_str)))))
      | _ \<Rightarrow> Some False)"

section \<open>Tools and their invocation\<close>

text \<open>What a handler gives: text, data (\<open>dict\<close> or \<open>list\<close>), or another value; \<open>None\<close> is an exception.\<close>

datatype mcp_result = ResText ustr | ResData json | ResOther json

record mcp_bridge =
  mb_env :: mcp_env
  mb_workspace :: ppath
  mb_tools :: "(mcp_tool \<times> ((ustr \<times> mcp_arg) list \<Rightarrow> mcp_result option) option) dict"
  mb_approval_handler :: "(string \<Rightarrow> string \<Rightarrow> mcp_arg \<Rightarrow> bool) option"
  mb_approval_secret :: "string option"
  mb_environ_secret :: "string option"

definition new_workspace :: "mcp_env \<Rightarrow> ustr \<Rightarrow> ppath option" where
  "new_workspace e given =
     Option.bind (path_expanduser (me_fs e) (ppath_of (expandvars (me_environ e) given))) (fs_resolve (me_fs e))"

definition mcp_tool_key :: "string \<Rightarrow> string \<Rightarrow> string" where
  "mcp_tool_key server tool = server @ '':'' @ tool"

definition register_mcp_tool ::
  "string \<Rightarrow> string \<Rightarrow> string \<Rightarrow> json \<Rightarrow> bool \<Rightarrow> ((ustr \<times> mcp_arg) list \<Rightarrow> mcp_result option) option \<Rightarrow>
   mcp_bridge \<Rightarrow> mcp_bridge" where
  "register_mcp_tool server tool description schema mutating handler b =
     b\<lparr>mb_tools := AList.update (mcp_tool_key server tool)
         (\<lparr>mt_server_name = server, mt_tool_name = tool, mt_description = description, mt_input_schema = schema,
           mt_is_mutating = mutating\<rparr>, handler) (mb_tools b)\<rparr>"

definition FORBIDDEN_ARGS :: "ustr list" where
  "FORBIDDEN_ARGS = map u_str [''human_approved'', ''approval_token'', ''trusted_caller'']"

definition strip_approval_args :: "(ustr \<times> mcp_arg) list \<Rightarrow> (ustr \<times> mcp_arg) list" where
  "strip_approval_args args = filter (\<lambda>(k, v). k \<notin> set FORBIDDEN_ARGS) args"

text \<open>The marker appended to a text that is too long.\<close>

definition output_marker :: ustr where
  "output_marker = 10 # u_str ''... [TRUNCATED: Output exceeded 64KB safety limit]''"

definition encode_or_question :: "ustr \<Rightarrow> nat list" where
  "encode_or_question s = utf8_encode (map (\<lambda>c. if valid_cp c then c else 63) s)"

definition bound_output :: "ustr \<Rightarrow> ustr" where
  "bound_output s =
     (let bs = encode_or_question s
      in if 65536 < length bs then utf8_decode_ignore (take 60000 bs) @ output_marker else s)"

fun outbound :: "uni \<Rightarrow> mcp_result \<Rightarrow> mcp_result" where
  "outbound un (ResText s) = ResText (bound_output (sanitize_secrets un s True))"
| "outbound un (ResData j) = ResData (sanitize_dict un j True)"
| "outbound un (ResOther j) = ResOther j"

datatype mcp_response =
    ToolNotFound
  | SecurityGateBlocked gate_block
  | HumanApprovalRequired
  | ExecutionError
  | McpSuccess mcp_result
  | McpReady
  | McpRaised

text \<open>The three sources of an approval, in the order in which they are asked; \<open>None\<close> is the exception of the
  comparison of signatures.\<close>

definition mutation_approved ::
  "bool \<Rightarrow> bool option \<Rightarrow> bool \<Rightarrow> bool \<Rightarrow> bool option" where
  "mutation_approved handler_says token_ok trusted human =
     (if handler_says then Some True
      else map_option (\<lambda>ok. ok \<or> (trusted \<and> human)) token_ok)"

text \<open>The response, and the arguments the handler was called with.\<close>

definition invoke_tool ::
  "mcp_bridge \<Rightarrow> time \<Rightarrow> string \<Rightarrow> string \<Rightarrow> (ustr \<times> mcp_arg) list \<Rightarrow> bool \<Rightarrow> string option \<Rightarrow> bool \<Rightarrow>
   mcp_response \<times> mcp_arg option" where
  "invoke_tool b now server tool args human token trusted =
     (let full_key = mcp_tool_key server tool in
      case map_of (mb_tools b) full_key of
        None \<Rightarrow> (ToolNotFound, None)
      | Some (def, handler) \<Rightarrow>
          (case validate_and_sanitize_arguments (mb_env b) (mb_workspace b) (u_str tool) (strip_approval_args args)
                  (mt_is_mutating def) of
             Inl why \<Rightarrow> (SecurityGateBlocked why, None)
           | Inr clean \<Rightarrow>
               (case (if mt_is_mutating def then
                        mutation_approved
                          (case mb_approval_handler b of None \<Rightarrow> False | Some ask \<Rightarrow> ask server tool clean)
                          (verify_approval_token (get_approval_secret (mb_approval_secret b) (mb_environ_secret b)) now token full_key)
                          trusted human
                      else Some True) of
                  None \<Rightarrow> (McpRaised, None)
                | Some False \<Rightarrow> (HumanApprovalRequired, None)
                | Some True \<Rightarrow>
                    (case handler of
                       None \<Rightarrow> (McpReady, None)
                     | Some h \<Rightarrow>
                         (case clean of
                            ADict kvs \<Rightarrow>
                              (case h kvs of
                                 None \<Rightarrow> (ExecutionError, Some clean)
                               | Some r \<Rightarrow> (McpSuccess (outbound (me_uni (mb_env b)) r), Some clean))
                          | _ \<Rightarrow> (ExecutionError, None))))))"


section \<open>Lemmas on texts\<close>

lemma parse_digits: "(\<And>c. c \<in> set s \<Longrightarrow> PyJson.is_digit c) \<Longrightarrow> PyText.digits_val acc s = Some (foldl (\<lambda>a c. a * 10 + (of_char c - 48)) acc s)"
proof (induction acc s rule: PyText.digits_val.induct)
  case (3 acc c c' s)
  then have c: "PyJson.is_digit c" "PyJson.is_digit c'" by simp_all
  then have "digit_val c = Some (of_char c - 48)" "c' \<noteq> CHR ''_''"
    by (auto simp: digit_val_def PyJson.is_digit_def Let_def)
  with 3 show ?case by simp
qed (auto simp: digit_val_def PyJson.is_digit_def Let_def)

lemma parse_nat_str: "nat_of_digits (nat_str n) = Some n"
proof -
  have "PyText.digits_val 0 (nat_str n) = Some (foldl (\<lambda>a c. a * 10 + (of_char c - 48)) 0 (nat_str n))"
    by (rule parse_digits) (rule nat_str_digits)
  also have "foldl (\<lambda>a c. a * 10 + (of_char c - 48)) 0 (nat_str n) = n"
    using digits_val_nat_str [of n] by (simp add: PyJson.digits_val_def mult.commute)
  finally show ?thesis by (simp add: nat_of_digits_def)
qed

lemma strip_digits: "s \<noteq> [] \<Longrightarrow> (\<And>c. c \<in> set s \<Longrightarrow> \<not> py_space c) \<Longrightarrow> strip s = s"
proof -
  assume ne: "s \<noteq> []" and no: "\<And>c. c \<in> set s \<Longrightarrow> \<not> py_space c"
  have "dropWhile py_space t = t" if "t \<noteq> []" "set t \<subseteq> set s" for t
    using that no by (cases t) auto
  with ne show ?thesis by (simp add: strip_def lstrip_def rstrip_def)
qed

lemma digit_char_facts: "PyJson.is_digit c \<Longrightarrow> \<not> py_space c \<and> c \<noteq> CHR '':'' \<and> c \<noteq> CHR ''-'' \<and> c \<noteq> CHR ''+''"
  by (auto simp: PyJson.is_digit_def py_space_def Let_def)

lemma parse_int_str: "parse_int (int_str i) = Some i"
proof (cases "i < 0")
  case True
  have "strip (CHR ''-'' # nat_str (nat (- i))) = CHR ''-'' # nat_str (nat (- i))"
    using nat_str_digits digit_char_facts by (intro strip_digits) (auto simp: py_space_def)
  with True show ?thesis by (simp add: parse_int_def int_str_def PyJson.signed_def parse_nat_str)
next
  case False
  obtain c r where cr: "nat_str (nat i) = c # r" using nat_str_ne by (metis neq_Nil_conv)
  have "c \<noteq> CHR ''-''" "c \<noteq> CHR ''+''"
    using digit_char_facts [OF nat_str_digits, of c "nat i"] cr by auto
  moreover have "strip (c # r) = c # r"
    using nat_str_digits [of _ "nat i"] digit_char_facts unfolding cr by (intro strip_digits) auto
  ultimately show ?thesis
    using False parse_nat_str [of "nat i"] by (simp add: parse_int_def int_str_def PyJson.signed_def cr)
qed

lemma int_str_no_colon: "CHR '':'' \<notin> set (int_str i)"
  using digit_char_facts nat_str_digits by (auto simp: int_str_def PyJson.signed_def)

lemma high_digit: "(of_char c :: nat) div 16 < 16"
  using nat_of_char_less_256 [of c] by (intro less_mult_imp_div_less) simp

lemma hexdigest_hex: "c \<in> set (hexdigest bs) \<Longrightarrow> \<exists>n<16. c = hex_char n"
  using high_digit by (auto simp: hexdigest_def) (metis mod_less_divisor zero_less_numeral)

lemma hexdigest_chars: "c \<in> set (hexdigest bs) \<Longrightarrow> c \<noteq> CHR '':'' \<and> (of_char c :: nat) < 128"
proof -
  assume "c \<in> set (hexdigest bs)"
  then obtain n where "c = hex_char n" "n < 16" using hexdigest_hex by blast
  then have "of_char c = (if n < 10 then 48 + n else 87 + n)" by (simp add: hex_char_def of_char_of)
  moreover have "(of_char CHR '':'' :: nat) = 58" by simp
  ultimately show ?thesis using \<open>n < 16\<close> by (auto split: if_splits)
qed

lemma rpartition_append: "c \<notin> set b \<Longrightarrow> rpartition_at c (a @ c # b) = (a, True, b)"
proof -
  assume "c \<notin> set b"
  then have "takeWhile (\<lambda>x. x \<noteq> c) (rev b @ c # rev a) = rev b" "dropWhile (\<lambda>x. x \<noteq> c) (rev b @ c # rev a) = c # rev a"
    by (induction b rule: rev_induct) auto
  then show ?thesis by (simp add: rpartition_at_def)
qed

lemma rsplit2_append: "CHR '':'' \<notin> set b \<Longrightarrow> CHR '':'' \<notin> set c \<Longrightarrow> rsplit2 ((k @ '':'' @ b) @ '':'' @ c) = Some (k, b, c)"
  using rpartition_append [of "CHR '':''" c "k @ '':'' @ b"] rpartition_append [of "CHR '':''" b k]
  by (simp add: rsplit2_def)

lemma compare_hexdigest: "compare_digest (hexdigest a) (hexdigest b) = Some (hexdigest a = hexdigest b)"
  using hexdigest_chars by (auto simp: compare_digest_def list_all_iff)

text \<open>A token as it is issued verifies for its tool until it expires.\<close>

lemma issued_token:
  assumes "create_approval_token (Some s) now key ttl = Some tok"
  shows "verify_approval_token (Some s) t (Some tok) key' = Some (key' = key \<and> t \<le> of_int (py_int now + ttl))"
proof -
  let ?p = "token_payload key (py_int now + ttl)"
  have tok: "tok = (key @ '':'' @ int_str (py_int now + ttl)) @ '':'' @ token_signature s ?p"
    using assms by (simp add: create_approval_token_def token_payload_def Let_def)
  have "rsplit2 tok = Some (key, int_str (py_int now + ttl), token_signature s ?p)"
    unfolding tok by (rule rsplit2_append [OF int_str_no_colon]) (use hexdigest_chars in \<open>auto simp: token_signature_def\<close>)
  moreover have "compare_digest (token_signature s ?p) (token_signature s ?p) = Some True"
    by (simp add: token_signature_def compare_hexdigest)
  moreover have "tok \<noteq> []" unfolding tok by simp
  ultimately show ?thesis
    by (auto simp: verify_approval_token_def parse_int_str token_payload_def not_less)
qed


section \<open>Lemmas on nested arguments\<close>

text \<open>The texts of an argument with the context each is checked in, the keys of its dictionaries, and how deep it is.\<close>

fun texts :: "ustr \<Rightarrow> mcp_arg \<Rightarrow> (ustr \<times> ustr) list"
  and entry_texts :: "ustr \<Rightarrow> (ustr \<times> mcp_arg) list \<Rightarrow> (ustr \<times> ustr) list"
  and item_texts :: "ustr \<Rightarrow> nat \<Rightarrow> mcp_arg list \<Rightarrow> (ustr \<times> ustr) list" where
  "texts ctx (ADict kvs) = entry_texts ctx kvs"
| "texts ctx (AList vs) = item_texts ctx 0 vs"
| "texts ctx (ATuple vs) = item_texts ctx 0 vs"
| "texts ctx (ASet vs) = item_texts ctx 0 vs"
| "texts ctx (AStr s) = [(ctx, s)]"
| "texts ctx _ = []"
| "entry_texts ctx [] = []"
| "entry_texts ctx ((k, v) # kvs) = texts (key_context ctx k) v @ entry_texts ctx kvs"
| "item_texts ctx i [] = []"
| "item_texts ctx i (v # vs) = texts (index_context ctx i) v @ item_texts ctx (i + 1) vs"

fun arg_keys :: "mcp_arg \<Rightarrow> ustr list" where
  "arg_keys (ADict kvs) = map fst kvs @ concat (map (\<lambda>(k, v). arg_keys v) kvs)"
| "arg_keys (AList vs) = concat (map arg_keys vs)"
| "arg_keys (ATuple vs) = concat (map arg_keys vs)"
| "arg_keys (ASet vs) = concat (map arg_keys vs)"
| "arg_keys _ = []"

fun within_depth :: "nat \<Rightarrow> nat \<Rightarrow> mcp_arg \<Rightarrow> bool" where
  "within_depth mx d (ADict kvs) \<longleftrightarrow> d \<le> mx \<and> list_all (\<lambda>(k, v). within_depth mx (d + 1) v) kvs"
| "within_depth mx d (AList vs) \<longleftrightarrow> d \<le> mx \<and> list_all (within_depth mx (d + 1)) vs"
| "within_depth mx d (ATuple vs) \<longleftrightarrow> d \<le> mx \<and> list_all (within_depth mx (d + 1)) vs"
| "within_depth mx d (ASet vs) \<longleftrightarrow> d \<le> mx \<and> list_all (within_depth mx (d + 1)) vs"
| "within_depth mx d _ \<longleftrightarrow> d \<le> mx"

definition clean_key :: "ustr \<Rightarrow> bool" where
  "clean_key k \<longleftrightarrow> 0 \<notin> set k \<and> \<not> contains k (u_str ''%00'')"

definition text_passes :: "mcp_env \<Rightarrow> ppath \<Rightarrow> ustr \<Rightarrow> bool \<Rightarrow> ustr \<times> ustr \<Rightarrow> bool" where
  "text_passes e w tool mut p \<longleftrightarrow> check_text e w tool mut (fst p) (snd p) = None"

lemma map_sum_Inr: "map_sum id f x = Inr y \<longleftrightarrow> (\<exists>z. x = Inr z \<and> y = f z)"
  by (cases x) auto

lemma validated_arguments:
  "validate_nested e w tool mut mx ctx d v = Inr v' \<longleftrightarrow>
     v' = v \<and> within_depth mx d v \<and> list_all clean_key (arg_keys v) \<and> list_all (text_passes e w tool mut) (texts ctx v)"
  "validate_entries e w tool mut mx ctx d kvs = Inr kvs' \<longleftrightarrow>
     kvs' = kvs \<and> list_all (\<lambda>(k, v). within_depth mx (d + 1) v) kvs \<and> list_all clean_key (map fst kvs) \<and>
     list_all clean_key (concat (map (\<lambda>(k, v). arg_keys v) kvs)) \<and> list_all (text_passes e w tool mut) (entry_texts ctx kvs)"
  "validate_items e w tool mut mx ctx d i vs = Inr vs' \<longleftrightarrow>
     vs' = vs \<and> list_all (within_depth mx (d + 1)) vs \<and> list_all clean_key (concat (map arg_keys vs)) \<and>
     list_all (text_passes e w tool mut) (item_texts ctx i vs)"
proof (induction e w tool mut mx ctx d v and e w tool mut mx ctx d kvs and e w tool mut mx ctx d i vs
    arbitrary: v' and kvs' and vs'
    rule: validate_nested_validate_entries_validate_items.induct)
  case (1 e w tool mut mx ctx d kvs)
  then show ?case by (auto simp: map_sum_Inr)
next
  case (8 e w tool mut mx ctx d k v kvs)
  show ?case
  proof (cases "clean_key k")
    case True
    then have t: "\<not> (0 \<in> set k \<or> contains k (u_str ''%00''))" by (simp add: clean_key_def)
    show ?thesis
    proof (cases "validate_nested e w tool mut mx (key_context ctx k) (d + 1) v")
      case (Inl b)
      then have "validate_nested e w tool mut mx (key_context ctx k) (d + 1) v \<noteq> Inr v" by simp
      with 8(1) [OF t, of v] Inl t True show ?thesis by auto
    next
      case (Inr x)
      with 8(1) [OF t, of x] 8(2) [OF t Inr] t True show ?thesis by (auto simp: map_sum_Inr)
    qed
  next
    case False
    then show ?thesis by (auto simp: clean_key_def)
  qed
next
  case (10 e w tool mut mx ctx d i v vs)
  show ?case
  proof (cases "validate_nested e w tool mut mx (index_context ctx i) (d + 1) v")
    case (Inl b)
    with 10(1) [of v] show ?thesis by auto
  next
    case (Inr x)
    with 10(1) [of x] 10(2) [OF Inr] show ?thesis by (auto simp: map_sum_Inr)
  qed
qed (auto simp: map_sum_Inr text_passes_def split: option.splits)


lemma first_block_None: "first_block bs = None \<longleftrightarrow> list_all (\<lambda>b. b = None) bs"
  by (induction bs rule: first_block.induct) auto

lemma check_text_None:
  "check_text e w tool mut context v = None \<longleftrightarrow>
     (path_like (ud_lower (me_unicode e) context) v \<longrightarrow> check_path e w v = None) \<and> check_command e v = None \<and>
     check_sql e tool mut (ud_lower (me_unicode e) context) v = None \<and> check_credential (ud_lower (me_unicode e) context) v = None"
  by (simp add: check_text_def Let_def first_block_None)

lemma check_path_None:
  assumes "check_path e w v = None"
  obtains target resolved where "locate e w v = Inr (target, resolved)" "relative_to resolved w \<noteq> None"
    "\<not> fs_is_symlink (me_fs e) target"
    "\<forall>p \<in> set (parents target). p = w \<or> w \<in> set (parents p) \<longrightarrow> \<not> fs_is_symlink (me_fs e) p"
    "\<forall>n \<in> set DEFAULT_SENSITIVE_NAMES. n \<notin> set (all_parts resolved) \<and> n \<notin> set (all_parts target)"
  using assms unfolding check_path_def
  by (auto simp: list_ex_iff split: sum.splits if_splits) blast

lemma invoke_ran:
  assumes "snd (invoke_tool b now server tool args human token trusted) = Some clean"
  obtains def h where "map_of (mb_tools b) (mcp_tool_key server tool) = Some (def, Some h)"
    "validate_and_sanitize_arguments (mb_env b) (mb_workspace b) (u_str tool) (strip_approval_args args) (mt_is_mutating def) = Inr clean"
    "mt_is_mutating def \<longrightarrow>
       mutation_approved (case mb_approval_handler b of None \<Rightarrow> False | Some ask \<Rightarrow> ask server tool clean)
         (verify_approval_token (get_approval_secret (mb_approval_secret b) (mb_environ_secret b)) now token (mcp_tool_key server tool))
         trusted human = Some True"
proof -
  obtain def handler where t: "map_of (mb_tools b) (mcp_tool_key server tool) = Some (def, handler)"
    using assms by (auto simp: invoke_tool_def Let_def split: option.splits)
  obtain c where c: "validate_and_sanitize_arguments (mb_env b) (mb_workspace b) (u_str tool) (strip_approval_args args)
      (mt_is_mutating def) = Inr c"
    using assms t by (auto simp: invoke_tool_def Let_def split: sum.splits)
  let ?ap = "if mt_is_mutating def then
       mutation_approved (case mb_approval_handler b of None \<Rightarrow> False | Some ask \<Rightarrow> ask server tool c)
         (verify_approval_token (get_approval_secret (mb_approval_secret b) (mb_environ_secret b)) now token (mcp_tool_key server tool))
         trusted human
     else Some True"
  have e: "snd (case ?ap of
       None \<Rightarrow> (McpRaised, None)
     | Some False \<Rightarrow> (HumanApprovalRequired, None)
     | Some True \<Rightarrow>
         (case handler of
            None \<Rightarrow> (McpReady, None)
          | Some h \<Rightarrow>
              (case c of
                 ADict kvs \<Rightarrow>
                   (case h kvs of None \<Rightarrow> (ExecutionError, Some c)
                    | Some r \<Rightarrow> (McpSuccess (outbound (me_uni (mb_env b)) r), Some c))
               | _ \<Rightarrow> (ExecutionError, None)))) = Some clean"
    using assms by (simp only: invoke_tool_def Let_def t c option.case prod.case sum.case)
  have ok: "?ap = Some True"
  proof (cases ?ap)
    case None
    with e show ?thesis by (simp only: option.case) simp
  next
    case (Some x)
    with e show ?thesis by (cases x) (simp only: option.case bool.case, simp)+
  qed
  from e obtain h where h: "handler = Some h" by (cases handler) (simp_all add: ok)
  have "c = clean" using e by (cases c) (auto simp: ok h split: option.splits)
  with that [of def h] t c ok h show thesis by (auto split: if_splits)
qed

lemma bound_output_bytes: "length (encode_or_question (bound_output s)) \<le> 65536"
proof (cases "65536 < length (encode_or_question s)")
  case True
  define r where "r = map (\<lambda>c. if valid_cp c then c else 63) s"
  let ?d = "utf8_decode_ignore (take 60000 (utf8_encode r))"
  have v: "\<forall>c \<in> set r. valid_cp c" by (auto simp: r_def valid_cp_def)
  from utf8_cut [OF v, of 60000] have p: "prefix ?d r" and l: "length (utf8_encode ?d) \<le> 60000" by blast+
  have "map (\<lambda>c. if valid_cp c then c else 63) ?d = ?d"
    using v p by (intro map_idI) (auto dest: set_mono_prefix)
  moreover have "length (encode_or_question output_marker) \<le> 100" by code_simp
  moreover have "bound_output s = ?d @ output_marker"
    using True by (simp add: bound_output_def encode_or_question_def r_def Let_def)
  ultimately show ?thesis using l by (simp add: encode_or_question_def)
next
  case False
  then show ?thesis by (simp add: bound_output_def Let_def)
qed

section \<open>Properties\<close>

text \<open>The gate accepts exactly the arguments that are not nested deeper than the limit, whose dictionaries have no
  key with a null byte, and each of whose texts, at any depth and in the context of the keys above
  it, passes the checks; what it accepts it gives on unchanged\<close>

theorem arguments_are_searched_throughout:
  "validate_nested e w tool mut mx ctx d v = Inr v' \<longleftrightarrow>
     v' = v \<and> within_depth mx d v \<and> list_all clean_key (arg_keys v) \<and> list_all (text_passes e w tool mut) (texts ctx v)"
  by (rule validated_arguments(1))

text \<open>C10: a tool gets a path only inside the workspace: when arguments are accepted, each of their texts that is taken
  for a path names a location that resolves below the workspace, is no symbolic link, goes through
  no symbolic link of the workspace, and has no part with a sensitive name, neither as written nor as
  resolved\<close>

theorem accepted_paths_stay_in_the_workspace:
  assumes "validate_and_sanitize_arguments e w tool args mut = Inr v'"
    and "(context, s) \<in> set (texts [] (ADict args))"
    and "path_like (ud_lower (me_unicode e) context) s"
  shows "\<exists>target resolved. locate e w s = Inr (target, resolved) \<and> relative_to resolved w \<noteq> None \<and>
           \<not> fs_is_symlink (me_fs e) target \<and>
           (\<forall>p \<in> set (parents target). p = w \<or> w \<in> set (parents p) \<longrightarrow> \<not> fs_is_symlink (me_fs e) p) \<and>
           (\<forall>n \<in> set DEFAULT_SENSITIVE_NAMES. n \<notin> set (all_parts resolved) \<and> n \<notin> set (all_parts target))"
proof -
  have "list_all (text_passes e w tool mut) (texts [] (ADict args))"
    using assms(1) unfolding validate_and_sanitize_arguments_def validated_arguments(1) by blast
  with assms(2) have "check_text e w tool mut context s = None" by (auto simp: list_all_iff text_passes_def)
  with assms(3) have "check_path e w s = None" by (simp add: check_text_None)
  then show ?thesis by (elim check_path_None) blast
qed

definition demo_mcp :: mcp_env where
  "demo_mcp = \<lparr>me_fs = demo_fs, me_unicode = demo_unicode, me_uni = (\<lambda>_. False), me_environ = (\<lambda>_. None),
     me_home = ppath_of (u_str ''/h'')\<rparr>"

definition demo_args :: "(ustr \<times> mcp_arg) list" where
  "demo_args = [(u_str ''opts'', AList [ADict [(u_str ''file'', AStr (u_str ''a%2fb''))], AInt 3])]"

lemma demo_args_accepted:
  "validate_and_sanitize_arguments demo_mcp (ppath_of (u_str ''/w'')) (u_str ''read'') demo_args False = Inr (ADict demo_args)"
  by code_simp

theorem accepted_paths_stay_in_the_workspace_witness:
  "\<exists>target resolved. locate demo_mcp (ppath_of (u_str ''/w'')) (u_str ''a%2fb'') = Inr (target, resolved) \<and>
     relative_to resolved (ppath_of (u_str ''/w'')) \<noteq> None"
proof -
  have m: "(u_str ''opts[0].file'', u_str ''a%2fb'') \<in> set (texts [] (ADict demo_args))" by code_simp
  have "path_like (ud_lower (me_unicode demo_mcp) (u_str ''opts[0].file'')) (u_str ''a%2fb'')" by code_simp
  from accepted_paths_stay_in_the_workspace [OF demo_args_accepted m this] show ?thesis by blast
qed

text \<open>C9: a handler runs only for a registered tool and with the caller's arguments after the gate has accepted them,
  without the arguments that could pass for an approval; a mutating tool runs only when the approval
  handler says so, or a token verifies for this very tool, or a trusted caller says that a human
  approved\<close>

theorem mutating_tools_need_approval:
  assumes "snd (invoke_tool b now server tool args human token trusted) = Some clean"
  shows "\<exists>def h. map_of (mb_tools b) (mcp_tool_key server tool) = Some (def, Some h) \<and> clean = ADict (strip_approval_args args) \<and>
           list_all (text_passes (mb_env b) (mb_workspace b) (u_str tool) (mt_is_mutating def)) (texts [] clean) \<and>
           (mt_is_mutating def \<longrightarrow>
              (\<exists>ask. mb_approval_handler b = Some ask \<and> ask server tool clean) \<or>
              verify_approval_token (get_approval_secret (mb_approval_secret b) (mb_environ_secret b)) now token
                (mcp_tool_key server tool) = Some True \<or> trusted \<and> human)"
  using assms
proof (rule invoke_ran)
  fix def h
  assume t: "map_of (mb_tools b) (mcp_tool_key server tool) = Some (def, Some h)"
    and v: "validate_and_sanitize_arguments (mb_env b) (mb_workspace b) (u_str tool) (strip_approval_args args) (mt_is_mutating def) = Inr clean"
    and a: "mt_is_mutating def \<longrightarrow>
       mutation_approved (case mb_approval_handler b of None \<Rightarrow> False | Some ask \<Rightarrow> ask server tool clean)
         (verify_approval_token (get_approval_secret (mb_approval_secret b) (mb_environ_secret b)) now token (mcp_tool_key server tool))
         trusted human = Some True"
  from v have c: "clean = ADict (strip_approval_args args)"
      "list_all (text_passes (mb_env b) (mb_workspace b) (u_str tool) (mt_is_mutating def)) (texts [] clean)"
    unfolding validate_and_sanitize_arguments_def validated_arguments(1) by blast+
  from a have "mt_is_mutating def \<longrightarrow>
      (\<exists>ask. mb_approval_handler b = Some ask \<and> ask server tool clean) \<or>
      verify_approval_token (get_approval_secret (mb_approval_secret b) (mb_environ_secret b)) now token
        (mcp_tool_key server tool) = Some True \<or> trusted \<and> human"
    by (auto simp: mutation_approved_def split: if_splits option.splits)
  with t c show ?thesis by blast
qed


definition demo_bridge :: mcp_bridge where
  "demo_bridge = register_mcp_tool ''fs'' ''write'' [] (JObj []) True (Some (\<lambda>kvs. Some (ResText (u_str ''done''))))
     \<lparr>mb_env = demo_mcp, mb_workspace = ppath_of (u_str ''/w''), mb_tools = [], mb_approval_handler = None,
      mb_approval_secret = Some ''k'', mb_environ_secret = None\<rparr>"

lemma demo_invocation:
  "invoke_tool demo_bridge 0 ''fs'' ''write'' [(u_str ''file'', AStr (u_str ''a'')), (u_str ''human_approved'', ABool True)] True None False =
     (HumanApprovalRequired, None) \<and>
   invoke_tool demo_bridge 0 ''fs'' ''write'' [(u_str ''file'', AStr (u_str ''a'')), (u_str ''human_approved'', ABool True)] True None True =
     (McpSuccess (ResText (u_str ''done'')), Some (ADict [(u_str ''file'', AStr (u_str ''a''))]))"
  by code_simp

theorem mutating_tools_need_approval_witness:
  "\<exists>def h. map_of (mb_tools demo_bridge) (mcp_tool_key ''fs'' ''write'') = Some (def, Some h)"
  using mutating_tools_need_approval [of demo_bridge 0 "''fs''" "''write''"
      "[(u_str ''file'', AStr (u_str ''a'')), (u_str ''human_approved'', ABool True)]" True None True] demo_invocation
  by auto

text \<open>C37: an approval token verifies under its secret for exactly the tool it was issued for and until exactly the second
  at which it expires, however many colons the name of the tool has\<close>

theorem approval_tokens_are_exact:
  assumes "create_approval_token (Some s) now key ttl = Some tok"
  shows "verify_approval_token (Some s) t (Some tok) key' = Some (key' = key \<and> t \<le> of_int (py_int now + ttl))"
  by (rule issued_token [OF assms])

theorem approval_tokens_are_exact_witness:
  "verify_approval_token (Some ''k'') 400 (create_approval_token (Some ''k'') 100 ''fs:write'' 300) ''fs:write'' = Some True \<and>
   verify_approval_token (Some ''k'') 401 (create_approval_token (Some ''k'') 100 ''fs:write'' 300) ''fs:write'' = Some False"
proof -
  obtain tok where t: "create_approval_token (Some ''k'') 100 ''fs:write'' 300 = Some tok"
    by (simp add: create_approval_token_def Let_def)
  have "py_int 100 = 100" by code_simp
  then show ?thesis by (simp add: t approval_tokens_are_exact [OF t])
qed

text \<open>A text that a tool returns reaches the model in at most 64 KB of UTF-8\<close>

theorem tool_text_is_bounded:
  "case outbound un (ResText s) of ResText t \<Rightarrow> length (encode_or_question t) \<le> 65536 | _ \<Rightarrow> False"
  using bound_output_bytes by simp

section \<open>What the checks miss\<close>

text \<open>The boundary in front of the redirection needs a word right before it; two tools can have one key; a signature that
  is not ASCII raises instead of being refused; and only the key is bound by a token.\<close>

lemma device_overwrite_is_not_seen: "check_command demo_mcp (u_str ''cat x > /dev/sda'') = None"
  by code_simp

lemma device_overwrite_after_a_word: "check_command demo_mcp (u_str ''cat x>/dev/sda'') = Some DangerousCommand"
  by code_simp

lemma separate_flags_are_not_seen: "check_command demo_mcp (u_str ''rm -r -f /'') = None"
  by code_simp

lemma tools_share_a_key: "mcp_tool_key ''a:b'' ''c'' = mcp_tool_key ''a'' ''b:c''"
  by (simp add: mcp_tool_key_def)

lemma odd_signature_raises:
  "verify_approval_token (Some ''k'') 0 (Some (''t:1:'' @ [CHR 0xE9])) ''t'' = None"
proof -
  have "rsplit2 (''t:1:'' @ [CHR 0xE9]) = Some (''t'', ''1'', [CHR 0xE9])" "parse_int ''1'' = Some 1" by code_simp+
  then show ?thesis by (simp add: verify_approval_token_def compare_digest_def)
qed

lemma sql_context_is_irrelevant:
  "check_sql e tool mut ctx v = check_sql e tool mut [] v"
  by (simp add: check_sql_def Let_def)


end
