(* ===== verification/TrustRoot.thy ===== *)
theory TrustRoot
  imports McpBridge Credentials
begin

text \<open>
  The trust root of capabilities, \<open>src/hermes_core/trust_root.py\<close>: the text that is signed for a capability, the
  public key in force, verification and signing; and the release script \<open>src/scripts/sign_capability.py\<close>, which signs
  the manifest of a directory. Ed25519 is a parameter: a verifier for every public key. The files and the
  environment are arguments.
\<close>

section \<open>Hex text\<close>

definition hex_val :: "char \<Rightarrow> nat option" where
  "hex_val c = hex_digit (of_char c)"

definition hex_blank :: "char \<Rightarrow> bool" where
  "hex_blank c \<longleftrightarrow> (let n = (of_char c :: nat) in n = 32 \<or> (9 \<le> n \<and> n \<le> 13))"

text \<open>\<open>bytes.fromhex\<close>: blanks may stand between bytes; \<open>None\<close> is the \<open>ValueError\<close>.\<close>

fun fromhex :: "string \<Rightarrow> bytes option" where
  "fromhex [] = Some []"
| "fromhex [c] = (if hex_blank c then Some [] else None)"
| "fromhex (c # d # s) =
     (if hex_blank c then fromhex (d # s)
      else case (hex_val c, hex_val d) of
          (Some x, Some y) \<Rightarrow> map_option (\<lambda>bs. char_of (16 * x + y) # bs) (fromhex s)
        | _ \<Rightarrow> None)"

section \<open>The canonical text\<close>

definition files_text :: "string dict \<Rightarrow> string list" where
  "files_text files = map (\<lambda>f. f @ ''='' @ the (map_of files f)) (sort (map fst files))"

definition canonical_payload :: "string \<Rightarrow> string \<Rightarrow> string dict \<Rightarrow> string" where
  "canonical_payload cap ver files = strip cap @ '':'' @ strip ver @ '':'' @ join ''|'' (files_text files)"

definition compute_canonical_digest :: "string \<Rightarrow> string \<Rightarrow> string dict \<Rightarrow> bytes" where
  "compute_canonical_digest cap ver files = sha256 (encoded (canonical_payload cap ver files))"

section \<open>The public key\<close>

datatype file_text = NoFile | Unreadable | FileText string

record trust_env =
  te_has_cryptography :: bool
  te_env_key :: "string option"
  te_env_file :: "string \<Rightarrow> file_text"
  te_default_file :: file_text
  te_ed25519 :: "bytes \<Rightarrow> verifier"

definition BUILTIN_RELEASE_AUTHORITY_PUBKEY_HEX :: string where
  "BUILTIN_RELEASE_AUTHORITY_PUBKEY_HEX = ''65066f7a0b6cd41cb528e8e921463d14d0c782a009e774b57b9897bcc2a00c98''"

definition builtin_or_file :: "trust_env \<Rightarrow> bytes option" where
  "builtin_or_file te =
     (case te_default_file te of
        FileText t \<Rightarrow> (case fromhex (strip t) of Some k \<Rightarrow> Some k | None \<Rightarrow> fromhex BUILTIN_RELEASE_AUTHORITY_PUBKEY_HEX)
      | _ \<Rightarrow> fromhex BUILTIN_RELEASE_AUTHORITY_PUBKEY_HEX)"

text \<open>\<open>None\<close> is an exception: the file that the environment names cannot be read or is not hex.\<close>

definition load_trust_root_pubkey :: "trust_env \<Rightarrow> bytes option" where
  "load_trust_root_pubkey te =
     (case te_env_key te of
        None \<Rightarrow> builtin_or_file te
      | Some k \<Rightarrow>
          (if k = [] then builtin_or_file te
           else case te_env_file te k of
               Unreadable \<Rightarrow> None
             | FileText t \<Rightarrow> fromhex (strip t)
             | NoFile \<Rightarrow> (case fromhex (strip k) of Some b \<Rightarrow> Some b | None \<Rightarrow> builtin_or_file te)))"

section \<open>Verification\<close>

datatype sig_error = NoCryptography | MissingSignature | SignatureLength nat | SignatureFormat | KeyLength nat | BadSignature

datatype sig_verdict = SigValid | SigRefused sig_error | SigRaised

text \<open>Identifier, version and signature are values of a manifest, of any type.\<close>

definition verify_capability_signature ::
  "trust_env \<Rightarrow> json \<Rightarrow> json \<Rightarrow> string dict \<Rightarrow> json \<Rightarrow> bytes option \<Rightarrow> sig_verdict" where
  "verify_capability_signature te cap ver files signature_hex key =
     (if \<not> te_has_cryptography te then SigRefused NoCryptography
      else case signature_hex of
          JStr hex \<Rightarrow>
            (if hex = [] then SigRefused MissingSignature
             else case fromhex (strip hex) of
                 None \<Rightarrow> SigRefused SignatureFormat
               | Some sg \<Rightarrow>
                   (if length sg \<noteq> 64 then SigRefused (SignatureLength (length sg))
                    else case (case key of Some k \<Rightarrow> Some k | None \<Rightarrow> load_trust_root_pubkey te) of
                        None \<Rightarrow> SigRaised
                      | Some k \<Rightarrow>
                          (if length k \<noteq> 32 then SigRefused (KeyLength (length k))
                           else case (cap, ver) of
                               (JStr c, JStr v) \<Rightarrow>
                                 (if te_ed25519 te k sg (compute_canonical_digest c v files) then SigValid
                                  else SigRefused BadSignature)
                             | _ \<Rightarrow> SigRaised)))
        | _ \<Rightarrow> SigRefused MissingSignature)"

definition sign_capability_digest :: "signer \<Rightarrow> string \<Rightarrow> string \<Rightarrow> string dict \<Rightarrow> string" where
  "sign_capability_digest sk cap ver files = hexdigest (sk (compute_canonical_digest cap ver files))"

section \<open>The release script\<close>

definition json_get :: "(string \<times> json) list \<Rightarrow> string \<Rightarrow> json \<Rightarrow> json" where
  "json_get d k v = (case map_of d k of Some w \<Rightarrow> w | None \<Rightarrow> v)"

text \<open>The digests of the declared files, without the manifest itself; \<open>Inl True\<close> is an exception (a name that is no
  text), \<open>Inl False\<close> a file that does not exist.\<close>

fun declared_hashes :: "(string \<Rightarrow> bytes option) \<Rightarrow> string dict \<Rightarrow> json list \<Rightarrow> bool + string dict" where
  "declared_hashes content acc [] = Inr acc"
| "declared_hashes content acc (JStr f # fs) =
     (if f = ''manifest.json'' then declared_hashes content acc fs
      else case content f of
          None \<Rightarrow> Inl False
        | Some bs \<Rightarrow> declared_hashes content (AList.update f (sha256_hex bs) acc) fs)"
| "declared_hashes content acc (_ # fs) = Inl True"

text \<open>What a loop over the declared files goes through; \<open>None\<close> is the \<open>TypeError\<close> of a value that cannot be gone through.\<close>

fun declared_names :: "json \<Rightarrow> json list option" where
  "declared_names (JArr vs) = Some vs"
| "declared_names (JStr s) = Some (map (\<lambda>c. JStr [c]) s)"
| "declared_names (JObj kvs) = Some (map (\<lambda>(k, v). JStr k) kvs)"
| "declared_names _ = None"

definition signed_manifest :: "(string \<times> json) list \<Rightarrow> string dict \<Rightarrow> string \<Rightarrow> (string \<times> json) list" where
  "signed_manifest manifest files signature =
     AList.update ''trust''
       (JObj [(''approved'', JBool True), (''approved_by'', JStr ''Hermes Release Authority''),
              (''policy'', JStr ''CRYPTOGRAPHICALLY_VERIFIED''), (''signature'', JStr signature)])
       (AList.update ''integrity''
          (JObj [(''algorithm'', JStr ''sha256''), (''files'', JObj (map (\<lambda>(f, h). (f, JStr h)) files))]) manifest)"

datatype sign_outcome = Signed "(string \<times> json) list" | SignRefused | SignRaised

text \<open>\<open>sk\<close> is the private key (\<open>None\<close>: none is found), \<open>pk\<close> the public key that belongs to it.\<close>

definition sign_capability ::
  "trust_env \<Rightarrow> (signer \<times> bytes) option \<Rightarrow> (string \<Rightarrow> bytes option) \<Rightarrow> (string \<times> json) list \<Rightarrow> sign_outcome" where
  "sign_capability te keys content manifest =
     (let cap = json_get manifest ''capability_id'' JNull;
          ver = json_get manifest ''version'' (JStr ''1.0.0'')
      in case declared_names (json_get manifest ''files'' (JArr [])) of
           Some declared \<Rightarrow>
             (case declared_hashes content [] declared of
                Inl raised \<Rightarrow> (if raised then SignRaised else SignRefused)
              | Inr files \<Rightarrow>
                  (case keys of
                     None \<Rightarrow> SignRaised
                   | Some (sk, pk) \<Rightarrow>
                       (case (cap, ver) of
                          (JStr c, JStr v) \<Rightarrow>
                            (if \<not> te_has_cryptography te then SignRaised
                             else let sg = sign_capability_digest sk c v files in
                               if verify_capability_signature te cap ver files (JStr sg) (Some pk) = SigValid
                               then Signed (signed_manifest manifest files sg) else SignRefused)
                        | _ \<Rightarrow> SignRaised)))
         | None \<Rightarrow> SignRaised)"

section \<open>Lemmas\<close>

lemma json_get_simps [simp]:
  "json_get [] k v = v" "json_get ((a, b) # d) k v = (if k = a then b else json_get d k v)"
  "json_get (AList.update k' w d) k v = (if k = k' then w else json_get d k v)"
  by (simp_all add: json_get_def)

lemma hex_val_char: "n < 16 \<Longrightarrow> hex_val (hex_char n) = Some n \<and> \<not> hex_blank (hex_char n)"
proof -
  assume "n < 16"
  then have "(of_char (hex_char n) :: nat) = (if n < 10 then 48 + n else 87 + n)" by (simp add: hex_char_def of_char_of)
  with \<open>n < 16\<close> show ?thesis by (simp add: hex_val_def hex_digit_def hex_blank_def)
qed

lemma fromhex_hexdigest [simp]: "fromhex (hexdigest bs) = Some bs"
proof (induction bs)
  case (Cons c bs)
  then have "hex_val (hex_char (of_char c div 16)) = Some (of_char c div 16)" "\<not> hex_blank (hex_char (of_char c div 16))"
    "hex_val (hex_char (of_char c mod 16)) = Some (of_char c mod 16)"
    using hex_val_char [OF high_digit [of c]] hex_val_char [of "of_char c mod 16"] by auto
  with Cons.IH show ?case by (simp add: hexdigest_def)
qed (simp add: hexdigest_def)

lemma strip_hexdigest: "strip (hexdigest bs) = hexdigest bs"
proof (cases "hexdigest bs = []")
  case False
  have "\<not> py_space c" if h: "c \<in> set (hexdigest bs)" for c
  proof -
    obtain n where "c = hex_char n" "n < 16" using hexdigest_hex [OF h] by blast
    then have "(of_char c :: nat) = (if n < 10 then 48 + n else 87 + n)" by (simp add: hex_char_def of_char_of)
    with \<open>n < 16\<close> show ?thesis by (auto simp: py_space_def Let_def)
  qed
  with False show ?thesis by (rule strip_digits)
qed (simp add: strip_def lstrip_def rstrip_def)

text \<open>What was signed with the private key verifies with the public key.\<close>

lemma signed_digest_verifies:
  assumes "te_has_cryptography te" and "length k = 32" and "ed25519_ok sk (te_ed25519 te k)"
  shows "verify_capability_signature te (JStr c) (JStr v) files (JStr (sign_capability_digest sk c v files)) (Some k) = SigValid"
proof -
  let ?sg = "sk (compute_canonical_digest c v files)"
  have l: "length ?sg = 64" and ok: "te_ed25519 te k ?sg (compute_canonical_digest c v files)"
    using assms(3) by (simp_all add: ed25519_ok_def)
  then have "hexdigest ?sg \<noteq> []" by (auto simp: hexdigest_def)
  with assms l ok show ?thesis by (simp add: verify_capability_signature_def sign_capability_digest_def strip_hexdigest)
qed

section \<open>What the canonical text determines\<close>

lemma separator_unique:
  "x \<notin> set a \<Longrightarrow> x \<notin> set a' \<Longrightarrow> a @ x # r = a' @ x # r' \<Longrightarrow> a = a' \<and> r = r'"
proof (induction a arbitrary: a')
  case Nil
  then show ?case by (cases a') auto
next
  case (Cons y a)
  then show ?case by (cases a') auto
qed

lemma join_inj:
  assumes "\<forall>s \<in> set ss. s \<noteq> [] \<and> x \<notin> set s" "\<forall>t \<in> set ts. t \<noteq> [] \<and> x \<notin> set t"
    and "join [x] ss = join [x] ts"
  shows "ss = ts"
  using assms
proof (induction ss arbitrary: ts)
  case Nil
  then show ?case by (cases ts rule: remdups_adj.cases) auto
next
  case (Cons s ss)
  obtain t ts' where ts: "ts = t # ts'" using Cons.prems by (cases ts; cases ss) auto
  show ?case
  proof (cases "ss = [] \<or> ts' = []")
    case True
    have "x \<in> set (join [x] (u # us))" if "us \<noteq> []" for u us using that by (cases us) auto
    moreover have "x \<notin> set s" "x \<notin> set t" using Cons.prems(1,2) ts by auto
    ultimately have "ss = [] \<and> ts' = []" using True Cons.prems(3) ts by (metis join.simps(2))
    then show ?thesis using Cons.prems(3) ts by simp
  next
    case False
    then obtain s2 ss2 t2 ts2 where e: "ss = s2 # ss2" "ts' = t2 # ts2" by (meson neq_Nil_conv)
    have "s @ x # join [x] ss = t @ x # join [x] ts'" using Cons.prems(3) by (simp add: ts e)
    then have "s = t" "join [x] ss = join [x] ts'"
      using separator_unique [of x s t "join [x] ss" "join [x] ts'"] Cons.prems(1,2) ts by auto
    with Cons.IH [of ts'] Cons.prems(1,2) ts show ?thesis by simp
  qed
qed

definition plain_files :: "string dict \<Rightarrow> bool" where
  "plain_files files \<longleftrightarrow>
     list_all (\<lambda>(f, h). CHR ''='' \<notin> set f \<and> CHR ''|'' \<notin> set f \<and> CHR ''|'' \<notin> set h) files"

lemma set_strip: "set (strip s) \<subseteq> set s"
  by (auto simp: strip_def lstrip_def rstrip_def dest!: set_dropWhileD)

lemma in_domain: "f \<in> fst ` set x \<longleftrightarrow> (\<exists>h. map_of x f = Some h)"
  using map_of_eq_None_iff [of x f] by (cases "map_of x f") auto

lemma files_text_eq:
  assumes "plain_files a" "plain_files b" "files_text a = files_text b"
  shows "map_of a = map_of b"
proof -
  have plain: "CHR ''='' \<notin> set f" if "plain_files x" "f \<in> fst ` set x" for f and x :: "string dict"
    using that by (auto simp: plain_files_def list_all_iff)
  have "map (\<lambda>f. (f, the (map_of a f))) (sort (map fst a)) = map (\<lambda>f. (f, the (map_of b f))) (sort (map fst b))"
  proof (rule nth_equalityI)
    show l: "length (map (\<lambda>f. (f, the (map_of a f))) (sort (map fst a))) = length (map (\<lambda>f. (f, the (map_of b f))) (sort (map fst b)))"
      using arg_cong [OF assms(3), of length] by (simp add: files_text_def)
    fix i
    assume i: "i < length (map (\<lambda>f. (f, the (map_of a f))) (sort (map fst a)))"
    let ?f = "sort (map fst a) ! i" and ?g = "sort (map fst b) ! i"
    have fm: "?f \<in> fst ` set a" "?g \<in> fst ` set b" using i l by (metis length_map list.set_map nth_mem set_sort)+
    have "files_text a ! i = files_text b ! i" using assms(3) by simp
    then have "?f @ ''='' @ the (map_of a ?f) = ?g @ ''='' @ the (map_of b ?g)"
      using i l unfolding files_text_def by simp
    then have eq: "?f = ?g \<and> the (map_of a ?f) = the (map_of b ?g)"
      using separator_unique [of "CHR ''=''" ?f ?g] plain [OF assms(1) fm(1)] plain [OF assms(2) fm(2)] by simp
    have il: "i < length (sort (map fst a))" "i < length (sort (map fst b))" using i l by simp_all
    show "map (\<lambda>f. (f, the (map_of a f))) (sort (map fst a)) ! i = map (\<lambda>f. (f, the (map_of b f))) (sort (map fst b)) ! i"
      unfolding nth_map [OF il(1)] nth_map [OF il(2)]
      by (rule arg_cong2 [of _ _ _ _ Pair, OF conjunct1 [OF eq] conjunct2 [OF eq]])
  qed
  then have "set (map (\<lambda>f. (f, the (map_of a f))) (sort (map fst a))) = set (map (\<lambda>f. (f, the (map_of b f))) (sort (map fst b)))"
    by (rule arg_cong)
  then have pairs: "(\<lambda>f. (f, the (map_of a f))) ` fst ` set a = (\<lambda>f. (f, the (map_of b f))) ` fst ` set b" by simp
  have "map_of x f = Some h \<longleftrightarrow> (f, h) \<in> (\<lambda>f. (f, the (map_of x f))) ` fst ` set x" for x :: "string dict" and f h
    using in_domain [of f x] by auto
  with pairs have "map_of a f = Some h \<longleftrightarrow> map_of b f = Some h" for f h by simp
  then show ?thesis by (metis option.exhaust ext)
qed

lemma enc_cp_byte: "n < 256 \<Longrightarrow> \<forall>b \<in> set (enc_cp n). b < 256"
  by (auto simp: enc_cp_def)

lemma encoded_inj: "encoded s = encoded t \<Longrightarrow> s = t"
proof -
  have lt: "\<forall>b \<in> set (utf8_encode (u_str x)). b < 256" for x
  proof (induction x)
    case (Cons c x)
    have "\<forall>b \<in> set (enc_cp (of_char c)). b < 256" by (rule enc_cp_byte [OF nat_of_char_less_256])
    with Cons.IH show ?case by (auto simp: u_str_def)
  qed (simp add: u_str_def)
  have decoded: "map of_char (encoded x) = utf8_encode (u_str x)" for x
  proof -
    have "map (\<lambda>b. of_char (char_of b)) bs = bs" if "\<forall>b \<in> set bs. b < 256" for bs :: "nat list"
      using that by (induction bs) (simp_all add: of_char_of)
    from this [OF lt] show ?thesis by (simp add: encoded_def comp_def)
  qed
  have valid: "\<forall>c \<in> set (u_str x). valid_cp c" for x
    by (auto simp: u_str_def valid_cp_def intro!: less_trans [OF nat_of_char_less_256])
  assume "encoded s = encoded t"
  then have "utf8_encode (u_str s) = utf8_encode (u_str t)" using decoded by metis
  then have "u_str s = u_str t" using utf8_roundtrip valid by metis
  then show ?thesis by (simp add: u_str_def inj_map_eq_map [OF inj_of_char])
qed

lemma canonical_payload_eq:
  assumes "canonical_payload c v files = canonical_payload c' v' files'"
    and "CHR '':'' \<notin> set c" "CHR '':'' \<notin> set c'" "CHR '':'' \<notin> set v" "CHR '':'' \<notin> set v'"
    and "plain_files files" "plain_files files'"
  shows "strip c = strip c' \<and> strip v = strip v' \<and> map_of files = map_of files'"
proof -
  have no: "CHR '':'' \<notin> set (strip x)" if "CHR '':'' \<notin> set x" for x
    using that set_strip by blast
  have id: "strip c = strip c' \<and> strip v @ '':'' @ join ''|'' (files_text files) = strip v' @ '':'' @ join ''|'' (files_text files')"
    using assms(1) separator_unique [OF no [OF assms(2)] no [OF assms(3)]] by (simp add: canonical_payload_def)
  then have ver: "strip v = strip v' \<and> join ''|'' (files_text files) = join ''|'' (files_text files')"
    using separator_unique [OF no [OF assms(4)] no [OF assms(5)]] by fastforce
  have seg: "\<forall>s \<in> set (files_text x). s \<noteq> [] \<and> CHR ''|'' \<notin> set s" if "plain_files x" for x
  proof -
    have "CHR ''|'' \<notin> set f \<and> CHR ''|'' \<notin> set (the (map_of x f))" if mem: "f \<in> fst ` set x" for f
    proof -
      obtain h where h: "map_of x f = Some h" using in_domain [of f x] mem by auto
      from this map_of_SomeD [OF h] \<open>plain_files x\<close> show ?thesis by (auto simp: plain_files_def list_all_iff)
    qed
    then show ?thesis by (auto simp: files_text_def)
  qed
  have "files_text files = files_text files'"
    by (rule join_inj [OF seg [OF assms(6)] seg [OF assms(7)] conjunct2 [OF ver]])
  from files_text_eq [OF assms(6,7) this] show ?thesis by (intro conjI conjunct1 [OF id] conjunct1 [OF ver])
qed


end
