(* ===== verification/ExtensionRegistry.thy ===== *)
theory ExtensionRegistry
  imports TrustRoot
begin

text \<open>
  The extension registry, \<open>src/capabilities/extension_layer/extension_registry_engine.py\<close>: reading manifests, the
  gates a directory passes before any of its code runs, quarantine, registration and dispatch. What a
  directory holds and what its code does when it is run is the record \<open>ext_dir\<close>; running code is an event.
\<close>

section \<open>Manifests\<close>

text \<open>Truth of a value.\<close>

fun py_true :: "json \<Rightarrow> bool" where
  "py_true JNull = False"
| "py_true (JBool b) = b"
| "py_true (JInt i) = (i \<noteq> 0)"
| "py_true (JFloat x) = (x \<noteq> 0)"
| "py_true (JStr s) = (s \<noteq> [])"
| "py_true (JArr vs) = (vs \<noteq> [])"
| "py_true (JObj kvs) = (kvs \<noteq> [])"

record ext_manifest =
  em_capability_id :: json
  em_name :: json
  em_version :: json
  em_description :: json
  em_author :: json
  em_approved_by :: json
  em_entrypoint :: json
  em_files :: json
  em_dependencies :: json
  em_integrity :: json
  em_trust :: json

definition manifest_of_dict :: "(string \<times> json) list \<Rightarrow> ext_manifest" where
  "manifest_of_dict d =
     \<lparr>em_capability_id = json_get d ''capability_id'' (JStr []), em_name = json_get d ''name'' (JStr []),
      em_version = json_get d ''version'' (JStr ''1.0.0''), em_description = json_get d ''description'' (JStr []),
      em_author = json_get d ''author'' (JStr []), em_approved_by = json_get d ''approved_by'' (JStr []),
      em_entrypoint = json_get d ''entrypoint'' (JStr []), em_files = json_get d ''files'' (JArr []),
      em_dependencies = json_get d ''dependencies'' (JArr []), em_integrity = json_get d ''integrity'' (JObj []),
      em_trust = json_get d ''trust'' (JObj [])\<rparr>"

section \<open>What a directory holds\<close>

text \<open>A parameter of a function: its name, the annotation (as far as the schema tells it apart), and whether it has a
  default.\<close>

datatype annotation = AnnInt | AnnBool | AnnFloat | AnnDict | AnnList | AnnOther

type_synonym kwargs = "(ustr \<times> mcp_arg) list"

record py_func =
  pf_params :: "(string \<times> annotation \<times> bool) list option"
  pf_doc :: "string option"
  pf_call :: "kwargs \<Rightarrow> json option"

datatype validator_answer =
    NoValidator | ValidatorRaised string | NoValidateFunction | ReturnedPair bool string | ReturnedOther

datatype module_answer = NoModule | ImportRaised | NotCallable | CallableFunc py_func

text \<open>The manifest as \<open>json.load\<close> reads it (\<open>None\<close>: there is no file, \<open>Some None\<close>: it cannot be read), whether the
  resolved directory is below the root, the bytes of a file (\<open>NoFile\<close> also for what is no regular file).\<close>

datatype file_bytes = NoBytes | UnreadableBytes | Bytes bytes

record ext_dir =
  xd_name :: string
  xd_is_dir :: bool
  xd_manifest :: "json option option"
  xd_below_root :: bool
  xd_file :: "string \<Rightarrow> file_bytes"
  xd_validator :: validator_answer
  xd_module :: "string \<Rightarrow> string \<Rightarrow> module_answer"

text \<open>Code that is run while a directory is processed.\<close>

datatype code_event = RunValidator string | RunModule string string

section \<open>The registry\<close>

datatype quarantine_reason =
    ManifestUnreadable | MissingIdOrName | UntrustedPath | IntegrityBlock | IntegrityMissing string
  | IntegrityMismatch string | NotApproved | SignatureFailed sig_verdict | ValidatorFailed string | ImportFailed

record reg_tool =
  rt_tool_name :: json
  rt_capability_id :: json
  rt_description :: json
  rt_function :: py_func
  rt_schema :: json
  rt_source_module :: string
  rt_is_mutating :: bool

record registry =
  rg_active :: "(json \<times> ext_manifest) list"
  rg_quarantined :: "(json \<times> quarantine_reason) list"
  rg_tools :: "(json \<times> reg_tool) list"

definition empty_registry :: registry where
  "empty_registry = \<lparr>rg_active = [], rg_quarantined = [], rg_tools = []\<rparr>"

text \<open>A value as the key of a dictionary: numbers that are equal are one key, lists and objects cannot be one (\<open>None\<close>
  is the \<open>TypeError\<close>).\<close>

fun dict_key :: "json \<Rightarrow> json option" where
  "dict_key (JArr vs) = None"
| "dict_key (JObj kvs) = None"
| "dict_key (JBool b) = Some (JInt (if b then 1 else 0))"
| "dict_key (JFloat x) = Some (if x = of_int \<lfloor>x\<rfloor> then JInt \<lfloor>x\<rfloor> else JFloat x)"
| "dict_key v = Some v"

definition quarantine :: "json \<Rightarrow> quarantine_reason \<Rightarrow> registry \<Rightarrow> registry option" where
  "quarantine name why rg =
     map_option (\<lambda>k. rg\<lparr>rg_quarantined := AList.update k why (rg_quarantined rg)\<rparr>) (dict_key name)"

section \<open>Gates\<close>

text \<open>The files of the integrity block are compared in their order; \<open>None\<close> is an exception, \<open>Some None\<close> that all
  agree.\<close>

fun check_files :: "(string \<Rightarrow> file_bytes) \<Rightarrow> (string \<times> json) list \<Rightarrow> quarantine_reason option option" where
  "check_files content [] = Some None"
| "check_files content ((f, expected) # fs) =
     (case content f of
        NoBytes \<Rightarrow> Some (Some (IntegrityMissing f))
      | UnreadableBytes \<Rightarrow> None
      | Bytes bs \<Rightarrow> (if JStr (sha256_hex bs) \<noteq> expected then Some (Some (IntegrityMismatch f)) else check_files content fs))"

text \<open>The integrity block as far as it is well formed: \<open>None\<close> is an exception, \<open>Some None\<close> a block that is refused.\<close>

definition integrity_files :: "json \<Rightarrow> (string \<times> json) list option option" where
  "integrity_files integrity =
     (if \<not> py_true integrity then Some None
      else case integrity of
          JObj d \<Rightarrow>
            (if json_get d ''algorithm'' JNull \<noteq> JStr ''sha256'' \<or> \<not> py_true (json_get d ''files'' JNull) then Some None
             else case json_get d ''files'' JNull of JObj files \<Rightarrow> Some (Some files) | _ \<Rightarrow> None)
        | _ \<Rightarrow> None)"

text \<open>The hashes once they agree: all are text.\<close>

definition hashes_of :: "(string \<times> json) list \<Rightarrow> string dict" where
  "hashes_of files = map (\<lambda>(f, h). (f, case h of JStr s \<Rightarrow> s | _ \<Rightarrow> [])) files"

text \<open>All gates before code of the directory runs, the identifier and the name first: \<open>None\<close> is an exception,
  \<open>Some None\<close> that it passes.\<close>

definition gate_directory :: "trust_env \<Rightarrow> ext_dir \<Rightarrow> ext_manifest \<Rightarrow> quarantine_reason option option" where
  "gate_directory te xd m =
     (if \<not> py_true (em_capability_id m) \<or> \<not> py_true (em_name m) then Some (Some MissingIdOrName)
      else if \<not> xd_below_root xd then Some (Some UntrustedPath)
      else case integrity_files (em_integrity m) of
          None \<Rightarrow> None
        | Some None \<Rightarrow> Some (Some IntegrityBlock)
        | Some (Some files) \<Rightarrow>
            (case check_files (xd_file xd) files of
               None \<Rightarrow> None
             | Some (Some why) \<Rightarrow> Some (Some why)
             | Some None \<Rightarrow>
                 (if \<not> py_true (em_trust m) then Some (Some NotApproved)
                  else case em_trust m of
                      JObj trust \<Rightarrow>
                        (if \<not> py_true (json_get trust ''approved'' JNull) then Some (Some NotApproved)
                         else
                           let v = verify_capability_signature te (em_capability_id m) (em_version m) (hashes_of files)
                                     (json_get trust ''signature'' JNull) None
                           in if v = SigValid then Some None else Some (Some (SignatureFailed v)))
                    | _ \<Rightarrow> None)))"

section \<open>Registration\<close>

definition type_name :: "annotation \<Rightarrow> string" where
  "type_name a =
     (case a of AnnInt \<Rightarrow> ''integer'' | AnnBool \<Rightarrow> ''boolean'' | AnnFloat \<Rightarrow> ''number'' | AnnDict \<Rightarrow> ''object''
      | AnnList \<Rightarrow> ''array'' | AnnOther \<Rightarrow> ''string'')"

definition generate_param_schema :: "(string \<times> annotation \<times> bool) list \<Rightarrow> json" where
  "generate_param_schema params =
     JObj [(''type'', JStr ''object''),
       (''properties'', JObj (foldl (\<lambda>d (n, a, _). AList.update n
          (JObj [(''type'', JStr (type_name a)), (''description'', JStr (''Parameter '' @ n))]) d) [] params)),
       (''required'', JArr (map (\<lambda>(n, _, _). JStr n) (filter (\<lambda>(_, _, dflt). \<not> dflt) params)))]"

definition MUTATING_WORDS :: "string list" where
  "MUTATING_WORDS = [''patch'', ''write'', ''delete'', ''recover'', ''deadletter'']"

text \<open>\<open>None\<close> is the \<open>AttributeError\<close> of a name that is no text.\<close>

definition manifest_mutating :: "(string \<times> json) list \<Rightarrow> json \<Rightarrow> bool option" where
  "manifest_mutating d name =
     (if py_true (json_get d ''is_mutating'' (JBool False)) then Some True
      else case name of
          JStr s \<Rightarrow> Some (list_ex (\<lambda>w. contains (py_lower s) w) MUTATING_WORDS)
        | _ \<Rightarrow> None)"

text \<open>The entrypoint \<open>module:function\<close>: \<open>None\<close> is the exception of a value that is no text, \<open>Some None\<close> that there
  is none.\<close>

definition entrypoint_of :: "json \<Rightarrow> (string \<times> string) option option" where
  "entrypoint_of e =
     (if \<not> py_true e then Some None
      else case e of
          JStr s \<Rightarrow> (case partition_at CHR '':'' s of (a, found, b) \<Rightarrow> Some (if found then Some (a, b) else None))
        | JArr vs \<Rightarrow> (if JStr '':'' \<in> set vs then None else Some None)
        | JObj kvs \<Rightarrow> (if '':'' \<in> fst ` set kvs then None else Some None)
        | _ \<Rightarrow> None)"

text \<open>The tool of an imported function; \<open>Inl\<close> is an exception caught by the registration.\<close>

definition make_tool :: "(string \<times> json) list \<Rightarrow> ext_manifest \<Rightarrow> string \<Rightarrow> py_func \<Rightarrow> unit + reg_tool" where
  "make_tool d m modl f =
     (case (pf_params f, manifest_mutating d (em_name m)) of
        (Some ps, Some mut) \<Rightarrow>
          Inr \<lparr>rt_tool_name = em_name m, rt_capability_id = em_capability_id m,
               rt_description = (if py_true (em_description m) then em_description m
                                 else JStr (strip (case pf_doc f of Some s \<Rightarrow> s | None \<Rightarrow> []))),
               rt_function = f, rt_schema = generate_param_schema ps, rt_source_module = modl, rt_is_mutating = mut\<rparr>
      | _ \<Rightarrow> Inl ())"

definition activate :: "ext_manifest \<Rightarrow> registry \<Rightarrow> registry option" where
  "activate m rg = map_option (\<lambda>k. rg\<lparr>rg_active := AList.update k m (rg_active rg)\<rparr>) (dict_key (em_name m))"

definition register_module ::
  "ext_dir \<Rightarrow> (string \<times> json) list \<Rightarrow> ext_manifest \<Rightarrow> registry \<Rightarrow> code_event list \<times> registry option" where
  "register_module xd d m rg =
     (case entrypoint_of (em_entrypoint m) of
        None \<Rightarrow> ([], None)
      | Some None \<Rightarrow> ([], activate m rg)
      | Some (Some (modl, func)) \<Rightarrow>
          (case xd_module xd modl func of
             NoModule \<Rightarrow> ([], activate m rg)
           | NotCallable \<Rightarrow> ([RunModule (xd_name xd) modl], activate m rg)
           | ImportRaised \<Rightarrow> ([RunModule (xd_name xd) modl], quarantine (em_name m) ImportFailed rg)
           | CallableFunc f \<Rightarrow>
               ([RunModule (xd_name xd) modl],
                case (make_tool d m modl f, dict_key (em_name m)) of
                  (Inr t, Some k) \<Rightarrow> activate m (rg\<lparr>rg_tools := AList.update k t (rg_tools rg)\<rparr>)
                | _ \<Rightarrow> quarantine (em_name m) ImportFailed rg)))"

text \<open>The outcome of \<open>_run_validator\<close> as it is unpacked: \<open>None\<close> is the exception of a result that is no pair.\<close>

definition validator_verdict :: "validator_answer \<Rightarrow> (bool \<times> string) option" where
  "validator_verdict a =
     (case a of NoValidator \<Rightarrow> Some (True, []) | ValidatorRaised msg \<Rightarrow> Some (False, msg)
      | NoValidateFunction \<Rightarrow> Some (True, []) | ReturnedPair b msg \<Rightarrow> Some (b, msg) | ReturnedOther \<Rightarrow> None)"

text \<open>The events, and the registry after it; \<open>None\<close> is an exception that ends the discovery.\<close>

definition process_extension_directory :: "trust_env \<Rightarrow> ext_dir \<Rightarrow> registry \<Rightarrow> code_event list \<times> registry option" where
  "process_extension_directory te xd rg =
     (case xd_manifest xd of
        None \<Rightarrow> ([], Some rg)
      | Some (Some (JObj d)) \<Rightarrow>
          (let m = manifest_of_dict d in
           case gate_directory te xd m of
               None \<Rightarrow> ([], None)
             | Some (Some why) \<Rightarrow> ([], quarantine (if why = MissingIdOrName then JStr (xd_name xd) else em_name m) why rg)
             | Some None \<Rightarrow>
                 (let ran = (if xd_validator xd = NoValidator then [] else [RunValidator (xd_name xd)])
                  in case validator_verdict (xd_validator xd) of
                       None \<Rightarrow> (ran, None)
                     | Some (healthy, msg) \<Rightarrow>
                         (if \<not> healthy then (ran, quarantine (em_name m) (ValidatorFailed msg) rg)
                          else case register_module xd d m rg of (ev, rg') \<Rightarrow> (ran @ ev, rg'))))
      | Some _ \<Rightarrow> ([], quarantine (JStr (xd_name xd)) ManifestUnreadable rg))"

text \<open>Discovery goes through the directories in the order of their paths; \<open>None\<close> for the list is a root that is no
  directory.\<close>

fun process_all :: "trust_env \<Rightarrow> ext_dir list \<Rightarrow> registry \<Rightarrow> code_event list \<times> registry option" where
  "process_all te [] rg = ([], Some rg)"
| "process_all te (xd # xds) rg =
     (if xd_is_dir xd \<and> \<not> starts_with (xd_name xd) ''.'' then
        (case process_extension_directory te xd rg of
           (ev, None) \<Rightarrow> (ev, None)
         | (ev, Some rg') \<Rightarrow> (case process_all te xds rg' of (ev', r) \<Rightarrow> (ev @ ev', r)))
      else process_all te xds rg)"

definition discover_and_register_all :: "trust_env \<Rightarrow> ext_dir list option \<Rightarrow> registry \<Rightarrow> code_event list \<times> registry option" where
  "discover_and_register_all te dirs rg =
     (case dirs of
        None \<Rightarrow> ([], Some empty_registry)
      | Some xds \<Rightarrow> process_all te (sort_key xd_name xds) empty_registry)"

section \<open>Dispatch\<close>

datatype dispatch_response =
    DispatchToolNotFound
  | DispatchBlocked gate_block
  | DispatchNeedsApproval
  | DispatchSuccess json
  | DispatchFailed
  | DispatchRaised

text \<open>The response, and the arguments the function was called with. The bridge is \<open>None\<close> when its module cannot be
  imported.\<close>

definition dispatch ::
  "mcp_bridge option \<Rightarrow> (string \<Rightarrow> mcp_arg \<Rightarrow> bool) option \<Rightarrow> registry \<Rightarrow> time \<Rightarrow> string \<Rightarrow> bool \<Rightarrow> string option \<Rightarrow> bool \<Rightarrow>
   kwargs \<Rightarrow> dispatch_response \<times> kwargs option" where
  "dispatch bridge approve rg now tool human token trusted args =
     (case map_of (rg_tools rg) (JStr tool) of
        None \<Rightarrow> (DispatchToolNotFound, None)
      | Some t \<Rightarrow>
          (let kw = strip_approval_args args in
           case (case bridge of
                   None \<Rightarrow> Inr (ADict kw)
                 | Some b \<Rightarrow> validate_nested (mb_env b) (mb_workspace b) (u_str tool) False MAX_ARG_DEPTH [] 0 (ADict kw)) of
             Inl why \<Rightarrow> (DispatchBlocked why, None)
           | Inr clean \<Rightarrow>
               (case (if rt_is_mutating t then
                        mutation_approved (case approve of None \<Rightarrow> False | Some ask \<Rightarrow> ask tool clean)
                          (case bridge of
                             None \<Rightarrow> Some False
                           | Some b \<Rightarrow> verify_approval_token (get_approval_secret (mb_approval_secret b) (mb_environ_secret b))
                                        now token (''extension:'' @ tool))
                          trusted human
                      else Some True) of
                  None \<Rightarrow> (DispatchRaised, None)
                | Some False \<Rightarrow> (DispatchNeedsApproval, None)
                | Some True \<Rightarrow>
                    (case clean of
                       ADict kvs \<Rightarrow>
                         (case pf_call (rt_function t) kvs of
                            None \<Rightarrow> (DispatchFailed, Some kvs)
                          | Some r \<Rightarrow> (DispatchSuccess r, Some kvs))
                     | _ \<Rightarrow> (DispatchFailed, None)))))"

section \<open>Lemmas\<close>

lemma entry_of_events: "fst (register_module xd d m rg) = ev \<Longrightarrow> e \<in> set ev \<Longrightarrow> \<exists>md. e = RunModule (xd_name xd) md"
  by (auto simp: register_module_def split: option.splits module_answer.splits)

text \<open>Code of a directory runs only after its gates.\<close>

fun event_dir :: "code_event \<Rightarrow> string" where
  "event_dir (RunValidator n) = n"
| "event_dir (RunModule n md) = n"

definition gates_passed :: "trust_env \<Rightarrow> ext_dir \<Rightarrow> (string \<times> json) list \<Rightarrow> bool" where
  "gates_passed te xd d \<longleftrightarrow> xd_manifest xd = Some (Some (JObj d)) \<and> gate_directory te xd (manifest_of_dict d) = Some None"

lemma processed_gated:
  assumes "e \<in> set (fst (process_extension_directory te xd rg))"
  shows "event_dir e = xd_name xd \<and> (\<exists>d. gates_passed te xd d)"
proof -
  obtain d where d: "xd_manifest xd = Some (Some (JObj d))"
    using assms by (auto simp: process_extension_directory_def split: option.splits json.splits)
  let ?m = "manifest_of_dict d"
  have g: "gate_directory te xd ?m = Some None"
  proof (cases "gate_directory te xd ?m")
    case None
    then show ?thesis using assms by (simp add: process_extension_directory_def d Let_def)
  next
    case (Some r)
    then show ?thesis using assms by (cases r) (simp_all add: process_extension_directory_def d Let_def)
  qed
  have "event_dir e = xd_name xd"
    using assms entry_of_events [OF refl, of e xd d ?m rg]
    by (auto simp: process_extension_directory_def d Let_def g split: option.splits prod.splits if_splits)
  with d g show ?thesis by (auto simp: gates_passed_def)
qed

lemma discovered_gated:
  "e \<in> set (fst (process_all te xds rg)) \<Longrightarrow>
   \<exists>xd \<in> set xds. xd_is_dir xd \<and> xd_name xd = event_dir e \<and> (\<exists>d. gates_passed te xd d)"
proof (induction te xds rg rule: process_all.induct)
  case (2 te xd xds rg)
  show ?case
  proof (cases "xd_is_dir xd \<and> \<not> starts_with (xd_name xd) ''.''")
    case True
    obtain ev r where p: "process_extension_directory te xd rg = (ev, r)" by fastforce
    show ?thesis
    proof (cases "e \<in> set ev")
      case True
      with processed_gated [of e te xd rg] p \<open>xd_is_dir xd \<and> _\<close> show ?thesis by auto
    next
      case False
      with "2.prems" True p obtain rg' where r: "r = Some rg'" "e \<in> set (fst (process_all te xds rg'))"
        by (cases r) (auto split: prod.splits)
      with "2.IH"(1) [OF True p [symmetric]] show ?thesis by auto
    qed
  next
    case False
    with 2 show ?thesis by auto
  qed
qed simp

text \<open>What passing the gates says of the files and of the signature.\<close>

lemma check_files_ok:
  "check_files content files = Some None \<Longrightarrow>
   \<forall>(f, h) \<in> set files. \<exists>bs. content f = Bytes bs \<and> h = JStr (sha256_hex bs)"
  by (induction content files rule: check_files.induct) (auto split: file_bytes.splits if_splits)

lemma verify_valid:
  assumes "verify_capability_signature te cap ver files sg key = SigValid"
  obtains c v k s where "cap = JStr c" "ver = JStr v" "(case key of Some k \<Rightarrow> Some k | None \<Rightarrow> load_trust_root_pubkey te) = Some k"
    "te_ed25519 te k s (compute_canonical_digest c v files)"
  using assms unfolding verify_capability_signature_def
  by (auto split: if_splits json.splits option.splits)

lemma gate_passed:
  assumes "gate_directory te xd m = Some None"
  obtains integrity files c v k s where "em_integrity m = JObj integrity" "json_get integrity ''files'' JNull = JObj files"
    "\<forall>(f, h) \<in> set files. \<exists>bs. xd_file xd f = Bytes bs \<and> h = JStr (sha256_hex bs)"
    "em_capability_id m = JStr c" "em_version m = JStr v" "load_trust_root_pubkey te = Some k"
    "te_ed25519 te k s (compute_canonical_digest c v (hashes_of files))"
proof -
  obtain files where f: "integrity_files (em_integrity m) = Some (Some files)"
    using assms by (auto simp: gate_directory_def split: if_splits option.splits)
  then obtain integrity where i: "em_integrity m = JObj integrity" "json_get integrity ''files'' JNull = JObj files"
    by (auto simp: integrity_files_def split: if_splits json.splits)
  have c: "check_files (xd_file xd) files = Some None"
    using assms by (auto simp: gate_directory_def f split: if_splits option.splits)
  obtain trust where "em_trust m = JObj trust"
    using assms by (auto simp: gate_directory_def f c split: if_splits json.splits)
  then have "verify_capability_signature te (em_capability_id m) (em_version m) (hashes_of files)
      (json_get trust ''signature'' JNull) None = SigValid"
    using assms by (auto simp: gate_directory_def f c Let_def split: if_splits)
  then show thesis
    by (elim verify_valid) (rule that [OF i check_files_ok [OF c]], simp_all)
qed


text \<open>The identity a directory claims: what its manifest gives to the signature.\<close>

definition claims :: "ext_dir \<Rightarrow> string \<Rightarrow> string \<Rightarrow> (string \<times> json) list \<Rightarrow> bool" where
  "claims xd c v files \<longleftrightarrow>
     (\<exists>d integrity. xd_manifest xd = Some (Some (JObj d)) \<and> em_capability_id (manifest_of_dict d) = JStr c \<and>
        em_version (manifest_of_dict d) = JStr v \<and> em_integrity (manifest_of_dict d) = JObj integrity \<and>
        json_get integrity ''files'' JNull = JObj files)"

definition plain_claim :: "string \<Rightarrow> string \<Rightarrow> string dict \<Rightarrow> bool" where
  "plain_claim c v files \<longleftrightarrow> CHR '':'' \<notin> set c \<and> CHR '':'' \<notin> set v \<and> plain_files files"

definition release_texts :: "(string \<times> string \<times> string dict) set \<Rightarrow> ext_dir list \<Rightarrow> bytes set" where
  "release_texts released xds =
     (\<lambda>(c, v, fs). encoded (canonical_payload c v fs)) ` released \<union>
     {encoded (canonical_payload c v (hashes_of files)) | xd c v files. xd \<in> set xds \<and> claims xd c v files}"

definition agrees_with :: "ext_dir \<Rightarrow> string \<Rightarrow> string \<Rightarrow> (string \<times> json) list \<Rightarrow> string \<times> string \<times> string dict \<Rightarrow> bool" where
  "agrees_with xd c v files rel \<longleftrightarrow>
     (case rel of (c', v', fs) \<Rightarrow>
        strip c = strip c' \<and> strip v = strip v' \<and> fst ` set files = fst ` set fs \<and>
        (\<forall>f h. map_of fs f = Some h \<longrightarrow> (\<exists>bs. xd_file xd f = Bytes bs \<and> sha256_hex bs = h)))"

lemma map_of_hashes: "map_of (hashes_of files) f = map_option (\<lambda>h. case h of JStr s \<Rightarrow> s | _ \<Rightarrow> []) (map_of files f)"
  by (induction files) (auto simp: hashes_of_def)

lemma gated_is_released:
  assumes unforgeable: "\<And>k sg m. load_trust_root_pubkey te = Some k \<Longrightarrow> te_ed25519 te k sg m \<Longrightarrow>
      m \<in> (\<lambda>(c, v, fs). compute_canonical_digest c v fs) ` released"
    and no_collision: "inj_on sha256 (release_texts released xds)"
    and plain: "\<And>c v fs. (c, v, fs) \<in> released \<Longrightarrow> plain_claim c v fs"
    and "xd \<in> set xds" and "gates_passed te xd d"
  shows "\<exists>c v files. claims xd c v files \<and>
           (\<forall>(f, h) \<in> set files. \<exists>bs. xd_file xd f = Bytes bs \<and> h = JStr (sha256_hex bs)) \<and>
           (plain_claim c v (hashes_of files) \<longrightarrow> (\<exists>rel \<in> released. agrees_with xd c v files rel))"
proof -
  from assms(5) have m: "xd_manifest xd = Some (Some (JObj d))" and g: "gate_directory te xd (manifest_of_dict d) = Some None"
    by (simp_all add: gates_passed_def)
  from g obtain integrity files c v k s where f:
    "em_integrity (manifest_of_dict d) = JObj integrity" "json_get integrity ''files'' JNull = JObj files"
    "\<forall>(f, h) \<in> set files. \<exists>bs. xd_file xd f = Bytes bs \<and> h = JStr (sha256_hex bs)"
    "em_capability_id (manifest_of_dict d) = JStr c" "em_version (manifest_of_dict d) = JStr v"
    "load_trust_root_pubkey te = Some k" "te_ed25519 te k s (compute_canonical_digest c v (hashes_of files))"
    by (rule gate_passed)
  have cl: "claims xd c v files" unfolding claims_def using m f by blast
  from unforgeable [OF f(6,7)] obtain c' v' fs where r: "(c', v', fs) \<in> released"
      "sha256 (encoded (canonical_payload c v (hashes_of files))) = sha256 (encoded (canonical_payload c' v' fs))"
    by (auto simp: compute_canonical_digest_def)
  have "encoded (canonical_payload c v (hashes_of files)) \<in> release_texts released xds"
    unfolding release_texts_def using assms(4) cl by blast
  moreover have "encoded (canonical_payload c' v' fs) \<in> release_texts released xds"
    unfolding release_texts_def using r(1) by force
  ultimately have "encoded (canonical_payload c v (hashes_of files)) = encoded (canonical_payload c' v' fs)"
    by (rule inj_onD [OF no_collision r(2)])
  then have pay: "canonical_payload c v (hashes_of files) = canonical_payload c' v' fs" by (rule encoded_inj)
  have "agrees_with xd c v files (c', v', fs)" if "plain_claim c v (hashes_of files)"
  proof -
    have e: "strip c = strip c' \<and> strip v = strip v' \<and> map_of (hashes_of files) = map_of fs"
      using canonical_payload_eq [OF pay] that plain [OF r(1)] by (simp add: plain_claim_def)
    have "map_of fs x = map_option (\<lambda>h. case h of JStr s \<Rightarrow> s | _ \<Rightarrow> []) (map_of files x)" for x
      using e map_of_hashes [of files x] by simp
    note at = this
    then have "dom (map_of fs) = dom (map_of files)" by (simp add: dom_def)
    then have dom: "fst ` set files = fst ` set fs" by (simp add: dom_map_of_conv_image_fst)
    have "\<exists>bs. xd_file xd x = Bytes bs \<and> sha256_hex bs = h" if rel: "map_of fs x = Some h" for x h
    proof -
      obtain j where j: "map_of files x = Some j" "h = (case j of JStr s \<Rightarrow> s | _ \<Rightarrow> [])"
        using rel unfolding at by auto
      with f(3) map_of_SomeD [OF j(1)] show ?thesis by auto
    qed
    with e dom show ?thesis by (simp add: agrees_with_def)
  qed
  with cl f(3) r(1) show ?thesis by blast
qed


lemma dispatch_ran:
  assumes "snd (dispatch bridge approve rg now tool human token trusted args) = Some kvs"
  obtains t where "map_of (rg_tools rg) (JStr tool) = Some t"
    "kvs = strip_approval_args args"
    "\<And>b. bridge = Some b \<Longrightarrow>
       list_all (text_passes (mb_env b) (mb_workspace b) (u_str tool) False) (texts [] (ADict (strip_approval_args args)))"
    "rt_is_mutating t \<longrightarrow>
       mutation_approved (case approve of None \<Rightarrow> False | Some ask \<Rightarrow> ask tool (ADict kvs))
         (case bridge of None \<Rightarrow> Some False
          | Some b \<Rightarrow> verify_approval_token (get_approval_secret (mb_approval_secret b) (mb_environ_secret b)) now token (''extension:'' @ tool))
         trusted human = Some True"
proof -
  obtain t where t: "map_of (rg_tools rg) (JStr tool) = Some t"
    using assms by (auto simp: dispatch_def split: option.splits)
  let ?kw = "strip_approval_args args"
  let ?v = "case bridge of None \<Rightarrow> Inr (ADict ?kw)
    | Some b \<Rightarrow> validate_nested (mb_env b) (mb_workspace b) (u_str tool) False MAX_ARG_DEPTH [] 0 (ADict ?kw)"
  obtain c where v: "?v = Inr c"
    using assms by (cases ?v) (simp_all add: dispatch_def t Let_def)
  have c: "c = ADict ?kw"
  proof (cases bridge)
    case (Some b)
    then show ?thesis using v unfolding Some option.case validated_arguments(1) by blast
  qed (use v in simp)
  have pass: "list_all (text_passes (mb_env b) (mb_workspace b) (u_str tool) False) (texts [] (ADict ?kw))" if "bridge = Some b" for b
    using v unfolding that option.case validated_arguments(1) by blast
  let ?ap = "if rt_is_mutating t then
       mutation_approved (case approve of None \<Rightarrow> False | Some ask \<Rightarrow> ask tool c)
         (case bridge of None \<Rightarrow> Some False
          | Some b \<Rightarrow> verify_approval_token (get_approval_secret (mb_approval_secret b) (mb_environ_secret b)) now token (''extension:'' @ tool))
         trusted human
     else Some True"
  have e: "snd (case ?ap of None \<Rightarrow> (DispatchRaised, None) | Some False \<Rightarrow> (DispatchNeedsApproval, None)
     | Some True \<Rightarrow>
         (case c of
            ADict kvs \<Rightarrow>
              (case pf_call (rt_function t) kvs of None \<Rightarrow> (DispatchFailed, Some kvs) | Some r \<Rightarrow> (DispatchSuccess r, Some kvs))
          | _ \<Rightarrow> (DispatchFailed, None))) = Some kvs"
    using assms by (simp only: dispatch_def t Let_def v option.case sum.case)
  have ok: "?ap = Some True"
  proof (cases ?ap)
    case None
    with e show ?thesis by (simp only: option.case) simp
  next
    case (Some x)
    with e show ?thesis by (cases x) (simp only: option.case bool.case, simp)+
  qed
  have k: "kvs = ?kw" using e by (simp add: ok c split: option.splits)
  have ap: "rt_is_mutating t \<longrightarrow>
       mutation_approved (case approve of None \<Rightarrow> False | Some ask \<Rightarrow> ask tool (ADict kvs))
         (case bridge of None \<Rightarrow> Some False
          | Some b \<Rightarrow> verify_approval_token (get_approval_secret (mb_approval_secret b) (mb_environ_secret b)) now token (''extension:'' @ tool))
         trusted human = Some True"
    using ok unfolding c k by (auto split: if_splits)
  show thesis by (rule that [OF t k pass ap])
qed

lemma declared_content:
  "declared_hashes content acc fs = Inr files \<Longrightarrow> (\<forall>(f, h) \<in> set acc. \<exists>bs. content f = Some bs \<and> h = sha256_hex bs) \<Longrightarrow>
   \<forall>(f, h) \<in> set files. \<exists>bs. content f = Some bs \<and> h = sha256_hex bs"
proof (induction content acc fs rule: declared_hashes.induct)
  case (2 content acc f fs)
  show ?case
  proof (cases "f = ''manifest.json''")
    case False
    with "2.prems"(1) obtain bs where bs: "content f = Some bs"
        "declared_hashes content (AList.update f (sha256_hex bs) acc) fs = Inr files"
      by (auto split: option.splits)
    have "set (AList.update f (sha256_hex bs) acc) \<subseteq> insert (f, sha256_hex bs) (set acc)"
      by (induction acc) auto
    then have "\<forall>(f, h) \<in> set (AList.update f (sha256_hex bs) acc). \<exists>bs. content f = Some bs \<and> h = sha256_hex bs"
      using "2.prems"(2) bs(1) by auto
    with "2.IH"(2) [OF False bs(1,2)] show ?thesis .
  qed (use 2 in auto)
qed auto

lemma check_files_content:
  "\<forall>(f, h) \<in> set files. \<exists>bs. content f = Bytes bs \<and> h = sha256_hex bs \<Longrightarrow>
   check_files content (map (\<lambda>(f, h). (f, JStr h)) files) = Some None"
  by (induction files) auto


lemma hashes_of_map [simp]: "hashes_of (map (\<lambda>(f, h). (f, JStr h)) files) = files"
  by (induction files) (auto simp: hashes_of_def)

lemma verify_key:
  "load_trust_root_pubkey te = Some k \<Longrightarrow>
   verify_capability_signature te cap ver files sg None = verify_capability_signature te cap ver files sg (Some k)"
  by (simp only: verify_capability_signature_def option.case)

lemma signed_cases:
  assumes "sign_capability te (Some (sk, pk)) content manifest = Signed out"
  obtains declared files c v where "declared_names (json_get manifest ''files'' (JArr [])) = Some declared"
    "declared_hashes content [] declared = Inr files" "json_get manifest ''capability_id'' JNull = JStr c"
    "json_get manifest ''version'' (JStr ''1.0.0'') = JStr v"
    "verify_capability_signature te (JStr c) (JStr v) files (JStr (sign_capability_digest sk c v files)) (Some pk) = SigValid"
    "out = signed_manifest manifest files (sign_capability_digest sk c v files)"
  using assms unfolding sign_capability_def Let_def
  by (auto split: option.splits sum.splits if_splits json.splits)

section \<open>Properties\<close>

text \<open>C8: code of an extension runs only from a directory whose manifest is that of a release: when the signature scheme is
  not forged, SHA-256 has no collision among the texts of releases and manifests, and releases have plain names, then in a
  directory of which a validator or a module is run every file that the manifest records is there with the recorded hash, and
  if the manifest's names are plain (no colon in identifier and version, no equals sign or bar in a file name) its identifier,
  version and recorded files with their hashes are those of a release. It says nothing of files that the manifest does not
  record, and the code that runs may be one of these: \<open>unlisted_code_is_run\<close>.\<close>

theorem code_runs_only_with_a_released_manifest:
  assumes "\<And>k sg m. load_trust_root_pubkey te = Some k \<Longrightarrow> te_ed25519 te k sg m \<Longrightarrow>
      m \<in> (\<lambda>(c, v, fs). compute_canonical_digest c v fs) ` released"
    and "inj_on sha256 (release_texts released xds)"
    and "\<And>c v fs. (c, v, fs) \<in> released \<Longrightarrow> plain_claim c v fs"
    and "e \<in> set (fst (discover_and_register_all te (Some xds) rg))"
  shows "\<exists>xd \<in> set xds. xd_is_dir xd \<and> xd_name xd = event_dir e \<and>
           (\<exists>c v files. claims xd c v files \<and>
              (\<forall>(f, h) \<in> set files. \<exists>bs. xd_file xd f = Bytes bs \<and> h = JStr (sha256_hex bs)) \<and>
              (plain_claim c v (hashes_of files) \<longrightarrow> (\<exists>rel \<in> released. agrees_with xd c v files rel)))"
proof -
  from assms(4) obtain xd d where xd: "xd \<in> set xds" "xd_is_dir xd" "xd_name xd = event_dir e" "gates_passed te xd d"
    using discovered_gated [of e te "sort_key xd_name xds" empty_registry] by (auto simp: discover_and_register_all_def)
  have "\<exists>c v files. claims xd c v files \<and>
      (\<forall>(f, h) \<in> set files. \<exists>bs. xd_file xd f = Bytes bs \<and> h = JStr (sha256_hex bs)) \<and>
      (plain_claim c v (hashes_of files) \<longrightarrow> (\<exists>rel \<in> released. agrees_with xd c v files rel))"
    by (rule gated_is_released [OF _ assms(2) _ xd(1,4)]) (erule (1) assms(1), erule assms(3))
  with xd(1-3) show ?thesis by blast
qed

definition demo_source :: bytes where "demo_source = ''x = 1''"

definition demo_trust :: trust_env where
  "demo_trust = \<lparr>te_has_cryptography = True, te_env_key = Some (hexdigest (replicate 32 CHR ''k'')), te_env_file = (\<lambda>_. NoFile),
     te_default_file = NoFile,
     te_ed25519 = (\<lambda>k sg m. k = replicate 32 CHR ''k'' \<and> sg = replicate 64 CHR ''s'' \<and>
                     m = compute_canonical_digest ''CAP-1'' ''1.0.0'' [(''a.py'', sha256_hex demo_source)])\<rparr>"

definition demo_cap_manifest :: "(string \<times> json) list" where
  "demo_cap_manifest =
     [(''capability_id'', JStr ''CAP-1''), (''name'', JStr ''tool''), (''entrypoint'', JStr ''b.py:run''),
      (''files'', JArr [JStr ''a.py'', JStr ''manifest.json''])]"

definition demo_signed :: "(string \<times> json) list" where
  "demo_signed = signed_manifest demo_cap_manifest [(''a.py'', sha256_hex demo_source)] (hexdigest (replicate 64 CHR ''s''))"

definition demo_func :: py_func where
  "demo_func = \<lparr>pf_params = Some [(''n'', AnnInt, False)], pf_doc = None, pf_call = (\<lambda>_. Some (JInt 1))\<rparr>"

text \<open>The directory holds a validator and an entrypoint that its release does not list.\<close>

definition demo_dir :: ext_dir where
  "demo_dir = \<lparr>xd_name = ''tool'', xd_is_dir = True, xd_manifest = Some (Some (JObj demo_signed)), xd_below_root = True,
     xd_file = (\<lambda>f. if f = ''a.py'' then Bytes demo_source else NoBytes), xd_validator = ReturnedPair True [],
     xd_module = (\<lambda>_ _. CallableFunc demo_func)\<rparr>"

lemma demo_key: "load_trust_root_pubkey demo_trust = Some (replicate 32 CHR ''k'')"
proof -
  have "hexdigest (replicate 32 CHR ''k'') \<noteq> []" by (simp add: hexdigest_def)
  then show ?thesis by (simp add: load_trust_root_pubkey_def demo_trust_def strip_hexdigest)
qed

lemma demo_signature:
  "verify_capability_signature demo_trust (JStr ''CAP-1'') (JStr ''1.0.0'') [(''a.py'', sha256_hex demo_source)]
     (JStr (hexdigest (replicate 64 CHR ''s''))) None = SigValid"
proof -
  have "hexdigest (replicate 64 CHR ''s'') \<noteq> []" by (simp add: hexdigest_def)
  moreover have "te_ed25519 demo_trust (replicate 32 CHR ''k'') (replicate 64 CHR ''s'')
      (compute_canonical_digest ''CAP-1'' ''1.0.0'' [(''a.py'', sha256_hex demo_source)])"
    by (simp add: demo_trust_def)
  moreover have "te_has_cryptography demo_trust" by (simp add: demo_trust_def)
  ultimately show ?thesis by (simp add: verify_capability_signature_def strip_hexdigest demo_key)
qed

lemma demo_fields:
  "json_get demo_signed ''integrity'' (JObj []) =
     JObj [(''algorithm'', JStr ''sha256''), (''files'', JObj [(''a.py'', JStr (sha256_hex demo_source))])]"
  "json_get demo_signed ''trust'' (JObj []) =
     JObj [(''approved'', JBool True), (''approved_by'', JStr ''Hermes Release Authority''),
           (''policy'', JStr ''CRYPTOGRAPHICALLY_VERIFIED''), (''signature'', JStr (hexdigest (replicate 64 CHR ''s'')))]"
  "json_get demo_signed ''capability_id'' (JStr []) = JStr ''CAP-1''"
  "json_get demo_signed ''version'' (JStr ''1.0.0'') = JStr ''1.0.0''"
  "json_get demo_signed ''name'' (JStr []) = JStr ''tool''"
  "json_get demo_signed ''entrypoint'' (JStr []) = JStr ''b.py:run''"
  by (simp_all add: demo_signed_def signed_manifest_def demo_cap_manifest_def)

lemma demo_gate: "gate_directory demo_trust demo_dir (manifest_of_dict demo_signed) = Some None"
  by (simp add: gate_directory_def demo_dir_def manifest_of_dict_def demo_fields integrity_files_def hashes_of_def
      demo_signature Let_def)

lemma unlisted_code_is_run:
  "fst (process_extension_directory demo_trust demo_dir empty_registry) = [RunValidator ''tool'', RunModule ''tool'' ''b.py''] \<and>
   ''b.py'' \<notin> set (map fst [(''a.py'', sha256_hex demo_source)])"
proof -
  have e: "entrypoint_of (JStr ''b.py:run'') = Some (Some (''b.py'', ''run''))" by code_simp
  have "xd_manifest demo_dir = Some (Some (JObj demo_signed))" "xd_validator demo_dir = ReturnedPair True []"
    "xd_name demo_dir = ''tool''" "xd_module demo_dir ''b.py'' ''run'' = CallableFunc demo_func"
    by (simp_all add: demo_dir_def)
  moreover have "em_entrypoint (manifest_of_dict demo_signed) = JStr ''b.py:run''"
    "em_name (manifest_of_dict demo_signed) = JStr ''tool''" "em_capability_id (manifest_of_dict demo_signed) = JStr ''CAP-1''"
    by (simp_all add: manifest_of_dict_def demo_fields)
  ultimately show ?thesis
    by (simp add: process_extension_directory_def demo_gate Let_def validator_verdict_def register_module_def e split: prod.splits)
qed


definition demo_release :: "(string \<times> string \<times> string dict) set" where
  "demo_release = {(''CAP-1'', ''1.0.0'', [(''a.py'', sha256_hex demo_source)])}"

lemma demo_claims:
  "claims demo_dir c v files \<longleftrightarrow> c = ''CAP-1'' \<and> v = ''1.0.0'' \<and> files = [(''a.py'', JStr (sha256_hex demo_source))]"
proof -
  have "xd_manifest demo_dir = Some (Some (JObj demo_signed))" by (simp add: demo_dir_def)
  then show ?thesis by (auto simp: claims_def manifest_of_dict_def demo_fields)
qed

lemma demo_events: "RunValidator ''tool'' \<in> set (fst (discover_and_register_all demo_trust (Some [demo_dir]) empty_registry))"
proof -
  have "xd_is_dir demo_dir \<and> \<not> starts_with (xd_name demo_dir) ''.''" by (simp add: demo_dir_def starts_with_def)
  moreover obtain r where "process_extension_directory demo_trust demo_dir empty_registry =
      ([RunValidator ''tool'', RunModule ''tool'' ''b.py''], r)"
    using unlisted_code_is_run by (metis prod.collapse)
  ultimately show ?thesis by (cases r) (simp_all add: discover_and_register_all_def split: prod.splits)
qed

theorem code_runs_only_with_a_released_manifest_witness:
  "\<exists>rel \<in> demo_release. agrees_with demo_dir ''CAP-1'' ''1.0.0'' [(''a.py'', JStr (sha256_hex demo_source))] rel"
proof -
  have rt: "release_texts demo_release [demo_dir] \<subseteq>
      {encoded (canonical_payload ''CAP-1'' ''1.0.0'' [(''a.py'', sha256_hex demo_source)])}"
    by (auto simp: release_texts_def demo_release_def demo_claims hashes_of_def)
  have "CHR ''|'' \<notin> set (sha256_hex demo_source)"
    using hexdigest_hex [of "CHR ''|''" "sha256 demo_source"] by (auto simp: sha256_hex_def hex_char_def dest!: arg_cong [where f = "of_char :: char \<Rightarrow> nat"] simp: of_char_of split: if_splits)
  then have plain: "plain_claim ''CAP-1'' ''1.0.0'' [(''a.py'', sha256_hex demo_source)]"
    by (simp add: plain_claim_def plain_files_def)
  have "\<exists>xd \<in> set [demo_dir]. xd_is_dir xd \<and> xd_name xd = event_dir (RunValidator ''tool'') \<and>
      (\<exists>c v files. claims xd c v files \<and>
         (\<forall>(f, h) \<in> set files. \<exists>bs. xd_file xd f = Bytes bs \<and> h = JStr (sha256_hex bs)) \<and>
         (plain_claim c v (hashes_of files) \<longrightarrow> (\<exists>rel \<in> demo_release. agrees_with xd c v files rel)))"
  proof (rule code_runs_only_with_a_released_manifest [of demo_trust demo_release "[demo_dir]" "RunValidator ''tool''" empty_registry])
    show "inj_on sha256 (release_texts demo_release [demo_dir])" by (rule inj_on_subset [OF _ rt]) simp
  qed (use plain demo_events in \<open>auto simp: demo_release_def demo_trust_def\<close>)
  then show ?thesis using plain by (auto simp: demo_claims hashes_of_def)
qed

text \<open>What the release script signs passes the gates: for a directory whose files are those that were signed, under
  the trust root that belongs to the private key, the manifest that the script writes is accepted, unless it has no name or
  declares no file but the manifest itself: these are refused although the script signed them.\<close>

definition only_the_manifest :: "json list \<Rightarrow> bool" where
  "only_the_manifest declared \<longleftrightarrow> list_all (\<lambda>n. n = JStr ''manifest.json'') declared"

definition named_manifest :: "(string \<times> json) list \<Rightarrow> bool" where
  "named_manifest d \<longleftrightarrow> py_true (json_get d ''capability_id'' (JStr [])) \<and> py_true (json_get d ''name'' (JStr []))"

lemma declared_empty:
  "declared_hashes content acc fs = Inr files \<Longrightarrow> files = [] \<longleftrightarrow> acc = [] \<and> only_the_manifest fs"
proof (induction content acc fs rule: declared_hashes.induct)
  case (2 content acc f fs)
  have "AList.update f h acc \<noteq> []" for h by (cases acc) auto
  with 2 show ?case by (auto simp: only_the_manifest_def split: if_splits option.splits)
qed (auto simp: only_the_manifest_def)

lemma signed_capability_passes:
  assumes "sign_capability te (Some (sk, pk)) content manifest = Signed out"
    and "load_trust_root_pubkey te = Some pk" and "xd_below_root xd"
    and "\<And>f bs. content f = Some bs \<Longrightarrow> xd_file xd f = Bytes bs"
  shows "\<exists>declared files. declared_names (json_get manifest ''files'' (JArr [])) = Some declared \<and>
           declared_hashes content [] declared = Inr files \<and>
           gate_directory te xd (manifest_of_dict out) =
             Some (if \<not> named_manifest manifest then Some MissingIdOrName
                   else if only_the_manifest declared then Some IntegrityBlock else None)"
  using assms(1)
proof (rule signed_cases)
  fix declared files c v
  let ?sg = "sign_capability_digest sk c v files"
  assume d: "declared_names (json_get manifest ''files'' (JArr [])) = Some declared"
    and h: "declared_hashes content [] declared = Inr files"
    and c: "json_get manifest ''capability_id'' JNull = JStr c"
    and v: "json_get manifest ''version'' (JStr ''1.0.0'') = JStr v"
    and ok: "verify_capability_signature te (JStr c) (JStr v) files (JStr ?sg) (Some pk) = SigValid"
    and out: "out = signed_manifest manifest files ?sg"
  have "\<forall>(f, h) \<in> set files. \<exists>bs. xd_file xd f = Bytes bs \<and> h = sha256_hex bs"
    using declared_content [OF h] assms(4) by fastforce
  then have cf: "check_files (xd_file xd) (map (\<lambda>(f, h). (f, JStr h)) files) = Some None" by (rule check_files_content)
  have "json_get manifest ''capability_id'' (JStr []) = JStr c"
    using c by (auto simp: json_get_def split: option.splits)
  then have "gate_directory te xd (manifest_of_dict out) =
      Some (if \<not> named_manifest manifest then Some MissingIdOrName
            else if only_the_manifest declared then Some IntegrityBlock else None)"
    using cf v ok verify_key [OF assms(2)] assms(3) declared_empty [OF h]
    by (simp add: out signed_manifest_def gate_directory_def manifest_of_dict_def integrity_files_def named_manifest_def Let_def)
  with d h show ?thesis by blast
qed

text \<open>A tool runs only when it is registered and with the caller's arguments, without those that could pass for
  an approval, after the gate (where its module is present) has searched them; a tool that changes
  something only when the approval handler agrees, a token for this very extension verifies, or a trusted
  caller says that a human approved\<close>

theorem dispatched_tools_are_gated:
  assumes "snd (dispatch bridge approve rg now tool human token trusted args) = Some kvs"
  shows "\<exists>t. map_of (rg_tools rg) (JStr tool) = Some t \<and> kvs = strip_approval_args args \<and>
           (\<forall>b. bridge = Some b \<longrightarrow> list_all (text_passes (mb_env b) (mb_workspace b) (u_str tool) False) (texts [] (ADict kvs))) \<and>
           (rt_is_mutating t \<longrightarrow>
              (\<exists>ask. approve = Some ask \<and> ask tool (ADict kvs)) \<or>
              (\<exists>b. bridge = Some b \<and> verify_approval_token (get_approval_secret (mb_approval_secret b) (mb_environ_secret b))
                     now token (''extension:'' @ tool) = Some True) \<or>
              trusted \<and> human)"
  using assms
proof (rule dispatch_ran)
  fix t
  assume t: "map_of (rg_tools rg) (JStr tool) = Some t" and k: "kvs = strip_approval_args args"
    and p: "\<And>b. bridge = Some b \<Longrightarrow>
       list_all (text_passes (mb_env b) (mb_workspace b) (u_str tool) False) (texts [] (ADict (strip_approval_args args)))"
    and a: "rt_is_mutating t \<longrightarrow>
       mutation_approved (case approve of None \<Rightarrow> False | Some ask \<Rightarrow> ask tool (ADict kvs))
         (case bridge of None \<Rightarrow> Some False
          | Some b \<Rightarrow> verify_approval_token (get_approval_secret (mb_approval_secret b) (mb_environ_secret b)) now token (''extension:'' @ tool))
         trusted human = Some True"
  from a have "rt_is_mutating t \<longrightarrow>
      (\<exists>ask. approve = Some ask \<and> ask tool (ADict kvs)) \<or>
      (\<exists>b. bridge = Some b \<and> verify_approval_token (get_approval_secret (mb_approval_secret b) (mb_environ_secret b))
             now token (''extension:'' @ tool) = Some True) \<or>
      trusted \<and> human"
    by (auto simp: mutation_approved_def split: if_splits option.splits)
  with t k p show ?thesis by blast
qed


definition demo_registry :: registry where
  "demo_registry = empty_registry\<lparr>rg_tools := [(JStr ''patcher'', \<lparr>rt_tool_name = JStr ''patcher'', rt_capability_id = JStr ''CAP-1'',
     rt_description = JStr [], rt_function = demo_func, rt_schema = JObj [], rt_source_module = ''b.py'', rt_is_mutating = True\<rparr>)]\<rparr>"

definition demo_kwargs :: kwargs where
  "demo_kwargs = [(u_str ''file'', AStr (u_str ''a'')), (u_str ''trusted_caller'', ABool True)]"

lemma demo_dispatch:
  "dispatch (Some demo_bridge) None demo_registry 0 ''patcher'' True None False demo_kwargs = (DispatchNeedsApproval, None) \<and>
   dispatch (Some demo_bridge) None demo_registry 0 ''patcher'' True None True demo_kwargs =
     (DispatchSuccess (JInt 1), Some [(u_str ''file'', AStr (u_str ''a''))])"
  by code_simp

theorem dispatched_tools_are_gated_witness:
  "\<exists>t. map_of (rg_tools demo_registry) (JStr ''patcher'') = Some t"
  using dispatched_tools_are_gated [of "Some demo_bridge" None demo_registry 0 "''patcher''" True None True demo_kwargs]
    demo_dispatch by auto

lemma demo_sign:
  "sign_capability demo_trust (Some (\<lambda>_. replicate 64 CHR ''s'', replicate 32 CHR ''k''))
     (\<lambda>f. if f = ''a.py'' then Some demo_source else None) demo_cap_manifest = Signed demo_signed"
proof -
  let ?content = "\<lambda>f. if f = ''a.py'' then Some demo_source else None"
  have d: "declared_names (json_get demo_cap_manifest ''files'' (JArr [])) = Some [JStr ''a.py'', JStr ''manifest.json'']"
    by (simp add: demo_cap_manifest_def)
  have h: "declared_hashes ?content [] [JStr ''a.py'', JStr ''manifest.json''] = Inr [(''a.py'', sha256_hex demo_source)]"
    by simp
  have "te_has_cryptography demo_trust" by (simp add: demo_trust_def)
  then show ?thesis
    using demo_signature verify_key [OF demo_key]
    by (simp add: sign_capability_def d h Let_def sign_capability_digest_def demo_signed_def)
      (simp add: demo_cap_manifest_def Let_def sign_capability_digest_def)
qed

section \<open>What the gates miss\<close>

text \<open>The signature does not cover the name, the entrypoint, or whether the tool changes something; the gates ask only that
  there is a name.\<close>

lemma signature_leaves_fields_open:
  assumes "py_true n \<longleftrightarrow> py_true (em_name m)"
  shows "gate_directory te xd (m\<lparr>em_name := n, em_entrypoint := ep, em_description := de\<rparr>) = gate_directory te xd m"
proof -
  let ?m = "m\<lparr>em_name := n, em_entrypoint := ep, em_description := de\<rparr>"
  have "em_integrity ?m = em_integrity m" "em_trust ?m = em_trust m" "em_capability_id ?m = em_capability_id m"
    "em_version ?m = em_version m"
    by simp_all
  moreover have "py_true (em_name ?m) = py_true (em_name m)" using assms by simp
  ultimately show ?thesis by (simp only: gate_directory_def)
qed

text \<open>Two releases with different files can have one text.\<close>

lemma release_text_is_ambiguous:
  "canonical_payload c v [(''a'', ''1''), (''b'', ''2'')] = canonical_payload c v [(''a=1|b'', ''2'')]"
  "canonical_payload ''a:b'' ''1'' fs = canonical_payload ''a'' ''b:1'' fs"
proof -
  have "files_text [(''a'', ''1''), (''b'', ''2'')] = [''a=1'', ''b=2'']" "files_text [(''a=1|b'', ''2'')] = [''a=1|b=2'']"
    by code_simp+
  then show "canonical_payload c v [(''a'', ''1''), (''b'', ''2'')] = canonical_payload c v [(''a=1|b'', ''2'')]"
    by (simp add: canonical_payload_def)
  have "strip ''a:b'' = ''a:b''" "strip ''1'' = ''1''" "strip ''a'' = ''a''" "strip ''b:1'' = ''b:1''" by code_simp+
  then show "canonical_payload ''a:b'' ''1'' fs = canonical_payload ''a'' ''b:1'' fs"
    by (simp add: canonical_payload_def)
qed

text \<open>A manifest whose name is a list, or whose integrity block is a text, ends the discovery of all directories.\<close>

lemma malformed_manifest_ends_discovery:
  assumes "xd_manifest xd = Some (Some (JObj [(''capability_id'', JStr ''c''), (''name'', JArr [JInt 1])]))" "xd_below_root xd"
    and "xd_is_dir xd" "xd_name xd = ''x''"
  shows "snd (process_all te (xd # xds) rg) = None"
  using assms
  by (simp add: process_extension_directory_def Let_def manifest_of_dict_def gate_directory_def integrity_files_def quarantine_def
      starts_with_def)

text \<open>The gate is called as for a tool that only reads, also for a tool that changes something.\<close>

lemma mutating_extension_cannot_delete_rows:
  "fst (dispatch (Some demo_bridge) None demo_registry 0 ''patcher'' True None True [(u_str ''stmt'', AStr (u_str ''DELETE FROM t''))]) =
     DispatchBlocked MutatingSql"
  by code_simp


end
