(* ===== verification/Guardian.thy ===== *)
theory Guardian
  imports McpBridge TrustRoot
begin

text \<open>
  The security guardian daemon (\<open>src/haos/haos_guardian_v2.4_p1_62.py\<close>, class \<open>GuardianV22\<close>): it
  watches six core files, compares them with protected snapshots listed in an HMAC-signed manifest,
  restores what was changed without a signed approval token, and enters an emergency lock, left only
  through a signed unlock token.

  A path is one of the kinds of node that the calls of the daemon tell apart
  (\<open>lstat\<close>, \<open>islink\<close>, \<open>exists\<close>, \<open>open\<close> with \<open>O_NOFOLLOW\<close>). One state record holds what the
  process keeps (state, events, memory of consumed signatures, expected hash of itself) and the files
  it works on; the outcomes of the writes, of the lock and of the removals, and the clock, are an
  environment record. One cycle sees no change of the files by others; between cycles anything may
  change. Events keep their kind and the file or token they name, in place of the text.
  \<open>gs_accepted\<close> is a ghost: the accepted signatures in order, never read by an operation.
\<close>

section \<open>State\<close>

datatype guardian_state =
  STARTING | UNINITIALIZED | VERIFYING_SELF | VERIFYING_MANIFEST | TRUSTED | VIOLATION | EMERGENCY_LOCK

text \<open>\<open>SymLink t\<close>: a link whose target exists or not; \<open>NoSearch\<close>: \<open>lstat\<close> is refused (EACCES);
  \<open>LstatFails\<close>: it fails with another error; \<open>NoRead\<close>: the file is there and opening it is refused;
  \<open>NoHash\<close>: opening or reading it fails with another error (a directory, say).\<close>

datatype gnode = Absent | SymLink bool | NoSearch | LstatFails | NoRead | NoHash | Plain bytes

datatype gjson = JAbsent | JUnreadable | JValue json

datatype gtoken = TokenLink | TokenUnreadable | TokenData json

text \<open>The exceptions the operations tell apart; \<open>OsErr\<close> is an \<open>OSError\<close> of no other class.\<close>

datatype gexn = ValueErr | PermErr | NotFoundErr | OsErr

datatype gevent =
    EvManifestMissing | EvManifestSignatureInvalid | EvGuardianHashMissing | EvSnapshotTamper string
  | EvManifestParseError | EvSelfConfigError | EvSelfTamper | EvSelfError
  | EvLinkAlert string | EvTokenInvalid string | EvTokenExpired string | EvTokenSignatureInvalid string
  | EvTokenReplayBlocked string | EvUnlocked string | EvTokenError string | EvWildcardAlert string
  | EvTokenHashMismatch string | EvManifestUpdated string | EvViolationLink string | EvViolationDelete string
  | EvViolationModify string | EvRollback string | EvNoSnapshot string | EvPermission string
  | EvOsError string | EvAuthorizedChange string | EvPerFileError string

record gsys =
  gs_state :: guardian_state
  gs_events :: "gevent list"
  gs_memory :: "json list"
  gs_expected :: json
  gs_accepted :: "string list"
  gs_core :: "string \<Rightarrow> gnode"
  gs_snap :: "string \<Rightarrow> gnode"
  gs_manifest :: gjson
  gs_manifest_sig :: gjson
  gs_consumed :: gjson
  gs_script :: gnode
  gs_approvals_dir :: bool
  gs_approvals :: "(string \<times> gtoken) list"

datatype manifest_write = Written | WriteFails gexn | SigNotReplaced gexn

text \<open>\<open>ge_lock\<close>: taking the file lock succeeds; \<open>ge_store\<close>: so does writing the list of consumed
  signatures; the writes of a core file are numbered, a link is restored at most twice.\<close>

record genv =
  ge_now :: time
  ge_lock :: bool
  ge_store :: "string \<Rightarrow> bool"
  ge_removable :: "string \<Rightarrow> bool"
  ge_write_core :: "string \<Rightarrow> nat \<Rightarrow> gexn option"
  ge_write_snap :: "string \<Rightarrow> gexn option"
  ge_manifest :: "string \<Rightarrow> manifest_write"

definition IMMUTABLE_FILES :: "string list" where
  "IMMUTABLE_FILES =
     [''00_Constitution.md'', ''01_Core.md'', ''02_Policy.md'', ''19_Config.md'', ''20_SecurityFilter.md'',
      ''27_SafetyPermission.md'']"

definition log_event :: "gevent \<Rightarrow> gsys \<Rightarrow> gsys" where
  "log_event ev s = s\<lparr>gs_events := gs_events s @ [ev]\<rparr>"

definition lock_with :: "gevent \<Rightarrow> gsys \<Rightarrow> gsys" where
  "lock_with ev s = log_event ev (s\<lparr>gs_state := EMERGENCY_LOCK\<rparr>)"

section \<open>Signatures\<close>

text \<open>\<open>json.dumps(data, sort_keys=True, separators=(",", ":"), ensure_ascii=False)\<close>.\<close>

definition esc_raw :: "char \<Rightarrow> string" where
  "esc_raw c =
     (let n = (of_char c :: nat)
      in case esc_short c of
           Some e \<Rightarrow> [CHR 0x5C, e]
         | None \<Rightarrow> if 32 \<le> n then [c]
             else [CHR 0x5C, CHR ''u'', CHR ''0'', CHR ''0'', hex_char (n div 16), hex_char (n mod 16)])"

definition str_raw :: "string \<Rightarrow> string" where
  "str_raw s = CHR 0x22 # concat (map esc_raw s) @ [CHR 0x22]"

fun dumps_raw :: "json \<Rightarrow> string" where
  "dumps_raw JNull = ''null''"
| "dumps_raw (JBool b) = (if b then ''true'' else ''false'')"
| "dumps_raw (JInt i) = int_str i"
| "dumps_raw (JFloat x) = float_str x"
| "dumps_raw (JStr s) = str_raw s"
| "dumps_raw (JArr xs) = ''['' @ join '','' (map dumps_raw xs) @ '']''"
| "dumps_raw (JObj kvs) = ''{'' @ join '','' (map (\<lambda>(k, v). str_raw k @ '':'' @ dumps_raw v) kvs) @ ''}''"

definition canonical_json :: "json \<Rightarrow> bytes" where
  "canonical_json data = encoded (dumps_raw (sort_keys data))"

definition sign_payload :: "bytes \<Rightarrow> json \<Rightarrow> string" where
  "sign_payload key data = hexdigest (hmac_sha256 key (canonical_json data))"

text \<open>\<open>None\<close> is the \<open>TypeError\<close> of \<open>hmac.compare_digest\<close>.\<close>

definition verify_signature :: "bytes \<Rightarrow> json \<Rightarrow> json \<Rightarrow> bool option" where
  "verify_signature key data sig = (case sig of JStr t \<Rightarrow> compare_digest (sign_payload key data) t | _ \<Rightarrow> None)"

section \<open>Files\<close>

definition node_exists :: "gnode \<Rightarrow> bool" where
  "node_exists n \<longleftrightarrow> (case n of Absent \<Rightarrow> False | SymLink t \<Rightarrow> t | NoSearch \<Rightarrow> False | LstatFails \<Rightarrow> False | _ \<Rightarrow> True)"

text \<open>\<open>Inl\<close> is the \<open>PermissionError\<close>.\<close>

definition get_file_hash_safe :: "gnode \<Rightarrow> gexn + string option" where
  "get_file_hash_safe n =
     (case n of
        Plain bs \<Rightarrow> Inr (Some (sha256_hex bs))
      | NoSearch \<Rightarrow> Inl PermErr
      | NoRead \<Rightarrow> Inl PermErr
      | _ \<Rightarrow> Inr None)"

fun hash_json :: "string option \<Rightarrow> json" where
  "hash_json None = JNull"
| "hash_json (Some h) = JStr h"

definition MAX_COPY_BYTES :: nat where "MAX_COPY_BYTES = 10485760"

text \<open>The bytes that arrive at the destination. \<open>written\<close> is what happens from the temporary file to the
  final rename.\<close>

definition safe_atomic_copy :: "gnode \<Rightarrow> string option \<Rightarrow> gexn option \<Rightarrow> gexn + bytes" where
  "safe_atomic_copy src expected written =
     (case src of
        SymLink _ \<Rightarrow> Inl ValueErr
      | Absent \<Rightarrow> Inl ValueErr
      | NoSearch \<Rightarrow> Inl PermErr
      | NoRead \<Rightarrow> Inl PermErr
      | LstatFails \<Rightarrow> Inl OsErr
      | NoHash \<Rightarrow> Inl OsErr
      | Plain bs \<Rightarrow>
          (let content = take MAX_COPY_BYTES bs
           in if expected \<noteq> None \<and> expected \<noteq> Some [] \<and> Some (sha256_hex content) \<noteq> expected then Inl ValueErr
              else case written of Some x \<Rightarrow> Inl x | None \<Rightarrow> Inr content))"

section \<open>Consumed tokens\<close>

fun hashable :: "json \<Rightarrow> bool" where
  "hashable (JArr _) = False"
| "hashable (JObj _) = False"
| "hashable _ = True"

definition load_consumed_tokens :: "gjson \<Rightarrow> json list" where
  "load_consumed_tokens f =
     (case f of JValue (JArr xs) \<Rightarrow> (if list_all hashable xs then remdups xs else []) | _ \<Rightarrow> [])"

definition try_consume_token :: "genv \<Rightarrow> string \<Rightarrow> gsys \<Rightarrow> bool \<times> gsys" where
  "try_consume_token e sig s =
     (if \<not> ge_lock e then (False, s)
      else let current = load_consumed_tokens (gs_consumed s)
           in if JStr sig \<in> set current then (False, s)
              else let new = current @ [JStr sig]; s1 = s\<lparr>gs_memory := new\<rparr>
                   in if ge_store e sig
                      then (True, s1\<lparr>gs_consumed := JValue (JArr new), gs_accepted := gs_accepted s @ [sig]\<rparr>)
                      else (False, s1))"

definition remove_token :: "genv \<Rightarrow> string \<Rightarrow> gsys \<Rightarrow> gsys" where
  "remove_token e name s =
     (if ge_removable e name then s\<lparr>gs_approvals := filter (\<lambda>(n, t). n \<noteq> name) (gs_approvals s)\<rparr> else s)"

definition glob_json :: "string \<Rightarrow> gsys \<Rightarrow> (string \<times> gtoken) list" where
  "glob_json pre s =
     filter (\<lambda>(n, t). starts_with n pre \<and> ends_with n ''.json'' \<and> length pre + 5 \<le> length n) (gs_approvals s)"

text \<open>The number of an \<open>expires_at\<close>; \<open>None\<close>: the comparison with the clock raises.\<close>

fun json_number :: "json \<Rightarrow> rat option" where
  "json_number (JInt i) = Some (of_int i)"
| "json_number (JFloat x) = Some x"
| "json_number (JBool b) = Some (if b then 1 else 0)"
| "json_number _ = None"

text \<open>What a token amounts to before it is consumed.\<close>

datatype token_verdict = Ignored | Reported gevent | Candidate string

definition unsigned_part :: "(string \<times> json) list \<Rightarrow> json" where
  "unsigned_part d = JObj (filter (\<lambda>(k, v). k \<noteq> ''signature'') d)"

definition unlock_verdict :: "bytes \<Rightarrow> time \<Rightarrow> string \<Rightarrow> gtoken \<Rightarrow> token_verdict" where
  "unlock_verdict key now name tok =
     (case tok of
        TokenLink \<Rightarrow> Reported (EvLinkAlert name)
      | TokenData (JObj d) \<Rightarrow>
          (if json_get d ''action'' JNull \<noteq> JStr ''UNLOCK_EMERGENCY_LOCK'' then Ignored
           else let sig = json_get d ''signature'' (JStr [])
                in if \<not> truthy sig then Reported (EvTokenInvalid name)
                   else case json_number (json_get d ''expires_at'' (JInt 0)) of
                       None \<Rightarrow> Reported (EvTokenError name)
                     | Some expiry \<Rightarrow>
                         (if expiry \<le> now then Reported (EvTokenExpired name)
                          else case (verify_signature key (unsigned_part d) sig, sig) of
                              (Some True, JStr t) \<Rightarrow> Candidate t
                            | (Some False, _) \<Rightarrow> Reported (EvTokenSignatureInvalid name)
                            | _ \<Rightarrow> Reported (EvTokenError name)))
      | _ \<Rightarrow> Reported (EvTokenError name))"

fun unlock_tokens :: "bytes \<Rightarrow> genv \<Rightarrow> (string \<times> gtoken) list \<Rightarrow> gsys \<Rightarrow> bool \<times> gsys" where
  "unlock_tokens key e [] s = (False, s)"
| "unlock_tokens key e ((name, tok) # ts) s =
     (case unlock_verdict key (ge_now e) name tok of
        Ignored \<Rightarrow> unlock_tokens key e ts s
      | Reported ev \<Rightarrow> unlock_tokens key e ts (log_event ev s)
      | Candidate sig \<Rightarrow>
          (case try_consume_token e sig s of
             (False, s1) \<Rightarrow> unlock_tokens key e ts (log_event (EvTokenReplayBlocked name) s1)
           | (True, s1) \<Rightarrow> (True, (log_event (EvUnlocked name) (remove_token e name s1))\<lparr>gs_state := STARTING\<rparr>)))"

definition check_unlock_token :: "bytes \<Rightarrow> genv \<Rightarrow> gsys \<Rightarrow> bool \<times> gsys" where
  "check_unlock_token key e s =
     (if gs_approvals_dir s then unlock_tokens key e (glob_json ''UNLOCK-'' s) s else (False, s))"

definition approval_verdict ::
  "bytes \<Rightarrow> time \<Rightarrow> json list \<Rightarrow> string \<Rightarrow> string option \<Rightarrow> string \<Rightarrow> gtoken \<Rightarrow> token_verdict" where
  "approval_verdict key now memory target current name tok =
     (case tok of
        TokenLink \<Rightarrow> Reported (EvLinkAlert name)
      | TokenData (JObj d) \<Rightarrow>
          (let target_file = json_get d ''target_file'' JNull; sig = json_get d ''signature'' (JStr [])
           in if target_file = JStr ''ALL'' then Reported (EvWildcardAlert name)
              else if target_file \<noteq> JStr target then Ignored
              else if \<not> truthy sig then Ignored
              else if \<not> hashable sig then Reported (EvTokenError name)
              else if sig \<in> set memory then Ignored
              else case json_number (json_get d ''expires_at'' (JInt 0)) of
                  None \<Rightarrow> Reported (EvTokenError name)
                | Some expiry \<Rightarrow>
                    (if expiry \<le> now then Reported (EvTokenExpired name)
                     else case (verify_signature key (unsigned_part d) sig, sig) of
                         (Some True, JStr t) \<Rightarrow>
                           (if json_get d ''approved_content_hash'' (JStr []) \<noteq> hash_json current
                            then Reported (EvTokenHashMismatch name) else Candidate t)
                       | (Some False, _) \<Rightarrow> Reported (EvTokenSignatureInvalid name)
                       | _ \<Rightarrow> Reported (EvTokenError name)))
      | _ \<Rightarrow> Reported (EvTokenError name))"

fun approval_tokens ::
  "bytes \<Rightarrow> genv \<Rightarrow> string \<Rightarrow> string option \<Rightarrow> (string \<times> gtoken) list \<Rightarrow> gsys \<Rightarrow> bool \<times> gsys" where
  "approval_tokens key e target current [] s = (False, s)"
| "approval_tokens key e target current ((name, tok) # ts) s =
     (case approval_verdict key (ge_now e) (gs_memory s) target current name tok of
        Ignored \<Rightarrow> approval_tokens key e target current ts s
      | Reported ev \<Rightarrow> approval_tokens key e target current ts (log_event ev s)
      | Candidate sig \<Rightarrow>
          (case try_consume_token e sig s of
             (False, s1) \<Rightarrow> approval_tokens key e target current ts (log_event (EvTokenReplayBlocked name) s1)
           | (True, s1) \<Rightarrow> (True, remove_token e name s1)))"

definition get_valid_approval_token ::
  "bytes \<Rightarrow> genv \<Rightarrow> string \<Rightarrow> string option \<Rightarrow> gsys \<Rightarrow> bool \<times> gsys" where
  "get_valid_approval_token key e target current s =
     (if gs_approvals_dir s then approval_tokens key e target current (glob_json ''APPROVE-'' s) s else (False, s))"

section \<open>The manifest and the daemon's own script\<close>

text \<open>\<open>"guardian_hash" in data\<close> and \<open>data["guardian_hash"]\<close> for every kind of JSON document.\<close>

fun read_guardian_hash :: "json \<Rightarrow> gevent + json" where
  "read_guardian_hash (JObj d) =
     (let h = json_get d ''guardian_hash'' JNull in if truthy h then Inr h else Inl EvGuardianHashMissing)"
| "read_guardian_hash (JArr xs) =
     (if JStr ''guardian_hash'' \<in> set xs then Inl EvManifestParseError else Inl EvGuardianHashMissing)"
| "read_guardian_hash (JStr t) =
     (if contains t ''guardian_hash'' then Inl EvManifestParseError else Inl EvGuardianHashMissing)"
| "read_guardian_hash _ = Inl EvManifestParseError"

fun manifest_files :: "json \<Rightarrow> (string \<times> json) list option" where
  "manifest_files (JObj d) = (case json_get d ''files'' (JObj []) of JObj fs \<Rightarrow> Some fs | _ \<Rightarrow> None)"
| "manifest_files _ = None"

fun check_snapshots :: "(string \<Rightarrow> gnode) \<Rightarrow> (string \<times> json) list \<Rightarrow> gevent option" where
  "check_snapshots snap [] = None"
| "check_snapshots snap ((fname, expected) # fs) =
     (case get_file_hash_safe (snap fname) of
        Inl _ \<Rightarrow> Some EvManifestParseError
      | Inr h \<Rightarrow> if hash_json h \<noteq> expected then Some (EvSnapshotTamper fname) else check_snapshots snap fs)"

definition verify_manifest :: "bytes \<Rightarrow> gsys \<Rightarrow> bool \<times> gsys" where
  "verify_manifest key s =
     (case (gs_manifest s, gs_manifest_sig s) of
        (JAbsent, _) \<Rightarrow> (False, log_event EvManifestMissing (s\<lparr>gs_state := UNINITIALIZED\<rparr>))
      | (_, JAbsent) \<Rightarrow> (False, log_event EvManifestMissing (s\<lparr>gs_state := UNINITIALIZED\<rparr>))
      | (JValue m, JValue (JObj sd)) \<Rightarrow>
          (case verify_signature key m (json_get sd ''signature'' (JStr [])) of
             None \<Rightarrow> (False, lock_with EvManifestParseError s)
           | Some False \<Rightarrow> (False, lock_with EvManifestSignatureInvalid s)
           | Some True \<Rightarrow>
               (case read_guardian_hash m of
                  Inl ev \<Rightarrow> (False, lock_with ev s)
                | Inr h \<Rightarrow>
                    (let s1 = s\<lparr>gs_expected := h\<rparr>
                     in case manifest_files m of
                          None \<Rightarrow> (False, lock_with EvManifestParseError s1)
                        | Some fs \<Rightarrow>
                            (case check_snapshots (gs_snap s) fs of
                               Some ev \<Rightarrow> (False, lock_with ev s1)
                             | None \<Rightarrow> (True, s1)))))
      | _ \<Rightarrow> (False, lock_with EvManifestParseError s))"

text \<open>The path of the script is never empty (the constructor falls back to the running file).\<close>

definition verify_guardian_self_integrity :: "gsys \<Rightarrow> bool \<times> gsys" where
  "verify_guardian_self_integrity s =
     (if \<not> truthy (gs_expected s) then (False, lock_with EvSelfConfigError s)
      else case get_file_hash_safe (gs_script s) of
          Inl _ \<Rightarrow> (False, lock_with EvSelfError s)
        | Inr h \<Rightarrow> if hash_json h \<noteq> gs_expected s then (False, lock_with EvSelfTamper s) else (True, s))"

section \<open>Enforcement\<close>

text \<open>The hashes of the snapshots that can be read; \<open>None\<close> is a \<open>PermissionError\<close>.\<close>

fun snapshot_hashes :: "(string \<Rightarrow> gnode) \<Rightarrow> string list \<Rightarrow> (string \<times> json) list option" where
  "snapshot_hashes snap [] = Some []"
| "snapshot_hashes snap (f # fs) =
     (case get_file_hash_safe (snap f) of
        Inl _ \<Rightarrow> None
      | Inr h \<Rightarrow> map_option (\<lambda>m. case h of None \<Rightarrow> m | Some d \<Rightarrow> (f, JStr d) # m) (snapshot_hashes snap fs))"

definition manifest_payload :: "int \<Rightarrow> (string \<times> json) list \<Rightarrow> json \<Rightarrow> json" where
  "manifest_payload updated files guardian =
     JObj ([(''version'', JInt 1), (''updated_at'', JInt updated), (''files'', JObj files)]
           @ (if truthy guardian then [(''guardian_hash'', guardian)] else []))"

text \<open>The first component is the exception raised, if any.\<close>

definition update_snapshot_and_manifest ::
  "bytes \<Rightarrow> genv \<Rightarrow> string \<Rightarrow> string option \<Rightarrow> gsys \<Rightarrow> gexn option \<times> gsys" where
  "update_snapshot_and_manifest key e fname new_hash s =
     (case safe_atomic_copy (gs_core s fname) new_hash (ge_write_snap e fname) of
        Inl x \<Rightarrow> (Some x, s)
      | Inr bs \<Rightarrow>
          (let s1 = s\<lparr>gs_snap := (gs_snap s)(fname := Plain bs)\<rparr>
           in case snapshot_hashes (gs_snap s1) IMMUTABLE_FILES of
                None \<Rightarrow> (Some PermErr, s1)
              | Some files \<Rightarrow>
                  (let payload = manifest_payload (py_int (ge_now e)) files (gs_expected s1);
                       s2 = s1\<lparr>gs_manifest := JValue payload\<rparr>
                   in case ge_manifest e fname of
                        WriteFails x \<Rightarrow> (Some x, s1)
                      | SigNotReplaced x \<Rightarrow> (Some x, s2)
                      | Written \<Rightarrow>
                          (None, log_event (EvManifestUpdated fname)
                             (s2\<lparr>gs_manifest_sig := JValue (JObj [(''signature'', JStr (sign_payload key payload))])\<rparr>)))))"

text \<open>The rollback of a link or of a deleted file, the same lines in both branches.\<close>

definition restore_from_snapshot :: "genv \<Rightarrow> string \<Rightarrow> nat \<Rightarrow> gsys \<Rightarrow> gexn option \<times> gsys" where
  "restore_from_snapshot e fname k s =
     (if \<not> node_exists (gs_snap s fname) then (None, lock_with (EvNoSnapshot fname) s)
      else case get_file_hash_safe (gs_snap s fname) of
          Inl x \<Rightarrow> (Some x, s)
        | Inr h \<Rightarrow>
            (case safe_atomic_copy (gs_snap s fname) h (ge_write_core e fname k) of
               Inl x \<Rightarrow> (Some x, s)
             | Inr bs \<Rightarrow> (None, log_event (EvRollback fname) (s\<lparr>gs_core := (gs_core s)(fname := Plain bs)\<rparr>))))"

definition compare_with_snapshot :: "bytes \<Rightarrow> genv \<Rightarrow> string \<Rightarrow> gsys \<Rightarrow> gexn option \<times> gsys" where
  "compare_with_snapshot key e fname s =
     (if \<not> node_exists (gs_snap s fname) then (None, s)
      else case (get_file_hash_safe (gs_core s fname), get_file_hash_safe (gs_snap s fname)) of
          (Inr src_hash, Inr snap_hash) \<Rightarrow>
            (if src_hash = snap_hash then (None, s)
             else case get_valid_approval_token key e fname src_hash s of
                 (True, s1) \<Rightarrow>
                   (case update_snapshot_and_manifest key e fname src_hash s1 of
                      (None, s2) \<Rightarrow> (None, log_event (EvAuthorizedChange fname) s2)
                    | r \<Rightarrow> r)
               | (False, s1) \<Rightarrow>
                   (let s2 = log_event (EvViolationModify fname) s1
                    in case safe_atomic_copy (gs_snap s2 fname) snap_hash (ge_write_core e fname 0) of
                         Inl x \<Rightarrow> (Some x, s2)
                       | Inr bs \<Rightarrow> (None, log_event (EvRollback fname) (s2\<lparr>gs_core := (gs_core s2)(fname := Plain bs)\<rparr>))))
        | _ \<Rightarrow> (None, lock_with (EvPermission fname) s))"

definition check_and_enforce_file :: "bytes \<Rightarrow> genv \<Rightarrow> string \<Rightarrow> gsys \<Rightarrow> gexn option \<times> gsys" where
  "check_and_enforce_file key e fname s =
     (case gs_core s fname of
        SymLink _ \<Rightarrow>
          (case restore_from_snapshot e fname 0 (log_event (EvViolationLink fname) s) of
             (Some NotFoundErr, s1) \<Rightarrow> restore_from_snapshot e fname 1 (log_event (EvViolationDelete fname) s1)
           | (Some PermErr, s1) \<Rightarrow> (None, lock_with (EvPermission fname) s1)
           | (Some OsErr, s1) \<Rightarrow> (None, lock_with (EvOsError fname) s1)
           | r \<Rightarrow> r)
      | Absent \<Rightarrow> restore_from_snapshot e fname 0 (log_event (EvViolationDelete fname) s)
      | NoSearch \<Rightarrow> (None, lock_with (EvPermission fname) s)
      | LstatFails \<Rightarrow> (None, lock_with (EvOsError fname) s)
      | _ \<Rightarrow> compare_with_snapshot key e fname s)"

fun enforce_files :: "bytes \<Rightarrow> genv \<Rightarrow> string list \<Rightarrow> bool \<Rightarrow> gsys \<Rightarrow> bool \<times> gsys" where
  "enforce_files key e [] has_error s = (has_error, s)"
| "enforce_files key e (f # fs) has_error s =
     (case check_and_enforce_file key e f s of
        (None, s1) \<Rightarrow> enforce_files key e fs has_error s1
      | (Some _, s1) \<Rightarrow> enforce_files key e fs True (log_event (EvPerFileError f) s1))"

definition unlock_step :: "bytes \<Rightarrow> genv \<Rightarrow> gsys \<Rightarrow> bool \<times> gsys" where
  "unlock_step key e s = (if gs_state s = EMERGENCY_LOCK then check_unlock_token key e s else (True, s))"

definition check_and_enforce_all :: "bytes \<Rightarrow> genv \<Rightarrow> gsys \<Rightarrow> bool \<times> gsys" where
  "check_and_enforce_all key e s =
     (case unlock_step key e s of
        (False, s1) \<Rightarrow> (False, s1)
      | (True, s1) \<Rightarrow>
          (case verify_manifest key s1 of
             (False, s2) \<Rightarrow> (False, s2)
           | (True, s2) \<Rightarrow>
               (case verify_guardian_self_integrity s2 of
                  (False, s3) \<Rightarrow> (False, s3)
                | (True, s3) \<Rightarrow>
                    (case enforce_files key e IMMUTABLE_FILES False s3 of
                       (has_error, s4) \<Rightarrow>
                         (True, if \<not> has_error \<and> gs_state s4 \<notin> {EMERGENCY_LOCK, UNINITIALIZED}
                                then s4\<lparr>gs_state := TRUSTED\<rparr> else s4)))))"

text \<open>The constructor, on the files of a given state.\<close>

definition start_guardian :: "json \<Rightarrow> gsys \<Rightarrow> gsys" where
  "start_guardian expected w =
     w\<lparr>gs_state := STARTING, gs_events := [], gs_memory := load_consumed_tokens (gs_consumed w), gs_expected := expected\<rparr>"

section \<open>What the operations leave alone\<close>

definition same_files :: "gsys \<Rightarrow> gsys \<Rightarrow> bool" where
  "same_files s s' \<longleftrightarrow>
     gs_core s' = gs_core s \<and> gs_snap s' = gs_snap s \<and> gs_manifest s' = gs_manifest s \<and>
     gs_manifest_sig s' = gs_manifest_sig s \<and> gs_expected s' = gs_expected s \<and> gs_script s' = gs_script s \<and>
     set (gs_approvals s') \<subseteq> set (gs_approvals s) \<and> gs_approvals_dir s' = gs_approvals_dir s"

lemma same_files_refl [simp]: "same_files s s"
  by (simp add: same_files_def)

lemma same_files_trans: "same_files s t \<Longrightarrow> same_files t u \<Longrightarrow> same_files s u"
  by (auto simp: same_files_def)

lemma log_event_sel [simp]:
  "gs_state (log_event ev s) = gs_state s" "gs_core (log_event ev s) = gs_core s" "gs_snap (log_event ev s) = gs_snap s"
  "gs_memory (log_event ev s) = gs_memory s" "gs_expected (log_event ev s) = gs_expected s"
  "gs_accepted (log_event ev s) = gs_accepted s" "gs_manifest (log_event ev s) = gs_manifest s"
  "gs_manifest_sig (log_event ev s) = gs_manifest_sig s" "gs_consumed (log_event ev s) = gs_consumed s"
  "gs_script (log_event ev s) = gs_script s" "gs_approvals (log_event ev s) = gs_approvals s"
  "gs_approvals_dir (log_event ev s) = gs_approvals_dir s"
  by (simp_all add: log_event_def)

lemma lock_with_sel [simp]:
  "gs_state (lock_with ev s) = EMERGENCY_LOCK" "gs_core (lock_with ev s) = gs_core s" "gs_snap (lock_with ev s) = gs_snap s"
  "gs_memory (lock_with ev s) = gs_memory s" "gs_expected (lock_with ev s) = gs_expected s"
  "gs_accepted (lock_with ev s) = gs_accepted s" "gs_manifest (lock_with ev s) = gs_manifest s"
  "gs_manifest_sig (lock_with ev s) = gs_manifest_sig s" "gs_consumed (lock_with ev s) = gs_consumed s"
  "gs_script (lock_with ev s) = gs_script s" "gs_approvals (lock_with ev s) = gs_approvals s"
  "gs_approvals_dir (lock_with ev s) = gs_approvals_dir s"
  by (simp_all add: lock_with_def)

lemma remove_token_sel [simp]:
  "gs_state (remove_token e n s) = gs_state s" "gs_consumed (remove_token e n s) = gs_consumed s"
  "gs_accepted (remove_token e n s) = gs_accepted s" "gs_memory (remove_token e n s) = gs_memory s"
  "same_files s (remove_token e n s)"
  by (auto simp: remove_token_def same_files_def)

lemma same_files_log [simp]: "same_files (log_event ev s) t = same_files s t" "same_files s (log_event ev t) = same_files s t"
  by (simp_all add: same_files_def)

lemma same_files_state [simp]: "same_files s (t\<lparr>gs_state := x\<rparr>) = same_files s t"
  by (simp add: same_files_def)

text \<open>Consuming a signature: it was not there, it is there afterwards, nothing is lost.\<close>

lemma consume_True:
  assumes "try_consume_token e sig s = (True, s')"
  shows "JStr sig \<notin> set (load_consumed_tokens (gs_consumed s))"
    and "set (load_consumed_tokens (gs_consumed s')) = insert (JStr sig) (set (load_consumed_tokens (gs_consumed s)))"
    and "gs_accepted s' = gs_accepted s @ [sig]" and "gs_state s' = gs_state s" and "same_files s s'"
  using assms
  by (auto simp: try_consume_token_def Let_def same_files_def load_consumed_tokens_def list_all_iff
      split: if_splits gjson.splits json.splits)

lemma consume_False:
  assumes "try_consume_token e sig s = (False, s')"
  shows "gs_consumed s' = gs_consumed s" and "gs_accepted s' = gs_accepted s" and "gs_state s' = gs_state s"
    and "same_files s s'"
  using assms by (auto simp: try_consume_token_def Let_def same_files_def split: if_splits)

section \<open>Accepted signatures\<close>

text \<open>What a human can have signed for the guardian: an unlock, or the approval of a core file.\<close>

definition issued_by_key :: "bytes \<Rightarrow> string \<Rightarrow> bool" where
  "issued_by_key key sig \<longleftrightarrow>
     (\<exists>d. sig = sign_payload key (JObj d) \<and>
        (json_get d ''action'' JNull = JStr ''UNLOCK_EMERGENCY_LOCK'' \<or>
         (\<exists>f \<in> set IMMUTABLE_FILES. json_get d ''target_file'' JNull = JStr f)))"

definition accepts :: "bytes \<Rightarrow> gsys \<Rightarrow> gsys \<Rightarrow> bool" where
  "accepts key s s' \<longleftrightarrow>
     (\<exists>new. gs_accepted s' = gs_accepted s @ new \<and> distinct new \<and> (\<forall>sig \<in> set new. issued_by_key key sig) \<and>
        JStr ` set new \<inter> set (load_consumed_tokens (gs_consumed s)) = {} \<and>
        set (load_consumed_tokens (gs_consumed s')) = set (load_consumed_tokens (gs_consumed s)) \<union> JStr ` set new)"

lemma accepts_same: "gs_accepted s' = gs_accepted s \<Longrightarrow> gs_consumed s' = gs_consumed s \<Longrightarrow> accepts key s s'"
  by (simp add: accepts_def)

lemma accepts_refl [simp]: "accepts key s s"
  by (simp add: accepts_same)

lemma accepts_trans:
  assumes "accepts key s t" and "accepts key t u"
  shows "accepts key s u"
proof -
  from assms obtain a b where
    "gs_accepted t = gs_accepted s @ a" "distinct a" "\<forall>sig \<in> set a. issued_by_key key sig"
    "JStr ` set a \<inter> set (load_consumed_tokens (gs_consumed s)) = {}"
    "set (load_consumed_tokens (gs_consumed t)) = set (load_consumed_tokens (gs_consumed s)) \<union> JStr ` set a"
    "gs_accepted u = gs_accepted t @ b" "distinct b" "\<forall>sig \<in> set b. issued_by_key key sig"
    "JStr ` set b \<inter> set (load_consumed_tokens (gs_consumed t)) = {}"
    "set (load_consumed_tokens (gs_consumed u)) = set (load_consumed_tokens (gs_consumed t)) \<union> JStr ` set b"
    unfolding accepts_def by metis
  then show ?thesis unfolding accepts_def by (intro exI [of _ "a @ b"]) auto
qed

text \<open>\<open>accepts\<close> looks at two fields only.\<close>

lemma accepts_fields:
  assumes "gs_accepted s = gs_accepted t" "gs_consumed s = gs_consumed t"
    "gs_accepted s' = gs_accepted t'" "gs_consumed s' = gs_consumed t'"
  shows "accepts key s s' = accepts key t t'"
  using assms by (simp add: accepts_def)

lemma accepts_log [simp]: "accepts key (log_event ev s) t = accepts key s t" "accepts key s (log_event ev t) = accepts key s t"
  by (rule accepts_fields; simp)+

lemma accepts_lock [simp]: "accepts key s (lock_with ev t) = accepts key s t"
  by (rule accepts_fields; simp)

lemma accepts_state [simp]: "accepts key s (t\<lparr>gs_state := x\<rparr>) = accepts key s t"
  by (rule accepts_fields; simp)

lemma accepts_remove [simp]: "accepts key s (remove_token e n t) = accepts key s t"
  by (rule accepts_fields; simp)

lemma accepts_consume:
  assumes "try_consume_token e sig s = (b, s')" and "issued_by_key key sig"
  shows "accepts key s s'"
proof (cases b)
  case True
  with assms(1) have "try_consume_token e sig s = (True, s')" by simp
  note c = consume_True [OF this]
  show ?thesis unfolding accepts_def using c assms(2) by (intro exI [of _ "[sig]"]) auto
next
  case False
  then show ?thesis using assms(1) consume_False by (intro accepts_same) auto
qed

section \<open>What an accepted token says\<close>

lemma json_get_unsigned: "k \<noteq> ''signature'' \<Longrightarrow> json_get (filter (\<lambda>(k, v). k \<noteq> ''signature'') d) k v = json_get d k v"
proof -
  assume k: "k \<noteq> ''signature''"
  have "map_of (filter (\<lambda>(k, v). k \<noteq> ''signature'') d) k = map_of d k"
    by (induction d) (auto simp: k)
  then show ?thesis by (simp add: json_get_def)
qed

lemma signature_holds: "verify_signature key data sig = Some True \<Longrightarrow> sig = JStr (sign_payload key data)"
  by (auto simp: verify_signature_def compare_digest_def split: json.splits if_splits)

lemma verify_own_signature [simp]: "verify_signature key data (JStr (sign_payload key data)) = Some True"
  by (simp add: verify_signature_def sign_payload_def compare_hexdigest)

text \<open>A signed object whose \<open>signature\<close> is the key's signature of the rest, not yet expired.\<close>

definition signed_token :: "bytes \<Rightarrow> time \<Rightarrow> (string \<times> json) list \<Rightarrow> string \<Rightarrow> bool" where
  "signed_token key now d sig \<longleftrightarrow>
     json_get d ''signature'' (JStr []) = JStr sig \<and> sig = sign_payload key (unsigned_part d) \<and>
     (case json_number (json_get d ''expires_at'' (JInt 0)) of None \<Rightarrow> False | Some expiry \<Rightarrow> now < expiry)"

lemma unlock_candidate:
  assumes "unlock_verdict key now name tok = Candidate sig"
  shows "\<exists>d. tok = TokenData (JObj d) \<and> json_get d ''action'' JNull = JStr ''UNLOCK_EMERGENCY_LOCK'' \<and>
    signed_token key now d sig"
  using assms
  by (auto simp: unlock_verdict_def signed_token_def Let_def dest!: signature_holds
      split: gtoken.splits json.splits if_splits option.splits bool.splits)

lemma approval_candidate:
  assumes "approval_verdict key now memory target current name tok = Candidate sig"
  shows "\<exists>d. tok = TokenData (JObj d) \<and> json_get d ''target_file'' JNull = JStr target \<and>
    signed_token key now d sig \<and> json_get d ''approved_content_hash'' (JStr []) = hash_json current"
  using assms
  by (auto simp: approval_verdict_def signed_token_def Let_def dest!: signature_holds
      split: gtoken.splits json.splits if_splits option.splits bool.splits)

lemma issued_unlock:
  "signed_token key now d sig \<Longrightarrow> json_get d ''action'' JNull = JStr ''UNLOCK_EMERGENCY_LOCK'' \<Longrightarrow> issued_by_key key sig"
  unfolding issued_by_key_def signed_token_def unsigned_part_def
  by (intro exI [of _ "filter (\<lambda>(k, v). k \<noteq> ''signature'') d"]) (auto simp: json_get_unsigned)

lemma issued_approval:
  "signed_token key now d sig \<Longrightarrow> json_get d ''target_file'' JNull = JStr f \<Longrightarrow> f \<in> set IMMUTABLE_FILES \<Longrightarrow>
   issued_by_key key sig"
  unfolding issued_by_key_def signed_token_def unsigned_part_def
  by (intro exI [of _ "filter (\<lambda>(k, v). k \<noteq> ''signature'') d"]) (auto simp: json_get_unsigned)

section \<open>The token loops\<close>

lemma unlock_tokens_False:
  assumes "unlock_tokens key e ts s = (False, s')"
  shows "gs_accepted s' = gs_accepted s \<and> gs_consumed s' = gs_consumed s \<and> gs_state s' = gs_state s \<and> same_files s s'"
  using assms
proof (induction ts arbitrary: s)
  case (Cons t ts)
  obtain name tok where t: "t = (name, tok)" by (cases t)
  show ?case
  proof (cases "unlock_verdict key (ge_now e) name tok")
    case (Candidate sig)
    obtain b s1 where c: "try_consume_token e sig s = (b, s1)" by (cases "try_consume_token e sig s")
    have "\<not> b" using Cons.prems t Candidate c by (cases b) simp_all
    with c have c': "try_consume_token e sig s = (False, s1)" by simp
    then have "unlock_tokens key e ts (log_event (EvTokenReplayBlocked name) s1) = (False, s')"
      using Cons.prems t Candidate by simp
    from Cons.IH [OF this] consume_False [OF c'] show ?thesis
      using same_files_trans [of s s1 s'] by simp
  qed (use Cons t in fastforce)+
qed simp

lemma unlock_tokens_True:
  assumes "unlock_tokens key e ts s = (True, s')"
  shows "\<exists>name d sig. (name, TokenData (JObj d)) \<in> set ts \<and>
      json_get d ''action'' JNull = JStr ''UNLOCK_EMERGENCY_LOCK'' \<and> signed_token key (ge_now e) d sig \<and>
      JStr sig \<notin> set (load_consumed_tokens (gs_consumed s)) \<and>
      JStr sig \<in> set (load_consumed_tokens (gs_consumed s')) \<and> gs_state s' = STARTING \<and>
      same_files s s' \<and> accepts key s s'"
  using assms
proof (induction ts arbitrary: s)
  case (Cons t ts)
  obtain name tok where t: "t = (name, tok)" by (cases t)
  show ?case
  proof (cases "unlock_verdict key (ge_now e) name tok")
    case Ignored
    then show ?thesis using Cons t by fastforce
  next
    case (Reported ev)
    then have "unlock_tokens key e ts (log_event ev s) = (True, s')" using Cons.prems t by simp
    from Cons.IH [OF this] show ?thesis unfolding t by (auto)
  next
    case (Candidate sig)
    obtain b s1 where c: "try_consume_token e sig s = (b, s1)" by (cases "try_consume_token e sig s")
    show ?thesis
    proof (cases b)
      case False
      with c have c': "try_consume_token e sig s = (False, s1)" by simp
      then have "unlock_tokens key e ts (log_event (EvTokenReplayBlocked name) s1) = (True, s')"
        using Cons.prems t Candidate by simp
      from Cons.IH [OF this] obtain n d si where h: "(n, TokenData (JObj d)) \<in> set ts"
        "json_get d ''action'' JNull = JStr ''UNLOCK_EMERGENCY_LOCK''" "signed_token key (ge_now e) d si"
        "JStr si \<notin> set (load_consumed_tokens (gs_consumed s1))" "JStr si \<in> set (load_consumed_tokens (gs_consumed s'))"
        "gs_state s' = STARTING" "same_files s1 s'" "accepts key s1 s'" by auto
      note f = consume_False [OF c']
      have "same_files s s'" by (rule same_files_trans [OF f(4) h(7)])
      moreover have "accepts key s s'" by (rule accepts_trans [OF accepts_same h(8)]) (use f in simp_all)
      ultimately show ?thesis using h f(1) unfolding t
        by (intro exI [of _ n] exI [of _ d] exI [of _ si]) simp
    next
      case True
      with c have c': "try_consume_token e sig s = (True, s1)" by simp
      note f = consume_True [OF c']
      from unlock_candidate [OF Candidate] obtain d where d: "tok = TokenData (JObj d)"
        "json_get d ''action'' JNull = JStr ''UNLOCK_EMERGENCY_LOCK''" "signed_token key (ge_now e) d sig" by blast
      have s': "s' = (log_event (EvUnlocked name) (remove_token e name s1))\<lparr>gs_state := STARTING\<rparr>"
        using Cons.prems t Candidate c' by simp
      have "accepts key s s1" by (rule accepts_consume [OF c issued_unlock [OF d(3,2)]])
      moreover have "same_files s s'" unfolding s' using same_files_trans [OF f(5) remove_token_sel(5)] by simp
      ultimately show ?thesis using d f unfolding t s'
        by (intro exI [of _ name] exI [of _ d] exI [of _ sig]) simp
    qed
  qed
qed simp

lemma approval_tokens_facts:
  assumes "approval_tokens key e target current ts s = (b, s')" and "target \<in> set IMMUTABLE_FILES"
  shows "gs_state s' = gs_state s \<and> same_files s s' \<and> accepts key s s' \<and>
     (b \<longrightarrow> (\<exists>name d sig. (name, TokenData (JObj d)) \<in> set ts \<and> json_get d ''target_file'' JNull = JStr target \<and>
        signed_token key (ge_now e) d sig \<and> json_get d ''approved_content_hash'' (JStr []) = hash_json current \<and>
        JStr sig \<in> set (load_consumed_tokens (gs_consumed s'))))"
  using assms
proof (induction ts arbitrary: s)
  case (Cons t ts)
  obtain name tok where t: "t = (name, tok)" by (cases t)
  show ?case
  proof (cases "approval_verdict key (ge_now e) (gs_memory s) target current name tok")
    case Ignored
    then show ?thesis using Cons t by fastforce
  next
    case (Reported ev)
    then have "approval_tokens key e target current ts (log_event ev s) = (b, s')" using Cons.prems t by simp
    from Cons.IH [OF this Cons.prems(2)] show ?thesis unfolding t by auto
  next
    case (Candidate sig)
    obtain ok s1 where c: "try_consume_token e sig s = (ok, s1)" by (cases "try_consume_token e sig s")
    from approval_candidate [OF Candidate] obtain d where d: "tok = TokenData (JObj d)"
      "json_get d ''target_file'' JNull = JStr target" "signed_token key (ge_now e) d sig"
      "json_get d ''approved_content_hash'' (JStr []) = hash_json current" by blast
    have a: "accepts key s s1" by (rule accepts_consume [OF c issued_approval [OF d(3,2) Cons.prems(2)]])
    show ?thesis
    proof (cases ok)
      case False
      with c have c': "try_consume_token e sig s = (False, s1)" by simp
      then have "approval_tokens key e target current ts (log_event (EvTokenReplayBlocked name) s1) = (b, s')"
        using Cons.prems t Candidate by simp
      from Cons.IH [OF this Cons.prems(2)] have h: "gs_state s' = gs_state s1" "same_files s1 s'" "accepts key s1 s'"
        "b \<longrightarrow> (\<exists>name d sig. (name, TokenData (JObj d)) \<in> set ts \<and> json_get d ''target_file'' JNull = JStr target \<and>
          signed_token key (ge_now e) d sig \<and> json_get d ''approved_content_hash'' (JStr []) = hash_json current \<and>
          JStr sig \<in> set (load_consumed_tokens (gs_consumed s')))" by auto
      note f = consume_False [OF c']
      show ?thesis
        using h f(3) same_files_trans [OF f(4) h(2)] accepts_trans [OF a h(3)] unfolding t by (auto 4 3)
    next
      case True
      with c have c': "try_consume_token e sig s = (True, s1)" by simp
      note f = consume_True [OF c']
      have s': "b" "s' = remove_token e name s1" using Cons.prems t Candidate c' by simp_all
      have "same_files s s'" unfolding s' by (rule same_files_trans [OF f(5) remove_token_sel(5)])
      moreover have "\<exists>name d sig. (name, TokenData (JObj d)) \<in> set (t # ts) \<and> json_get d ''target_file'' JNull = JStr target \<and>
        signed_token key (ge_now e) d sig \<and> json_get d ''approved_content_hash'' (JStr []) = hash_json current \<and>
        JStr sig \<in> set (load_consumed_tokens (gs_consumed s'))"
        using d f unfolding t s' by (intro exI [of _ name] exI [of _ d] exI [of _ sig]) simp
      ultimately show ?thesis using a f(4) unfolding s' by simp
    qed
  qed
qed simp

section \<open>One file\<close>

lemma hex_nonempty [simp]: "sha256_hex bs \<noteq> []"
proof
  assume "sha256_hex bs = []"
  with length_sha256_hex [of bs] show False by simp
qed

lemma file_hash_Some: "get_file_hash_safe n = Inr h \<Longrightarrow> h = (case n of Plain bs \<Rightarrow> Some (sha256_hex bs) | _ \<Rightarrow> None)"
  by (auto simp: get_file_hash_safe_def split: gnode.splits)

lemma safe_copy_Inr:
  assumes "safe_atomic_copy src h w = Inr bs" and "get_file_hash_safe src = Inr h"
  shows "\<exists>c. src = Plain c \<and> bs = take MAX_COPY_BYTES c \<and> sha256_hex bs = sha256_hex c \<and> h = Some (sha256_hex c)"
  using assms
  by (auto simp: safe_atomic_copy_def get_file_hash_safe_def Let_def split: gnode.splits if_splits option.splits)

text \<open>A core file is left as it was, or gets the bytes of its snapshot; never when access was refused.\<close>

definition core_effect :: "gsys \<Rightarrow> gsys \<Rightarrow> string \<Rightarrow> bool" where
  "core_effect s s' f \<longleftrightarrow>
     gs_core s' f = gs_core s f \<or>
     (\<exists>c. gs_snap s f = Plain c \<and> gs_core s' f = Plain (take MAX_COPY_BYTES c) \<and>
        sha256_hex (take MAX_COPY_BYTES c) = sha256_hex c \<and> gs_core s f \<notin> {NoSearch, LstatFails, NoRead})"

text \<open>A snapshot is left as it was, or gets the bytes of the core file that a signed, unexpired token for this file and
  these bytes approves.\<close>

definition snap_effect :: "bytes \<Rightarrow> time \<Rightarrow> gsys \<Rightarrow> gsys \<Rightarrow> string \<Rightarrow> bool" where
  "snap_effect key now s s' f \<longleftrightarrow>
     gs_snap s' f = gs_snap s f \<or>
     (\<exists>b name d sig. gs_core s f = Plain b \<and> gs_snap s' f = Plain (take MAX_COPY_BYTES b) \<and>
        sha256_hex (take MAX_COPY_BYTES b) = sha256_hex b \<and>
        (name, TokenData (JObj d)) \<in> set (gs_approvals s) \<and> json_get d ''target_file'' JNull = JStr f \<and>
        signed_token key now d sig \<and> json_get d ''approved_content_hash'' (JStr []) = JStr (sha256_hex b))"

definition elsewhere :: "gsys \<Rightarrow> gsys \<Rightarrow> string \<Rightarrow> bool" where
  "elsewhere s s' f \<longleftrightarrow>
     (\<forall>g. g \<noteq> f \<longrightarrow> gs_core s' g = gs_core s g \<and> gs_snap s' g = gs_snap s g) \<and>
     set (gs_approvals s') \<subseteq> set (gs_approvals s) \<and> gs_expected s' = gs_expected s \<and> gs_script s' = gs_script s \<and>
     (gs_state s' = gs_state s \<or> gs_state s' = EMERGENCY_LOCK)"

definition file_effect :: "bytes \<Rightarrow> time \<Rightarrow> gsys \<Rightarrow> gsys \<Rightarrow> string \<Rightarrow> bool" where
  "file_effect key now s s' f \<longleftrightarrow>
     core_effect s s' f \<and> snap_effect key now s s' f \<and> elsewhere s s' f \<and> accepts key s s'"

lemma file_effect_log [simp]:
  "file_effect key now s (log_event ev t) f = file_effect key now s t f"
  "file_effect key now (log_event ev s) t f = file_effect key now s t f"
  by (simp_all add: file_effect_def core_effect_def snap_effect_def elsewhere_def)

lemma file_effect_refl [simp]: "file_effect key now s s f" "file_effect key now s (lock_with ev s) f"
  by (simp_all add: file_effect_def core_effect_def snap_effect_def elsewhere_def)

lemma file_effect_lock: "file_effect key now s t f \<Longrightarrow> file_effect key now s (lock_with ev t) f"
  by (simp add: file_effect_def core_effect_def snap_effect_def elsewhere_def)

lemma file_effect_tokens: "same_files s t \<Longrightarrow> gs_state t = gs_state s \<Longrightarrow> accepts key s t \<Longrightarrow> file_effect key now s t f"
  by (simp add: file_effect_def core_effect_def snap_effect_def elsewhere_def same_files_def)

lemma file_effect_core:
  "gs_snap t f = Plain c \<Longrightarrow> sha256_hex (take MAX_COPY_BYTES c) = sha256_hex c \<Longrightarrow>
   gs_core t f \<notin> {NoSearch, LstatFails, NoRead} \<Longrightarrow> same_files s t \<Longrightarrow> gs_state t = gs_state s \<Longrightarrow> accepts key s t \<Longrightarrow>
   file_effect key now s (t\<lparr>gs_core := (gs_core t)(f := Plain (take MAX_COPY_BYTES c))\<rparr>) f"
  by (auto simp: file_effect_def core_effect_def snap_effect_def elsewhere_def same_files_def accepts_def)

lemma restore_effect:
  assumes "restore_from_snapshot e f k s = (x, s')" and "gs_core s f \<notin> {NoSearch, LstatFails, NoRead}"
  shows "file_effect key now s s' f"
  using assms
  by (auto simp: restore_from_snapshot_def split: if_splits sum.splits dest!: safe_copy_Inr intro!: file_effect_core)

lemma restore_raises: "restore_from_snapshot e f k s = (Some x, s') \<Longrightarrow> s' = s"
  by (auto simp: restore_from_snapshot_def split: if_splits sum.splits)

lemma update_effect:
  assumes "update_snapshot_and_manifest key e f (Some (sha256_hex b)) t = (x, s')" and "gs_core t f = Plain b"
    and "same_files s t" and "gs_state t = gs_state s" and "accepts key s t"
    and "(name, TokenData (JObj d)) \<in> set (gs_approvals s)" and "json_get d ''target_file'' JNull = JStr f"
    and "signed_token key now d sig" and "json_get d ''approved_content_hash'' (JStr []) = JStr (sha256_hex b)"
  shows "file_effect key now s s' f"
proof (cases "safe_atomic_copy (Plain b) (Some (sha256_hex b)) (ge_write_snap e f)")
  case (Inl y)
  then show ?thesis using assms by (auto simp: update_snapshot_and_manifest_def intro: file_effect_tokens)
next
  case (Inr bs)
  from safe_copy_Inr [OF this] have bs: "bs = take MAX_COPY_BYTES b" "sha256_hex (take MAX_COPY_BYTES b) = sha256_hex b"
    by (auto simp: get_file_hash_safe_def)
  have "gs_snap s' = (gs_snap t)(f := Plain bs) \<and> gs_core s' = gs_core t \<and> gs_approvals s' = gs_approvals t \<and>
      gs_expected s' = gs_expected t \<and> gs_script s' = gs_script t \<and> gs_state s' = gs_state t \<and>
      gs_accepted s' = gs_accepted t \<and> gs_consumed s' = gs_consumed t"
    using assms(1,2) Inr
    by (auto simp: update_snapshot_and_manifest_def Let_def split: option.splits manifest_write.splits)
  moreover have "accepts key s s'" using assms(5) calculation by (simp add: accepts_def)
  moreover have "gs_core s f = Plain b" using assms(2,3) by (simp add: same_files_def)
  ultimately show ?thesis
    using assms(3,4,6-9) bs
    by (auto simp: file_effect_def core_effect_def snap_effect_def elsewhere_def same_files_def)
qed

lemma approval_facts:
  assumes "get_valid_approval_token key e target current s = (b, s')" and "target \<in> set IMMUTABLE_FILES"
  shows "gs_state s' = gs_state s" and "same_files s s'" and "accepts key s s'"
    and "b \<Longrightarrow> \<exists>name d sig. (name, TokenData (JObj d)) \<in> set (gs_approvals s) \<and> json_get d ''target_file'' JNull = JStr target \<and>
        signed_token key (ge_now e) d sig \<and> json_get d ''approved_content_hash'' (JStr []) = hash_json current"
proof -
  have "gs_state s' = gs_state s \<and> same_files s s' \<and> accepts key s s' \<and>
     (b \<longrightarrow> (\<exists>name d sig. (name, TokenData (JObj d)) \<in> set (glob_json ''APPROVE-'' s) \<and> json_get d ''target_file'' JNull = JStr target \<and>
        signed_token key (ge_now e) d sig \<and> json_get d ''approved_content_hash'' (JStr []) = hash_json current))"
    using approval_tokens_facts [of key e target current "glob_json ''APPROVE-'' s" s b s'] assms
    unfolding get_valid_approval_token_def by (auto split: if_splits)
  then show "gs_state s' = gs_state s" and "same_files s s'" and "accepts key s s'"
    and "b \<Longrightarrow> \<exists>name d sig. (name, TokenData (JObj d)) \<in> set (gs_approvals s) \<and> json_get d ''target_file'' JNull = JStr target \<and>
        signed_token key (ge_now e) d sig \<and> json_get d ''approved_content_hash'' (JStr []) = hash_json current"
    by (auto simp: glob_json_def)
qed

lemma no_hash_no_copy: "get_file_hash_safe n = Inr None \<Longrightarrow> safe_atomic_copy n h w = Inl (if n = NoHash \<or> n = LstatFails then OsErr else ValueErr)"
  by (auto simp: get_file_hash_safe_def safe_atomic_copy_def split: gnode.splits)

lemma hash_of_plain: "get_file_hash_safe n = Inr (Some h) \<Longrightarrow> \<exists>b. n = Plain b \<and> h = sha256_hex b"
  by (auto simp: get_file_hash_safe_def split: gnode.splits)

section \<open>A whole cycle\<close>

text \<open>The effect of enforcing some of the files, the others untouched.\<close>

definition files_effect :: "bytes \<Rightarrow> time \<Rightarrow> gsys \<Rightarrow> gsys \<Rightarrow> string set \<Rightarrow> bool" where
  "files_effect key now s s' F \<longleftrightarrow>
     (\<forall>f \<in> F. core_effect s s' f \<and> snap_effect key now s s' f) \<and>
     (\<forall>g. g \<notin> F \<longrightarrow> gs_core s' g = gs_core s g \<and> gs_snap s' g = gs_snap s g) \<and>
     set (gs_approvals s') \<subseteq> set (gs_approvals s) \<and> gs_expected s' = gs_expected s \<and> gs_script s' = gs_script s \<and>
     (gs_state s' = gs_state s \<or> gs_state s' = EMERGENCY_LOCK) \<and> accepts key s s'"

lemma files_effect_log [simp]: "files_effect key now (log_event ev s) t F = files_effect key now s t F"
  "files_effect key now s (log_event ev t) F = files_effect key now s t F"
  by (simp_all add: files_effect_def core_effect_def snap_effect_def)

lemma snap_effect_from:
  assumes "snap_effect key now t u g" "gs_core t g = gs_core s g" "gs_snap t g = gs_snap s g"
    and "set (gs_approvals t) \<subseteq> set (gs_approvals s)"
  shows "snap_effect key now s u g"
proof (cases "gs_snap u g = gs_snap t g")
  case False
  with assms(1) obtain b name d sig where "gs_core t g = Plain b" "gs_snap u g = Plain (take MAX_COPY_BYTES b)"
    "sha256_hex (take MAX_COPY_BYTES b) = sha256_hex b" "(name, TokenData (JObj d)) \<in> set (gs_approvals t)"
    "json_get d ''target_file'' JNull = JStr g" "signed_token key now d sig"
    "json_get d ''approved_content_hash'' (JStr []) = JStr (sha256_hex b)"
    unfolding snap_effect_def by blast
  with assms(2,4) show ?thesis unfolding snap_effect_def 
    by - (rule disjI2, rule exI [of _ b], rule exI [of _ name], rule exI [of _ d], auto)
qed (use assms(3) in \<open>simp add: snap_effect_def\<close>)

lemma files_effect_insert:
  assumes "file_effect key now s t f" and "files_effect key now t u F" and "f \<notin> F"
  shows "files_effect key now s u (insert f F)"
proof -
  from assms(1) have t: "core_effect s t f" "snap_effect key now s t f" "\<forall>g. g \<noteq> f \<longrightarrow> gs_core t g = gs_core s g \<and> gs_snap t g = gs_snap s g"
    "set (gs_approvals t) \<subseteq> set (gs_approvals s)" by (simp_all add: file_effect_def elsewhere_def)
  from assms(2,3) have u: "gs_core u f = gs_core t f" "gs_snap u f = gs_snap t f"
    "\<forall>g \<in> F. core_effect t u g \<and> snap_effect key now t u g" by (simp_all add: files_effect_def)
  have "core_effect s u g \<and> snap_effect key now s u g" if g: "g \<in> insert f F" for g
  proof (cases "g = f")
    case True
    then show ?thesis using t(1,2) u(1,2) by (simp add: core_effect_def snap_effect_def)
  next
    case False
    then have same: "gs_core t g = gs_core s g" "gs_snap t g = gs_snap s g" using t(3) by simp_all
    from False g have "core_effect t u g" "snap_effect key now t u g" using u(3) by simp_all
    then show ?thesis using same t(4) snap_effect_from by (simp add: core_effect_def)
  qed
  moreover have "accepts key s u" using assms(1,2) accepts_trans unfolding file_effect_def files_effect_def by blast
  ultimately show ?thesis
    using assms unfolding files_effect_def file_effect_def elsewhere_def by auto
qed

text \<open>What the enforcement of the core files needs of the token scan and of the update, and how it is composed of them;
  the two versions of the daemon differ only in the first two.\<close>

locale enforcement =
  fixes key :: bytes
    and approve :: "genv \<Rightarrow> string \<Rightarrow> string option \<Rightarrow> gsys \<Rightarrow> bool \<times> gsys"
    and update :: "genv \<Rightarrow> string \<Rightarrow> string option \<Rightarrow> gsys \<Rightarrow> gexn option \<times> gsys"
    and cmp :: "genv \<Rightarrow> string \<Rightarrow> gsys \<Rightarrow> gexn option \<times> gsys"
    and enforce :: "genv \<Rightarrow> string \<Rightarrow> gsys \<Rightarrow> gexn option \<times> gsys"
    and enforce_list :: "genv \<Rightarrow> string list \<Rightarrow> bool \<Rightarrow> gsys \<Rightarrow> bool \<times> gsys"
  assumes approve_keeps: "approve e f h s = (b, s') \<Longrightarrow> f \<in> set IMMUTABLE_FILES \<Longrightarrow>
        same_files s s' \<and> gs_state s' = gs_state s \<and> accepts key s s'"
    and approve_signed: "approve e f h s = (True, s') \<Longrightarrow> f \<in> set IMMUTABLE_FILES \<Longrightarrow>
        \<exists>name d sig. (name, TokenData (JObj d)) \<in> set (gs_approvals s) \<and> json_get d ''target_file'' JNull = JStr f \<and>
          signed_token key (ge_now e) d sig \<and> json_get d ''approved_content_hash'' (JStr []) = hash_json h"
    and update_approved: "update e f (Some (sha256_hex c)) t = (x, s') \<Longrightarrow> gs_core t f = Plain c \<Longrightarrow> same_files s t \<Longrightarrow>
        gs_state t = gs_state s \<Longrightarrow> accepts key s t \<Longrightarrow> (name, TokenData (JObj d)) \<in> set (gs_approvals s) \<Longrightarrow>
        json_get d ''target_file'' JNull = JStr f \<Longrightarrow> signed_token key now d sig \<Longrightarrow>
        json_get d ''approved_content_hash'' (JStr []) = JStr (sha256_hex c) \<Longrightarrow> file_effect key now s s' f"
    and update_unreadable: "get_file_hash_safe (gs_core s f) = Inr None \<Longrightarrow> update e f h s = (x, s') \<Longrightarrow> s' = s"
    and cmp_eq: "cmp e f s =
       (if \<not> node_exists (gs_snap s f) then (None, s)
        else case (get_file_hash_safe (gs_core s f), get_file_hash_safe (gs_snap s f)) of
            (Inr src_hash, Inr snap_hash) \<Rightarrow>
              (if src_hash = snap_hash then (None, s)
               else case approve e f src_hash s of
                   (True, s1) \<Rightarrow>
                     (case update e f src_hash s1 of
                        (None, s2) \<Rightarrow> (None, log_event (EvAuthorizedChange f) s2)
                      | r \<Rightarrow> r)
                 | (False, s1) \<Rightarrow>
                     (let s2 = log_event (EvViolationModify f) s1
                      in case safe_atomic_copy (gs_snap s2 f) snap_hash (ge_write_core e f 0) of
                           Inl x \<Rightarrow> (Some x, s2)
                         | Inr bs \<Rightarrow> (None, log_event (EvRollback f) (s2\<lparr>gs_core := (gs_core s2)(f := Plain bs)\<rparr>))))
          | _ \<Rightarrow> (None, lock_with (EvPermission f) s))"
    and enforce_eq: "enforce e f s =
       (case gs_core s f of
          SymLink _ \<Rightarrow>
            (case restore_from_snapshot e f 0 (log_event (EvViolationLink f) s) of
               (Some NotFoundErr, s1) \<Rightarrow> restore_from_snapshot e f 1 (log_event (EvViolationDelete f) s1)
             | (Some PermErr, s1) \<Rightarrow> (None, lock_with (EvPermission f) s1)
             | (Some OsErr, s1) \<Rightarrow> (None, lock_with (EvOsError f) s1)
             | r \<Rightarrow> r)
        | Absent \<Rightarrow> restore_from_snapshot e f 0 (log_event (EvViolationDelete f) s)
        | NoSearch \<Rightarrow> (None, lock_with (EvPermission f) s)
        | LstatFails \<Rightarrow> (None, lock_with (EvOsError f) s)
        | _ \<Rightarrow> cmp e f s)"
    and enforce_list_Nil: "enforce_list e [] he s = (he, s)"
    and enforce_list_Cons: "enforce_list e (f # fs) he s =
       (case enforce e f s of
          (None, s1) \<Rightarrow> enforce_list e fs he s1
        | (Some _, s1) \<Rightarrow> enforce_list e fs True (log_event (EvPerFileError f) s1))"
begin

lemma compare_effect:
  assumes "cmp e f s = (x, s')" and "f \<in> set IMMUTABLE_FILES"
    and "gs_core s f \<noteq> LstatFails"
  shows "file_effect key (ge_now e) s s' f"
proof (cases "node_exists (gs_snap s f) \<and> (\<exists>a b. get_file_hash_safe (gs_core s f) = Inr a \<and> get_file_hash_safe (gs_snap s f) = Inr b \<and> a \<noteq> b)")
  case False
  then have "s' = s \<or> s' = lock_with (EvPermission f) s"
    using assms(1) by (auto simp: cmp_eq split: if_splits sum.splits)
  then show ?thesis by auto
next
  case True
  then obtain a b where h: "get_file_hash_safe (gs_core s f) = Inr a" "get_file_hash_safe (gs_snap s f) = Inr b" "a \<noteq> b"
    and ex: "node_exists (gs_snap s f)" by blast
  obtain ok t where tok: "approve e f a s = (ok, t)"
    by (cases "approve e f a s")
  have t: "gs_state t = gs_state s" "same_files s t" "accepts key s t" using approve_keeps [OF tok assms(2)] by simp_all
  have same: "gs_core t = gs_core s" "gs_snap t = gs_snap s" using t(2) by (simp_all add: same_files_def)
  show ?thesis
  proof (cases ok)
    case True
    obtain r u where upd: "update e f a t = (r, u)"
      by (cases "update e f a t")
    have s': "s' = u \<or> s' = log_event (EvAuthorizedChange f) u"
      using assms(1) h ex tok True upd by (auto simp: cmp_eq split: option.splits)
    have "file_effect key (ge_now e) s u f"
    proof (cases a)
      case None
      with h(1) have "u = t"
        using upd update_unreadable same by simp
      then show ?thesis using file_effect_tokens [OF t(2,1,3)] by simp
    next
      case (Some d)
      with h(1) obtain c where c: "gs_core s f = Plain c" "d = sha256_hex c" using hash_of_plain by blast
      from approve_signed [of e f a s t] tok True assms(2) obtain name td sig where td: "(name, TokenData (JObj td)) \<in> set (gs_approvals s)"
        "json_get td ''target_file'' JNull = JStr f" "signed_token key (ge_now e) td sig"
        "json_get td ''approved_content_hash'' (JStr []) = JStr (sha256_hex c)"
        using Some c(2) by auto
      show ?thesis
        by (rule update_approved [OF _ _ t(2,1,3) td]) (use upd Some c same in simp_all)
    qed
    then show ?thesis using s' by auto
  next
    case False
    let ?u = "log_event (EvViolationModify f) t"
    have core_ok: "gs_core s f \<notin> {NoSearch, LstatFails, NoRead}"
      using h(1) assms(3) by (auto simp: get_file_hash_safe_def)
    show ?thesis
    proof (cases "safe_atomic_copy (gs_snap t f) b (ge_write_core e f 0)")
      case (Inl y)
      then have "s' = ?u" using assms(1) h ex tok False by (auto simp: cmp_eq)
      then show ?thesis using file_effect_tokens [OF t(2,1,3)] by simp
    next
      case (Inr bs)
      then have s': "s' = log_event (EvRollback f) (?u\<lparr>gs_core := (gs_core ?u)(f := Plain bs)\<rparr>)"
        using assms(1) h ex tok False by (auto simp: cmp_eq)
      from safe_copy_Inr [OF Inr] h(2) same obtain c where c: "gs_snap t f = Plain c" "bs = take MAX_COPY_BYTES c"
        "sha256_hex (take MAX_COPY_BYTES c) = sha256_hex c" by auto
      have "file_effect key (ge_now e) s (?u\<lparr>gs_core := (gs_core ?u)(f := Plain (take MAX_COPY_BYTES c))\<rparr>) f"
        by (rule file_effect_core) (use c t core_ok same in auto)
      then show ?thesis unfolding s' c(2) by simp
    qed
  qed
qed

lemma enforce_effect:
  assumes "enforce e f s = (x, s')" and "f \<in> set IMMUTABLE_FILES"
  shows "file_effect key (ge_now e) s s' f"
proof (cases "gs_core s f")
  case (SymLink t)
  let ?s = "log_event (EvViolationLink f) s"
  obtain r u where r: "restore_from_snapshot e f 0 ?s = (r, u)" by (cases "restore_from_snapshot e f 0 ?s")
  have u: "file_effect key (ge_now e) s u f" using restore_effect [OF r] SymLink by simp
  show ?thesis
  proof (cases "r = Some NotFoundErr")
    case True
    with r have "u = ?s" using restore_raises by blast
    then show ?thesis
      using assms(1) SymLink r True restore_effect [of e f 1 "log_event (EvViolationDelete f) u" x s' key "ge_now e"]
      by (simp add: enforce_eq)
  next
    case False
    then have "s' = u \<or> (\<exists>ev. s' = lock_with ev u)"
      using assms(1) SymLink r by (auto simp: enforce_eq split: option.splits gexn.splits)
    then show ?thesis using u by (auto intro: file_effect_lock)
  qed
qed (use assms compare_effect [of e f s x s'] restore_effect [of e f 0 "log_event (EvViolationDelete f) s" x s' key "ge_now e"]
     in \<open>auto simp: enforce_eq\<close>)

lemma enforce_list_effect:
  assumes "enforce_list e fs he s = (he', s')" and "distinct fs" and "set fs \<subseteq> set IMMUTABLE_FILES"
  shows "files_effect key (ge_now e) s s' (set fs)"
  using assms
proof (induction fs arbitrary: he s)
  case Nil
  then show ?case by (simp add: files_effect_def enforce_list_Nil)
next
  case (Cons f fs)
  obtain x t where f: "enforce e f s = (x, t)" by (cases "enforce e f s")
  have t: "file_effect key (ge_now e) s t f" by (rule enforce_effect [OF f]) (use Cons.prems in simp)
  show ?case
  proof (cases x)
    case None
    have "files_effect key (ge_now e) t s' (set fs)"
      by (rule Cons.IH [of he]) (use Cons.prems f None in \<open>simp_all add: enforce_list_Cons\<close>)
    from files_effect_insert [OF t this] show ?thesis using Cons.prems by simp
  next
    case (Some y)
    have "files_effect key (ge_now e) (log_event (EvPerFileError f) t) s' (set fs)"
      by (rule Cons.IH [of True]) (use Cons.prems f Some in \<open>simp_all add: enforce_list_Cons\<close>)
    then have "files_effect key (ge_now e) t s' (set fs)" by simp
    from files_effect_insert [OF t this] show ?thesis using Cons.prems by simp
  qed
qed

end

interpretation v24: enforcement key "get_valid_approval_token key" "update_snapshot_and_manifest key"
  "compare_with_snapshot key" "check_and_enforce_file key" "enforce_files key" for key
proof unfold_locales
  show "s' = s" if "get_file_hash_safe (gs_core s f) = Inr None" "update_snapshot_and_manifest key e f h s = (x, s')" for s f e h x s'
    using that no_hash_no_copy [OF that(1)] by (auto simp: update_snapshot_and_manifest_def)
next
  show "\<exists>name d sig. (name, TokenData (JObj d)) \<in> set (gs_approvals s) \<and> json_get d ''target_file'' JNull = JStr f \<and>
      signed_token key (ge_now e) d sig \<and> json_get d ''approved_content_hash'' (JStr []) = hash_json h"
    if "get_valid_approval_token key e f h s = (True, s')" "f \<in> set IMMUTABLE_FILES" for e f h s s'
    by (rule approval_facts(4) [OF that]) simp
qed (auto simp: compare_with_snapshot_def check_and_enforce_file_def dest: approval_facts intro: update_effect)

lemma distinct_immutable [simp]: "distinct IMMUTABLE_FILES"
  by (simp add: IMMUTABLE_FILES_def)

lemma verify_manifest_True:
  assumes "verify_manifest key s = (True, s')"
  shows "same_files s (s'\<lparr>gs_expected := gs_expected s\<rparr>) \<and> gs_state s' = gs_state s \<and> gs_consumed s' = gs_consumed s \<and>
     gs_accepted s' = gs_accepted s \<and> gs_approvals s' = gs_approvals s"
  using assms
  by (auto simp: verify_manifest_def same_files_def Let_def split: gjson.splits json.splits option.splits bool.splits sum.splits)

lemma verify_manifest_False:
  assumes "verify_manifest key s = (False, s')"
  shows "gs_state s' \<in> {UNINITIALIZED, EMERGENCY_LOCK} \<and> gs_core s' = gs_core s \<and> gs_snap s' = gs_snap s \<and>
     gs_consumed s' = gs_consumed s \<and> gs_accepted s' = gs_accepted s"
  using assms
  by (auto simp: verify_manifest_def Let_def split: gjson.splits json.splits option.splits bool.splits sum.splits)

lemma self_integrity_True: "verify_guardian_self_integrity s = (True, s') \<Longrightarrow>
   s' = s \<and> (\<exists>h. get_file_hash_safe (gs_script s) = Inr h \<and> hash_json h = gs_expected s \<and> truthy (gs_expected s))"
  by (auto simp: verify_guardian_self_integrity_def split: if_splits sum.splits)

lemma self_integrity_False: "verify_guardian_self_integrity s = (False, s') \<Longrightarrow> \<exists>ev. s' = lock_with ev s"
  by (auto simp: verify_guardian_self_integrity_def split: if_splits sum.splits)

lemma unlock_step_facts:
  assumes "unlock_step key e s = (b, s')"
  shows "same_files s s' \<and> accepts key s s' \<and> (if b then gs_state s' \<noteq> EMERGENCY_LOCK else gs_state s' = EMERGENCY_LOCK) \<and>
     (gs_state s \<noteq> EMERGENCY_LOCK \<longrightarrow> s' = s) \<and> (gs_state s' = gs_state s \<or> gs_state s' = STARTING)"
proof (cases b)
  case True
  then show ?thesis
    using assms unlock_tokens_True [of key e "glob_json ''UNLOCK-'' s" s s']
    by (auto simp: unlock_step_def check_unlock_token_def split: if_splits)
next
  case False
  then show ?thesis
    using assms unlock_tokens_False [of key e "glob_json ''UNLOCK-'' s" s s'] accepts_same [of s' s key]
    by (auto simp: unlock_step_def check_unlock_token_def split: if_splits)
qed

lemma cycle_cases:
  assumes "check_and_enforce_all key e s = (b, s')"
  obtains (Locked) "unlock_step key e s = (False, s')" "\<not> b"
  | (BadManifest) s1 where "unlock_step key e s = (True, s1)" "verify_manifest key s1 = (False, s')" "\<not> b"
  | (BadScript) s1 s2 where "unlock_step key e s = (True, s1)" "verify_manifest key s1 = (True, s2)"
      "verify_guardian_self_integrity s2 = (False, s')" "\<not> b"
  | (Enforced) s1 s2 he s4 where "unlock_step key e s = (True, s1)" "verify_manifest key s1 = (True, s2)"
      "verify_guardian_self_integrity s2 = (True, s2)" "enforce_files key e IMMUTABLE_FILES False s2 = (he, s4)" "b"
      "s' = (if \<not> he \<and> gs_state s4 \<notin> {EMERGENCY_LOCK, UNINITIALIZED} then s4\<lparr>gs_state := TRUSTED\<rparr> else s4)"
proof -
  obtain b1 s1 where u: "unlock_step key e s = (b1, s1)" by (cases "unlock_step key e s")
  obtain b2 s2 where m: "verify_manifest key s1 = (b2, s2)" by (cases "verify_manifest key s1")
  obtain b3 s3 where i: "verify_guardian_self_integrity s2 = (b3, s3)" by (cases "verify_guardian_self_integrity s2")
  obtain he s4 where f: "enforce_files key e IMMUTABLE_FILES False s3 = (he, s4)"
    by (cases "enforce_files key e IMMUTABLE_FILES False s3")
  note c = assms [unfolded check_and_enforce_all_def u prod.case]
  show ?thesis
  proof (cases b1)
    case False
    then show ?thesis using c u Locked by simp
  next
    case b1: True
    show ?thesis
    proof (cases b2)
      case False
      then show ?thesis using c u m b1 BadManifest by simp
    next
      case b2: True
      show ?thesis
      proof (cases b3)
        case False
        then show ?thesis using c u m i b1 b2 BadScript by simp
      next
        case True
        with i self_integrity_True [of s2 s3] have "s3 = s2" by simp
        then show ?thesis using c u m i f b1 b2 True Enforced by simp
      qed
    qed
  qed
qed

lemma files_effect_before:
  assumes "files_effect key now t u F" and "gs_core t = gs_core s" "gs_snap t = gs_snap s" "set (gs_approvals t) \<subseteq> set (gs_approvals s)"
  shows "\<forall>f \<in> F. core_effect s u f \<and> snap_effect key now s u f"
  using assms snap_effect_from by (auto simp: files_effect_def core_effect_def)

lemma cycle_effect:
  assumes "check_and_enforce_all key e s = (b, s')"
  shows "\<forall>f \<in> set IMMUTABLE_FILES. core_effect s s' f \<and> snap_effect key (ge_now e) s s' f" and "accepts key s s'"
proof -
  have "(\<forall>f \<in> set IMMUTABLE_FILES. core_effect s s' f \<and> snap_effect key (ge_now e) s s' f) \<and> accepts key s s'"
    using assms
  proof (cases rule: cycle_cases)
    case Locked
    then show ?thesis using unlock_step_facts [OF Locked(1)] by (simp add: core_effect_def snap_effect_def same_files_def)
  next
    case (BadManifest s1)
    then show ?thesis
      using unlock_step_facts [OF BadManifest(1)] verify_manifest_False [OF BadManifest(2)]
        accepts_trans [of key s s1 s'] accepts_same [of s' s1 key]
      by (simp add: core_effect_def snap_effect_def same_files_def)
  next
    case (BadScript s1 s2)
    then show ?thesis
      using unlock_step_facts [OF BadScript(1)] verify_manifest_True [OF BadScript(2)] self_integrity_False [OF BadScript(3)]
        accepts_trans [of key s s1 s'] accepts_same [of s' s1 key]
      by (auto simp: core_effect_def snap_effect_def same_files_def)
  next
    case (Enforced s1 s2 he s4)
    note u = unlock_step_facts [OF Enforced(1)] and m = verify_manifest_True [OF Enforced(2)]
    have f: "files_effect key (ge_now e) s2 s4 (set IMMUTABLE_FILES)"
      by (rule v24.enforce_list_effect [OF Enforced(4)]) simp_all
    have same: "gs_core s2 = gs_core s" "gs_snap s2 = gs_snap s" "set (gs_approvals s2) \<subseteq> set (gs_approvals s)"
      using u m by (auto simp: same_files_def)
    have "accepts key s s2" using u m accepts_trans [of key s s1 s2] accepts_same [of s2 s1 key] by simp
    then have "accepts key s s4" using f accepts_trans unfolding files_effect_def by blast
    then have "accepts key s s'" unfolding Enforced(6) by simp
    moreover have "gs_core s' = gs_core s4" "gs_snap s' = gs_snap s4" unfolding Enforced(6) by simp_all
    ultimately show ?thesis using files_effect_before [OF f same] by (simp add: core_effect_def snap_effect_def)
  qed
  then show "\<forall>f \<in> set IMMUTABLE_FILES. core_effect s s' f \<and> snap_effect key (ge_now e) s s' f" and "accepts key s s'" by blast+
qed

lemma accepts_after_unlock:
  assumes "check_and_enforce_all key e s = (b, s')" and "unlock_step key e s = (ok, t)" and "ok"
  shows "accepts key t s'"
  using assms(1)
proof (cases rule: cycle_cases)
  case Locked
  with assms(2,3) show ?thesis by simp
next
  case (BadManifest s1)
  with assms(2) have "s1 = t" by simp
  then show ?thesis using verify_manifest_False [OF BadManifest(2)] accepts_same by simp
next
  case (BadScript s1 s2)
  with assms(2) have "s1 = t" by simp
  then show ?thesis
    using verify_manifest_True [OF BadScript(2)] self_integrity_False [OF BadScript(3)] accepts_same [of s2 t key] by auto
next
  case (Enforced s1 s2 he s4)
  with assms(2) have "s1 = t" by simp
  then have "accepts key t s2" using verify_manifest_True [OF Enforced(2)] accepts_same by simp
  moreover have "accepts key s2 s4" using v24.enforce_list_effect [OF Enforced(4)] by (simp add: files_effect_def)
  ultimately have "accepts key t s4" by (rule accepts_trans)
  then show ?thesis unfolding Enforced(6) by simp
qed

section \<open>Trust\<close>

definition manifest_valid :: "bytes \<Rightarrow> gsys \<Rightarrow> bool" where
  "manifest_valid key s \<longleftrightarrow>
     (\<exists>m sd fs. gs_manifest s = JValue m \<and> gs_manifest_sig s = JValue (JObj sd) \<and>
        json_get sd ''signature'' (JStr []) = JStr (sign_payload key m) \<and>
        read_guardian_hash m = Inr (gs_expected s) \<and> manifest_files m = Some fs \<and> check_snapshots (gs_snap s) fs = None)"

text \<open>A core file that the guardian finds in order: present, and equal to its snapshot where there is one.\<close>

definition settled :: "gsys \<Rightarrow> string \<Rightarrow> bool" where
  "settled s f \<longleftrightarrow>
     gs_core s f \<in> {NoRead, NoHash} \<union> range Plain \<and>
     (node_exists (gs_snap s f) \<longrightarrow>
        (\<exists>h. get_file_hash_safe (gs_core s f) = Inr h \<and> get_file_hash_safe (gs_snap s f) = Inr h))"

definition trusted_files :: "bytes \<Rightarrow> gsys \<Rightarrow> bool" where
  "trusted_files key s \<longleftrightarrow>
     manifest_valid key s \<and>
     (\<exists>h. get_file_hash_safe (gs_script s) = Inr h \<and> hash_json h = gs_expected s) \<and>
     list_all (settled s) IMMUTABLE_FILES"

lemma guardian_hash_truthy: "read_guardian_hash m = Inr h \<Longrightarrow> truthy h"
  by (cases m) (auto simp: Let_def split: if_splits)

lemma manifest_verified:
  assumes "verify_manifest key s = (True, s')"
  shows "manifest_valid key s'"
  using assms
  by (auto simp: verify_manifest_def manifest_valid_def Let_def dest!: signature_holds
      split: gjson.splits json.splits option.splits bool.splits sum.splits)

lemma valid_manifest_verifies:
  assumes "manifest_valid key s"
  shows "verify_manifest key s = (True, s)"
proof -
  from assms obtain m sd fs where m: "gs_manifest s = JValue m" "gs_manifest_sig s = JValue (JObj sd)"
    "json_get sd ''signature'' (JStr []) = JStr (sign_payload key m)" "read_guardian_hash m = Inr (gs_expected s)"
    "manifest_files m = Some fs" "check_snapshots (gs_snap s) fs = None"
    unfolding manifest_valid_def by blast
  then show ?thesis by (simp add: verify_manifest_def)
qed

lemma manifest_valid_fields:
  "manifest_valid key s \<Longrightarrow> gs_manifest s' = gs_manifest s \<Longrightarrow> gs_manifest_sig s' = gs_manifest_sig s \<Longrightarrow>
   gs_expected s' = gs_expected s \<Longrightarrow> gs_snap s' = gs_snap s \<Longrightarrow> manifest_valid key s'"
  by (simp add: manifest_valid_def)

lemma check_own_snapshots: "snapshot_hashes snap fs = Some files \<Longrightarrow> check_snapshots snap files = None"
  by (induction fs arbitrary: files) (auto split: sum.splits option.splits)

text \<open>The manifest written after an approval is one the next cycle accepts.\<close>

lemma updated_manifest_valid:
  assumes "update_snapshot_and_manifest key e f h s = (None, s')" and "truthy (gs_expected s)"
  shows "manifest_valid key s'"
proof -
  from assms obtain bs files where
    "snapshot_hashes ((gs_snap s)(f := Plain bs)) IMMUTABLE_FILES = Some files"
    and s': "s' = log_event (EvManifestUpdated f)
      (s\<lparr>gs_snap := (gs_snap s)(f := Plain bs),
         gs_manifest := JValue (manifest_payload (py_int (ge_now e)) files (gs_expected s)),
         gs_manifest_sig := JValue (JObj [(''signature'', JStr (sign_payload key (manifest_payload (py_int (ge_now e)) files (gs_expected s))))])\<rparr>)"
    by (auto simp: update_snapshot_and_manifest_def Let_def split: sum.splits option.splits manifest_write.splits)
  then have "check_snapshots (gs_snap s') files = None" by (simp add: check_own_snapshots)
  then show ?thesis
    using assms(2) unfolding manifest_valid_def s'
    by (simp add: log_event_def manifest_payload_def json_get_simps json_get_def)
qed

lemma restored_settles:
  assumes "restore_from_snapshot e f k s = (None, s')" and "gs_state s' \<noteq> EMERGENCY_LOCK"
  shows "settled s' f" and "manifest_valid key s \<Longrightarrow> manifest_valid key s'"
proof -
  from assms obtain h bs where h: "get_file_hash_safe (gs_snap s f) = Inr h"
    and c: "safe_atomic_copy (gs_snap s f) h (ge_write_core e f k) = Inr bs"
    and s': "s' = log_event (EvRollback f) (s\<lparr>gs_core := (gs_core s)(f := Plain bs)\<rparr>)"
    by (auto simp: restore_from_snapshot_def split: if_splits sum.splits)
  from safe_copy_Inr [OF c h] obtain d where "gs_snap s f = Plain d" "sha256_hex bs = sha256_hex d" by blast
  then show "settled s' f" unfolding s' settled_def by (simp add: get_file_hash_safe_def)
  show "manifest_valid key s \<Longrightarrow> manifest_valid key s'" unfolding s' by (rule manifest_valid_fields) simp_all
qed

lemma compare_settles:
  assumes "compare_with_snapshot key e f s = (None, s')" and "gs_state s' \<noteq> EMERGENCY_LOCK" and "f \<in> set IMMUTABLE_FILES"
    and "gs_core s f \<in> {NoRead, NoHash} \<union> range Plain" and "manifest_valid key s"
  shows "settled s' f \<and> manifest_valid key s'"
proof (cases "node_exists (gs_snap s f)")
  case False
  then show ?thesis using assms by (simp add: compare_with_snapshot_def settled_def)
next
  case ex: True
  have "\<exists>a b. get_file_hash_safe (gs_core s f) = Inr a \<and> get_file_hash_safe (gs_snap s f) = Inr b"
    using assms(1,2) ex
    by (cases "get_file_hash_safe (gs_core s f)"; cases "get_file_hash_safe (gs_snap s f)") (auto simp: compare_with_snapshot_def)
  then obtain a b where h: "get_file_hash_safe (gs_core s f) = Inr a" "get_file_hash_safe (gs_snap s f) = Inr b" by blast
  show ?thesis
  proof (cases "a = b")
    case True
    then show ?thesis using assms ex h by (simp add: compare_with_snapshot_def settled_def)
  next
    case neq: False
    obtain ok t where tok: "get_valid_approval_token key e f a s = (ok, t)" by (cases "get_valid_approval_token key e f a s")
    note t = approval_facts [OF tok assms(3)]
    have same: "gs_core t = gs_core s" "gs_snap t = gs_snap s" using t(2) by (simp_all add: same_files_def)
    have exp: "truthy (gs_expected t)" using assms(5) t(2) guardian_hash_truthy by (auto simp: manifest_valid_def same_files_def)
    show ?thesis
    proof (cases ok)
      case True
      with assms(1) h ex neq tok obtain u where u: "update_snapshot_and_manifest key e f a t = (None, u)"
        and s': "s' = log_event (EvAuthorizedChange f) u"
        by (auto simp: compare_with_snapshot_def split: prod.splits option.splits)
      from u obtain bs where c: "safe_atomic_copy (gs_core s f) a (ge_write_snap e f) = Inr bs"
        and snap: "gs_snap u = (gs_snap s)(f := Plain bs)" "gs_core u = gs_core s"
        by (auto simp: update_snapshot_and_manifest_def Let_def same split: sum.splits option.splits manifest_write.splits)
      from safe_copy_Inr [OF c h(1)] obtain d where "gs_core s f = Plain d" "sha256_hex bs = sha256_hex d" by blast
      then have "settled u f" unfolding settled_def by (simp add: snap get_file_hash_safe_def)
      moreover have "manifest_valid key u" by (rule updated_manifest_valid [OF u exp])
      ultimately show ?thesis unfolding s' by (auto simp: settled_def intro: manifest_valid_fields)
    next
      case False
      with assms(1) h ex neq tok obtain bs where c: "safe_atomic_copy (gs_snap s f) b (ge_write_core e f 0) = Inr bs"
        and s': "s' = log_event (EvRollback f) ((log_event (EvViolationModify f) t)\<lparr>gs_core := (gs_core s)(f := Plain bs)\<rparr>)"
        by (auto simp: compare_with_snapshot_def same Let_def split: sum.splits)
      from safe_copy_Inr [OF c h(2)] obtain d where "gs_snap s f = Plain d" "sha256_hex bs = sha256_hex d" by blast
      then have "settled s' f" unfolding s' settled_def by (simp add: same get_file_hash_safe_def)
      moreover have "manifest_valid key s'"
        unfolding s' by (rule manifest_valid_fields [OF assms(5)]) (use t(2) in \<open>simp_all add: same_files_def\<close>)
      ultimately show ?thesis by simp
    qed
  qed
qed

lemma enforce_settles:
  assumes "check_and_enforce_file key e f s = (None, s')" and "gs_state s' \<noteq> EMERGENCY_LOCK" and "f \<in> set IMMUTABLE_FILES"
    and "manifest_valid key s"
  shows "settled s' f \<and> manifest_valid key s'"
proof (cases "gs_core s f")
  case (SymLink t)
  let ?s = "log_event (EvViolationLink f) s"
  have v: "manifest_valid key ?s" by (rule manifest_valid_fields [OF assms(4)]) simp_all
  obtain r u where r: "restore_from_snapshot e f 0 ?s = (r, u)" by (cases "restore_from_snapshot e f 0 ?s")
  show ?thesis
  proof (cases r)
    case None
    with r have r': "restore_from_snapshot e f 0 ?s = (None, u)" by simp
    with assms(1) SymLink have "s' = u" by (simp add: check_and_enforce_file_def)
    then show ?thesis using restored_settles [OF r'] assms(2) v by simp
  next
    case (Some x)
    with r have u: "u = ?s" using restore_raises by blast
    have "x = NotFoundErr" using assms(1,2) SymLink r Some by (cases x) (auto simp: check_and_enforce_file_def)
    then have "restore_from_snapshot e f 1 (log_event (EvViolationDelete f) ?s) = (None, s')"
      using assms(1) SymLink r Some u by (simp add: check_and_enforce_file_def)
    moreover have "manifest_valid key (log_event (EvViolationDelete f) ?s)" by (rule manifest_valid_fields [OF v]) simp_all
    ultimately show ?thesis using restored_settles assms(2) by blast
  qed
next
  case Absent
  have "manifest_valid key (log_event (EvViolationDelete f) s)" by (rule manifest_valid_fields [OF assms(4)]) simp_all
  then show ?thesis using restored_settles [OF _ assms(2)] assms(1) Absent by (simp add: check_and_enforce_file_def)
qed (use assms compare_settles [of key e f s s'] in \<open>auto simp: check_and_enforce_file_def\<close>)

lemma settled_elsewhere: "elsewhere s s' f \<Longrightarrow> g \<noteq> f \<Longrightarrow> settled s g \<Longrightarrow> settled s' g"
  by (simp add: elsewhere_def settled_def)

lemma enforce_files_flag: "enforce_files key e fs True s = (he, s') \<Longrightarrow> he"
  by (induction fs arbitrary: s) (auto split: prod.splits option.splits)

lemma enforce_files_settle:
  assumes "enforce_files key e fs False s = (False, s')" and "gs_state s' \<noteq> EMERGENCY_LOCK"
    and "set fs \<subseteq> set IMMUTABLE_FILES" and "distinct fs" and "manifest_valid key s"
  shows "manifest_valid key s' \<and> (\<forall>f \<in> set fs. settled s' f) \<and> gs_expected s' = gs_expected s \<and> gs_script s' = gs_script s"
  using assms
proof (induction fs arbitrary: s)
  case (Cons f fs)
  obtain x t where f: "check_and_enforce_file key e f s = (x, t)" by (cases "check_and_enforce_file key e f s")
  have x: "x = None" using Cons.prems(1) f enforce_files_flag by (cases x) fastforce+
  then have f': "check_and_enforce_file key e f s = (None, t)" using f by simp
  have rest: "enforce_files key e fs False t = (False, s')" using Cons.prems(1) f' by simp
  have d: "distinct fs" "set fs \<subseteq> set IMMUTABLE_FILES" "f \<notin> set fs" "f \<in> set IMMUTABLE_FILES" using Cons.prems by auto
  have eff: "files_effect key (ge_now e) t s' (set fs)" by (rule v24.enforce_list_effect [OF rest d(1,2)])
  have "gs_state t \<noteq> EMERGENCY_LOCK" using eff Cons.prems(2) by (auto simp: files_effect_def)
  from enforce_settles [OF f' this d(4) Cons.prems(5)] have t: "settled t f" "manifest_valid key t" by simp_all
  have "settled s' f" using eff t(1) d(3) by (simp add: files_effect_def settled_def)
  moreover have "gs_expected t = gs_expected s \<and> gs_script t = gs_script s"
    using v24.enforce_effect [OF f' d(4)] by (simp add: file_effect_def elsewhere_def)
  ultimately show ?case using Cons.IH [OF rest Cons.prems(2) d(2,1) t(2)] by simp
qed simp

lemma settled_file_left: "settled s f \<Longrightarrow> check_and_enforce_file key e f s = (None, s)"
  by (auto simp: settled_def check_and_enforce_file_def compare_with_snapshot_def)

lemma settled_files_left: "list_all (settled s) fs \<Longrightarrow> enforce_files key e fs he s = (he, s)"
  by (induction fs) (simp_all add: settled_file_left)

text \<open>A cycle over files in order does nothing but declare them trusted.\<close>

lemma cycle_on_trusted_files:
  assumes "trusted_files key s" and "gs_state s \<notin> {EMERGENCY_LOCK, UNINITIALIZED}"
  shows "check_and_enforce_all key e s = (True, s\<lparr>gs_state := TRUSTED\<rparr>)"
proof -
  from assms(1) obtain h where m: "manifest_valid key s" and f: "list_all (settled s) IMMUTABLE_FILES"
    and h: "get_file_hash_safe (gs_script s) = Inr h" "hash_json h = gs_expected s"
    unfolding trusted_files_def by blast
  from m obtain d where "read_guardian_hash d = Inr (gs_expected s)" unfolding manifest_valid_def by blast
  then have "truthy (gs_expected s)" by (rule guardian_hash_truthy)
  then have i: "verify_guardian_self_integrity s = (True, s)" by (simp add: verify_guardian_self_integrity_def h)
  show ?thesis
    using assms(2)
    by (simp add: check_and_enforce_all_def unlock_step_def valid_manifest_verifies [OF m] i settled_files_left [OF f])
qed

lemma cycle_earns_trust:
  assumes "check_and_enforce_all key e s = (b, s')" and "gs_state s \<noteq> TRUSTED" and "gs_state s' = TRUSTED"
  shows "trusted_files key s' \<and> b"
  using assms(1)
proof (cases rule: cycle_cases)
  case (Enforced s1 s2 he s4)
  have "gs_state s2 \<noteq> TRUSTED"
    using verify_manifest_True [OF Enforced(2)] unlock_step_facts [OF Enforced(1)] assms(2) by auto
  moreover have "gs_state s4 = gs_state s2 \<or> gs_state s4 = EMERGENCY_LOCK"
    using v24.enforce_list_effect [OF Enforced(4)] by (simp add: files_effect_def)
  ultimately have ok: "\<not> he" "gs_state s4 \<noteq> EMERGENCY_LOCK" "s' = s4\<lparr>gs_state := TRUSTED\<rparr>"
    using Enforced(6) assms(3) by (auto split: if_splits)
  have v: "manifest_valid key s2" by (rule manifest_verified [OF Enforced(2)])
  have "manifest_valid key s4 \<and> (\<forall>f \<in> set IMMUTABLE_FILES. settled s4 f) \<and> gs_expected s4 = gs_expected s2 \<and> gs_script s4 = gs_script s2"
    by (rule enforce_files_settle) (use Enforced(4) ok v in simp_all)
  moreover have "\<exists>h. get_file_hash_safe (gs_script s2) = Inr h \<and> hash_json h = gs_expected s2"
    using self_integrity_True [OF Enforced(3)] by blast
  ultimately show ?thesis
    using Enforced(5) by (auto simp: trusted_files_def list_all_iff ok(3) manifest_valid_def settled_def)
next
  case Locked
  then show ?thesis using unlock_step_facts [OF Locked(1)] assms(3) by simp
next
  case (BadManifest s1)
  then show ?thesis using verify_manifest_False [OF BadManifest(2)] assms(3) by simp
next
  case (BadScript s1 s2)
  then show ?thesis using self_integrity_False [OF BadScript(3)] assms(3) by auto
qed

section \<open>Runs\<close>

text \<open>A run interleaves cycles with anything others do to the files and to the process (a restart included), as long as
  the list of consumed signatures is left alone.\<close>

inductive guardian_run :: "bytes \<Rightarrow> gsys \<Rightarrow> gsys \<Rightarrow> bool" for key :: bytes where
  start: "guardian_run key s s"
| cycle: "guardian_run key s t \<Longrightarrow> check_and_enforce_all key e t = (b, u) \<Longrightarrow> guardian_run key s u"
| other: "guardian_run key s t \<Longrightarrow> gs_consumed u = gs_consumed t \<Longrightarrow> gs_accepted u = gs_accepted t \<Longrightarrow> guardian_run key s u"

inductive_cases guardian_runE: "guardian_run key s u"


section \<open>An example\<close>

definition demo_key :: bytes where "demo_key = ''trust root key''"

definition demo_unlock :: "(string \<times> json) list" where
  "demo_unlock = [(''action'', JStr ''UNLOCK_EMERGENCY_LOCK''), (''expires_at'', JInt 200)]"

definition demo_signed_unlock :: "(string \<times> json) list" where
  "demo_signed_unlock = demo_unlock @ [(''signature'', JStr (sign_payload demo_key (JObj demo_unlock)))]"

definition demo_listed :: json where
  "demo_listed = manifest_payload 50 (map (\<lambda>f. (f, JStr (sha256_hex ''text''))) IMMUTABLE_FILES) (JStr (sha256_hex ''script''))"

definition demo_locked :: gsys where
  "demo_locked =
     \<lparr>gs_state = EMERGENCY_LOCK, gs_events = [], gs_memory = [], gs_expected = JNull, gs_accepted = [],
      gs_core = (\<lambda>f. if f = ''01_Core.md'' then SymLink True else Plain ''text''), gs_snap = (\<lambda>f. Plain ''text''),
      gs_manifest = JValue demo_listed,
      gs_manifest_sig = JValue (JObj [(''signature'', JStr (sign_payload demo_key demo_listed))]),
      gs_consumed = JAbsent, gs_script = Plain ''script'', gs_approvals_dir = True,
      gs_approvals = [(''UNLOCK-1.json'', TokenData (JObj demo_signed_unlock))]\<rparr>"

definition demo_genv :: genv where
  "demo_genv =
     \<lparr>ge_now = 100, ge_lock = True, ge_store = (\<lambda>_. True), ge_removable = (\<lambda>_. False), ge_write_core = (\<lambda>_ _. None),
      ge_write_snap = (\<lambda>_. None), ge_manifest = (\<lambda>_. Written)\<rparr>"

lemma sign_payload_nonempty [simp]: "sign_payload key d \<noteq> []"
proof
  assume "sign_payload key d = []"
  then have "length (sign_payload key d) = 0" by simp
  moreover have "length (hexdigest (sha256 m)) = 64" for m
    using length_sha256_hex [of m] by (simp add: sha256_hex_def)
  ultimately show False by (simp add: sign_payload_def hmac_sha256_def Let_def)
qed

lemma demo_candidate:
  "unlock_verdict demo_key 100 ''UNLOCK-1.json'' (TokenData (JObj demo_signed_unlock)) =
   Candidate (sign_payload demo_key (JObj demo_unlock))"
  by (simp add: unlock_verdict_def demo_signed_unlock_def demo_unlock_def json_get_def Let_def unsigned_part_def)

definition demo_unlocked :: gsys where
  "demo_unlocked = demo_locked
     \<lparr>gs_state := STARTING, gs_events := [EvUnlocked ''UNLOCK-1.json''],
      gs_memory := [JStr (sign_payload demo_key (JObj demo_unlock))],
      gs_consumed := JValue (JArr [JStr (sign_payload demo_key (JObj demo_unlock))]),
      gs_accepted := [sign_payload demo_key (JObj demo_unlock)]\<rparr>"

lemma demo_unlock_step: "unlock_step demo_key demo_genv demo_locked = (True, demo_unlocked)"
  using demo_candidate
  by (simp add: unlock_step_def check_unlock_token_def demo_locked_def glob_json_def starts_with_def ends_with_def
      demo_genv_def try_consume_token_def load_consumed_tokens_def remove_token_def demo_unlocked_def log_event_def Let_def)

definition demo_trusted :: gsys where
  "demo_trusted = demo_unlocked
     \<lparr>gs_state := TRUSTED, gs_expected := JStr (sha256_hex ''script''), gs_core := (\<lambda>f. Plain ''text''),
      gs_events := [EvUnlocked ''UNLOCK-1.json'', EvViolationLink ''01_Core.md'', EvRollback ''01_Core.md'']\<rparr>"

lemma demo_snapshots: "check_snapshots (\<lambda>f. Plain ''text'') (map (\<lambda>f. (f, JStr (sha256_hex ''text''))) fs) = None"
  by (induction fs) (simp_all add: get_file_hash_safe_def)

lemma demo_manifest_ok:
  "verify_manifest demo_key demo_unlocked = (True, demo_unlocked\<lparr>gs_expected := JStr (sha256_hex ''script'')\<rparr>)"
  by (simp add: verify_manifest_def demo_unlocked_def demo_locked_def json_get_def demo_listed_def manifest_payload_def
      demo_snapshots)

lemma demo_cycle: "check_and_enforce_all demo_key demo_genv demo_locked = (True, demo_trusted)"
proof -
  let ?s = "demo_unlocked\<lparr>gs_expected := JStr (sha256_hex ''script'')\<rparr>"
  let ?t = "demo_trusted\<lparr>gs_state := STARTING\<rparr>"
  have i: "verify_guardian_self_integrity ?s = (True, ?s)"
    by (simp add: verify_guardian_self_integrity_def demo_unlocked_def demo_locked_def get_file_hash_safe_def)
  have core: "(\<lambda>f. if f = ''01_Core.md'' then SymLink True else Plain ''text'')(''01_Core.md'' := Plain ''text'') = (\<lambda>f. Plain ''text'')"
    by auto
  have link: "check_and_enforce_file demo_key demo_genv ''01_Core.md'' ?s = (None, ?t)"
    by (simp add: check_and_enforce_file_def restore_from_snapshot_def demo_unlocked_def demo_locked_def demo_genv_def
        demo_trusted_def log_event_def node_exists_def get_file_hash_safe_def safe_atomic_copy_def MAX_COPY_BYTES_def core)
  have set1: "settled ?s ''00_Constitution.md''"
    by (simp add: settled_def demo_unlocked_def demo_locked_def get_file_hash_safe_def)
  have set2: "settled ?t f" for f
    by (simp add: settled_def demo_unlocked_def demo_locked_def demo_trusted_def get_file_hash_safe_def)
  have "enforce_files demo_key demo_genv IMMUTABLE_FILES False ?s = (False, ?t)"
    unfolding IMMUTABLE_FILES_def by (simp add: settled_file_left [OF set1] link settled_file_left [OF set2])
  then show ?thesis
    by (simp add: check_and_enforce_all_def demo_unlock_step demo_manifest_ok i demo_trusted_def)
qed

section \<open>Properties\<close>

text \<open>C11: whatever one cycle of the guardian does, each of the six core files is left as it was or gets the bytes of its
  snapshot (the first 10 MB, with the hash of the whole snapshot), and a core file it may not search or read is never
  written; and each snapshot is left as it was or gets the bytes of its core file, and then a token in the approvals
  directory, signed with the trust-root key and not expired, names this file and the SHA-256 of these bytes.\<close>

theorem core_files_change_only_by_rollback:
  "list_all (\<lambda>f. core_effect s (snd (check_and_enforce_all key e s)) f \<and>
                 snap_effect key (ge_now e) s (snd (check_and_enforce_all key e s)) f) IMMUTABLE_FILES"
  using cycle_effect(1) [of key e s "fst (check_and_enforce_all key e s)" "snd (check_and_enforce_all key e s)"]
  by (simp add: list_all_iff)

text \<open>C12: the emergency lock is left only through an unlock token: a JSON object in an \<open>UNLOCK-*.json\<close> file of the
  approvals directory, not a link, that asks for it, is not expired and carries the key's signature of its other fields;
  the signature was not among the consumed ones before the cycle and is afterwards.\<close>

theorem emergency_lock_needs_a_signed_token:
  assumes "gs_state s = EMERGENCY_LOCK" and "check_and_enforce_all key e s = (b, s')"
    and "gs_state s' \<noteq> EMERGENCY_LOCK"
  shows "\<exists>name d sig. (name, TokenData (JObj d)) \<in> set (glob_json ''UNLOCK-'' s) \<and>
      json_get d ''action'' JNull = JStr ''UNLOCK_EMERGENCY_LOCK'' \<and> signed_token key (ge_now e) d sig \<and>
      JStr sig \<notin> set (load_consumed_tokens (gs_consumed s)) \<and> JStr sig \<in> set (load_consumed_tokens (gs_consumed s'))"
proof -
  obtain ok t where u: "unlock_step key e s = (ok, t)" by (cases "unlock_step key e s")
  have ok: "ok"
  proof (rule ccontr)
    assume "\<not> ok"
    with u have "check_and_enforce_all key e s = (False, t)" by (simp add: check_and_enforce_all_def)
    with assms(2,3) unlock_step_facts [OF u] \<open>\<not> ok\<close> show False by simp
  qed
  with u assms(1) have "unlock_tokens key e (glob_json ''UNLOCK-'' s) s = (True, t)"
    by (auto simp: unlock_step_def check_unlock_token_def split: if_splits)
  from unlock_tokens_True [OF this] obtain name d sig where d:
    "(name, TokenData (JObj d)) \<in> set (glob_json ''UNLOCK-'' s)"
    "json_get d ''action'' JNull = JStr ''UNLOCK_EMERGENCY_LOCK''" "signed_token key (ge_now e) d sig"
    "JStr sig \<notin> set (load_consumed_tokens (gs_consumed s))" "JStr sig \<in> set (load_consumed_tokens (gs_consumed t))"
    by blast
  have "accepts key t s'" using assms(2) u ok by (rule accepts_after_unlock)
  then have "JStr sig \<in> set (load_consumed_tokens (gs_consumed s'))" using d(5) unfolding accepts_def by auto
  with d show ?thesis by blast
qed

theorem emergency_lock_needs_a_signed_token_witness:
  "\<exists>name d sig. (name, TokenData (JObj d)) \<in> set (glob_json ''UNLOCK-'' demo_locked) \<and>
      json_get d ''action'' JNull = JStr ''UNLOCK_EMERGENCY_LOCK'' \<and> signed_token demo_key (ge_now demo_genv) d sig \<and>
      JStr sig \<notin> set (load_consumed_tokens (gs_consumed demo_locked)) \<and>
      JStr sig \<in> set (load_consumed_tokens (gs_consumed demo_trusted))"
  by (rule emergency_lock_needs_a_signed_token [OF _ demo_cycle])
     (simp_all add: demo_locked_def demo_trusted_def)



text \<open>C14: the state becomes \<open>TRUSTED\<close> only when the whole chain holds: the manifest carries the key's signature and the
  hashes of the snapshots, the hash it gives for the guardian is that of the running script, and every core file is
  present and equal to its snapshot where it has one. And such a state is stable: the next cycle on it, in any
  environment, finds everything in order and changes nothing, also when the manifest was just rewritten for an approval.\<close>

theorem trust_is_earned_and_kept:
  assumes "check_and_enforce_all key e s = (b, s')" and "gs_state s \<noteq> TRUSTED" and "gs_state s' = TRUSTED"
  shows "trusted_files key s' \<and> check_and_enforce_all key e' s' = (True, s')"
proof -
  have t: "trusted_files key s'" using cycle_earns_trust [OF assms] by blast
  have "s'\<lparr>gs_state := TRUSTED\<rparr> = s'" using assms(3) by simp
  then show ?thesis using cycle_on_trusted_files [OF t] assms(3) t by simp
qed

theorem trust_is_earned_and_kept_witness:
  "trusted_files demo_key demo_trusted \<and> check_and_enforce_all demo_key demo_genv demo_trusted = (True, demo_trusted)"
  by (rule trust_is_earned_and_kept [OF demo_cycle]) (simp_all add: demo_locked_def demo_trusted_def)

section \<open>Findings\<close>

text \<open>After a cycle without a manifest the state is \<open>UNINITIALIZED\<close>, and it never becomes \<open>TRUSTED\<close> again, whatever
  manifest is installed and however clean the files are.\<close>

lemma uninitialized_never_trusted:
  assumes "gs_state s = UNINITIALIZED" and "check_and_enforce_all key e s = (b, s')"
  shows "gs_state s' \<in> {UNINITIALIZED, EMERGENCY_LOCK}"
  using assms(2)
proof (cases rule: cycle_cases)
  case (Enforced s1 s2 he s4)
  have "s1 = s" using unlock_step_facts [OF Enforced(1)] assms(1) by simp
  then have "gs_state s2 = UNINITIALIZED" using verify_manifest_True [OF Enforced(2)] assms(1) by simp
  moreover have "gs_state s4 = gs_state s2 \<or> gs_state s4 = EMERGENCY_LOCK"
    using v24.enforce_list_effect [OF Enforced(4)] by (simp add: files_effect_def)
  ultimately show ?thesis unfolding Enforced(6) by auto
next
  case Locked
  then show ?thesis using unlock_step_facts [OF Locked(1)] by simp
next
  case (BadManifest s1)
  then show ?thesis using verify_manifest_False [OF BadManifest(2)] by simp
next
  case (BadScript s1 s2)
  then show ?thesis using self_integrity_False [OF BadScript(3)] by auto
qed

text \<open>Replay protection rests on the file alone: with the signature still in the memory of the process, a missing or
  unreadable list lets the same token unlock again.\<close>

lemma lost_list_forgets_tokens:
  "JStr (sign_payload demo_key (JObj demo_unlock)) \<in> set (gs_memory (demo_trusted\<lparr>gs_state := EMERGENCY_LOCK, gs_consumed := JUnreadable\<rparr>)) \<and>
   fst (check_unlock_token demo_key demo_genv (demo_trusted\<lparr>gs_state := EMERGENCY_LOCK, gs_consumed := JUnreadable\<rparr>))"
  using demo_candidate
  by (simp add: check_unlock_token_def demo_trusted_def demo_unlocked_def demo_locked_def glob_json_def starts_with_def
      ends_with_def demo_genv_def try_consume_token_def load_consumed_tokens_def Let_def)

text \<open>A trusted guardian whose restoring of a file fails keeps calling itself trusted.\<close>

lemma failed_rollback_stays_trusted:
  "gs_state (snd (enforce_files demo_key (demo_genv\<lparr>ge_write_core := \<lambda>_ _. Some OsErr\<rparr>) [''01_Core.md''] False
     (demo_trusted\<lparr>gs_core := \<lambda>_. Absent\<rparr>))) = TRUSTED"
  by (simp add: check_and_enforce_file_def restore_from_snapshot_def demo_trusted_def demo_unlocked_def demo_locked_def
      demo_genv_def node_exists_def get_file_hash_safe_def safe_atomic_copy_def MAX_COPY_BYTES_def)

text \<open>A core file without a snapshot passes with any content.\<close>

lemma unlisted_core_file_is_not_checked:
  "gs_snap s f = Absent \<Longrightarrow> gs_core s f = Plain bs \<Longrightarrow> check_and_enforce_file key e f s = (None, s)"
  by (simp add: check_and_enforce_file_def compare_with_snapshot_def node_exists_def)

text \<open>When the second rename of an approved update fails, the manifest on disk is new and its signature the old one; the
  next cycle locks.\<close>

lemma half_written_manifest_locks:
  assumes "gs_manifest s = JValue m" and "gs_manifest_sig s = JValue (JObj [(''signature'', JStr (sign_payload key old))])"
    and "sign_payload key m \<noteq> sign_payload key old" and "gs_state s \<noteq> EMERGENCY_LOCK"
  shows "gs_state (snd (check_and_enforce_all key e s)) = EMERGENCY_LOCK"
proof -
  have "verify_signature key m (JStr (sign_payload key old)) = Some False"
    using assms(3) by (simp add: verify_signature_def sign_payload_def compare_hexdigest)
  then have "verify_manifest key s = (False, lock_with EvManifestSignatureInvalid s)"
    by (simp add: verify_manifest_def assms(1,2) json_get_def)
  then show ?thesis by (simp add: check_and_enforce_all_def unlock_step_def assms(4))
qed

end
