(* ===== verification/Compactor.thy ===== *)
theory Compactor
  imports RuntimeControl McpBridge "HOL-Library.Multiset"
begin

text \<open>
  The compactor of tool output (\<open>src/hermes_core/runtime_compactor.py\<close>): text longer than the budget is
  folded to its two ends around a banner, and the whole of it is spooled, redacted, to a private file in a
  directory kept under a quota. Text is a list of code points.

  The spool directory is given by its entries that match \<open>spool_*.txt\<close>, in the order the directory
  lists them, with the answers of the file system (kind, size, time, whether a removal succeeds) as
  parameters. Taking the quota lock is not modelled: its failure is ignored by the code and it changes
  nothing for one process. The systems meant are POSIX ones (\<open>fcntl\<close>, \<open>getuid\<close>, \<open>O_NOFOLLOW\<close> exist).
\<close>

section \<open>Slices and numbers\<close>

text \<open>\<open>xs[:k]\<close> and \<open>xs[k:]\<close> for any integer.\<close>

definition slice_to :: "int \<Rightarrow> 'a list \<Rightarrow> 'a list" where
  "slice_to k xs = (if 0 \<le> k then take (nat k) xs else take (length xs - nat (- k)) xs)"

definition slice_from :: "int \<Rightarrow> 'a list \<Rightarrow> 'a list" where
  "slice_from k xs = (if 0 \<le> k then drop (nat k) xs else drop (length xs - nat (- k)) xs)"

text \<open>The format \<open>{n:,}\<close>.\<close>

fun group_digits :: "string \<Rightarrow> string" where
  "group_digits (a # b # c # d # ds) = a # b # c # CHR '','' # group_digits (d # ds)"
| "group_digits ds = ds"

definition grouped :: "int \<Rightarrow> string" where
  "grouped n =
     (let digits = (\<lambda>m. rev (group_digits (rev (nat_str m))))
      in if n < 0 then CHR ''-'' # digits (nat (- n)) else digits (nat n))"

text \<open>\<open>int(n * 0.35)\<close> in IEEE double arithmetic: the constant is \<open>6305039478318694 / 2 ^ 54\<close>, and the product is
  rounded to 53 bits, ties to even, before it is truncated. (\<open>n\<close> itself is below \<open>2 ^ 53\<close>.)\<close>

function bit_count :: "nat \<Rightarrow> nat" where
  "bit_count p = (if p = 0 then 0 else Suc (bit_count (p div 2)))"
  by auto
termination by (relation "measure id") auto

declare bit_count.simps [simp del]

definition round_bits :: "nat \<Rightarrow> nat \<Rightarrow> nat" where
  "round_bits s p =
     (let q = p div 2 ^ s; r = p mod 2 ^ s
      in (if 2 * r < 2 ^ s \<or> (2 * r = 2 ^ s \<and> even q) then q else q + 1) * 2 ^ s)"

definition times_035 :: "nat \<Rightarrow> nat" where
  "times_035 n = (let p = n * 6305039478318694 in round_bits (bit_count p - 53) p div 2 ^ 54)"

section \<open>The spool directory\<close>

definition MAX_SPOOL_FILE_BYTES :: nat where "MAX_SPOOL_FILE_BYTES = 10485760"
definition MAX_SPOOL_DIR_BYTES :: nat where "MAX_SPOOL_DIR_BYTES = 104857600"
definition MAX_SPOOL_DIR_FILES :: nat where "MAX_SPOOL_DIR_FILES = 100"
definition SPOOL_FILE_TTL_SECONDS :: time where "SPOOL_FILE_TTL_SECONDS = 86400"

text \<open>\<open>SpoolNoStat\<close>: a regular file whose \<open>stat\<close> fails.\<close>

datatype spool_node = SpoolLink | SpoolFile nat time | SpoolOther | SpoolNoStat

type_synonym spool_entries = "(ustr \<times> spool_node) list"

text \<open>What opening and checking a file that is already there finds.\<close>

datatype existing_file = CannotOpen | NotRegularFile | ForeignOwner | LooseMode bool | PrivateFile

text \<open>\<open>se_write\<close>: \<open>None\<close> when the write succeeds, else how many bytes were written before it failed.\<close>

record spool_env =
  se_dir :: ustr
  se_link_before :: bool
  se_mkdir :: bool
  se_link_after :: bool
  se_now :: time
  se_listable :: bool
  se_unlinkable :: "ustr \<Rightarrow> bool"
  se_creatable :: bool
  se_existing :: "ustr \<Rightarrow> existing_file"
  se_write :: "nat option"

fun squeeze :: "nat \<Rightarrow> ustr \<Rightarrow> ustr" where
  "squeeze c (a # b # s) = (if a = c \<and> b = c then squeeze c (b # s) else a # squeeze c (b # s))"
| "squeeze c s = s"

definition strip_of :: "nat \<Rightarrow> ustr \<Rightarrow> ustr" where
  "strip_of c s = rev (dropWhile (\<lambda>x. x = c) (rev (dropWhile (\<lambda>x. x = c) s)))"

definition id_char :: "nat \<Rightarrow> bool" where
  "id_char c \<longleftrightarrow> alnum_ascii c \<or> c = 95 \<or> c = 45"

definition sanitize_task_id :: "ustr option \<Rightarrow> ustr" where
  "sanitize_task_id task_id =
     (let raw = u_strip (case task_id of Some t \<Rightarrow> (if t = [] then u_str ''output'' else t) | None \<Rightarrow> u_str ''output'');
          cleaned = strip_of 95 (squeeze 95 (take 64 (map (\<lambda>c. if id_char c then c else 95) raw)))
      in if cleaned = [] then u_str ''output'' else cleaned)"

text \<open>The first pass: links and files past their time go, the regular files left are counted.\<close>

fun scan_spool :: "spool_env \<Rightarrow> spool_entries \<Rightarrow> spool_entries \<times> (ustr \<times> nat \<times> time) list" where
  "scan_spool e [] = ([], [])"
| "scan_spool e ((n, node) # es) =
     (case scan_spool e es of
        (kept, counted) \<Rightarrow>
          (case node of
             SpoolLink \<Rightarrow> (if se_unlinkable e n then (kept, counted) else ((n, node) # kept, counted))
           | SpoolFile sz mtime \<Rightarrow>
               (if SPOOL_FILE_TTL_SECONDS < se_now e - mtime then
                  (if se_unlinkable e n then (kept, counted) else ((n, node) # kept, counted))
                else ((n, node) # kept, (n, sz, mtime) # counted))
           | _ \<Rightarrow> ((n, node) # kept, counted)))"

text \<open>The second pass, from the oldest file on.\<close>

fun evict :: "spool_env \<Rightarrow> (ustr \<times> nat \<times> time) list \<Rightarrow> nat \<Rightarrow> nat \<Rightarrow> spool_entries \<Rightarrow> spool_entries" where
  "evict e [] files amount es = es"
| "evict e ((n, sz, mtime) # fs) files amount es =
     (if files \<le> MAX_SPOOL_DIR_FILES \<and> amount \<le> MAX_SPOOL_DIR_BYTES then es
      else if se_unlinkable e n then evict e fs (files - 1) (amount - sz) (filter (\<lambda>x. fst x \<noteq> n) es)
      else evict e fs files amount es)"

definition clean_spool_dir_quota :: "spool_env \<Rightarrow> spool_entries \<Rightarrow> spool_entries" where
  "clean_spool_dir_quota e es =
     (if \<not> se_listable e then es
      else case scan_spool e es of
          (kept, counted) \<Rightarrow>
            evict e (sort_key (\<lambda>f. snd (snd f)) counted) (length counted) (sum_list (map (\<lambda>f. fst (snd f)) counted)) kept)"

definition spool_marker :: "nat list" where
  "spool_marker = [10] @ u_str ''... [TRUNCATED: Spool file exceeded 10MB safety quota] ...'' @ [10]"

definition spool_payload :: "uni \<Rightarrow> ustr \<Rightarrow> nat list" where
  "spool_payload un content =
     (let bs = utf8_encode (sanitize_secrets un content True)
      in if MAX_SPOOL_FILE_BYTES < length bs
         then take (MAX_SPOOL_FILE_BYTES - length spool_marker) bs @ spool_marker else bs)"

definition spool_name :: "ustr \<Rightarrow> ustr \<Rightarrow> ustr" where
  "spool_name safe_id digest = u_str ''spool_'' @ safe_id @ [95] @ digest @ u_str ''.txt''"

definition spool_path :: "spool_env \<Rightarrow> ustr \<Rightarrow> ustr" where
  "spool_path e name = se_dir e @ [47] @ name"

text \<open>The path returned, the entries left, and the bytes written to a new file.\<close>

definition safe_spool_write ::
  "uni \<Rightarrow> spool_env \<Rightarrow> ustr \<Rightarrow> ustr \<Rightarrow> ustr \<Rightarrow> spool_entries \<Rightarrow> ustr option \<times> spool_entries \<times> nat list option" where
  "safe_spool_write un e content safe_id digest es =
     (if se_link_before e \<or> \<not> se_mkdir e \<or> se_link_after e then (None, es, None)
      else
        let es1 = clean_spool_dir_quota e es; name = spool_name safe_id digest
        in if name \<in> fst ` set es1 then
             (case se_existing e name of
                PrivateFile \<Rightarrow> (Some (spool_path e name), es1, None)
              | LooseMode mended \<Rightarrow> ((if mended then Some (spool_path e name) else None), es1, None)
              | _ \<Rightarrow> (None, es1, None))
           else if \<not> se_creatable e then (None, es1, None)
           else
             let payload = spool_payload un content
             in case se_write e of
                  None \<Rightarrow> (Some (spool_path e name), es1 @ [(name, SpoolFile (length payload) (se_now e))], Some payload)
                | Some k \<Rightarrow> (None, es1 @ [(name, SpoolFile (length (take k payload)) (se_now e))], Some (take k payload)))"

section \<open>Folding\<close>

text \<open>\<open>str.splitlines(keepends=True)\<close>.\<close>

fun split_keepends :: "ustr \<Rightarrow> ustr \<Rightarrow> ustr list" where
  "split_keepends line [] = (if line = [] then [] else [rev line])"
| "split_keepends line (c # s) =
     (if line_break c then
        (if c = 13 \<and> s \<noteq> [] \<and> hd s = 10 then rev (10 # 13 # line) # split_keepends [] (tl s)
         else rev (c # line) # split_keepends [] s)
      else split_keepends (c # line) s)"

definition content_digest :: "ustr \<Rightarrow> ustr" where
  "content_digest content = take 12 (u_str (sha256_hex (map char_of (utf8_encode content))))"

definition spool_hint :: "bool \<Rightarrow> ustr \<Rightarrow> ustr \<Rightarrow> ustr option \<Rightarrow> ustr" where
  "spool_hint masked_path safe_id digest spooled =
     (case spooled of
        None \<Rightarrow> []
      | Some p \<Rightarrow>
          u_str '' ('' @ [20840, 37327, 20839, 23481, 24050, 23433, 20840, 33853, 30436, 33267] @ u_str '': '' @ (if masked_path then u_str ''RefID:'' @ safe_id @ [95] @ digest else p) @ u_str '')'')"

definition few_lines_banner :: "int \<Rightarrow> ustr \<Rightarrow> ustr" where
  "few_lines_banner omitted hint =
     [10] @ u_str ''... ['' @ [9889] @ u_str '' RUNTIME CONTROL: '' @ [21934, 34892] @ u_str ''/'' @ [23569, 34892, 20839, 23481, 36229, 38480, 65292, 24050, 25240, 30090] @ u_str '' '' @ u_str (grouped omitted) @ u_str '' '' @ [23383, 20803] @ hint @ u_str ''] ...'' @ [10]"

definition many_lines_banner :: "int \<Rightarrow> int \<Rightarrow> ustr \<Rightarrow> ustr" where
  "many_lines_banner omitted_lines omitted_chars hint =
     [10] @ u_str ''... ['' @ [9889] @ u_str '' RUNTIME CONTROL: '' @ [24050, 38617, 21521, 20445, 30495, 25240, 30090] @ u_str '' '' @ u_str (int_str omitted_lines) @ u_str '' '' @ [34892] @ u_str '' ('' @
     u_str (grouped omitted_chars) @ u_str '' '' @ [23383, 20803] @ u_str '') '' @ [20197, 20445, 35703] @ u_str '' KV Cache'' @ hint @ u_str ''] ...'' @ [10, 10]"

definition last_part :: "int \<Rightarrow> ustr \<Rightarrow> ustr" where
  "last_part k s = (if 0 < k then slice_from (- k) s else [])"

definition fold_few_lines :: "int \<Rightarrow> ustr \<Rightarrow> ustr \<Rightarrow> ustr" where
  "fold_few_lines max_chars content banner =
     (if max_chars \<le> int (length banner) then slice_to max_chars content
      else
        let rest = max_chars - int (length banner); head_budget = rest div 3; tail_budget = rest - head_budget
        in slice_to max_chars (slice_to head_budget content @ banner @ last_part tail_budget content))"

definition fold_many_lines :: "int \<Rightarrow> ustr \<Rightarrow> ustr \<Rightarrow> ustr \<Rightarrow> ustr" where
  "fold_many_lines max_chars head_text tail_text banner =
     (let combined = head_text @ banner @ tail_text
      in if int (length combined) \<le> max_chars then combined
         else if max_chars \<le> int (length banner) then slice_to max_chars combined
         else
           let available = max_chars - int (length banner);
               head_alloc = int (times_035 (nat available)); tail_alloc = available - head_alloc
           in slice_to max_chars (slice_to head_alloc head_text @ banner @ last_part tail_alloc tail_text))"

definition fold_output :: "int \<Rightarrow> int \<Rightarrow> int \<Rightarrow> ustr \<Rightarrow> ustr \<Rightarrow> ustr" where
  "fold_output max_chars keep_head keep_tail content hint =
     (let ls = split_keepends [] content
      in if int (length ls) \<le> keep_head + keep_tail
         then fold_few_lines max_chars content (few_lines_banner (int (length content) - max_chars) hint)
         else
           let head_text = concat (slice_to keep_head ls); tail_text = concat (slice_from (- keep_tail) ls)
           in fold_many_lines max_chars head_text tail_text
                (many_lines_banner (int (length ls) - (keep_head + keep_tail))
                   (int (length content) - (int (length head_text) + int (length tail_text))) hint))"

text \<open>The text, whether it was folded, the spool path, and the spool directory left; \<open>None\<close> is the encoding error.\<close>

definition compact_tool_output ::
  "uni \<Rightarrow> spool_env \<Rightarrow> int \<Rightarrow> int \<Rightarrow> int \<Rightarrow> ustr option \<Rightarrow> bool \<Rightarrow> ustr \<Rightarrow> spool_entries \<Rightarrow>
   (ustr \<times> bool \<times> ustr option \<times> spool_entries) option" where
  "compact_tool_output un e max_chars keep_head keep_tail task_id masked_path content es =
     (if content = [] \<or> int (length content) \<le> max_chars then Some (content, False, None, es)
      else if \<not> encodable content then None
      else
        let safe_id = sanitize_task_id task_id; digest = content_digest content
        in case safe_spool_write un e content safe_id digest es of
             (spooled, es', _) \<Rightarrow>
               Some (fold_output max_chars keep_head keep_tail content (spool_hint masked_path safe_id digest spooled), True, spooled, es'))"

text \<open>The class: its fields, and its two ways in.\<close>

record compactor =
  cp_max_chars :: int
  cp_mask :: bool

definition process :: "uni \<Rightarrow> spool_env \<Rightarrow> compactor \<Rightarrow> ustr \<Rightarrow> ustr option \<Rightarrow> spool_entries \<Rightarrow> (ustr \<times> bool \<times> ustr option \<times> spool_entries) option" where
  "process un e c content task_id es = compact_tool_output un e (cp_max_chars c) 15 35 task_id (cp_mask c) content es"

definition compact_text :: "uni \<Rightarrow> spool_env \<Rightarrow> ustr \<Rightarrow> int \<Rightarrow> ustr option \<Rightarrow> bool \<Rightarrow> int option \<Rightarrow> spool_entries \<Rightarrow> ustr option" where
  "compact_text un e content max_chars task_id masked_path max_bytes es =
     map_option fst (compact_tool_output un e (case max_bytes of Some b \<Rightarrow> b | None \<Rightarrow> max_chars) 15 35 task_id masked_path content es)"

section \<open>Lemmas on folding\<close>

lemma concat_split_keepends: "concat (split_keepends line s) = rev line @ s"
  by (induction line s rule: split_keepends.induct) (auto simp: neq_Nil_conv)

lemma prefix_slice_to: "prefix (slice_to k xs) xs"
  by (simp add: slice_to_def take_is_prefix)

lemma suffix_slice_from: "Sublist.suffix (slice_from k xs) xs"
  by (simp add: slice_from_def Sublist.suffix_drop)

lemma suffix_last_part: "Sublist.suffix (last_part k s) s"
  by (simp add: last_part_def suffix_slice_from)

lemma length_slice_to: "0 \<le> k \<Longrightarrow> int (length (slice_to k xs)) = min k (int (length xs))"
  by (simp add: slice_to_def)

lemma length_last_part: "0 \<le> k \<Longrightarrow> int (length (last_part k s)) = min k (int (length s))"
  by (auto simp: last_part_def slice_from_def)

lemma length_slice_to_le: "0 \<le> k \<Longrightarrow> int (length (slice_to k xs)) \<le> k"
  by (simp add: length_slice_to)

lemma length_last_part_le: "0 \<le> k \<Longrightarrow> int (length (last_part k s)) \<le> k"
  by (simp add: length_last_part)

lemma slice_to_short: "0 \<le> k \<Longrightarrow> int (length xs) \<le> k \<Longrightarrow> slice_to k xs = xs"
  by (simp add: slice_to_def nat_le_iff)

lemma prefix_concat: "prefix xs ys \<Longrightarrow> prefix (concat xs) (concat ys)"
  by (auto simp: prefix_def)

lemma suffix_concat: "Sublist.suffix xs ys \<Longrightarrow> Sublist.suffix (concat xs) (concat ys)"
  by (auto simp: Sublist.suffix_def)

lemma bit_count_bound: "0 < p \<Longrightarrow> 2 ^ (bit_count p - 1) \<le> p"
proof (induction p rule: bit_count.induct)
  case (1 p)
  show ?case
  proof (cases "p div 2 = 0")
    case True
    then have "p = 1" using 1(2) by simp
    then show ?thesis by (simp add: bit_count.simps)
  next
    case False
    then have "2 ^ (bit_count (p div 2) - 1) \<le> p div 2" using 1 by simp
    moreover have "0 < bit_count (p div 2)" using False by (subst bit_count.simps) simp
    ultimately have "2 ^ bit_count (p div 2) \<le> 2 * (p div 2)" by (cases "bit_count (p div 2)") auto
    moreover have "2 * (p div 2) \<le> p" by simp
    moreover have "bit_count p = Suc (bit_count (p div 2))" using 1(2) by (subst bit_count.simps) simp
    ultimately show ?thesis by simp
  qed
qed

lemma round_bits_bound: "round_bits s p \<le> p + 2 ^ s"
proof -
  have d: "p div 2 ^ s * 2 ^ s \<le> p" by (rule div_times_less_eq_dividend)
  then have "p div 2 ^ s * 2 ^ s \<le> p + 2 ^ s" "(p div 2 ^ s + 1) * 2 ^ s \<le> p + 2 ^ s"
    by (simp_all only: add_mult_distrib trans_le_add1 mult_1 add_le_cancel_right)
  then show ?thesis unfolding round_bits_def Let_def by (cases "2 * (p mod 2 ^ s) < 2 ^ s \<or> 2 * (p mod 2 ^ s) = 2 ^ s \<and> even (p div 2 ^ s)") (simp_all only: if_True if_False)
qed

lemma times_035_le: "times_035 n \<le> n"
proof -
  let ?p = "n * 6305039478318694" and ?s = "bit_count (n * 6305039478318694) - 53"
  have "round_bits ?s ?p \<le> n * 2 ^ 54"
  proof (cases "?s = 0")
    case True
    then have "round_bits ?s ?p = ?p" by (simp add: round_bits_def)
    then show ?thesis by simp
  next
    case False
    have "bit_count 0 = 0" by (subst bit_count.simps) simp
    with False have n: "0 < n" by (cases "n = 0") simp_all
    from False have "?s \<le> bit_count ?p - 1" by simp
    then have "2 ^ ?s \<le> (2 :: nat) ^ (bit_count ?p - 1)" by (rule power_increasing) simp
    also have "\<dots> \<le> ?p" by (rule bit_count_bound) (use n in simp)
    finally have "round_bits ?s ?p \<le> ?p + ?p" using round_bits_bound [of ?s ?p] by linarith
    then show ?thesis by simp
  qed
  then have "round_bits ?s ?p div 2 ^ 54 \<le> n * 2 ^ 54 div 2 ^ 54" by (rule div_le_mono)
  then show ?thesis by (simp add: times_035_def Let_def)
qed

text \<open>What a folded text looks like.\<close>

definition folded_around :: "int \<Rightarrow> ustr \<Rightarrow> ustr \<Rightarrow> ustr \<Rightarrow> bool" where
  "folded_around max_chars content banner text \<longleftrightarrow>
     int (length text) \<le> max_chars \<and>
     (\<exists>h t. prefix h content \<and> Sublist.suffix t content \<and> text = take (nat max_chars) (h @ banner @ t) \<and>
        (int (length banner) < max_chars \<longrightarrow> text = h @ banner @ t))"

lemma folded_aroundI:
  assumes "0 \<le> m" "prefix h content" "Sublist.suffix t content" "int (length (h @ b @ t)) \<le> m"
  shows "folded_around m content b (slice_to m (h @ b @ t))"
proof -
  have e: "slice_to m (h @ b @ t) = h @ b @ t" "take (nat m) (h @ b @ t) = h @ b @ t"
    using assms(1,4) by (simp_all add: slice_to_def nat_le_iff)
  show ?thesis unfolding folded_around_def e(1) using assms e(2) by (intro conjI exI [of _ h] exI [of _ t]) simp_all
qed

lemma fold_few_around:
  assumes "0 \<le> m" and "m < int (length content)"
  shows "folded_around m content b (fold_few_lines m content b)"
proof (cases "m \<le> int (length b)")
  case True
  have "folded_around m content b (take (nat m) content)"
    unfolding folded_around_def using assms True
    by (intro conjI exI [of _ "take (nat m) content"] exI [of _ "[]"]) (simp_all add: take_is_prefix)
  then show ?thesis using True assms(1) by (simp add: fold_few_lines_def slice_to_def)
next
  case False
  let ?r = "m - int (length b)"
  have bounds: "0 \<le> ?r div 3" "0 \<le> ?r - ?r div 3" using False by simp_all
  then have "int (length (slice_to (?r div 3) content @ b @ last_part (?r - ?r div 3) content)) \<le> m"
    using length_slice_to_le [OF bounds(1), of content] length_last_part_le [OF bounds(2), of content]
    unfolding length_append of_nat_add by linarith
  from folded_aroundI [OF assms(1) prefix_slice_to suffix_last_part this]
  show ?thesis using False by (simp add: fold_few_lines_def Let_def)
qed

lemma fold_many_around:
  assumes "0 \<le> m" and "prefix h content" and "Sublist.suffix t content"
  shows "folded_around m content b (fold_many_lines m h t b)"
proof (cases "int (length (h @ b @ t)) \<le> m")
  case True
  then show ?thesis
    using folded_aroundI [OF assms(1,2,3) True] assms(1) by (simp add: fold_many_lines_def slice_to_short)
next
  case False
  show ?thesis
  proof (cases "m \<le> int (length b)")
    case True
    have "folded_around m content b (take (nat m) (h @ b @ t))"
      unfolding folded_around_def
    proof (intro conjI)
      show "int (length (take (nat m) (h @ b @ t))) \<le> m" using assms(1) by simp
      show "\<exists>h' t'. prefix h' content \<and> Sublist.suffix t' content \<and> take (nat m) (h @ b @ t) = take (nat m) (h' @ b @ t') \<and>
          (int (length b) < m \<longrightarrow> take (nat m) (h @ b @ t) = h' @ b @ t')"
        by (rule exI [of _ h], rule exI [of _ t]) (use assms True in simp)
    qed
    then show ?thesis using False True assms(1) by (simp add: fold_many_lines_def slice_to_def)
  next
    case small: False
    let ?a = "m - int (length b)"
    let ?h = "int (times_035 (nat ?a))"
    have bounds: "0 \<le> ?h" "0 \<le> ?a - ?h" using times_035_le [of "nat ?a"] small by simp_all
    then have len: "int (length (slice_to ?h h @ b @ last_part (?a - ?h) t)) \<le> m"
      using length_slice_to_le [OF bounds(1), of h] length_last_part_le [OF bounds(2), of t]
      unfolding length_append of_nat_add by linarith
    have "prefix (slice_to ?h h) content" "Sublist.suffix (last_part (?a - ?h) t) content"
      using prefix_slice_to [of ?h h] assms(2) suffix_last_part [of "?a - ?h" t] assms(3)
        prefix_order.trans Sublist.suffix_order.trans by blast+
    from folded_aroundI [OF assms(1) this len] show ?thesis
      using False small by (simp add: fold_many_lines_def Let_def)
  qed
qed

lemma fold_output_around:
  assumes "0 \<le> m" and "m < int (length content)"
  shows "\<exists>b. b \<in> {few_lines_banner (int (length content) - m) hint} \<union> (\<lambda>(l, c). many_lines_banner l c hint) ` UNIV \<and>
    folded_around m content b (fold_output m keep_head keep_tail content hint)"
proof (cases "int (length (split_keepends [] content)) \<le> keep_head + keep_tail")
  case True
  then show ?thesis using fold_few_around [OF assms] by (auto simp: fold_output_def)
next
  case False
  let ?ls = "split_keepends [] content"
  have c: "concat ?ls = content" by (simp add: concat_split_keepends)
  have "prefix (concat (slice_to keep_head ?ls)) content" "Sublist.suffix (concat (slice_from (- keep_tail) ?ls)) content"
    using prefix_concat [OF prefix_slice_to, of keep_head ?ls] suffix_concat [OF suffix_slice_from, of "- keep_tail" ?ls]
    unfolding c .
  from fold_many_around [OF assms(1) this] show ?thesis using False unfolding fold_output_def Let_def by auto
qed

section \<open>Lemmas on the spool directory\<close>

definition spool_files :: "spool_entries \<Rightarrow> (ustr \<times> nat \<times> time) list" where
  "spool_files es = concat (map (\<lambda>(n, node). case node of SpoolFile sz mtime \<Rightarrow> [(n, sz, mtime)] | _ \<Rightarrow> []) es)"

definition fresh_files :: "time \<Rightarrow> spool_entries \<Rightarrow> (ustr \<times> nat \<times> time) list" where
  "fresh_files now es = filter (\<lambda>(n, sz, mtime). now - mtime \<le> SPOOL_FILE_TTL_SECONDS) (spool_files es)"

definition within_quota :: "(ustr \<times> nat \<times> time) list \<Rightarrow> bool" where
  "within_quota fs \<longleftrightarrow> length fs \<le> MAX_SPOOL_DIR_FILES \<and> sum_list (map (\<lambda>f. fst (snd f)) fs) \<le> MAX_SPOOL_DIR_BYTES"

lemma spool_files_simps [simp]:
  "spool_files [] = []" "spool_files ((n, SpoolFile sz m) # es) = (n, sz, m) # spool_files es"
  "spool_files ((n, SpoolLink) # es) = spool_files es" "spool_files ((n, SpoolOther) # es) = spool_files es"
  "spool_files ((n, SpoolNoStat) # es) = spool_files es"
  by (simp_all add: spool_files_def)

lemma spool_files_filter: "spool_files (filter (\<lambda>x. P (fst x)) es) = filter (\<lambda>f. P (fst f)) (spool_files es)"
  by (induction es) (auto simp: spool_files_def split: spool_node.splits)

lemma spool_files_names: "fst ` set (spool_files es) \<subseteq> fst ` set es"
proof (induction es)
  case (Cons x es)
  obtain n node where x: "x = (n, node)" by (cases x)
  show ?case using Cons unfolding x by (cases node) auto
qed simp

lemma spool_files_distinct: "distinct (map fst es) \<Longrightarrow> distinct (map fst (spool_files es))"
proof (induction es)
  case (Cons x es)
  obtain n node where x: "x = (n, node)" by (cases x)
  have "n \<notin> fst ` set (spool_files es)" using Cons.prems spool_files_names [of es] x by auto
  then show ?case using Cons x by (cases node) auto
qed simp

lemma scan_spool_result:
  assumes "list_all (\<lambda>x. se_unlinkable e (fst x)) es"
  shows "snd (scan_spool e es) = fresh_files (se_now e) es \<and>
    spool_files (fst (scan_spool e es)) = fresh_files (se_now e) es \<and>
    (\<forall>x \<in> set (fst (scan_spool e es)). x \<in> set es \<and> snd x \<noteq> SpoolLink) \<and>
    (distinct (map fst es) \<longrightarrow> distinct (map fst (fst (scan_spool e es))))"
  using assms
proof (induction es)
  case (Cons x es)
  obtain n node where x: "x = (n, node)" by (cases x)
  obtain kept counted where s: "scan_spool e es = (kept, counted)" by (cases "scan_spool e es")
  have IH: "counted = fresh_files (se_now e) es" "spool_files kept = fresh_files (se_now e) es"
    "\<forall>x \<in> set kept. x \<in> set es \<and> snd x \<noteq> SpoolLink" "distinct (map fst es) \<longrightarrow> distinct (map fst kept)"
    using Cons s by simp_all
  have "distinct (map fst (x # es)) \<Longrightarrow> n \<notin> fst ` set kept" using IH(3) x by force
  then show ?case using IH Cons.prems x s by (cases node) (auto simp: fresh_files_def not_less)
qed (simp add: fresh_files_def)

lemma evict_drop:
  assumes "list_all (\<lambda>f. se_unlinkable e (fst f)) fs"
  shows "\<exists>k. evict e fs (length fs) (sum_list (map (\<lambda>f. fst (snd f)) fs)) es = filter (\<lambda>x. fst x \<notin> fst ` set (take k fs)) es \<and>
    within_quota (drop k fs) \<and> (0 < k \<longrightarrow> k \<le> length fs \<and> \<not> within_quota (drop (k - 1) fs))"
  using assms
proof (induction fs arbitrary: es)
  case Nil
  show ?case by (intro exI [of _ 0]) (simp add: within_quota_def)
next
  case (Cons f fs)
  obtain n sz m where f: "f = (n, sz, m)" by (cases f)
  show ?case
  proof (cases "within_quota (f # fs)")
    case True
    then show ?thesis by (intro exI [of _ 0]) (simp add: f within_quota_def)
  next
    case False
    let ?es = "filter (\<lambda>x. fst x \<noteq> n) es"
    have "list_all (\<lambda>f. se_unlinkable e (fst f)) fs" using Cons.prems by simp
    from Cons.IH [OF this, of ?es] obtain k where k: "evict e fs (length fs) (sum_list (map (\<lambda>f. fst (snd f)) fs)) ?es =
        filter (\<lambda>x. fst x \<notin> fst ` set (take k fs)) ?es" "within_quota (drop k fs)"
      "0 < k \<longrightarrow> k \<le> length fs \<and> \<not> within_quota (drop (k - 1) fs)" by blast
    have "evict e (f # fs) (length (f # fs)) (sum_list (map (\<lambda>f. fst (snd f)) (f # fs))) es =
        filter (\<lambda>x. fst x \<notin> fst ` set (take k fs)) ?es"
      using False Cons.prems k(1) by (auto simp: f within_quota_def)
    also have "\<dots> = filter (\<lambda>x. fst x \<notin> fst ` set (take (Suc k) (f # fs))) es"
      by (auto simp: f intro: filter_cong)
    finally show ?thesis
      using k(2,3) False by (intro exI [of _ "Suc k"]) (cases k; simp)
  qed
qed

lemma drop_by_name:
  assumes "distinct (map fst fs)"
  shows "filter (\<lambda>f. fst f \<notin> fst ` set (take k fs)) fs = drop k fs"
proof -
  let ?P = "\<lambda>f. fst f \<notin> fst ` set (take k fs)"
  have "distinct (map fst (take k fs) @ map fst (drop k fs))"
    using assms by (metis append_take_drop_id map_append)
  then have "filter ?P (drop k fs) = drop k fs" by (intro filter_True) auto
  moreover have "filter ?P (take k fs) = []" by (simp add: filter_empty_conv)
  ultimately have "filter ?P (take k fs @ drop k fs) = drop k fs" unfolding filter_append by simp
  then show ?thesis by simp
qed

lemma squeeze_set: "set (squeeze c s) \<subseteq> set s"
  by (induction c s rule: squeeze.induct) auto

lemma strip_of_set: "set (strip_of c s) \<subseteq> set s"
  unfolding strip_of_def by (auto dest!: set_dropWhileD)

lemma squeeze_length: "length (squeeze c s) \<le> length s"
  by (induction c s rule: squeeze.induct) auto

lemma strip_of_length: "length (strip_of c s) \<le> length s"
  unfolding strip_of_def by (metis length_dropWhile_le length_rev order_trans)

lemma task_id_safe: "sanitize_task_id t \<noteq> [] \<and> list_all id_char (sanitize_task_id t) \<and> length (sanitize_task_id t) \<le> 64"
proof -
  let ?raw = "u_strip (case t of Some t \<Rightarrow> (if t = [] then u_str ''output'' else t) | None \<Rightarrow> u_str ''output'')"
  let ?m = "take 64 (map (\<lambda>c. if id_char c then c else 95) ?raw)"
  have o: "list_all id_char (u_str ''output'')" "length (u_str ''output'') \<le> 64" "u_str ''output'' \<noteq> []" by code_simp+
  have "id_char 95" by (simp add: id_char_def)
  then have "\<forall>c \<in> set ?m. id_char c" by (auto dest: in_set_takeD)
  then have "list_all id_char (strip_of 95 (squeeze 95 ?m))"
    using strip_of_set [of 95 "squeeze 95 ?m"] squeeze_set [of 95 ?m] unfolding list_all_iff by blast
  moreover have "length (strip_of 95 (squeeze 95 ?m)) \<le> 64"
    using strip_of_length [of 95 "squeeze 95 ?m"] squeeze_length [of 95 ?m] by simp
  ultimately show ?thesis using o by (simp add: sanitize_task_id_def Let_def)
qed

lemma spool_marker_length: "length spool_marker \<le> MAX_SPOOL_FILE_BYTES"
  by code_simp

lemma payload_length: "length (spool_payload un content) \<le> MAX_SPOOL_FILE_BYTES"
  using spool_marker_length by (simp add: spool_payload_def Let_def)

section \<open>Properties\<close>

lemma compact_cases:
  assumes "compact_tool_output un e m kh kt task masked_path content es = Some (txt, was_cut, path, es')"
  obtains (Fits) "content = [] \<or> int (length content) \<le> m" "txt = content" "\<not> was_cut" "path = None" "es' = es"
  | (Folded) written where "content \<noteq> []" "m < int (length content)" "was_cut"
      "safe_spool_write un e content (sanitize_task_id task) (content_digest content) es = (path, es', written)"
      "txt = fold_output m kh kt content (spool_hint masked_path (sanitize_task_id task) (content_digest content) path)"
proof (cases "content = [] \<or> int (length content) \<le> m")
  case True
  then have "txt = content" "\<not> was_cut" "path = None" "es' = es" using assms by (simp_all add: compact_tool_output_def)
  with True show ?thesis using Fits by blast
next
  case False
  obtain p f w where w: "safe_spool_write un e content (sanitize_task_id task) (content_digest content) es = (p, f, w)"
    by (cases "safe_spool_write un e content (sanitize_task_id task) (content_digest content) es")
  from False assms have "encodable content" by (cases "encodable content") (simp_all add: compact_tool_output_def)
  with False w assms have "txt = fold_output m kh kt content (spool_hint masked_path (sanitize_task_id task) (content_digest content) p)"
    "was_cut" "path = p" "es' = f" by (auto simp: compact_tool_output_def Let_def)
  with False w show ?thesis by (intro Folded [of w]) auto
qed

text \<open>The text that comes back never exceeds the budget, whatever happens to the spool: text that fits is returned as it
  is, and longer text becomes a prefix of it, a banner and a suffix of it (cut at the budget only when the banner alone
  does not fit).\<close>

theorem compacted_text_fits:
  assumes "compact_tool_output un e max_chars keep_head keep_tail task_id masked_path content es = Some (txt, was_cut, path, es')"
    and "0 \<le> max_chars"
  shows "int (length txt) \<le> max_chars \<and>
    (if was_cut then (\<exists>hint b. b \<in> {few_lines_banner (int (length content) - max_chars) hint} \<union> (\<lambda>(l, c). many_lines_banner l c hint) ` UNIV \<and>
                    folded_around max_chars content b txt)
     else txt = content)"
  using assms(1)
proof (cases rule: compact_cases)
  case Fits
  then show ?thesis using assms(2) by auto
next
  case (Folded written)
  let ?hint = "spool_hint masked_path (sanitize_task_id task_id) (content_digest content) path"
  from fold_output_around [OF assms(2) Folded(2), of ?hint keep_head keep_tail] obtain b where
    b: "b \<in> {few_lines_banner (int (length content) - max_chars) ?hint} \<union> (\<lambda>(l, c). many_lines_banner l c ?hint) ` UNIV"
      "folded_around max_chars content b txt" unfolding Folded(5) by blast
  then have "int (length txt) \<le> max_chars" by (simp add: folded_around_def)
  then show ?thesis using b Folded(3) by (auto simp del: Un_iff)
qed

definition demo_spool :: spool_env where
  "demo_spool =
     \<lparr>se_dir = u_str ''/tmp/s'', se_link_before = True, se_mkdir = True, se_link_after = False, se_now = 100, se_listable = True,
      se_unlinkable = (\<lambda>_. True), se_creatable = True, se_existing = (\<lambda>_. PrivateFile), se_write = None\<rparr>"

lemma demo_compact:
  "compact_tool_output (\<lambda>_. False) demo_spool 3 1 1 None True [97, 98, 99, 100] [] = Some ([97, 98, 99], True, None, [])"
proof -
  have "fold_output 3 1 1 [97, 98, 99, 100] [] = [97, 98, 99]" "encodable [97, 98, 99, 100]" by code_simp+
  then show ?thesis by (simp add: compact_tool_output_def safe_spool_write_def demo_spool_def spool_hint_def Let_def)
qed

theorem compacted_text_fits_witness:
  "int (length [97, 98, 99 :: nat]) \<le> 3 \<and>
    (\<exists>hint b. b \<in> {few_lines_banner 1 hint} \<union> (\<lambda>(l, c). many_lines_banner l c hint) ` UNIV \<and>
       folded_around 3 [97, 98, 99, 100] b [97, 98, 99])"
  using compacted_text_fits [OF demo_compact] by simp

text \<open>C17: after the quota is enforced (when every removal succeeds) the spool files left are the newest of the unexpired
  ones, at most 100 and at most 100 MB; the oldest are removed, and no more of them than needed; no link is left.\<close>

theorem spool_quota_is_enforced:
  assumes "list_all (\<lambda>x. se_unlinkable e (fst x)) es" and "distinct (map fst es)" and "se_listable e"
  shows "\<exists>k. mset (spool_files (clean_spool_dir_quota e es)) =
        mset (drop k (sort_key (\<lambda>f. snd (snd f)) (fresh_files (se_now e) es))) \<and>
      within_quota (drop k (sort_key (\<lambda>f. snd (snd f)) (fresh_files (se_now e) es))) \<and>
      (k = 0 \<or> \<not> within_quota (drop (k - 1) (sort_key (\<lambda>f. snd (snd f)) (fresh_files (se_now e) es)))) \<and>
      list_all (\<lambda>x. snd x \<noteq> SpoolLink) (clean_spool_dir_quota e es)"
proof -
  let ?fresh = "fresh_files (se_now e) es"
  let ?sorted = "sort_key (\<lambda>f. snd (snd f)) ?fresh"
  obtain kept counted where s: "scan_spool e es = (kept, counted)" by (cases "scan_spool e es")
  from scan_spool_result [OF assms(1)] s assms(2)
  have c: "counted = ?fresh" and kept: "spool_files kept = ?fresh" "\<forall>x \<in> set kept. snd x \<noteq> SpoolLink" "distinct (map fst kept)"
    by auto
  have names: "distinct (map fst ?fresh)" unfolding kept(1) [symmetric] by (rule spool_files_distinct [OF kept(3)])
  have "fst ` set ?fresh \<subseteq> fst ` set es"
    using spool_files_names [of es] by (auto simp: fresh_files_def)
  then have "list_all (\<lambda>f. se_unlinkable e (fst f)) ?sorted"
    using assms(1) by (force simp: list_all_iff)
  from evict_drop [OF this, of kept] obtain k where
    k: "evict e ?sorted (length ?sorted) (sum_list (map (\<lambda>f. fst (snd f)) ?sorted)) kept = filter (\<lambda>x. fst x \<notin> fst ` set (take k ?sorted)) kept"
    "within_quota (drop k ?sorted)" "0 < k \<longrightarrow> k \<le> length ?sorted \<and> \<not> within_quota (drop (k - 1) ?sorted)" by blast
  have same: "mset ?sorted = mset ?fresh" by simp
  have "sum_list (map (\<lambda>f. fst (snd f)) ?sorted) = sum_list (map (\<lambda>f. fst (snd f)) ?fresh)"
  proof -
    have sum: "sum_list (map g xs) = sum_mset (image_mset g (mset xs))" for g :: "'x \<Rightarrow> nat" and xs
      by (induction xs) simp_all
    show ?thesis by (simp only: sum same)
  qed
  then have clean: "clean_spool_dir_quota e es = filter (\<lambda>x. fst x \<notin> fst ` set (take k ?sorted)) kept"
    using assms(3) s c k(1) by (simp add: clean_spool_dir_quota_def)
  have "distinct (map fst ?sorted)"
    using names mset_eq_imp_distinct_iff [of "map fst ?sorted" "map fst ?fresh"] by simp
  then have "drop k ?sorted = filter (\<lambda>f. fst f \<notin> fst ` set (take k ?sorted)) ?sorted" by (rule drop_by_name [symmetric])
  then have "mset (drop k ?sorted) = filter_mset (\<lambda>f. fst f \<notin> fst ` set (take k ?sorted)) (mset ?sorted)"
    by (metis mset_filter)
  then have "mset (drop k ?sorted) = mset (filter (\<lambda>f. fst f \<notin> fst ` set (take k ?sorted)) ?fresh)"
    unfolding same mset_filter .
  moreover have "spool_files (clean_spool_dir_quota e es) = filter (\<lambda>f. fst f \<notin> fst ` set (take k ?sorted)) ?fresh"
    using spool_files_filter [of "\<lambda>n. n \<notin> fst ` set (take k ?sorted)" kept] unfolding clean kept(1) .
  moreover have "list_all (\<lambda>x. snd x \<noteq> SpoolLink) (clean_spool_dir_quota e es)"
    unfolding clean using kept(2) by (simp add: list_all_iff)
  ultimately show ?thesis using k(2,3) by (intro exI [of _ k]) auto
qed

definition demo_entries :: spool_entries where
  "demo_entries = [([98], SpoolFile 1 20), ([97], SpoolFile 104857600 10), ([99], SpoolLink)]"

theorem spool_quota_is_enforced_witness:
  "\<exists>k. mset (spool_files (clean_spool_dir_quota demo_spool demo_entries)) =
        mset (drop k (sort_key (\<lambda>f. snd (snd f)) (fresh_files 100 demo_entries))) \<and>
      within_quota (drop k (sort_key (\<lambda>f. snd (snd f)) (fresh_files 100 demo_entries)))"
  using spool_quota_is_enforced [of demo_spool demo_entries]
  by (auto simp: demo_spool_def demo_entries_def)

text \<open>What is spooled stays in its directory and under its limits: for any task id, the name of the file is made of
  letters, digits, underscores, dashes and the dot of its suffix, and a file that is written holds a prefix of at most
  10 MB of the redacted text (with the marker of the cut when the text is longer).\<close>

theorem spooled_files_are_confined:
  assumes "safe_spool_write un e content (sanitize_task_id task_id) (content_digest content) es = (path, es', Some written)"
  shows "prefix written (spool_payload un content) \<and> length written \<le> 10485760 \<and>
    (case path of None \<Rightarrow> True
     | Some p \<Rightarrow> (\<exists>name. p = se_dir e @ [47] @ name \<and> list_all (\<lambda>c. id_char c \<or> c = 46) name \<and> written = spool_payload un content))"
proof -
  let ?name = "spool_name (sanitize_task_id task_id) (content_digest content)"
  have d: "list_all id_char (content_digest content)"
  proof -
    have "id_char (of_char c)" if c: "c \<in> set (sha256_hex bs)" for c bs
    proof -
      from c hexdigest_hex obtain n where "c = hex_char n" "n < 16" by (metis sha256_hex_def)
      then show ?thesis by (auto simp: hex_char_def id_char_def alnum_ascii_def u_digit_def of_char_of)
    qed
    then show ?thesis by (auto simp: content_digest_def list_all_iff u_str_def dest!: in_set_takeD)
  qed
  have n: "list_all (\<lambda>c. id_char c \<or> c = 46) ?name"
  proof -
    have "list_all (\<lambda>c. id_char c \<or> c = 46) (u_str ''spool_'')" "list_all (\<lambda>c. id_char c \<or> c = 46) (u_str ''.txt'')" by code_simp+
    moreover have "list_all (\<lambda>c. id_char c \<or> c = 46) (sanitize_task_id task_id)" "list_all (\<lambda>c. id_char c \<or> c = 46) (content_digest content)"
      using task_id_safe [of task_id] d by (simp_all add: list_all_iff)
    ultimately show ?thesis by (simp add: spool_name_def id_char_def)
  qed
  have w: "prefix written (spool_payload un content)" "path = None \<or> path = Some (spool_path e ?name) \<and> written = spool_payload un content"
    using assms by (auto simp: safe_spool_write_def Let_def take_is_prefix split: if_splits existing_file.splits option.splits)
  moreover have "length written \<le> 10485760"
    using prefix_length_le [OF w(1)] payload_length [of un content] by (simp add: MAX_SPOOL_FILE_BYTES_def)
  ultimately show ?thesis using n by (auto simp: spool_path_def)
qed

theorem spooled_files_are_confined_witness:
  "length (spool_payload (\<lambda>_. False) [97]) \<le> 10485760"
proof -
  let ?e = "demo_spool\<lparr>se_link_before := False\<rparr>"
  have "safe_spool_write (\<lambda>_. False) ?e [97] (sanitize_task_id None) (content_digest [97]) [] =
    (Some (spool_path ?e (spool_name (sanitize_task_id None) (content_digest [97]))),
     [(spool_name (sanitize_task_id None) (content_digest [97]), SpoolFile (length (spool_payload (\<lambda>_. False) [97])) 100)],
     Some (spool_payload (\<lambda>_. False) [97]))"
    by (simp add: safe_spool_write_def demo_spool_def clean_spool_dir_quota_def Let_def)
  from spooled_files_are_confined [OF this] show ?thesis by blast
qed

text \<open>With the path masked the folded text does not depend on the directory, only on whether the text was spooled.\<close>

lemma masked_text_hides_the_path:
  assumes "compact_tool_output un e1 m kh kt task True content es1 = Some (t1, cut1, Some p1, es1')"
    and "compact_tool_output un e2 m kh kt task True content es2 = Some (t2, cut2, Some p2, es2')"
  shows "t1 = t2"
  using assms(1)
proof (cases rule: compact_cases)
  case (Folded written)
  show ?thesis using assms(2)
    by (cases rule: compact_cases) (use Folded in \<open>simp_all add: spool_hint_def\<close>)
qed simp

section \<open>Findings\<close>

text \<open>The quota is enforced before the write: afterwards the directory can hold one file and 10 MB more.\<close>

lemma quota_is_exceeded_by_the_write:
  assumes "clean_spool_dir_quota e es = es" and "length (spool_files es) = 100"
    and "safe_spool_write un e content i d es = (Some p, es', Some w)"
  shows "length (spool_files es') = 101"
  using assms
  by (auto simp: safe_spool_write_def Let_def spool_files_def split: if_splits existing_file.splits option.splits)

text \<open>A negative budget is not an upper bound, and text that is no UTF-8 raises.\<close>

lemma negative_budget_keeps_text:
  "map_option fst (compact_tool_output (\<lambda>_. False) demo_spool (- 1) 1 1 None True [97, 98, 99, 100] []) = Some [97, 98, 99]"
proof -
  have "fold_output (- 1) 1 1 [97, 98, 99, 100] [] = [97, 98, 99]" "encodable [97, 98, 99, 100]" by code_simp+
  then show ?thesis by (simp add: compact_tool_output_def safe_spool_write_def demo_spool_def spool_hint_def Let_def)
qed

lemma surrogates_raise: "compact_tool_output un e 1 1 1 None True [0xD800, 97] es = None"
  by (simp add: compact_tool_output_def encodable_def valid_cp_def)

text \<open>\<open>keep_tail=0\<close> keeps all lines in the tail.\<close>

lemma zero_tail_keeps_everything: "concat (slice_from (- 0) (split_keepends [] s)) = s"
  by (simp add: slice_from_def concat_split_keepends)

end
