(* ===== verification/ConfigLoader.thy ===== *)
theory ConfigLoader
  imports SecurityFilter PathSanitizer
begin

text \<open>
  Paths and settings (\<open>src/hermes_core/config_loader.py\<close>): where a database lives, the value of a
  setting from the environment or from the private \<open>.env\<close> file, the permission check of such files, and
  the configuration file. What the file system, the environment and the YAML parser answer are
  parameters; names and lines are lists of code points.
\<close>

section \<open>Database paths\<close>

text \<open>A child of a directory, \<open>d / name\<close>.\<close>

definition child :: "ppath \<Rightarrow> ustr \<Rightarrow> ppath" where
  "child d name = path_join d (ppath_of name)"

definition data_dir :: "ppath \<Rightarrow> ppath" where
  "data_dir home = child home (u_str ''data'')"

definition DB_NAMES :: "string list" where
  "DB_NAMES = [''state'', ''verification_evidence'', ''kanban'', ''response_store'', ''semantic_cache'']"

definition db_map :: "ppath \<Rightarrow> ustr \<Rightarrow> ppath option" where
  "db_map home name =
     (if name \<in> set (map u_str DB_NAMES) then Some (child (data_dir home) (name @ u_str ''.db'')) else None)"

definition get_hermes_path :: "ppath \<Rightarrow> ustr option \<Rightarrow> ppath" where
  "get_hermes_path home sub = (case sub of Some s \<Rightarrow> (if s = [] then home else child home s) | None \<Rightarrow> home)"

text \<open>\<open>re.match(r"^[a-zA-Z0-9_\-]+$", name)\<close>: the dollar also matches before a final newline.\<close>

definition db_char :: "nat \<Rightarrow> bool" where
  "db_char c \<longleftrightarrow> alnum_ascii c \<or> c = 95 \<or> c = 45"

definition db_name_format :: "ustr \<Rightarrow> bool" where
  "db_name_format s \<longleftrightarrow>
     s \<noteq> [] \<and> (list_all db_char s \<or> (last s = 10 \<and> butlast s \<noteq> [] \<and> list_all db_char (butlast s)))"

datatype db_path_error = EmptyDbName | DbTraversal | DbNameFormat | DbLinkEscape | DbPathEscape | DbResolveFailed

definition get_db_path :: "fs \<Rightarrow> ppath \<Rightarrow> ustr \<Rightarrow> db_path_error + ppath" where
  "get_db_path f home name =
     (if u_strip name = [] then Inl EmptyDbName
      else case db_map home name of
          Some p \<Rightarrow> Inr p
        | None \<Rightarrow>
            (if 47 \<in> set name \<or> 92 \<in> set name \<or> 0 \<in> set name \<or> contains name [46, 46] then Inl DbTraversal
             else if \<not> db_name_format name then Inl DbNameFormat
             else
               let file = name @ u_str ''.db'';
                   data_candidate = child (data_dir home) file;
                   target = (if fs_exists f data_candidate then data_candidate else child home file)
               in case (fs_resolve f target, fs_resolve f home) of
                    (Some dest, Some base) \<Rightarrow>
                      (if fs_is_symlink f target \<and> relative_to dest base = None then Inl DbLinkEscape
                       else if relative_to dest base = None then Inl DbPathEscape else Inr target)
                  | _ \<Rightarrow> Inl DbResolveFailed))"

section \<open>Settings\<close>

definition SENSITIVE_KEY_SUBSTRINGS :: "string list" where
  "SENSITIVE_KEY_SUBSTRINGS = [''KEY'', ''SECRET'', ''TOKEN'', ''PASSWORD'', ''PASS'', ''AUTH'', ''CREDENTIAL'']"

text \<open>Keys are texts below 256 here.\<close>

definition is_sensitive_key :: "string \<Rightarrow> bool" where
  "is_sensitive_key key = list_ex (\<lambda>sub. contains (py_upper key) sub) SENSITIVE_KEY_SUBSTRINGS"

text \<open>A file whose permissions are checked: it does not exist, \<open>stat\<close> fails, \<open>stat\<close> is refused, or its mode.\<close>

datatype checked_file = NoSuchFile | StatFails | StatRefused | FileMode nat

text \<open>\<open>None\<close> is the \<open>PermissionError\<close>, \<open>Some b\<close> what is returned.\<close>

definition check_file_permissions :: "checked_file \<Rightarrow> bool \<Rightarrow> bool option" where
  "check_file_permissions file strict =
     (case file of
        NoSuchFile \<Rightarrow> Some True
      | StatFails \<Rightarrow> Some True
      | StatRefused \<Rightarrow> None
      | FileMode m \<Rightarrow> if m mod 8 \<noteq> 0 then (if strict then None else Some False) else Some True)"

definition strip_char :: "char \<Rightarrow> string \<Rightarrow> string" where
  "strip_char c s = rstrip_chars [c] (lstrip_chars [c] s)"

text \<open>The lines of the file as far as they can be read.\<close>

fun env_lookup :: "string \<Rightarrow> string list \<Rightarrow> string option" where
  "env_lookup key [] = None"
| "env_lookup key (raw # lines) =
     (let line = strip raw
      in if line \<noteq> [] \<and> \<not> starts_with line ''#'' \<and> CHR ''='' \<in> set line then
           (let k = takeWhile (\<lambda>c. c \<noteq> CHR ''='') line; v = drop (length k + 1) line
            in if strip k = key then Some (strip_char (CHR 0x27) (strip_char (CHR 0x22) (strip v)))
               else env_lookup key lines)
         else env_lookup key lines)"

record env_source =
  es_environ :: "string dict"
  es_file :: checked_file
  es_lines :: "string list"

text \<open>\<open>None\<close> is the \<open>PermissionError\<close>.\<close>

definition get_env_var :: "env_source \<Rightarrow> string \<Rightarrow> string option \<Rightarrow> bool \<Rightarrow> bool \<Rightarrow> ustr option option" where
  "get_env_var src key dflt mask_if_sensitive strict =
     (let val = (case map_of (es_environ src) key of
                   Some v \<Rightarrow> Some (Some v)
                 | None \<Rightarrow>
                     (if es_file src = NoSuchFile then Some None
                      else case check_file_permissions (es_file src) strict of
                          None \<Rightarrow> None
                        | Some _ \<Rightarrow> Some (env_lookup key (es_lines src))))
      in case val of
           None \<Rightarrow> None
         | Some None \<Rightarrow> Some (map_option u_str dflt)
         | Some (Some v) \<Rightarrow>
             Some (Some (if mask_if_sensitive \<and> is_sensitive_key key then mask_secret_string 3 2 (u_str v) else u_str v)))"

definition get_secret :: "env_source \<Rightarrow> string \<Rightarrow> string option \<Rightarrow> ustr option option" where
  "get_secret src key dflt = get_env_var src key dflt False True"

text \<open>The configuration file: \<open>content\<close> is its text (\<open>None\<close>: it cannot be read), \<open>yaml\<close> the safe loader (\<open>None\<close>: it fails).\<close>

datatype config_result = ConfigRefused | CustomTags | Config json

definition load_config :: "(string \<Rightarrow> json option) \<Rightarrow> checked_file \<Rightarrow> string option \<Rightarrow> bool \<Rightarrow> config_result" where
  "load_config yaml file content strict =
     (if file = NoSuchFile then Config (JObj [])
      else case check_file_permissions file strict of
          None \<Rightarrow> ConfigRefused
        | Some _ \<Rightarrow>
            (case content of
               None \<Rightarrow> Config (JObj [])
             | Some text \<Rightarrow>
                 (if contains text ''!!'' then CustomTags
                  else case yaml text of
                      None \<Rightarrow> Config (JObj [])
                    | Some v \<Rightarrow> Config (if v \<in> {JNull, JBool False, JInt 0, JFloat 0, JStr [], JArr [], JObj []} then JObj [] else v))))"

section \<open>Lemmas\<close>

lemma db_name_chars: "db_name_format s \<Longrightarrow> list_all (\<lambda>c. db_char c \<or> c = 10) s"
  by (cases s rule: rev_cases) (auto simp: db_name_format_def list_all_iff)

text \<open>What a line says: a key and a value, or nothing.\<close>

definition env_entry :: "string \<Rightarrow> (string \<times> string) list" where
  "env_entry raw =
     (let line = strip raw; k = takeWhile (\<lambda>c. c \<noteq> CHR ''='') line
      in if line \<noteq> [] \<and> \<not> starts_with line ''#'' \<and> CHR ''='' \<in> set line
         then [(strip k, strip_char (CHR 0x27) (strip_char (CHR 0x22) (strip (drop (length k + 1) line))))] else [])"

lemma env_lookup_map: "env_lookup key lines = map_of (concat (map env_entry lines)) key"
  by (induction lines) (auto simp: env_entry_def Let_def)

section \<open>Properties\<close>

text \<open>A database name gives a path only in one of two ways: it is one of the five known names and the path is the fixed
  one, or it is made of letters, digits, underscores and dashes (and possibly one final newline), the path is a file of that
  name directly in the data or the home directory, and what it resolves to lies inside the resolved home.\<close>

theorem database_paths_stay_in_home:
  assumes "get_db_path f home name = Inr p"
  shows "db_map home name = Some p \<or>
    list_all (\<lambda>c. db_char c \<or> c = 10) name \<and>
    p \<in> {child (data_dir home) (name @ u_str ''.db''), child home (name @ u_str ''.db'')} \<and>
    (\<exists>dest base below. fs_resolve f p = Some dest \<and> fs_resolve f home = Some base \<and> relative_to dest base = Some below)"
  using assms db_name_chars [of name]
  by (auto simp: get_db_path_def Let_def split: if_splits option.splits)

definition demo_cfg_fs :: fs where
  "demo_cfg_fs =
     \<lparr>fs_is_symlink = (\<lambda>_. False), fs_readlink = (\<lambda>_. None), fs_resolve = Some, fs_exists = (\<lambda>_. False), fs_home = (\<lambda>_. None),
      fs_tempdir = ppath_of (u_str ''/tmp'')\<rparr>"

lemma demo_db_path:
  "get_db_path demo_cfg_fs (ppath_of (u_str ''/h'')) (u_str ''notes'') = Inr (child (ppath_of (u_str ''/h'')) (u_str ''notes.db''))"
  by code_simp

theorem database_paths_stay_in_home_witness:
  "\<exists>dest base below. fs_resolve demo_cfg_fs (child (ppath_of (u_str ''/h'')) (u_str ''notes.db'')) = Some dest \<and>
     fs_resolve demo_cfg_fs (ppath_of (u_str ''/h'')) = Some base \<and> relative_to dest base = Some below"
proof -
  have "db_map (ppath_of (u_str ''/h'')) (u_str ''notes'') = None" by code_simp
  with database_paths_stay_in_home [OF demo_db_path] show ?thesis by simp
qed

text \<open>A setting is looked up in a fixed order: the environment, then the first line of the file that sets the key, then the
  default; and in strict mode a file that others may access is refused before a byte of it is used, so what it holds makes
  no difference.\<close>

theorem settings_are_looked_up_in_order:
  "get_env_var src key dflt False strict =
    (case map_of (es_environ src) key of
       Some v \<Rightarrow> Some (Some (u_str v))
     | None \<Rightarrow>
         if es_file src = NoSuchFile then Some (map_option u_str dflt)
         else if check_file_permissions (es_file src) strict = None then None
         else (case map_of (concat (map env_entry (es_lines src))) key of
                 Some v \<Rightarrow> Some (Some (u_str v)) | None \<Rightarrow> Some (map_option u_str dflt))) \<and>
   (m mod 8 = 0 \<or> get_env_var (src\<lparr>es_environ := [], es_file := FileMode m, es_lines := lines\<rparr>) key dflt msk True = None)"
  by (auto simp: get_env_var_def env_lookup_map check_file_permissions_def Let_def split: option.splits)

section \<open>Findings\<close>

text \<open>A name with a final newline passes the format check and ends up in the path.\<close>

lemma newline_in_database_name:
  "get_db_path demo_cfg_fs (ppath_of (u_str ''/h'')) (u_str ''notes'' @ [10]) =
     Inr (child (ppath_of (u_str ''/h'')) (u_str ''notes'' @ 10 # u_str ''.db''))"
  by code_simp

text \<open>The five known databases are not checked for links at all.\<close>

lemma known_database_may_be_a_link:
  "get_db_path (f\<lparr>fs_is_symlink := \<lambda>_. True, fs_resolve := \<lambda>_. Some (ppath_of (u_str ''/etc''))\<rparr>) home (u_str ''state'') =
     Inr (child (data_dir home) (u_str ''state.db''))"
  by (simp add: get_db_path_def db_map_def DB_NAMES_def u_str_def u_strip_def u_space_def of_char_def)

text \<open>A file the group may read and write passes, also in strict mode.\<close>

lemma group_access_passes: "check_file_permissions (FileMode 432) True = Some True"
  by (simp add: check_file_permissions_def)

text \<open>The masking of a value depends on words in the key that are not about secrets.\<close>

lemma author_is_sensitive: "is_sensitive_key ''AUTHOR_NAME''"
  by code_simp

end
