(* ===== verification/DbPool.thy ===== *)
theory DbPool
  imports ConfigLoader
begin

text \<open>
  The SQLite helpers (\<open>src/hermes_core/db_pool.py\<close>): the guard on read queries, and the write
  transaction with retries. The database is a parameter: what a connection, a statement or the
  callback of a transaction answers. Effects on the connection are recorded as a trace.
  Statements are texts below 256.
\<close>

section \<open>Opening a connection\<close>

datatype db_exn = DbMissing | DbOpenFailed

text \<open>\<open>exists\<close>: the file is there; \<open>connects\<close>: \<open>sqlite3.connect\<close> succeeds. The trace says how the file was opened.\<close>

datatype db_effect = CreatedPrivate | OpenedReadOnly | OpenedReadWrite | Executed string | Attempted nat | Committed | RolledBack | Slept rat | Closed

definition get_db_connection :: "bool \<Rightarrow> bool \<Rightarrow> bool \<Rightarrow> db_effect list \<times> db_exn option" where
  "get_db_connection exists connects read_only =
     (if read_only then
        (if \<not> exists then ([], Some DbMissing)
         else if connects then ([OpenedReadOnly], None) else ([], Some DbOpenFailed))
      else
        let made = (if exists then [] else [CreatedPrivate])
        in if connects then (made @ [OpenedReadWrite], None) else (made, Some DbOpenFailed))"

section \<open>The guard on queries\<close>

datatype query_refusal =
    QueryEmpty | MultipleStatements | WriteVerb string | ForbiddenKeyword string | PragmaAssignment | PragmaSyntax
  | PragmaNotAllowed string | ParamsType | NameErrorRe

definition DISALLOWED_VERBS :: "string list" where
  "DISALLOWED_VERBS = [''DROP'', ''TRUNCATE'', ''DELETE'', ''UPDATE'', ''INSERT'', ''ALTER'', ''GRANT'', ''REVOKE'']"

definition FORBIDDEN_KEYWORDS :: "string list" where
  "FORBIDDEN_KEYWORDS = [''ATTACH'', ''DETACH'', ''VACUUM'', ''ANALYZE'']"

definition ALLOWED_PRAGMAS :: "string list" where
  "ALLOWED_PRAGMAS =
     [''TABLE_INFO'', ''INDEX_LIST'', ''INDEX_INFO'', ''FOREIGN_KEY_LIST'', ''USER_VERSION'', ''BUSY_TIMEOUT'', ''QUICK_CHECK'',
      ''INTEGRITY_CHECK'', ''COLLATION_LIST'', ''DATABASE_LIST'']"

text \<open>\<open>PRAGMA\s+([A-Za-z0-9_]+)\<close>.\<close>

definition PRAGMA_RE :: regex where
  "PRAGMA_RE = seqs [lit ''PRAGMA'', plus space, Grp 1 (plus (Cls (\<lambda>c. alnum_ascii c \<or> c = 95)))]"

text \<open>The module uses \<open>re\<close> without importing it; \<open>re_bound\<close> says whether the name is bound.\<close>

definition re_bound :: bool where "re_bound = False"

definition pragma_check :: "bool \<Rightarrow> string \<Rightarrow> query_refusal option" where
  "pragma_check bound upper_q =
     (if \<not> contains upper_q ''PRAGMA'' then None
      else if CHR ''='' \<in> set upper_q then Some PragmaAssignment
      else if \<not> bound then Some NameErrorRe
      else case re_search (\<lambda>_. False) PRAGMA_RE (u_str upper_q) of
          None \<Rightarrow> Some PragmaSyntax
        | Some (_, gs) \<Rightarrow>
            (let cmd = py_upper (map char_of (group gs 1))
             in if cmd \<in> set ALLOWED_PRAGMAS then None else Some (PragmaNotAllowed cmd)))"

definition statements_of :: "string \<Rightarrow> string list" where
  "statements_of q = filter (\<lambda>s. s \<noteq> []) (map strip (split_on CHR '';'' q))"

definition first_word :: "string list \<Rightarrow> string" where
  "first_word ss = (case ss of [] \<Rightarrow> [] | s # _ \<Rightarrow> py_upper (hd (split_ws s)))"

definition query_check :: "bool \<Rightarrow> string \<Rightarrow> bool \<Rightarrow> query_refusal option" where
  "query_check bound query params_ok =
     (if query = [] then Some QueryEmpty
      else
        let q = strip query; ss = statements_of q; upper_q = py_upper q
        in if 1 < length ss then Some MultipleStatements
           else if first_word ss \<in> set DISALLOWED_VERBS then Some (WriteVerb (first_word ss))
           else case find (contains upper_q) FORBIDDEN_KEYWORDS of
               Some kw \<Rightarrow> Some (ForbiddenKeyword kw)
             | None \<Rightarrow>
                 (case pragma_check bound upper_q of
                    Some r \<Rightarrow> Some r
                  | None \<Rightarrow> if params_ok then None else Some ParamsType))"

datatype query_result = QueryRefused query_refusal | QueryDbError db_exn | QueryRaised | QueryRows "string list"

text \<open>\<open>run\<close> is what executing the statement gives: the rows, or an exception.\<close>

definition execute_query ::
  "bool \<Rightarrow> bool \<Rightarrow> (string \<Rightarrow> string list option) \<Rightarrow> string \<Rightarrow> bool \<Rightarrow> db_effect list \<times> query_result" where
  "execute_query exists connects run query params_ok =
     (case query_check re_bound query params_ok of
        Some r \<Rightarrow> ([], QueryRefused r)
      | None \<Rightarrow>
          (case get_db_connection exists connects True of
             (tr, Some x) \<Rightarrow> (tr, QueryDbError x)
           | (tr, None) \<Rightarrow>
               (tr @ [Executed (strip query), Closed],
                case run (strip query) of None \<Rightarrow> QueryRaised | Some rows \<Rightarrow> QueryRows rows)))"

section \<open>Write transactions\<close>

text \<open>What one attempt does, the callback and the commit that follows it: it returns, the database is locked or busy, or
  anything else is raised.\<close>

datatype 'v write_try = Returns 'v | LockedOrBusy | Raises

datatype 'v write_result = WriteReturned 'v | WriteNone | WriteRaised | WriteDbError db_exn

text \<open>The loop from a given attempt on; the second component is \<open>None\<close> when all attempts are used up.\<close>

function write_attempts :: "(nat \<Rightarrow> 'v write_try) \<Rightarrow> nat \<Rightarrow> nat \<Rightarrow> db_effect list \<times> 'v write_result option" where
  "write_attempts cb n k =
     (if n \<le> k then ([], None)
      else
        let finally = (if k = n - 1 then [Closed] else [])
        in case cb k of
             Returns v \<Rightarrow> ([Attempted k, Committed] @ finally, Some (WriteReturned v))
           | Raises \<Rightarrow> ([Attempted k, RolledBack] @ finally, Some WriteRaised)
           | LockedOrBusy \<Rightarrow>
               (case write_attempts cb n (k + 1) of
                  (tr, r) \<Rightarrow> ([Attempted k, RolledBack, Slept (2 ^ k / 20)] @ finally @ tr, r)))"
  by auto
termination by (relation "measure (\<lambda>(cb, n, k). n - k)") auto

declare write_attempts.simps [simp del]

definition execute_write :: "bool \<Rightarrow> bool \<Rightarrow> (nat \<Rightarrow> 'v write_try) \<Rightarrow> nat \<Rightarrow> db_effect list \<times> 'v write_result" where
  "execute_write exists connects cb max_retries =
     (case get_db_connection exists connects False of
        (tr, Some x) \<Rightarrow> (tr, WriteDbError x)
      | (tr, None) \<Rightarrow>
          (case write_attempts cb max_retries 0 of
             (tr', Some r) \<Rightarrow> (tr @ tr', r)
           | (tr', None) \<Rightarrow> (tr @ tr' @ [Closed], WriteNone)))"

section \<open>Lemmas\<close>

lemma statement_count: "query_check b q p = None \<Longrightarrow> length (statements_of (strip q)) \<le> 1"
  by (auto simp: query_check_def Let_def split: if_splits)

text \<open>The first attempt that is not turned away decides.\<close>

fun decided :: "'v write_try \<Rightarrow> 'v write_result" where
  "decided (Returns v) = WriteReturned v"
| "decided Raises = WriteRaised"
| "decided LockedOrBusy = WriteNone"

lemma write_attempts_spec:
  "snd (write_attempts cb n k) = map_option (\<lambda>i. decided (cb i)) (find (\<lambda>i. cb i \<noteq> LockedOrBusy) [k..<n]) \<and>
   length (filter (\<lambda>x. x = Committed) (fst (write_attempts cb n k))) =
     (case find (\<lambda>i. cb i \<noteq> LockedOrBusy) [k..<n] of Some i \<Rightarrow> (case cb i of Returns v \<Rightarrow> 1 | _ \<Rightarrow> 0) | None \<Rightarrow> 0)"
proof (induction cb n k rule: write_attempts.induct)
  case (1 cb n k)
  show ?case
  proof (cases "n \<le> k")
    case True
    then show ?thesis by (simp add: write_attempts.simps)
  next
    case False
    then have u: "[k..<n] = k # [k + 1..<n]" by (simp add: upt_conv_Cons)
    show ?thesis
    proof (cases "cb k")
      case LockedOrBusy
      obtain tr r where t: "write_attempts cb n (k + 1) = (tr, r)" by (cases "write_attempts cb n (k + 1)")
      have "write_attempts cb n k = ([Attempted k, RolledBack, Slept (2 ^ k / 20)] @ (if k = n - 1 then [Closed] else []) @ tr, r)"
        unfolding write_attempts.simps [of cb n k] t using False LockedOrBusy by (simp only: Let_def if_False write_try.case prod.case)
      then show ?thesis using 1 [OF False refl LockedOrBusy] LockedOrBusy unfolding t by (simp add: u)
    qed (use False in \<open>simp_all add: write_attempts.simps [of cb n k] u\<close>)
  qed
qed

section \<open>Properties\<close>

text \<open>A read query reaches the database only through a connection opened read-only, as one statement whose first word is no
  write verb, and the connection is closed whatever the statement does; a query that is refused touches no file.\<close>

theorem queries_run_read_only:
  "(case execute_query exists connects run query params_ok of
      (tr, QueryRefused r) \<Rightarrow> tr = []
    | (tr, QueryDbError x) \<Rightarrow> tr = []
    | (tr, _) \<Rightarrow> tr = [OpenedReadOnly, Executed (strip query), Closed] \<and> length (statements_of (strip query)) \<le> 1 \<and>
        first_word (statements_of (strip query)) \<notin> set DISALLOWED_VERBS)"
  using statement_count [of re_bound query params_ok]
  by (auto simp: execute_query_def get_db_connection_def query_check_def Let_def split: option.splits if_splits)

text \<open>A write commits at most once: the result is that of the first attempt that is not turned away as locked or busy, a
  value if it returned (and then exactly one commit happened), an exception if it raised (and then none did); attempts after it
  are not made. When all attempts are turned away nothing is committed.\<close>

theorem writes_commit_at_most_once:
  "(case execute_write exists connects cb n of
      (tr, r) \<Rightarrow>
        (case (snd (get_db_connection exists connects False), find (\<lambda>i. cb i \<noteq> LockedOrBusy) [0..<n]) of
           (Some x, _) \<Rightarrow> r = WriteDbError x
         | (None, Some i) \<Rightarrow> r = decided (cb i)
         | (None, None) \<Rightarrow> r = WriteNone) \<and>
        length (filter (\<lambda>x. x = Committed) tr) = (case r of WriteReturned _ \<Rightarrow> 1 | _ \<Rightarrow> 0))"
proof -
  obtain tr' r' where w: "write_attempts cb n 0 = (tr', r')" by (cases "write_attempts cb n 0")
  have s: "r' = map_option (\<lambda>i. decided (cb i)) (find (\<lambda>i. cb i \<noteq> LockedOrBusy) [0..<n])"
    "length (filter (\<lambda>x. x = Committed) tr') =
      (case find (\<lambda>i. cb i \<noteq> LockedOrBusy) [0..<n] of Some i \<Rightarrow> (case cb i of Returns v \<Rightarrow> 1 | _ \<Rightarrow> 0) | None \<Rightarrow> 0)"
    using write_attempts_spec [of cb n 0] w by simp_all
  show ?thesis
  proof (cases "find (\<lambda>i. cb i \<noteq> LockedOrBusy) [0..<n]")
    case None
    then show ?thesis using s w by (auto simp: execute_write_def get_db_connection_def split: if_splits)
  next
    case (Some i)
    then have "cb i \<noteq> LockedOrBusy" by (auto simp: find_Some_iff)
    then show ?thesis using s w Some
      by (cases "cb i") (auto simp: execute_write_def get_db_connection_def split: if_splits)
  qed
qed

section \<open>Findings\<close>

text \<open>Every query with the word PRAGMA and no equals sign ends in a \<open>NameError\<close>: the white list is never reached.\<close>

lemma pragma_queries_always_fail: "query_check re_bound ''PRAGMA table_info(t)'' True = Some NameErrorRe"
  by code_simp

lemma pragma_would_be_allowed: "query_check True ''PRAGMA table_info(t)'' True = None"
  by code_simp

text \<open>The verb test looks at the first word only; a write behind \<open>WITH\<close>, or \<open>REPLACE\<close>, passes the guard (the read-only
  connection is what stops it).\<close>

lemma write_behind_with_passes:
  "query_check re_bound ''WITH x AS (SELECT 1) DELETE FROM t'' True = None \<and> query_check re_bound ''REPLACE INTO t VALUES (1)'' True = None"
  by code_simp

text \<open>The keyword test is on substrings: a harmless column name is refused.\<close>

lemma attachments_column_is_refused:
  "query_check re_bound ''SELECT attachments FROM mail'' True = Some (ForbiddenKeyword ''ATTACH'')"
  by code_simp

text \<open>A semicolon inside a literal counts as a second statement.\<close>

lemma semicolon_literal_is_refused: "query_check re_bound (''SELECT * FROM t WHERE a = '' @ [CHR 0x27] @ ''x;y'' @ [CHR 0x27]) True = Some MultipleStatements"
  by code_simp

text \<open>A write that succeeds before the last attempt leaves the connection open; one that is always turned away returns
  \<open>None\<close> as if it had succeeded.\<close>

lemma early_success_leaks_connection:
  "execute_write True True (\<lambda>k. Returns ()) 3 = ([OpenedReadWrite, Attempted 0, Committed], WriteReturned ())"
  by (simp add: execute_write_def get_db_connection_def write_attempts.simps)

lemma exhausted_retries_return_none: "snd (execute_write True True (\<lambda>k. LockedOrBusy :: unit write_try) 1) = WriteNone"
  by (simp add: execute_write_def get_db_connection_def write_attempts.simps)

end
