(* ===== verification/EvidenceLog.thy ===== *)
theory EvidenceLog
  imports ConfigLoader McpBridge
begin

text \<open>
  The evidence ledger (\<open>src/hermes_core/evidence_logger.py\<close>): bounded and redacted records of what was
  executed, kept in a table of at most 10000 rows, and structured log events. Values are texts as lists
  of code points; the table is the list of its rows in the order of their ids with the counter of
  \<open>AUTOINCREMENT\<close>; whether the database answers is a parameter (the failure is logged and swallowed).
  The permissions of the new file and the logger's handlers are not modelled.
\<close>

definition MAX_TASK_ID_LENGTH :: nat where "MAX_TASK_ID_LENGTH = 128"
definition MAX_TOOL_NAME_LENGTH :: nat where "MAX_TOOL_NAME_LENGTH = 128"
definition MAX_SUMMARY_BYTES :: nat where "MAX_SUMMARY_BYTES = 65536"
definition MAX_JSON_DEPTH :: nat where "MAX_JSON_DEPTH = 8"
definition MAX_EVIDENCE_ROWS :: nat where "MAX_EVIDENCE_ROWS = 10000"

section \<open>Events\<close>

text \<open>The recursion stops at the limit.\<close>

function check_json_depth :: "nat \<Rightarrow> json \<Rightarrow> bool" where
  "check_json_depth d v =
     (if MAX_JSON_DEPTH < d then False
      else case v of
          JObj kvs \<Rightarrow> list_all (\<lambda>(k, w). check_json_depth (d + 1) w) kvs
        | JArr vs \<Rightarrow> list_all (check_json_depth (d + 1)) vs
        | _ \<Rightarrow> True)"
  by auto
termination by (relation "measure (\<lambda>(d, v). MAX_JSON_DEPTH + 1 - d)") auto

declare check_json_depth.simps [simp del]

text \<open>The message and the details that reach the log; empty details count as none.\<close>

definition log_event_record :: "uni \<Rightarrow> ustr \<Rightarrow> (string \<times> json) list \<Rightarrow> ustr \<times> json option" where
  "log_event_record un message details =
     (sanitize_secrets un message True,
      if details = [] then None
      else Some (if \<not> check_json_depth 1 (JObj details)
                 then JObj [(''error'', JStr (''JSON depth exceeds limit of '' @ nat_str MAX_JSON_DEPTH))]
                 else sanitize_dict un (JObj details) True))"

section \<open>The ledger\<close>

record evidence_row =
  er_id :: nat
  er_task_id :: ustr
  er_tool_name :: ustr
  er_exit_code :: int
  er_status :: ustr
  er_summary :: ustr
  er_recorded_at :: time

record evidence_db =
  ed_next :: nat
  ed_rows :: "evidence_row list"

definition truncated_suffix :: ustr where "truncated_suffix = u_str ''... [TRUNCATED]''"

definition bounded_summary :: "uni \<Rightarrow> ustr \<Rightarrow> ustr option" where
  "bounded_summary un s =
     (let clean = sanitize_secrets un s True; bs = utf8_encode clean
      in if \<not> list_all valid_cp clean then None
         else if MAX_SUMMARY_BYTES < length bs then Some (utf8_decode_ignore (take MAX_SUMMARY_BYTES bs) @ truncated_suffix)
         else Some clean)"

text \<open>\<open>DELETE ... WHERE id NOT IN (SELECT id ... ORDER BY id DESC LIMIT 10000)\<close>.\<close>

definition retain :: "nat \<Rightarrow> evidence_row list \<Rightarrow> evidence_row list" where
  "retain n rows =
     filter (\<lambda>r. er_id r \<in> set (take n (rev (sort_key (\<lambda>i. i) (map er_id rows))))) rows"

text \<open>\<open>exit_code\<close>: \<open>None\<close> when \<open>int\<close> of it raises; \<open>db_ok\<close>: the database can be opened and written. \<open>None\<close> is the
  encoding error, raised before the database is touched.\<close>

definition record_evidence ::
  "uni \<Rightarrow> time \<Rightarrow> bool \<Rightarrow> ustr \<Rightarrow> ustr \<Rightarrow> int option \<Rightarrow> ustr \<Rightarrow> ustr \<Rightarrow> evidence_db \<Rightarrow> evidence_db option" where
  "record_evidence un now db_ok task_id tool exit_code status summary db =
     (case bounded_summary un summary of
        None \<Rightarrow> None
      | Some clean \<Rightarrow>
          (case exit_code of
             None \<Rightarrow> Some db
           | Some code \<Rightarrow>
               (if \<not> db_ok then Some db
                else
                  let row = \<lparr>er_id = ed_next db, er_task_id = take MAX_TASK_ID_LENGTH task_id,
                             er_tool_name = take MAX_TOOL_NAME_LENGTH tool, er_exit_code = code,
                             er_status = take 64 status, er_summary = clean, er_recorded_at = now\<rparr>
                  in Some \<lparr>ed_next = ed_next db + 1, ed_rows = retain MAX_EVIDENCE_ROWS (ed_rows db @ [row])\<rparr>)))"

text \<open>\<open>ORDER BY id DESC LIMIT n\<close>; a negative limit is none. A missing or failing database gives no rows.\<close>

definition get_recent_evidence :: "bool \<Rightarrow> int \<Rightarrow> evidence_db \<Rightarrow> evidence_row list" where
  "get_recent_evidence db_ok limit db =
     (if \<not> db_ok then []
      else let rows = rev (sort_key er_id (ed_rows db)) in if limit < 0 then rows else take (nat limit) rows)"

section \<open>Lemmas\<close>

definition row_bounded :: "evidence_row \<Rightarrow> bool" where
  "row_bounded r \<longleftrightarrow>
     length (er_task_id r) \<le> 128 \<and> length (er_tool_name r) \<le> 128 \<and> length (er_status r) \<le> 64 \<and>
     length (utf8_encode (er_summary r)) \<le> 65536 + 15"

text \<open>The rows are in the order of their ids, all below the counter, at most 10000 and each within its bounds.\<close>

definition evidence_ok :: "evidence_db \<Rightarrow> bool" where
  "evidence_ok db \<longleftrightarrow>
     sorted_wrt (<) (map er_id (ed_rows db)) \<and> (\<forall>r \<in> set (ed_rows db). er_id r < ed_next db \<and> row_bounded r) \<and>
     length (ed_rows db) \<le> MAX_EVIDENCE_ROWS"

lemma strict_sorted_sort: "sorted_wrt (<) (xs :: nat list) \<Longrightarrow> sort_key (\<lambda>i. i) xs = xs"
  by (simp add: sorted_sort_id strict_sorted_imp_sorted)

lemma filter_last:
  assumes "sorted_wrt (<) (map er_id rows)"
  shows "filter (\<lambda>r. er_id r \<in> er_id ` set (drop k rows)) rows = drop k rows"
proof -
  have "sorted_wrt (<) (map er_id (take k rows) @ map er_id (drop k rows))"
    using assms by (metis append_take_drop_id map_append)
  then have d: "\<forall>x \<in> set (take k rows). \<forall>y \<in> set (drop k rows). er_id x < er_id y" by (simp add: sorted_wrt_append)
  have "filter (\<lambda>r. er_id r \<in> er_id ` set (drop k rows)) (take k rows) = []"
    using d by (fastforce simp: filter_empty_conv)
  moreover have "filter (\<lambda>r. er_id r \<in> er_id ` set (drop k rows)) (drop k rows) = drop k rows" by (rule filter_True) simp
  ultimately have "filter (\<lambda>r. er_id r \<in> er_id ` set (drop k rows)) (take k rows @ drop k rows) = drop k rows"
    unfolding filter_append by simp
  then show ?thesis by simp
qed

lemma retain_newest:
  assumes "sorted_wrt (<) (map er_id rows)"
  shows "retain n rows = drop (length rows - n) rows"
proof -
  have "set (take n (rev (map er_id rows))) = er_id ` set (drop (length rows - n) rows)"
    by (simp add: take_rev drop_map)
  then show ?thesis using filter_last [OF assms] by (simp add: retain_def strict_sorted_sort [OF assms])
qed

lemma summary_bytes: "bounded_summary un s = Some c \<Longrightarrow> length (utf8_encode c) \<le> 65536 + 15"
proof -
  assume a: "bounded_summary un s = Some c"
  let ?clean = "sanitize_secrets un s True"
  have v: "\<forall>c \<in> set ?clean. valid_cp c" using a by (auto simp: bounded_summary_def Let_def list_all_iff split: if_splits)
  have m: "length (utf8_encode truncated_suffix) = 15" by code_simp
  from utf8_cut [OF v, of MAX_SUMMARY_BYTES] have "length (utf8_encode (utf8_decode_ignore (take MAX_SUMMARY_BYTES (utf8_encode ?clean)))) \<le> MAX_SUMMARY_BYTES"
    by blast
  then show ?thesis using a m
    by (auto simp: bounded_summary_def Let_def MAX_SUMMARY_BYTES_def utf8_encode_def split: if_splits)
qed

text \<open>The row that a record would add.\<close>

definition evidence_row_of :: "nat \<Rightarrow> time \<Rightarrow> ustr \<Rightarrow> ustr \<Rightarrow> int \<Rightarrow> ustr \<Rightarrow> ustr \<Rightarrow> evidence_row" where
  "evidence_row_of i now t n c st clean =
     \<lparr>er_id = i, er_task_id = take 128 t, er_tool_name = take 128 n, er_exit_code = c, er_status = take 64 st,
      er_summary = clean, er_recorded_at = now\<rparr>"

lemma record_rows:
  assumes "evidence_ok db"
  shows "record_evidence un now ok t n code st s db =
    (case bounded_summary un s of
       None \<Rightarrow> None
     | Some clean \<Rightarrow> Some (case code of
         None \<Rightarrow> db
       | Some c \<Rightarrow> if \<not> ok then db
           else \<lparr>ed_next = ed_next db + 1,
                 ed_rows = drop (length (ed_rows db) + 1 - 10000) (ed_rows db @ [evidence_row_of (ed_next db) now t n c st clean])\<rparr>))"
proof -
  have "sorted_wrt (<) (map er_id (ed_rows db @ [evidence_row_of (ed_next db) now t n c st clean]))" for c clean
    using assms by (auto simp: evidence_ok_def sorted_wrt_append evidence_row_of_def)
  from retain_newest [OF this] show ?thesis
    by (simp add: record_evidence_def evidence_row_of_def Let_def MAX_TASK_ID_LENGTH_def MAX_TOOL_NAME_LENGTH_def
        MAX_EVIDENCE_ROWS_def split: option.splits)
qed

lemma record_outcomes:
  assumes "record_evidence un now ok t n code st s db = Some db'" and "evidence_ok db"
  obtains (Unchanged) "db' = db"
  | (Written) c clean where "code = Some c" "ok" "bounded_summary un s = Some clean"
      "db' = \<lparr>ed_next = ed_next db + 1,
              ed_rows = drop (length (ed_rows db) + 1 - 10000) (ed_rows db @ [evidence_row_of (ed_next db) now t n c st clean])\<rparr>"
  using assms(1) unfolding record_rows [OF assms(2)] by (auto split: option.splits if_splits)

text \<open>A run of the ledger: records of any kind, each in its own environment, failing ones included.\<close>

inductive evidence_run :: "evidence_db \<Rightarrow> evidence_db \<Rightarrow> bool" where
  "evidence_run db db"
| "evidence_run db db1 \<Longrightarrow> record_evidence un now ok t n code st s db1 = Some db2 \<Longrightarrow> evidence_run db db2"

inductive_cases evidence_runE: "evidence_run db db'"

lemma ledger_step:
  assumes "record_evidence un now ok t n code st s db = Some db'" and ok: "evidence_ok db"
  shows "evidence_ok db'"
  using assms
proof (cases rule: record_outcomes)
  case (Written c clean)
  let ?row = "evidence_row_of (ed_next db) now t n c st clean"
  have "sorted_wrt (<) (map er_id (ed_rows db @ [?row]))"
    using ok by (auto simp: evidence_ok_def sorted_wrt_append evidence_row_of_def)
  then have "sorted_wrt (<) (map er_id (drop (length (ed_rows db) + 1 - 10000) (ed_rows db @ [?row])))"
    unfolding drop_map [symmetric] by (rule sorted_wrt_drop)
  moreover have "row_bounded ?row"
    using summary_bytes [OF Written(3)] by (simp add: row_bounded_def evidence_row_of_def)
  then have "\<forall>r \<in> set (ed_rows db @ [?row]). er_id r < ed_next db + 1 \<and> row_bounded r"
    using ok by (auto simp: evidence_ok_def evidence_row_of_def)
  ultimately show ?thesis
    unfolding Written(4) by (auto simp: evidence_ok_def MAX_EVIDENCE_ROWS_def dest!: in_set_dropD)
qed (use ok in simp)

lemma ledger_run: "evidence_run db db' \<Longrightarrow> evidence_ok db \<Longrightarrow> evidence_ok db'"
  by (induction rule: evidence_run.induct) (auto intro: ledger_step)

section \<open>The depth test\<close>

text \<open>How deep a value is nested, itself included.\<close>

fun json_depth :: "json \<Rightarrow> nat" where
  "json_depth (JObj kvs) = 1 + foldr max (map (\<lambda>(k, v). json_depth v) kvs) 0"
| "json_depth (JArr vs) = 1 + foldr max (map json_depth vs) 0"
| "json_depth _ = 1"

lemma foldr_max_le: "foldr max xs 0 \<le> (n :: nat) \<longleftrightarrow> (\<forall>x \<in> set xs. x \<le> n)"
  by (induction xs) auto

lemma foldr_max_add: "d + foldr max xs 0 \<le> (n :: nat) \<longleftrightarrow> d \<le> n \<and> (\<forall>x \<in> set xs. d + x \<le> n)"
  by (induction xs) auto

lemma depth_positive: "0 < json_depth v"
  by (cases v) auto

lemma depth_check: "check_json_depth d v \<longleftrightarrow> d + json_depth v \<le> MAX_JSON_DEPTH + 1"
proof (induction d v rule: check_json_depth.induct)
  case (1 d v)
  show ?case
  proof (cases "MAX_JSON_DEPTH < d")
    case True
    then show ?thesis using depth_positive [of v] by (simp add: check_json_depth.simps [of d v])
  next
    case False
    show ?thesis
    proof (cases v)
      case (JArr vs)
      have "\<And>w. w \<in> set vs \<Longrightarrow> check_json_depth (d + 1) w \<longleftrightarrow> d + 1 + json_depth w \<le> MAX_JSON_DEPTH + 1"
        by (rule 1(1) [OF False JArr])
      then show ?thesis
        using False by (auto simp: JArr check_json_depth.simps [of d "JArr vs"] list_all_iff foldr_max_add)
    next
      case (JObj kvs)
      have "\<And>k w. (k, w) \<in> set kvs \<Longrightarrow> check_json_depth (d + 1) w \<longleftrightarrow> d + 1 + json_depth w \<le> MAX_JSON_DEPTH + 1"
        by (rule 1(2) [OF False JObj _ refl])
      then show ?thesis
        using False by (fastforce simp: JObj check_json_depth.simps [of d "JObj kvs"] list_all_iff foldr_max_add)
    qed (use False in \<open>subst check_json_depth.simps, simp\<close>)+
  qed
qed

section \<open>Properties\<close>

text \<open>C39: after any run of records, failing ones included, the ledger is well formed (the ids of its rows increase and are
  below the counter, there are at most 10000 rows and every row is within its bounds, the summary at 64 KB and 15 bytes), and
  the next record either changes nothing, when the exit code is no number or the database cannot be written, or leaves
  exactly the newest 10000 of the old rows and its own, its own last: the next id, the texts cut at 128, 128 and 64
  characters, the code, the redacted summary and the time. (A summary that cannot be encoded raises, and the call returns
  nothing.)\<close>

theorem ledger_stays_bounded:
  assumes "evidence_run db0 db" and "evidence_ok db0" and "record_evidence un now ok t n code st s db = Some db'"
  shows "evidence_ok db \<and> evidence_ok db' \<and>
    (case code of
       None \<Rightarrow> db' = db
     | Some c \<Rightarrow> if ok
         then (\<exists>clean. bounded_summary un s = Some clean \<and> ed_next db' = ed_next db + 1 \<and>
                ed_rows db' = drop (length (ed_rows db) + 1 - 10000)
                  (ed_rows db @ [\<lparr>er_id = ed_next db, er_task_id = take 128 t, er_tool_name = take 128 n, er_exit_code = c,
                                  er_status = take 64 st, er_summary = clean, er_recorded_at = now\<rparr>]))
         else db' = db)"
proof -
  have ok: "evidence_ok db" by (rule ledger_run [OF assms(1,2)])
  from assms(3) ok ledger_step [OF assms(3) ok] show ?thesis
    unfolding record_rows [OF ok] by (auto simp: evidence_row_of_def split: option.splits)
qed

definition demo_ledger :: evidence_db where "demo_ledger = \<lparr>ed_next = 1, ed_rows = []\<rparr>"

lemma demo_record:
  "record_evidence (\<lambda>_. False) 5 True [97] [98] (Some 0) [111] [120] demo_ledger =
     Some \<lparr>ed_next = 2, ed_rows = [\<lparr>er_id = 1, er_task_id = [97], er_tool_name = [98], er_exit_code = 0, er_status = [111],
       er_summary = [120], er_recorded_at = 5\<rparr>]\<rparr>"
proof -
  have "bounded_summary (\<lambda>_. False) [120] = Some [120]" by code_simp
  then show ?thesis
    by (simp add: record_evidence_def demo_ledger_def retain_def MAX_EVIDENCE_ROWS_def MAX_TASK_ID_LENGTH_def MAX_TOOL_NAME_LENGTH_def)
qed

theorem ledger_stays_bounded_witness:
  "evidence_ok \<lparr>ed_next = 2, ed_rows = [\<lparr>er_id = 1, er_task_id = [97], er_tool_name = [98], er_exit_code = 0, er_status = [111],
       er_summary = [120], er_recorded_at = 5\<rparr>]\<rparr>"
proof -
  have "evidence_ok demo_ledger" by (simp add: evidence_ok_def demo_ledger_def)
  from ledger_stays_bounded [OF evidence_run.intros(1) this demo_record] show ?thesis by (simp add: demo_ledger_def)
qed

text \<open>What is read back is the newest rows first, as many as asked for, and directly after a record is written it comes
  first.\<close>

lemma recent_evidence_is_newest_first:
  assumes "evidence_ok db" and "0 \<le> limit"
  shows "get_recent_evidence True limit db = rev (drop (length (ed_rows db) - nat limit) (ed_rows db))"
proof -
  have "sort_key er_id (ed_rows db) = ed_rows db"
    using assms(1) by (intro sort_key_id_if_sorted) (simp add: evidence_ok_def strict_sorted_imp_sorted)
  then show ?thesis using assms(2) by (simp add: get_recent_evidence_def take_rev)
qed

text \<open>The depth test of the details, which stops its recursion at the limit, accepts exactly the values nested at most
  eight deep.\<close>

theorem depth_test_is_exact: "check_json_depth 1 v \<longleftrightarrow> json_depth v \<le> 8"
  by (simp add: depth_check MAX_JSON_DEPTH_def)

section \<open>Findings\<close>

text \<open>A cut summary is longer than the limit: the marker comes on top.\<close>

lemma cut_summary_exceeds_limit: "length (utf8_encode (replicate 65536 97 @ truncated_suffix)) = 65551"
proof -
  have "length (utf8_encode (replicate n 97)) = n" for n by (induction n) (simp_all add: utf8_encode_def enc_cp_def)
  moreover have "length (utf8_encode truncated_suffix) = 15" by code_simp
  ultimately show ?thesis by (simp add: utf8_encode_def)
qed

end

