(* ===== verification/Diagnostics.thy ===== *)
theory Diagnostics
  imports FastPath PyJson
begin

text \<open>
  The diagnostic engine (\<open>src/capabilities/agent_loop_recover/diagnostic_recover_engine.py\<close>): what a failed
  command printed is turned into a signature by the first of eight rules that applies, and repairs are
  counted per signature, with escalation after two. Texts are lists of code points; digits are the
  ASCII ones. The directive keeps its fields; its markdown rendering, which repeats them, is not modelled.
\<close>

section \<open>Signatures\<close>

datatype error_category =
    SYNTAX_ERROR | MODULE_NOT_FOUND | FILE_NOT_FOUND | PERMISSION_DENIED | SQLITE_ERROR | NETWORK_TIMEOUT
  | TYPE_OR_VALUE_ERROR | UNKNOWN_ERROR

record diagnostic =
  dg_category :: error_category
  dg_exception_type :: ustr
  dg_summary :: ustr
  dg_file_path :: "ustr option"
  dg_line_number :: "nat option"
  dg_function_name :: "ustr option"
  dg_matched_text :: ustr
  dg_suggested_action :: ustr
  dg_signature_hash :: ustr

definition any_char :: regex where "any_char = Cls (\<lambda>_. True)"
definition line_char :: regex where "line_char = Cls (\<lambda>c. c \<noteq> 10)"
definition lazily :: "regex \<Rightarrow> regex" where "lazily r = Rep r 0 None False"
definition newline :: regex where "newline = Cls (\<lambda>c. c = 10)"
definition word_char :: "uni \<Rightarrow> regex" where "word_char un = Cls (u_word un)"
definition ascii_letter :: regex where "ascii_letter = Cls (\<lambda>c. (65 \<le> c \<and> c \<le> 90) \<or> (97 \<le> c \<and> c \<le> 122))"
definition quote_char :: "nat \<Rightarrow> bool" where "quote_char c \<longleftrightarrow> c = 34 \<or> c = 39"

text \<open>\<open>, line (\d+)(?:, in (\w+))?\<close>, with its two groups.\<close>

definition line_part :: "uni \<Rightarrow> regex" where
  "line_part un =
     seqs [lit '', line '', Grp 2 (plus (Cls u_digit)), opt (seqs [lit '', in '', Grp 3 (plus (word_char un))])]"

definition SYNTAX_RE :: "uni \<Rightarrow> regex" where
  "SYNTAX_RE un =
     seqs [lit ''File '', Cls (\<lambda>c. c = 34), Grp 1 (plus (Cls (\<lambda>c. c \<noteq> 34))), Cls (\<lambda>c. c = 34), line_part un,
           lazily any_char, newline, star space, Grp 4 (lazily any_char), newline,
           Grp 5 (Seq (plus ascii_letter) (lit ''Error'')), lit '':'', star space, Grp 6 (star any_char)]"

definition MODULE_RE :: regex where
  "MODULE_RE =
     seqs [alts [lit ''ModuleNotFoundError'', lit ''ImportError''], lit '':'', star space, lit ''No module named '', Cls quote_char,
           Grp 1 (plus (Cls (\<lambda>c. \<not> quote_char c))), Cls quote_char]"

definition SQLITE_RE :: regex where
  "SQLITE_RE =
     seqs [lit ''sqlite3.'', alts [lit ''OperationalError'', lit ''DatabaseError''], lit '':'', star space, Grp 1 (star line_char)]"

definition no_quote_line :: regex where "no_quote_line = Cls (\<lambda>c. \<not> quote_char c \<and> c \<noteq> 10)"

definition PERMISSION_RE :: regex where
  "PERMISSION_RE =
     Alt (seqs [lit ''PermissionError:'', star space, lit ''[Errno 13]'', star space, lit ''Permission denied:'', star space,
                opt (Cls quote_char), Grp 1 (plus no_quote_line), opt (Cls quote_char)])
         (lit ''Permission denied'')"

definition FILE_RE :: regex where
  "FILE_RE =
     Alt (seqs [lit ''FileNotFoundError:'', star space, lit ''[Errno 2]'', star space, lit ''No such file or directory:'', star space,
                opt (Cls quote_char), Grp 1 (plus no_quote_line), opt (Cls quote_char)])
         (seqs [lit ''No such file or directory:'', star space, Grp 2 (plus line_char)])"

definition NETWORK_RE :: regex where
  "NETWORK_RE =
     alts [lit ''TimeoutError'', lit ''ConnectionRefusedError'', lit ''ConnectTimeout'',
           seqs [lit ''HTTPError'', star line_char, alts [lit ''408'', lit ''504'', lit ''Connection refused'']]]"

definition EXCEPTION_RE :: "uni \<Rightarrow> regex" where
  "EXCEPTION_RE un =
     seqs [lit ''File '', Cls quote_char, Grp 1 (plus (Cls (\<lambda>c. \<not> quote_char c))), Cls quote_char, line_part un,
           lazily any_char, newline, lazily any_char,
           Grp 4 (Alt (Seq (plus ascii_letter) (lit ''Error'')) (lit ''Exception'')), lit '':'', star space, Grp 5 (star any_char)]"

text \<open>A group that took no part is \<open>None\<close>.\<close>

definition opt_group :: "(nat \<times> nat list) list \<Rightarrow> nat \<Rightarrow> ustr option" where
  "opt_group gs i = map_of gs i"

definition number_of :: "ustr \<Rightarrow> nat" where
  "number_of ds = foldl (\<lambda>a c. 10 * a + (c - 48)) 0 ds"

definition combined_output :: "ustr \<Rightarrow> ustr \<Rightarrow> ustr" where
  "combined_output stderr stdout = u_strip (stderr @ [10] @ stdout)"

definition plain_diagnostic :: "error_category \<Rightarrow> ustr \<Rightarrow> ustr \<Rightarrow> ustr \<Rightarrow> ustr \<Rightarrow> ustr \<Rightarrow> diagnostic" where
  "plain_diagnostic cat exc_type summary matched action hash =
     \<lparr>dg_category = cat, dg_exception_type = exc_type, dg_summary = summary, dg_file_path = None, dg_line_number = None,
      dg_function_name = None, dg_matched_text = matched, dg_suggested_action = action, dg_signature_hash = hash\<rparr>"

definition syntax_signature :: "uni \<Rightarrow> ustr \<Rightarrow> diagnostic option" where
  "syntax_signature un combined =
     (case re_search un (SYNTAX_RE un) combined of
        None \<Rightarrow> None
      | Some (_, gs) \<Rightarrow>
          (if \<not> contains combined (u_str ''SyntaxError'') \<and> \<not> contains combined (u_str ''IndentationError'') then None
           else
             let fpath = group gs 1; lno = group gs 2; msg = group gs 6
             in Some \<lparr>dg_category = SYNTAX_ERROR, dg_exception_type = group gs 5,
                  dg_summary = [35486, 27861, 37679, 35492, 65306] @ (if msg = [] then [35486, 27861, 19981, 21512, 35215] else u_strip msg),
                  dg_file_path = Some fpath, dg_line_number = Some (number_of lno), dg_function_name = opt_group gs 3,
                  dg_matched_text = u_strip (group gs 4),
                  dg_suggested_action = ([20351, 29992] @ u_str '' inline_patch '' @ [31934, 28310, 20462, 24489, 35442, 34892, 20043, 25324, 34399, 12289, 32302, 25490, 25110, 38364, 37749, 23383, 35486, 27861, 65292, 22196, 31105, 20840, 27284, 30450, 23531, 12290]),
                  dg_signature_hash = u_str ''SYNTAX:'' @ fpath @ [58] @ lno\<rparr>))"

definition module_signature :: "uni \<Rightarrow> ustr \<Rightarrow> diagnostic option" where
  "module_signature un combined =
     map_option (\<lambda>(whole, gs).
        let name = group gs 1
        in plain_diagnostic MODULE_NOT_FOUND (u_str ''ModuleNotFoundError'') (([22871, 20214, 32570, 22833, 65306, 25214, 19981, 21040, 27169, 32068] @ u_str '' '') @ [39] @ name @ [39]) whole
             (([27298, 26597, 29872, 22659, 20013, 26159, 21542, 24050, 23433, 35037] @ u_str '' '') @ [39] @ name @ [39] @ [65292, 25110, 25913, 29992, 27161, 28310, 20989, 24335, 24235, 26367, 20195, 26041, 26696, 12290]) (u_str ''MODULE:'' @ name))
       (re_search un MODULE_RE combined)"

definition sqlite_signature :: "uni \<Rightarrow> ustr \<Rightarrow> diagnostic option" where
  "sqlite_signature un combined =
     map_option (\<lambda>(whole, gs).
        let msg = u_strip (group gs 1)
        in plain_diagnostic SQLITE_ERROR (u_str ''sqlite3.OperationalError'') ((u_str ''SQLite '' @ [36039, 26009, 24235, 37679, 35492, 65306]) @ msg) whole
             (if contains msg (u_str ''locked'') then ([22519, 34892] @ u_str '' PRAGMA table_info '' @ [27298, 26597] @ u_str '' schema'' @ [65292, 25110, 20351, 29992] @ u_str '' WAL '' @ [27169, 24335] @ u_str ''/'' @ [37325, 35430, 37323, 25918, 37782, 23450, 12290])
              else ([35531, 20808, 22519, 34892] @ u_str '' .schema '' @ [27298, 26597, 36039, 26009, 34920, 33287, 27396, 20301, 30495, 23526, 24615, 12290])) (u_str ''SQLITE:'' @ take 30 msg))
       (re_search un SQLITE_RE combined)"

definition permission_signature :: "uni \<Rightarrow> ustr \<Rightarrow> diagnostic option" where
  "permission_signature un combined =
     map_option (\<lambda>(whole, gs).
        let target = (if group gs 1 = [] then [30446, 27161, 36039, 28304] else group gs 1)
        in plain_diagnostic PERMISSION_DENIED (u_str ''PermissionError'') (([27402, 38480, 19981, 36275, 65306, 28961, 27861, 23384, 21462, 25110, 23531, 20837] @ u_str '' '') @ [39] @ target @ [39]) whole
             ([27298, 26597, 27284, 26696, 27402, 38480] @ u_str '' (chmod) '' @ [25110, 27801, 30418, 37002, 30028, 35373, 23450, 65292, 20999, 21247, 22039, 35430] @ u_str '' sudo '' @ [36234, 27402, 12290]) (u_str ''PERM:'' @ target))
       (re_search un PERMISSION_RE combined)"

definition file_signature :: "uni \<Rightarrow> ustr \<Rightarrow> diagnostic option" where
  "file_signature un combined =
     map_option (\<lambda>(whole, gs).
        let fpath = u_strip (if group gs 1 = [] then group gs 2 else group gs 1)
        in plain_diagnostic FILE_NOT_FOUND (u_str ''FileNotFoundError'') (([27284, 26696, 19981, 23384, 22312, 65306, 25214, 19981, 21040] @ u_str '' '') @ [39] @ fpath @ [39]) whole
             ([20808, 36879, 36942] @ u_str '' search_files '' @ [25110] @ u_str '' ls '' @ [25506, 28204, 30495, 23526, 23526, 39636, 36335, 24465, 65292, 22196, 31105, 30450, 29468, 36335, 24465, 12290]) (u_str ''FNF:'' @ fpath))
       (re_search un FILE_RE combined)"

definition network_signature :: "uni \<Rightarrow> ustr \<Rightarrow> diagnostic option" where
  "network_signature un combined =
     map_option (\<lambda>(whole, gs).
        plain_diagnostic NETWORK_TIMEOUT (u_str ''NetworkError'') [32178, 36335, 36899, 32218, 36926, 26178, 25110, 31471, 40670, 28961, 22238, 25033] whole
          ([27298, 26597, 26412, 27231, 24494, 26381, 21209] @ u_str '' (8647/8080/9377) '' @ [29376, 24907, 65292, 25110, 21855, 29992, 26412, 27231, 24555, 21462, 38477, 32026, 27231, 21046, 12290]) (u_str ''NET:TIMEOUT''))
       (re_search un NETWORK_RE combined)"

definition exception_signature :: "uni \<Rightarrow> ustr \<Rightarrow> diagnostic option" where
  "exception_signature un combined =
     map_option (\<lambda>(whole, gs).
        let fpath = group gs 1; lno = group gs 2; exc_type = group gs 4; msg = group gs 5
        in \<lparr>dg_category = TYPE_OR_VALUE_ERROR, dg_exception_type = exc_type,
             dg_summary = exc_type @ u_str '': '' @ (if msg = [] then [22519, 34892, 26399, 30064, 24120] else u_strip msg),
             dg_file_path = Some fpath, dg_line_number = Some (number_of lno), dg_function_name = opt_group gs 3,
             dg_matched_text = exc_type @ u_str '': '' @ u_strip msg,
             dg_suggested_action = [20381, 25818, 34892, 34399, 33287, 20363, 22806, 39006, 22411, 27298, 26597, 35722, 25976, 22411, 21029, 12289, 32034, 24341, 38263, 24230, 25110, 37002, 30028, 26781, 20214, 12290],
             dg_signature_hash = u_str ''PYEXC:'' @ fpath @ [58] @ lno @ [58] @ exc_type\<rparr>)
       (re_search un (EXCEPTION_RE un) combined)"

definition unknown_signature :: "int \<Rightarrow> ustr \<Rightarrow> diagnostic" where
  "unknown_signature exit_code combined =
     (let code = u_str (int_str exit_code);
          snippet = (if combined = [] then u_str ''Exit Code '' @ code else u_strip (take 150 combined))
      in plain_diagnostic UNKNOWN_ERROR (u_str ''ExitCode_'' @ code) (([26410, 20998, 39006, 22519, 34892, 37679, 35492] @ u_str '' (Exit Code '') @ code @ u_str '')'') snippet
           ([35519, 38321, 23436, 25972] @ u_str '' Log '' @ [20006, 36981, 24490, 20845, 38542, 27573, 35386, 26039] @ u_str '' SOP '' @ [36914, 34892, 20551, 35373, 39511, 35657, 65292, 22196, 31105, 30450, 30446, 37325, 35430, 12290])
           (u_str ''UNKNOWN:'' @ code @ [58] @ take 20 snippet))"

definition RULES_IN_ORDER :: "(uni \<Rightarrow> ustr \<Rightarrow> diagnostic option) list" where
  "RULES_IN_ORDER =
     [syntax_signature, module_signature, sqlite_signature, permission_signature, file_signature, network_signature,
      exception_signature]"

fun first_rule :: "(uni \<Rightarrow> ustr \<Rightarrow> diagnostic option) list \<Rightarrow> uni \<Rightarrow> ustr \<Rightarrow> diagnostic option" where
  "first_rule [] un s = None"
| "first_rule (r # rs) un s = (case r un s of Some d \<Rightarrow> Some d | None \<Rightarrow> first_rule rs un s)"

definition extract_signature :: "uni \<Rightarrow> int \<Rightarrow> ustr \<Rightarrow> ustr \<Rightarrow> diagnostic" where
  "extract_signature un exit_code stderr stdout =
     (let combined = combined_output stderr stdout
      in case first_rule RULES_IN_ORDER un combined of
           Some d \<Rightarrow> d
         | None \<Rightarrow> unknown_signature exit_code combined)"

section \<open>Repairs\<close>

definition MAX_REPAIR_ATTEMPTS :: nat where "MAX_REPAIR_ATTEMPTS = 2"

type_synonym repair_history = "(ustr \<times> (rat \<times> ustr) list) list"

record directive =
  dr_attempt :: nat
  dr_max_attempts :: nat
  dr_is_escalated :: bool
  dr_signature :: diagnostic

definition repairs_of :: "repair_history \<Rightarrow> ustr \<Rightarrow> (rat \<times> ustr) list" where
  "repairs_of h k = (case map_of h k of None \<Rightarrow> [] | Some rs \<Rightarrow> rs)"

definition generate_recovery_directive :: "repair_history \<Rightarrow> diagnostic \<Rightarrow> directive" where
  "generate_recovery_directive h sig =
     (let attempt = length (repairs_of h (dg_signature_hash sig)) + 1
      in \<lparr>dr_attempt = attempt, dr_max_attempts = MAX_REPAIR_ATTEMPTS, dr_is_escalated = MAX_REPAIR_ATTEMPTS < attempt,
          dr_signature = sig\<rparr>)"

definition record_repair_attempt :: "rat \<Rightarrow> ustr \<Rightarrow> ustr \<Rightarrow> repair_history \<Rightarrow> repair_history" where
  "record_repair_attempt now k action h = AList.update k (repairs_of h k @ [(now, action)]) h"

definition record_all :: "(rat \<times> ustr \<times> ustr) list \<Rightarrow> repair_history \<Rightarrow> repair_history" where
  "record_all rs h = fold (\<lambda>(now, k, action). record_repair_attempt now k action) rs h"

text \<open>The tool of the capability: a fresh engine for every call.\<close>

definition extract_and_diagnose_error :: "uni \<Rightarrow> int \<Rightarrow> ustr \<Rightarrow> ustr \<Rightarrow> directive" where
  "extract_and_diagnose_error un exit_code stderr stdout =
     generate_recovery_directive [] (extract_signature un exit_code stderr stdout)"

section \<open>Lemmas\<close>

lemma repairs_recorded: "repairs_of (record_repair_attempt now k a h) k' = (if k' = k then repairs_of h k @ [(now, a)] else repairs_of h k')"
  by (simp add: repairs_of_def record_repair_attempt_def)

lemma repairs_after: "length (repairs_of (record_all rs h) k) = length (repairs_of h k) + length (filter (\<lambda>r. fst (snd r) = k) rs)"
  by (induction rs arbitrary: h) (auto simp: record_all_def repairs_recorded)

lemma rule_categories:
  "syntax_signature un s = Some d \<Longrightarrow> dg_category d = SYNTAX_ERROR"
  "module_signature un s = Some d \<Longrightarrow> dg_category d = MODULE_NOT_FOUND"
  "sqlite_signature un s = Some d \<Longrightarrow> dg_category d = SQLITE_ERROR"
  "permission_signature un s = Some d \<Longrightarrow> dg_category d = PERMISSION_DENIED"
  "file_signature un s = Some d \<Longrightarrow> dg_category d = FILE_NOT_FOUND"
  "network_signature un s = Some d \<Longrightarrow> dg_category d = NETWORK_TIMEOUT"
  "exception_signature un s = Some d \<Longrightarrow> dg_category d = TYPE_OR_VALUE_ERROR"
  by (auto simp: syntax_signature_def module_signature_def sqlite_signature_def permission_signature_def file_signature_def
      network_signature_def exception_signature_def plain_diagnostic_def Let_def split: option.splits if_splits)

section \<open>Properties\<close>

text \<open>Repairs are counted per signature: after any sequence of recorded repairs the directive for a signature has the
  number of repairs recorded for its hash plus one as its attempt, whatever was recorded for others, and it is escalated
  exactly when two or more were recorded.\<close>

theorem repairs_are_counted_per_signature:
  "(let d = generate_recovery_directive (record_all rs []) sig;
        n = length (filter (\<lambda>r. fst (snd r) = dg_signature_hash sig) rs)
    in dr_attempt d = n + 1 \<and> dr_is_escalated d = (2 \<le> n))"
  by (simp add: generate_recovery_directive_def repairs_after repairs_of_def [of "[]"] MAX_REPAIR_ATTEMPTS_def Let_def less_eq_Suc_le numeral_2_eq_2)

text \<open>Nothing is guessed: the category is unknown exactly when none of the seven patterns applies to the output, and
  otherwise it is the category of the first that does.\<close>

theorem unknown_errors_stay_unknown:
  "(dg_category (extract_signature un code err out) = UNKNOWN_ERROR) =
     list_all (\<lambda>r. r un (combined_output err out) = None) RULES_IN_ORDER \<and>
   (dg_category (extract_signature un code err out) = SYNTAX_ERROR) = (syntax_signature un (combined_output err out) \<noteq> None)"
proof -
  let ?s = "combined_output err out"
  consider d where "first_rule RULES_IN_ORDER un ?s = Some d" "dg_category d \<noteq> UNKNOWN_ERROR"
      "\<not> list_all (\<lambda>r. r un ?s = None) RULES_IN_ORDER"
      "(dg_category d = SYNTAX_ERROR) = (syntax_signature un ?s \<noteq> None)"
    | "first_rule RULES_IN_ORDER un ?s = None" "list_all (\<lambda>r. r un ?s = None) RULES_IN_ORDER"
    by (cases "syntax_signature un ?s"; cases "module_signature un ?s"; cases "sqlite_signature un ?s";
        cases "permission_signature un ?s"; cases "file_signature un ?s"; cases "network_signature un ?s";
        cases "exception_signature un ?s") (auto simp: RULES_IN_ORDER_def rule_categories)
  then show ?thesis
  proof cases
    case (1 d)
    then show ?thesis by (simp add: extract_signature_def)
  next
    case 2
    then have "syntax_signature un ?s = None" by (simp add: RULES_IN_ORDER_def)
    then show ?thesis using 2 by (simp add: extract_signature_def unknown_signature_def plain_diagnostic_def Let_def)
  qed
qed

section \<open>Findings\<close>

text \<open>Through the tool every failure is a first attempt: the engine that would count is made anew for each call.\<close>

lemma tool_never_escalates:
  "dr_attempt (extract_and_diagnose_error un code err out) = 1 \<and> \<not> dr_is_escalated (extract_and_diagnose_error un code err out)"
  by (simp add: extract_and_diagnose_error_def generate_recovery_directive_def repairs_of_def MAX_REPAIR_ATTEMPTS_def Let_def)

text \<open>Two different files refused by a shell share one signature, so the second counts as a repeated failure of the first.\<close>

lemma shell_refusals_share_a_signature:
  "dg_signature_hash (extract_signature (\<lambda>_. False) 1 (u_str ''cat: a: Permission denied'') []) =
   dg_signature_hash (extract_signature (\<lambda>_. False) 1 (u_str ''rm: b: Permission denied'') [])"
  by code_simp

text \<open>The message of a shell that names the file before the error is not recognised.\<close>

lemma shell_missing_file_is_unknown:
  "dg_category (extract_signature (\<lambda>_. False) 1 (u_str ''cat: x: No such file or directory'') []) = UNKNOWN_ERROR"
  by code_simp

end
