(* ===== verification/ChatClient.thy ===== *)
theory ChatClient
  imports ConfigLoader PyUrl SemanticCache Models
begin

text \<open>
  The chat client (\<open>src/hermes_core/chat_client.py\<close>) and the background worker for attachments
  (\<open>src/hermes_core/async_attachment_worker.py\<close>): settings and the \<open>.env\<close> file, the TLS settings, the
  request for a message and for a file with the path checked by the sanitizer of theory
  \<open>PathSanitizer\<close>, the server's reply, the retries of the worker, and the session pool. The file system,
  the server, the JSON reader, the Chinese converter and the event loops are parameters. A request
  is the URL and the payload before it is form-encoded.
\<close>

section \<open>Settings\<close>

text \<open>\<open>re.sub\<close> with the groups of the match.\<close>

definition TOKEN_PARAMETER :: regex where
  "TOKEN_PARAMETER = seqs [Grp 1 (seqs [Cls (any_of ''?&''), lit ''token='']), plus (Cls (none_of ''&''))]"

definition USER_INFO :: regex where
  "USER_INFO =
     seqs [Grp 1 (seqs [lit ''://'', plus (Cls (\<lambda>c. c \<noteq> 58 \<and> c \<noteq> 47 \<and> \<not> u_space c))]), lit '':'',
           Grp 2 (plus (Cls (\<lambda>c. c \<noteq> 64 \<and> c \<noteq> 47 \<and> \<not> u_space c))), lit ''@'']"

definition redact_url :: "uni \<Rightarrow> ustr \<Rightarrow> ustr" where
  "redact_url un url =
     (if url = [] then []
      else re_sub un USER_INFO (\<lambda>m gs. group gs 1 @ u_str '':[REDACTED]@'')
             (re_sub un TOKEN_PARAMETER (\<lambda>m gs. group gs 1 @ u_str ''[REDACTED]'') url))"

text \<open>The \<open>.env\<close> file: absent, it cannot be opened, or its lines as far as they are read, and whether reading then fails.
  A key or value with a null character cannot be set. The second component: an exception was raised.\<close>

datatype env_text = NoEnvFile | EnvNotOpened | EnvText "string list" bool

definition env_truthy :: "string dict \<Rightarrow> string \<Rightarrow> bool" where
  "env_truthy env key \<longleftrightarrow> map_of env key \<notin> {None, Some []}"

fun set_lines :: "string list \<Rightarrow> string dict \<Rightarrow> string dict \<times> bool" where
  "set_lines [] env = (env, False)"
| "set_lines (raw # lines) env =
     (case env_entry raw of
        [(k, v)] \<Rightarrow>
          (if k \<noteq> [] \<and> \<not> env_truthy env k then
             (if CHR 0x00 \<in> set k \<union> set v then (env, True) else set_lines lines (AList.update k v env))
           else set_lines lines env)
      | _ \<Rightarrow> set_lines lines env)"

definition ensure_env :: "env_text \<Rightarrow> string dict \<Rightarrow> string dict \<times> bool" where
  "ensure_env file env =
     (case file of
        NoEnvFile \<Rightarrow> (env, False)
      | EnvNotOpened \<Rightarrow> (env, True)
      | EnvText lines fails \<Rightarrow> (case set_lines lines env of (env', raised) \<Rightarrow> (env', raised \<or> fails)))"

definition setting :: "string dict \<Rightarrow> string \<Rightarrow> string \<Rightarrow> string" where
  "setting env key dflt = (case map_of env key of Some v \<Rightarrow> v | None \<Rightarrow> dflt)"

text \<open>Whether certificate and host name of the server are verified.\<close>

definition tls_verified :: "string dict \<Rightarrow> bool" where
  "tls_verified env \<longleftrightarrow>
     \<not> (py_lower (strip (setting env ''SYNOLOGY_CHAT_INSECURE_SKIP_VERIFY'' ''0'')) \<in> {''1'', ''true'', ''yes''} \<and>
        map_of env ''TESTING_MODE'' = Some ''local_sandbox'')"

section \<open>Requests\<close>

record chat_request =
  rq_url :: string
  rq_text :: ustr
  rq_file_url :: "ustr option"
  rq_user_id :: int
  rq_tls_verified :: bool

datatype chat_answer = NoAnswer | Answer int bytes

datatype opencc = NoOpenCC | OpenCCFails | OpenCC "ustr \<Rightarrow> ustr"

record chat_env =
  ce_environ :: "string dict"
  ce_env_text :: env_text
  ce_fs :: fs
  ce_unicode :: unicode_db
  ce_default_sanitizer :: sanitizer
  ce_realpath :: "ppath \<Rightarrow> ppath"
  ce_is_file :: "ppath \<Rightarrow> bool"
  ce_ip6 :: "string \<Rightarrow> bool"
  ce_server :: "chat_request \<Rightarrow> chat_answer"
  ce_loads :: "ustr \<Rightarrow> json option"
  ce_opencc :: opencc

text \<open>What a call did: the environment afterwards, the request sent, and the result (\<open>None\<close>: it raised).\<close>

record chat_outcome =
  co_environ :: "string dict"
  co_request :: "chat_request option"
  co_result :: "bool option"

definition nothing_sent :: "string dict \<Rightarrow> bool option \<Rightarrow> chat_outcome" where
  "nothing_sent env r = \<lparr>co_environ = env, co_request = None, co_result = r\<rparr>"

definition MAX_JSON_SIZE :: nat where "MAX_JSON_SIZE = 1048576"

text \<open>\<open>isdigit\<close> and \<open>int\<close> of a channel; \<open>None\<close> is the \<open>ValueError\<close> of \<open>int\<close>.\<close>

definition channel_digit :: "char \<Rightarrow> bool" where
  "channel_digit c \<longleftrightarrow> PyText.is_digit c \<or> c \<in> {CHR 0xB2, CHR 0xB3, CHR 0xB9}"

definition user_id :: "string \<Rightarrow> int option" where
  "user_id channel =
     (if channel \<noteq> [] \<and> list_all channel_digit channel
      then (if 4300 < length channel then None else parse_int channel)
      else Some 5)"

definition target_channel :: "string option \<Rightarrow> string dict \<Rightarrow> string" where
  "target_channel channel_id env =
     (case channel_id of
        Some c \<Rightarrow> if c \<noteq> [] then c else strip (setting env ''SYNOLOGY_CHAT_HOME_CHANNEL'' ''5'')
      | None \<Rightarrow> strip (setting env ''SYNOLOGY_CHAT_HOME_CHANNEL'' ''5''))"

definition url_scheme :: "string \<Rightarrow> string" where
  "url_scheme u =
     (case partition_at CHR '':'' (clean_url u) of
        (s, found, rest) \<Rightarrow> if found \<and> s \<noteq> [] \<and> ascii_alpha (hd s) \<and> list_all scheme_char s then py_lower s else [])"

text \<open>\<open>res.get\<close> raises for a value that is no object, and the exception is caught.\<close>

definition answer_ok :: "(ustr \<Rightarrow> json option) \<Rightarrow> chat_answer \<Rightarrow> bool" where
  "answer_ok loads ans =
     (case ans of
        NoAnswer \<Rightarrow> False
      | Answer status body \<Rightarrow>
          (let raw = take MAX_JSON_SIZE body
           in if MAX_JSON_SIZE \<le> length raw then False
              else case loads (utf8_decode_ignore (map of_char raw)) of
                  Some (JObj kvs) \<Rightarrow>
                    status = 200 \<and> (case map_of kvs ''success'' of Some v \<Rightarrow> truthy v | None \<Rightarrow> False)
                | _ \<Rightarrow> False))"

text \<open>The guarded part of both senders: the scheme check, the request, the reply.\<close>

definition post_request :: "chat_env \<Rightarrow> string dict \<Rightarrow> string \<Rightarrow> ustr \<Rightarrow> ustr option \<Rightarrow> int \<Rightarrow> chat_outcome" where
  "post_request ce env url message file_url uid =
     (if urlparse (ce_ip6 ce) url = None \<or> url_scheme url \<notin> {''http'', ''https''} then nothing_sent env (Some False)
      else
        let rq = \<lparr>rq_url = url, rq_text = message, rq_file_url = file_url, rq_user_id = uid, rq_tls_verified = tls_verified env\<rparr>
        in \<lparr>co_environ = env, co_request = Some rq, co_result = Some (answer_ok (ce_loads ce) (ce_server ce rq))\<rparr>)"

definition TAI_TOKEN :: ustr where "TAI_TOKEN = u_str ''__TAI_TOKEN__''"
definition TAI :: ustr where "TAI = [21488]"

definition convert_text :: "opencc \<Rightarrow> ustr \<Rightarrow> ustr" where
  "convert_text cc message =
     (case cc of
        NoOpenCC \<Rightarrow> message
      | OpenCCFails \<Rightarrow> u_replace TAI TAI_TOKEN message
      | OpenCC convert \<Rightarrow> u_replace TAI_TOKEN TAI (convert (u_replace TAI TAI_TOKEN message)))"

definition outgoing_token :: "string dict \<Rightarrow> string" where
  "outgoing_token env = strip (setting env ''SYNOLOGY_CHAT_OUTGOING_TOKEN'' [])"

definition incoming_url :: "string dict \<Rightarrow> string" where
  "incoming_url env = strip (setting env ''SYNOLOGY_CHAT_INCOMING_URL'' [])"

definition api_url :: "string dict \<Rightarrow> string" where
  "api_url env = incoming_url env @ ''?token='' @ outgoing_token env"

definition send_chat_message :: "chat_env \<Rightarrow> ustr \<Rightarrow> string option \<Rightarrow> chat_outcome" where
  "send_chat_message ce message channel_id =
     (case ensure_env (ce_env_text ce) (ce_environ ce) of
        (env, True) \<Rightarrow> nothing_sent env None
      | (env, False) \<Rightarrow>
          (if outgoing_token env = [] \<or> incoming_url env = [] then nothing_sent env (Some False)
           else case user_id (target_channel channel_id env) of
               None \<Rightarrow> nothing_sent env None
             | Some uid \<Rightarrow> post_request ce env (api_url env) (convert_text (ce_opencc ce) message) None uid))"

definition send_error_alert :: "chat_env \<Rightarrow> ustr \<Rightarrow> ustr \<Rightarrow> string option \<Rightarrow> chat_outcome" where
  "send_error_alert ce error_title error_details channel_id =
     send_chat_message ce
       (([128680] @ u_str '' **'' @ [12304] @ u_str ''Hermes '' @ [31995, 32113, 30064, 24120, 35686, 22577, 12305] @ u_str ''**'' @ [10, 128205] @ u_str '' **'' @ [38917, 30446] @ u_str ''**'' @ [65306]) @ error_title @ ([10, 9888, 65039] @ u_str '' **'' @ [35443, 24773] @ u_str ''**'' @ [65306]) @ error_details) channel_id"

section \<open>Files\<close>

text \<open>The module's own \<open>sanitize_path\<close>: a sanitizer for the workspace given, else the one built when the module was
  loaded; \<open>None\<close> is any of its exceptions.\<close>

definition chat_sanitizer :: "chat_env \<Rightarrow> string dict \<Rightarrow> sanitizer option" where
  "chat_sanitizer ce env =
     (if env_truthy env ''HERMES_WORKSPACE_ROOT''
      then new_sanitizer (ce_fs ce) (map_option u_str (map_of env ''HERMES_WORKSPACE_ROOT'')) None \<lparr>pp_root = [], pp_parts = []\<rparr> None None False
      else Some (ce_default_sanitizer ce))"

definition chat_sanitize :: "chat_env \<Rightarrow> string dict \<Rightarrow> ustr \<Rightarrow> ppath option" where
  "chat_sanitize ce env target =
     (case chat_sanitizer ce env of
        None \<Rightarrow> None
      | Some ps \<Rightarrow> (case sanitize_path (ce_unicode ce) (ce_fs ce) ps target True True of Inl _ \<Rightarrow> None | Inr p \<Rightarrow> Some p))"

definition FILE_PREFIX :: ustr where "FILE_PREFIX = u_str ''file://''"

definition normalized_path :: "ustr \<Rightarrow> ustr" where
  "normalized_path file_path =
     (let raw = u_strip file_path in if starts_with raw FILE_PREFIX then dropWhile u_space (drop 7 raw) else raw)"

text \<open>The path that is checked twice, with the real path between; \<open>None\<close>: refused.\<close>

definition verified_path :: "chat_env \<Rightarrow> string dict \<Rightarrow> ustr \<Rightarrow> ppath option" where
  "verified_path ce env raw =
     (case chat_sanitize ce env raw of
        None \<Rightarrow> None
      | Some safe \<Rightarrow>
          (let real = ce_realpath ce safe
           in if \<not> fs_exists (ce_fs ce) real \<or> \<not> ce_is_file ce real then None else chat_sanitize ce env (path_str real)))"

definition send_chat_file :: "chat_env \<Rightarrow> ustr \<Rightarrow> ustr \<Rightarrow> string option \<Rightarrow> chat_outcome" where
  "send_chat_file ce file_path message channel_id =
     (case ensure_env (ce_env_text ce) (ce_environ ce) of
        (env, True) \<Rightarrow> nothing_sent env None
      | (env, False) \<Rightarrow>
          (if u_strip file_path = [] then nothing_sent env (Some False)
           else case verified_path ce env (normalized_path file_path) of
               None \<Rightarrow> nothing_sent env (Some False)
             | Some p \<Rightarrow>
                 (if outgoing_token env = [] \<or> incoming_url env = [] then nothing_sent env (Some False)
                  else case (fs_resolve (ce_fs ce) p, user_id (target_channel channel_id env)) of
                      (Some q, Some uid) \<Rightarrow> post_request ce env (api_url env) message (Some (FILE_PREFIX @ path_str q)) uid
                    | _ \<Rightarrow> nothing_sent env None)))"

section \<open>The attachment worker\<close>

text \<open>What one attempt does: the result of \<open>send_chat_file\<close> (\<open>None\<close>: it raised), and whether the log call after a
  success and the one for an exception raise.\<close>

record send_try =
  st_result :: "bool option"
  st_log_raises :: bool
  st_warning_raises :: bool

text \<open>The number of attempts made and \<open>success\<close> at the end of the loop, from attempt \<open>k\<close> on; \<open>None\<close>: an exception ends the
  worker.\<close>

function push_attempts :: "(nat \<Rightarrow> send_try) \<Rightarrow> nat \<Rightarrow> nat \<Rightarrow> bool \<Rightarrow> nat \<times> bool option" where
  "push_attempts tries retries k success =
     (if retries \<le> k then (k, Some success)
      else case st_result (tries k) of
          Some True \<Rightarrow>
            (if \<not> st_log_raises (tries k) then (k + 1, Some True)
             else if st_warning_raises (tries k) then (k + 1, None) else push_attempts tries retries (k + 1) True)
        | Some False \<Rightarrow> push_attempts tries retries (k + 1) False
        | None \<Rightarrow>
            (if st_warning_raises (tries k) then (k + 1, None) else push_attempts tries retries (k + 1) success))"
  by pat_completeness auto
termination
  by (relation "measure (\<lambda>(tries, retries, k, success). retries - k)") auto

declare push_attempts.simps [simp del]

text \<open>The queue of file path, message, channel and retries, whether the thread is alive, and the files taken from the
  queue with the number of attempts and the end.\<close>

type_synonym queued_file = "ustr \<times> ustr \<times> string option \<times> int"

record worker =
  wk_alive :: bool
  wk_queue :: "queued_file list"
  wk_done :: "(queued_file \<times> nat \<times> bool option) list"

definition ensure_worker_running :: "worker \<Rightarrow> worker" where
  "ensure_worker_running w = (if \<not> wk_alive w then w\<lparr>wk_alive := True\<rparr> else w)"

definition enqueue_chat_file :: "queued_file \<Rightarrow> worker \<Rightarrow> worker" where
  "enqueue_chat_file item w = (let w' = ensure_worker_running w in w'\<lparr>wk_queue := wk_queue w' @ [item]\<rparr>)"

text \<open>One round of the loop.\<close>

definition worker_round :: "(nat \<Rightarrow> send_try) \<Rightarrow> worker \<Rightarrow> worker" where
  "worker_round tries w =
     (if \<not> wk_alive w then w
      else case wk_queue w of
          [] \<Rightarrow> w
        | item # rest \<Rightarrow>
            (case item of (_, _, _, retries) \<Rightarrow>
               case push_attempts tries (nat retries) 0 False of (n, r) \<Rightarrow>
                 w\<lparr>wk_queue := rest, wk_done := wk_done w @ [(item, n, r)], wk_alive := (r \<noteq> None)\<rparr>))"

inductive worker_run :: "worker \<Rightarrow> queued_file list \<Rightarrow> worker \<Rightarrow> bool" where
  idle: "worker_run w [] w"
| enqueue: "worker_run w items w' \<Longrightarrow> worker_run w (items @ [item]) (enqueue_chat_file item w')"
| work: "worker_run w items w' \<Longrightarrow> worker_run w items (worker_round tries w')"

section \<open>The session pool\<close>

text \<open>Sessions and loops by number. \<open>is_closed\<close> and \<open>is_running\<close> are what they answer, \<open>fresh\<close> the session that aiohttp makes
  (\<open>None\<close>: it raises), \<open>scheduled\<close> whether the old loop takes the coroutine.\<close>

record session_pool =
  sp_session :: "nat option"
  sp_session_loop :: "nat option"

datatype pool_event = CloseOn nat nat

definition get_session ::
  "bool \<Rightarrow> (nat \<Rightarrow> bool) \<Rightarrow> (nat \<Rightarrow> bool) \<Rightarrow> bool \<Rightarrow> nat option \<Rightarrow> nat option \<Rightarrow> session_pool \<Rightarrow>
   pool_event list \<times> session_pool \<times> nat option option" where
  "get_session available is_closed is_running scheduled current fresh sp =
     (if \<not> available then ([], sp, Some None)
      else
        let usable = (\<lambda>s. \<not> is_closed s \<and> (current = None \<or> sp_session_loop sp = None \<or> current = sp_session_loop sp))
        in if (case sp_session sp of None \<Rightarrow> False | Some s \<Rightarrow> usable s) then ([], sp, Some (sp_session sp))
           else
             let open_old = (case sp_session sp of None \<Rightarrow> False | Some s \<Rightarrow> \<not> is_closed s);
                 evs = (case (sp_session sp, sp_session_loop sp) of
                          (Some s, Some l) \<Rightarrow> (if open_old \<and> is_running l \<and> scheduled then [CloseOn l s] else [])
                        | _ \<Rightarrow> []);
                 sp1 = (if open_old then sp\<lparr>sp_session := None\<rparr> else sp)
             in case fresh of
                  None \<Rightarrow> (evs, sp1, None)
                | Some n \<Rightarrow> (evs, sp1\<lparr>sp_session := Some n, sp_session_loop := current\<rparr>, Some (Some n)))"

section \<open>Lemmas\<close>

lemma tls_not_verified_iff:
  "\<not> tls_verified env \<longleftrightarrow>
     py_lower (strip (setting env ''SYNOLOGY_CHAT_INSECURE_SKIP_VERIFY'' ''0'')) \<in> {''1'', ''true'', ''yes''} \<and>
     map_of env ''TESTING_MODE'' = Some ''local_sandbox''"
  by (simp add: tls_verified_def)

lemma post_request_sent:
  assumes "co_request (post_request ce env url message file_url uid) = Some rq"
  shows "rq = \<lparr>rq_url = url, rq_text = message, rq_file_url = file_url, rq_user_id = uid, rq_tls_verified = tls_verified env\<rparr> \<and>
    url_scheme url \<in> {''http'', ''https''} \<and> co_environ (post_request ce env url message file_url uid) = env \<and>
    co_result (post_request ce env url message file_url uid) = Some (answer_ok (ce_loads ce) (ce_server ce rq))"
  using assms by (auto simp: post_request_def nothing_sent_def Let_def split: if_splits)

lemma nothing_sent_request [simp]: "co_request (nothing_sent env r) = None" "co_result (nothing_sent env r) = r"
    "co_environ (nothing_sent env r) = env"
  by (simp_all add: nothing_sent_def)

lemma answer_ok_iff:
  "answer_ok loads ans \<longleftrightarrow>
     (\<exists>body kvs v. ans = Answer 200 body \<and> length body < MAX_JSON_SIZE \<and>
        loads (utf8_decode_ignore (map of_char body)) = Some (JObj kvs) \<and> map_of kvs ''success'' = Some v \<and> truthy v)"
  by (auto simp: answer_ok_def Let_def split: chat_answer.splits option.splits json.splits if_splits)

text \<open>What the \<open>.env\<close> file can change: variables that are unset or empty.\<close>

lemma env_truthy_update:
  "env_truthy env k \<Longrightarrow> \<not> env_truthy env a \<Longrightarrow>
   env_truthy (AList.update a b env) k \<and> map_of (AList.update a b env) k = map_of env k"
  by (cases "k = a") (auto simp: env_truthy_def update_conv')

lemma set_lines_keep: "env_truthy env k \<Longrightarrow> map_of (fst (set_lines lines env)) k = map_of env k"
proof (induction lines arbitrary: env)
  case (Cons raw lines)
  then show ?case using env_truthy_update [OF Cons.prems] Cons.IH by (auto split: list.splits prod.splits)
qed simp

lemma ensure_env_keep: "env_truthy env k \<Longrightarrow> map_of (fst (ensure_env file env)) k = map_of env k"
  using set_lines_keep [of env k] by (auto simp: ensure_env_def split: env_text.splits prod.splits) (metis fst_conv)

lemma chat_sanitize_accepted:
  assumes "chat_sanitize ce env target = Some p"
  obtains ps where "chat_sanitizer ce env = Some ps" and "path_accepted (ce_unicode ce) (ce_fs ce) ps True p"
  using assms sanitize_accepted by (fastforce simp: chat_sanitize_def split: option.splits sum.splits)

lemma verified_path_accepted:
  assumes "verified_path ce env raw = Some p"
  shows "\<exists>ps. chat_sanitizer ce env = Some ps \<and> path_accepted (ce_unicode ce) (ce_fs ce) ps True p"
  using assms chat_sanitize_accepted [of ce env] by (auto simp: verified_path_def Let_def split: option.splits if_splits) metis

lemma push_attempts_bounds:
  "push_attempts tries retries k success = (n, r) \<Longrightarrow> k \<le> retries \<Longrightarrow>
   n \<le> retries \<and> (r = Some False \<longrightarrow> n = retries)"
proof (induction tries retries k success rule: push_attempts.induct)
  case (1 tries retries k success)
  from "1.prems" "1.IH" show ?case
    by (subst (asm) push_attempts.simps) (auto split: if_splits option.splits bool.splits)
qed

text \<open>While logging works, the attempts go on to the first success.\<close>

lemma push_attempts_first:
  assumes log: "\<And>k. \<not> st_log_raises (tries k) \<and> \<not> st_warning_raises (tries k)"
  shows "push_attempts tries retries k False = (n, r) \<Longrightarrow> k \<le> retries \<Longrightarrow>
    (r = Some True \<and> k < n \<and> n \<le> retries \<and> st_result (tries (n - 1)) = Some True \<and>
       (\<forall>i \<in> {k..<n - 1}. st_result (tries i) \<noteq> Some True)) \<or>
    (r = Some False \<and> n = retries \<and> (\<forall>i \<in> {k..<retries}. st_result (tries i) \<noteq> Some True))"
proof (induction "retries - k" arbitrary: k)
  case (Suc m)
  from Suc.hyps(2) have k: "k < retries" by simp
  show ?case
  proof (cases "st_result (tries k) = Some True")
    case True
    with Suc.prems(1) k log [of k] show ?thesis by (subst (asm) push_attempts.simps) auto
  next
    case False
    with Suc.prems k log [of k] have "push_attempts tries retries (k + 1) False = (n, r)"
      by (subst (asm) push_attempts.simps) (auto split: option.splits bool.splits)
    with Suc.hyps k have "(r = Some True \<and> k + 1 < n \<and> n \<le> retries \<and> st_result (tries (n - 1)) = Some True \<and>
        (\<forall>i \<in> {k + 1..<n - 1}. st_result (tries i) \<noteq> Some True)) \<or>
      (r = Some False \<and> n = retries \<and> (\<forall>i \<in> {k + 1..<retries}. st_result (tries i) \<noteq> Some True))" by simp
    moreover have "\<forall>i \<in> {k..<b}. st_result (tries i) \<noteq> Some True"
        if "\<forall>i \<in> {k + 1..<b}. st_result (tries i) \<noteq> Some True" for b
      using False that by (metis Suc_eq_plus1 Suc_leI atLeastLessThan_iff le_neq_implies_less)
    ultimately show ?thesis by (metis Suc_eq_plus1 Suc_lessD)
  qed
qed (simp add: push_attempts.simps)

section \<open>Properties\<close>

text \<open>C15: a file leaves only when the sanitizer accepted it. When a request with a file is sent, the file named in it is what a path
  resolves to that the sanitizer accepted as existing (inside the workspace, no system path, no blocked name or extension, no
  link), the URL is made of the two settings with the scheme http or https, and certificate and host name are verified unless
  both the flag is set and the test mode is the local sandbox.\<close>

theorem only_checked_files_are_sent:
  assumes "co_request (send_chat_file ce file_path message channel_id) = Some rq"
  shows "\<exists>env ps p q. co_environ (send_chat_file ce file_path message channel_id) = env \<and> chat_sanitizer ce env = Some ps \<and>
    path_accepted (ce_unicode ce) (ce_fs ce) ps True p \<and> fs_resolve (ce_fs ce) p = Some q \<and>
    rq_file_url rq = Some (FILE_PREFIX @ path_str q) \<and>
    rq_url rq = api_url env \<and> url_scheme (rq_url rq) \<in> {''http'', ''https''} \<and>
    (rq_tls_verified rq \<or> map_of env ''TESTING_MODE'' = Some ''local_sandbox'' \<and>
       py_lower (strip (setting env ''SYNOLOGY_CHAT_INSECURE_SKIP_VERIFY'' ''0'')) \<in> {''1'', ''true'', ''yes''})"
proof -
  obtain env raised where e: "ensure_env (ce_env_text ce) (ce_environ ce) = (env, raised)" by fastforce
  with assms obtain p q uid where
      v: "verified_path ce env (normalized_path file_path) = Some p" "fs_resolve (ce_fs ce) p = Some q"
      and s: "send_chat_file ce file_path message channel_id =
        post_request ce env (api_url env) message (Some (FILE_PREFIX @ path_str q)) uid"
    by (cases raised) (auto simp: send_chat_file_def split: if_splits option.splits)
  note sent = post_request_sent [OF assms [unfolded s]]
  obtain ps where "chat_sanitizer ce env = Some ps" "path_accepted (ce_unicode ce) (ce_fs ce) ps True p"
    using verified_path_accepted [OF v(1)] by blast
  with v(2) sent show ?thesis
    unfolding s by - (rule exI [of _ env], rule exI [of _ ps], rule exI [of _ p], rule exI [of _ q],
      use tls_not_verified_iff [of env] in auto)
qed

text \<open>A sender reports success exactly when it sent a request and the server answered it with status 200 and, in less than one
  megabyte, an object whose field for success is true; and no variable that was set to a value before the call has another one
  after it.\<close>

definition answered :: "chat_env \<Rightarrow> chat_outcome \<Rightarrow> bool" where
  "answered ce out \<longleftrightarrow>
     (\<exists>rq body kvs v. co_request out = Some rq \<and> ce_server ce rq = Answer 200 body \<and> length body < 1048576 \<and>
        ce_loads ce (utf8_decode_ignore (map of_char body)) = Some (JObj kvs) \<and> map_of kvs ''success'' = Some v \<and> truthy v)"

lemma post_request_answered: "co_result (post_request ce env url m fu uid) = Some True \<longleftrightarrow> answered ce (post_request ce env url m fu uid)"
  by (auto simp: post_request_def Let_def answered_def answer_ok_iff MAX_JSON_SIZE_def)

lemma nothing_sent_answered [simp]: "\<not> answered ce (nothing_sent env r)"
  by (simp add: answered_def)

theorem success_means_the_server_said_so:
  "(co_result (send_chat_message ce message channel_id) = Some True \<longleftrightarrow> answered ce (send_chat_message ce message channel_id)) \<and>
   (co_result (send_chat_file ce file_path message channel_id) = Some True \<longleftrightarrow>
      answered ce (send_chat_file ce file_path message channel_id)) \<and>
   (map_of (ce_environ ce) k \<in> {None, Some []} \<or>
      map_of (co_environ (send_chat_message ce message channel_id)) k = map_of (ce_environ ce) k)"
proof (intro conjI)
  obtain env raised where e: "ensure_env (ce_env_text ce) (ce_environ ce) = (env, raised)" by fastforce
  have env: "co_environ (send_chat_message ce message channel_id) = env"
    using e by (cases raised) (auto simp: send_chat_message_def post_request_def Let_def split: option.splits)
  show "co_result (send_chat_message ce message channel_id) = Some True \<longleftrightarrow> answered ce (send_chat_message ce message channel_id)"
    using e by (cases raised) (auto simp: send_chat_message_def post_request_answered split: option.splits)
  show "co_result (send_chat_file ce file_path message channel_id) = Some True \<longleftrightarrow>
      answered ce (send_chat_file ce file_path message channel_id)"
    using e by (cases raised) (auto simp: send_chat_file_def post_request_answered split: option.splits)
  show "map_of (ce_environ ce) k \<in> {None, Some []} \<or>
      map_of (co_environ (send_chat_message ce message channel_id)) k = map_of (ce_environ ce) k"
    using ensure_env_keep [of "ce_environ ce" k "ce_env_text ce"] by (auto simp: env e env_truthy_def)
qed

text \<open>The worker takes the files in the order in which they were queued and loses none while they wait: what it has taken,
  followed by what still waits, is what was queued; each was tried at most as often as asked for, and one is given up only when
  all attempts are made.\<close>

definition new_worker :: worker where
  "new_worker = \<lparr>wk_alive = False, wk_queue = [], wk_done = []\<rparr>"

theorem attachments_are_pushed_in_order:
  assumes "worker_run new_worker items w"
  shows "map fst (wk_done w) @ wk_queue w = items \<and>
    (\<forall>((path, message, channel_id, retries), n, r) \<in> set (wk_done w). n \<le> nat retries \<and> (r = Some False \<longrightarrow> n = nat retries))"
  using assms
proof (induction new_worker items w rule: worker_run.induct)
  case (work items w' tries)
  then show ?case
    by (auto simp: worker_round_def split: list.splits prod.splits dest: push_attempts_bounds)
qed (auto simp: new_worker_def enqueue_chat_file_def ensure_worker_running_def Let_def)

section \<open>Witnesses\<close>

definition demo_chat :: chat_env where
  "demo_chat =
     \<lparr>ce_environ = [(''SYNOLOGY_CHAT_INCOMING_URL'', ''https://nas/x'')],
      ce_env_text = EnvText [''# t'', ''SYNOLOGY_CHAT_OUTGOING_TOKEN = '' @ [CHR 0x22, CHR ''k'', CHR 0x22]] False,
      ce_fs = demo_fs, ce_unicode = demo_unicode, ce_default_sanitizer = demo_sanitizer, ce_realpath = (\<lambda>p. p),
      ce_is_file = (\<lambda>p. True), ce_ip6 = (\<lambda>_. False), ce_server = (\<lambda>_. Answer 200 ''x''),
      ce_loads = (\<lambda>_. Some (JObj [(''success'', JBool True)])), ce_opencc = NoOpenCC\<rparr>"

definition demo_chat_request :: chat_request where
  "demo_chat_request =
     \<lparr>rq_url = ''https://nas/x?token=k'', rq_text = [], rq_file_url = Some (u_str ''file:///w/a/b''), rq_user_id = 5,
      rq_tls_verified = True\<rparr>"

lemma demo_chat_sent: "co_request (send_chat_file demo_chat (u_str '' file:// a/b'') [] None) = Some demo_chat_request"
  by code_simp

theorem only_checked_files_are_sent_witness:
  "\<exists>ps p q. chat_sanitizer demo_chat (co_environ (send_chat_file demo_chat (u_str '' file:// a/b'') [] None)) = Some ps \<and>
     path_accepted demo_unicode demo_fs ps True p \<and> fs_resolve demo_fs p = Some q \<and>
     u_str ''file:///w/a/b'' = FILE_PREFIX @ path_str q"
proof -
  have "ce_unicode demo_chat = demo_unicode" "ce_fs demo_chat = demo_fs"
      "rq_file_url demo_chat_request = Some (u_str ''file:///w/a/b'')"
    by (simp_all add: demo_chat_def demo_chat_request_def)
  with only_checked_files_are_sent [OF demo_chat_sent] show ?thesis by auto
qed

definition demo_try :: send_try where
  "demo_try = \<lparr>st_result = Some False, st_log_raises = False, st_warning_raises = False\<rparr>"

theorem attachments_are_pushed_in_order_witness:
  "\<exists>w :: worker. map fst (wk_done w) @ wk_queue w = [(u_str ''a'', [], None, 1)]"
proof -
  have "worker_run new_worker [(u_str ''a'', [], None, 1)] (enqueue_chat_file (u_str ''a'', [], None, 1) new_worker)"
    using worker_run.enqueue [OF worker_run.idle, of new_worker "(u_str ''a'', [], None, 1)"] by simp
  then have "worker_run new_worker [(u_str ''a'', [], None, 1)]
      (worker_round (\<lambda>_. demo_try) (enqueue_chat_file (u_str ''a'', [], None, 1) new_worker))" by (rule worker_run.work)
  from attachments_are_pushed_in_order [OF this, THEN conjunct1] show ?thesis by (rule exI)
qed

section \<open>Findings\<close>

text \<open>A superscript digit counts as a digit for \<open>isdigit\<close> but not for \<open>int\<close>: the message is not sent and the exception leaves
  the function.\<close>

lemma superscript_channel_raises:
  "co_result (send_chat_message demo_chat [104] (Some [CHR 0xB2])) = None"
  by code_simp

text \<open>A conversion that fails leaves the marker in the message.\<close>

lemma failed_conversion_leaves_marker: "convert_text OpenCCFails (21488 # u_str ''x'') = u_str ''__TAI_TOKEN__x''"
  by code_simp

text \<open>The real path is decoded once more: a file whose name has a percent sign is not sent, but the file whose name it is the
  code for.\<close>

lemma percent_name_sends_another_file:
  "chat_sanitize demo_chat [] (u_str ''a%2541'') = Some (ppath_of (u_str ''/w/a%41'')) \<and>
   verified_path demo_chat [] (u_str ''a%2541'') = Some (ppath_of (u_str ''/w/aA''))"
  by code_simp

text \<open>A file that was sent is sent again when the log entry about it fails.\<close>

lemma logged_success_is_sent_again:
  "push_attempts (\<lambda>k. \<lparr>st_result = Some True, st_log_raises = True, st_warning_raises = False\<rparr>) 3 0 False = (3, Some True)"
  by (simp add: push_attempts.simps)

text \<open>A session whose loop no longer runs is replaced without being closed.\<close>

lemma idle_loop_session_is_dropped_open:
  "get_session True (\<lambda>_. False) (\<lambda>_. False) True (Some 2) (Some 8) \<lparr>sp_session = Some 7, sp_session_loop = Some 1\<rparr> =
     ([], \<lparr>sp_session = Some 8, sp_session_loop = Some 2\<rparr>, Some (Some 8))"
  by (simp add: get_session_def)

text \<open>What follows an at-sign in a password is shown.\<close>

lemma password_after_at_sign_is_shown:
  "redact_url (\<lambda>_. False) (u_str ''http://u:p@ss@h'') = u_str ''http://u:[REDACTED]@ss@h''"
  by code_simp

end
