(* ===== verification/CapabilityAudit.thy ===== *)
theory CapabilityAudit
  imports ExtensionRegistry
begin

text \<open>
  The health audit of all capabilities, \<open>src/capabilities/verify_all_capabilities.py\<close>: the gate a directory passes
  before its validator is run, the validator's verdict, and the report. A directory is the record \<open>ext_dir\<close> of
  theory \<open>ExtensionRegistry\<close>; here \<open>NoBytes\<close> is a file that does not exist and \<open>UnreadableBytes\<close> one that cannot be
  opened. The latency figures and the printed table are left out, but not the exceptions of the table's format.
\<close>

section \<open>The gate\<close>

datatype audit_block =
    NoIntegrityDeclared | NotAuthorised | FileBlocked quarantine_reason | SignatureBlocked sig_verdict

text \<open>\<open>None\<close> is an exception that ends the audit, \<open>Some None\<close> that the directory passes. \<open>cap\<close> and \<open>ver\<close> are the
  identifier and version with their defaults.\<close>

definition audit_gate :: "trust_env \<Rightarrow> (string \<Rightarrow> file_bytes) \<Rightarrow> json \<Rightarrow> json \<Rightarrow> json \<Rightarrow> json \<Rightarrow> audit_block option option" where
  "audit_gate te content cap ver integrity trust =
     (case integrity of
        JObj idict \<Rightarrow>
          (let files_map = json_get idict ''files'' (JObj [])
           in if json_get idict ''algorithm'' JNull \<noteq> JStr ''sha256'' \<or> \<not> py_true files_map then Some (Some NoIntegrityDeclared)
              else case trust of
                  JObj tdict \<Rightarrow>
                    (if \<not> py_true (json_get tdict ''approved'' JNull) then Some (Some NotAuthorised)
                     else case files_map of
                         JObj files \<Rightarrow>
                           (case check_files content files of
                              None \<Rightarrow> None
                            | Some (Some why) \<Rightarrow> Some (Some (FileBlocked why))
                            | Some None \<Rightarrow>
                                (let v = verify_capability_signature te cap ver (hashes_of files)
                                           (json_get tdict ''signature'' JNull) None
                                 in if v = SigValid then Some None else Some (Some (SignatureBlocked v))))
                       | _ \<Rightarrow> None)
                | _ \<Rightarrow> None)
      | _ \<Rightarrow> None)"

section \<open>The audit\<close>

datatype audit_message =
    BlockedBy audit_block | ValidatorSaid string | ImplicitPass | ValidatorException | NoValidatorFound

record audit_row =
  aw_cap_id :: json
  aw_name :: json
  aw_version :: json
  aw_healthy :: bool
  aw_message :: audit_message

text \<open>The validator's answer as it is taken apart.\<close>

definition validator_result :: "validator_answer \<Rightarrow> bool \<times> audit_message" where
  "validator_result a =
     (case a of
        NoValidator \<Rightarrow> (False, NoValidatorFound)
      | ValidatorRaised msg \<Rightarrow> (False, ValidatorException)
      | NoValidateFunction \<Rightarrow> (True, ImplicitPass)
      | ReturnedPair ok msg \<Rightarrow> (ok, ValidatorSaid msg)
      | ReturnedOther \<Rightarrow> (False, ValidatorException))"

fun is_text :: "json \<Rightarrow> bool" where
  "is_text (JStr s) = True"
| "is_text _ = False"

text \<open>One directory with a manifest: the code that is run, and the row (\<open>None\<close> is an exception). Identifier and name are
  printed with the format of a text.\<close>

definition audit_directory :: "trust_env \<Rightarrow> ext_dir \<Rightarrow> (string \<times> json) list \<Rightarrow> code_event list \<times> audit_row option" where
  "audit_directory te xd d =
     (let cap = json_get d ''capability_id'' (JStr (xd_name xd)); name = json_get d ''name'' (JStr (xd_name xd));
          ver = json_get d ''version'' (JStr ''1.0.0'')
      in case audit_gate te (xd_file xd) cap ver (json_get d ''integrity'' (JObj [])) (json_get d ''trust'' (JObj [])) of
           None \<Rightarrow> ([], None)
         | Some blocked \<Rightarrow>
             (let (healthy, message) = (case blocked of Some b \<Rightarrow> (False, BlockedBy b) | None \<Rightarrow> validator_result (xd_validator xd));
                  ran = (if blocked = None \<and> xd_validator xd \<noteq> NoValidator then [RunValidator (xd_name xd)] else [])
              in if \<not> is_text cap \<or> \<not> is_text name then (ran, None)
                 else (ran, Some \<lparr>aw_cap_id = cap, aw_name = name, aw_version = ver, aw_healthy = healthy, aw_message = message\<rparr>)))"

fun audit_all :: "trust_env \<Rightarrow> ext_dir list \<Rightarrow> code_event list \<times> audit_row list option" where
  "audit_all te [] = ([], Some [])"
| "audit_all te (xd # xds) =
     (if \<not> xd_is_dir xd \<or> starts_with (xd_name xd) ''.'' \<or> xd_manifest xd = None then audit_all te xds
      else case xd_manifest xd of
          Some (Some (JObj d)) \<Rightarrow>
            (case audit_directory te xd d of
               (ev, None) \<Rightarrow> (ev, None)
             | (ev, Some row) \<Rightarrow> (case audit_all te xds of (ev', rows) \<Rightarrow> (ev @ ev', map_option ((#) row) rows)))
        | _ \<Rightarrow> ([], None))"

text \<open>The share of healthy capabilities is a division by their number: without any the audit raises.\<close>

definition verify_all_capabilities :: "trust_env \<Rightarrow> ext_dir list \<Rightarrow> code_event list \<times> (bool \<times> audit_row list) option" where
  "verify_all_capabilities te dirs =
     (case audit_all te (sort_key xd_name dirs) of
        (ev, None) \<Rightarrow> (ev, None)
      | (ev, Some rows) \<Rightarrow> (ev, if rows = [] then None else Some (list_all aw_healthy rows, rows)))"

section \<open>Lemmas\<close>

text \<open>What each of the two gates asks. On digests, approval and signature they ask the same questions in another order.\<close>

lemma audit_gate_passes:
  "audit_gate te content cap ver integrity trust = Some None \<longleftrightarrow>
     (\<exists>files tdict. integrity_files integrity = Some (Some files) \<and> check_files content files = Some None \<and>
        trust = JObj tdict \<and> py_true (json_get tdict ''approved'' JNull) \<and>
        verify_capability_signature te cap ver (hashes_of files) (json_get tdict ''signature'' JNull) None = SigValid)"
  by (auto simp: audit_gate_def integrity_files_def Let_def json_get_def split: json.splits if_splits option.splits)


lemma gate_directory_passes:
  "gate_directory te xd m = Some None \<longleftrightarrow>
     py_true (em_capability_id m) \<and> py_true (em_name m) \<and> xd_below_root xd \<and>
     (\<exists>files tdict. integrity_files (em_integrity m) = Some (Some files) \<and> check_files (xd_file xd) files = Some None \<and>
        em_trust m = JObj tdict \<and> py_true (json_get tdict ''approved'' JNull) \<and>
        verify_capability_signature te (em_capability_id m) (em_version m) (hashes_of files)
          (json_get tdict ''signature'' JNull) None = SigValid)"
  by (auto simp: gate_directory_def Let_def json_get_def split: json.splits if_splits option.splits)

definition manifest_gate :: "trust_env \<Rightarrow> ext_dir \<Rightarrow> (string \<times> json) list \<Rightarrow> audit_block option option" where
  "manifest_gate te xd d =
     audit_gate te (xd_file xd) (json_get d ''capability_id'' (JStr (xd_name xd))) (json_get d ''version'' (JStr ''1.0.0''))
       (json_get d ''integrity'' (JObj [])) (json_get d ''trust'' (JObj []))"

lemma audit_gate_of_passed:
  assumes "gate_directory te xd (manifest_of_dict d) = Some None" and "map_of d ''capability_id'' \<noteq> None"
  shows "manifest_gate te xd d = Some None"
proof -
  have "json_get d ''capability_id'' (JStr (xd_name xd)) = json_get d ''capability_id'' (JStr [])"
    using assms(2) by (auto simp: json_get_def)
  with assms(1) show ?thesis
    by (auto simp: manifest_gate_def audit_gate_passes gate_directory_passes manifest_of_dict_def)
qed

definition audited :: "ext_dir \<Rightarrow> bool" where
  "audited xd \<longleftrightarrow> xd_is_dir xd \<and> \<not> starts_with (xd_name xd) ''.'' \<and> xd_manifest xd \<noteq> None"

definition audit_passes :: "trust_env \<Rightarrow> ext_dir \<Rightarrow> bool" where
  "audit_passes te xd \<longleftrightarrow> (\<exists>d. xd_manifest xd = Some (Some (JObj d)) \<and> manifest_gate te xd d = Some None)"

lemma audit_directory_row:
  assumes "audit_directory te xd d = (ev, Some row)" and "xd_manifest xd = Some (Some (JObj d))"
  shows "(aw_healthy row \<longleftrightarrow> audit_passes te xd \<and> fst (validator_result (xd_validator xd))) \<and>
    (e \<in> set ev \<longleftrightarrow> e = RunValidator (xd_name xd) \<and> audit_passes te xd \<and> xd_validator xd \<noteq> NoValidator)"
  using assms
  by (auto simp: audit_directory_def Let_def audit_passes_def manifest_gate_def split: option.splits if_splits prod.splits)

lemma audit_all_rows:
  "audit_all te xds = (ev, Some rows) \<Longrightarrow>
   length rows = length (filter audited xds) \<and>
   (list_all aw_healthy rows \<longleftrightarrow> (\<forall>xd \<in> set xds. audited xd \<longrightarrow> audit_passes te xd \<and> fst (validator_result (xd_validator xd)))) \<and>
   (e \<in> set ev \<longleftrightarrow> (\<exists>xd \<in> set xds. audited xd \<and> audit_passes te xd \<and> xd_validator xd \<noteq> NoValidator \<and> e = RunValidator (xd_name xd)))"
proof (induction xds arbitrary: ev rows)
  case (Cons xd xds)
  show ?case
  proof (cases "audited xd")
    case False
    with Cons show ?thesis by (auto simp: audited_def)
  next
    case True
    with Cons.prems obtain d evd row evs rs where m: "xd_manifest xd = Some (Some (JObj d))"
        and r: "audit_directory te xd d = (evd, Some row)" "audit_all te xds = (evs, Some rs)" "ev = evd @ evs" "rows = row # rs"
      by (auto simp: audited_def split: option.splits json.splits prod.splits)
    from Cons.IH [OF r(2)] audit_directory_row [OF r(1) m, of e] True r(3,4) show ?thesis by auto
  qed
qed auto

section \<open>Properties\<close>

text \<open>C16: the audit and the registry agree up to three conditions that only the registry has. A capability passes the
  registry's gates exactly when it passes the audit's gate, its manifest gives an identifier and a name, and its directory is
  below the root of the capabilities; and the discovery runs the validator of a directory exactly when the audit runs it and
  these three conditions hold. (A manifest without a name is thus validated by the audit and quarantined by the registry.)\<close>

theorem audit_and_registry_agree:
  assumes "xd_manifest xd = Some (Some (JObj d))"
  shows "(gate_directory te xd (manifest_of_dict d) = Some None \<longleftrightarrow>
      manifest_gate te xd d = Some None \<and> named_manifest d \<and> xd_below_root xd) \<and>
    (RunValidator n \<in> set (fst (process_extension_directory te xd rg)) \<longleftrightarrow>
      RunValidator n \<in> set (fst (audit_directory te xd d)) \<and> named_manifest d \<and> xd_below_root xd)"
proof -
  let ?reg = "gate_directory te xd (manifest_of_dict d) = Some None"
  have "json_get d ''capability_id'' (JStr (xd_name xd)) = json_get d ''capability_id'' (JStr [])" if "named_manifest d"
    using that by (auto simp: named_manifest_def json_get_def split: option.splits)
  then have gates: "?reg \<longleftrightarrow> manifest_gate te xd d = Some None \<and> named_manifest d \<and> xd_below_root xd"
    by (auto simp: manifest_gate_def audit_gate_passes gate_directory_passes manifest_of_dict_def named_manifest_def)
  have run: "RunValidator n \<in> set (fst (process_extension_directory te xd rg)) \<longleftrightarrow>
      ?reg \<and> xd_validator xd \<noteq> NoValidator \<and> n = xd_name xd"
    using entry_of_events [OF refl, of "RunValidator n" xd d "manifest_of_dict d" rg]
    by (auto simp: process_extension_directory_def assms Let_def validator_verdict_def
        split: option.splits prod.splits if_splits validator_answer.splits)
  have audit: "RunValidator n \<in> set (fst (audit_directory te xd d)) \<longleftrightarrow>
      manifest_gate te xd d = Some None \<and> xd_validator xd \<noteq> NoValidator \<and> n = xd_name xd"
    by (auto simp: audit_directory_def manifest_gate_def Let_def split: option.splits if_splits prod.splits)
  from gates show ?thesis unfolding run audit by blast
qed

theorem audit_and_registry_agree_witness:
  "manifest_gate demo_trust demo_dir demo_signed = Some None \<and>
   RunValidator ''tool'' \<in> set (fst (process_extension_directory demo_trust demo_dir empty_registry)) \<and>
   RunValidator ''tool'' \<in> set (fst (audit_directory demo_trust demo_dir demo_signed))"
proof -
  have "xd_manifest demo_dir = Some (Some (JObj demo_signed))" by (simp add: demo_dir_def)
  from audit_and_registry_agree [OF this, of demo_trust "''tool''" empty_registry] demo_gate unlisted_code_is_run
  show ?thesis by auto
qed

text \<open>The verdict of an audit is exact: it has a row for every visible directory with a manifest, it says that all is well
  exactly when each of these passed the gate and its validator agreed, and it ran the validators of those that passed the
  gate, and no other code.\<close>

theorem audit_verdict_is_exact:
  assumes "verify_all_capabilities te dirs = (ev, Some (ok, rows))"
  shows "length rows = length (filter audited dirs) \<and>
    (ok \<longleftrightarrow> (\<forall>xd \<in> set dirs. audited xd \<longrightarrow> audit_passes te xd \<and> fst (validator_result (xd_validator xd)))) \<and>
    (e \<in> set ev \<longleftrightarrow>
       (\<exists>xd \<in> set dirs. audited xd \<and> audit_passes te xd \<and> xd_validator xd \<noteq> NoValidator \<and> e = RunValidator (xd_name xd)))"
proof -
  from assms have a: "audit_all te (sort_key xd_name dirs) = (ev, Some rows)" and ok: "ok = list_all aw_healthy rows"
    by (auto simp: verify_all_capabilities_def split: prod.splits option.splits if_splits)
  have "length (filter audited (sort_key xd_name dirs)) = length (filter audited dirs)"
    by (metis mset_filter mset_sort size_mset)
  with audit_all_rows [OF a, of e] ok show ?thesis by simp
qed

lemma demo_audit_dir:
  "audit_directory demo_trust demo_dir demo_signed =
     ([RunValidator ''tool''], Some \<lparr>aw_cap_id = JStr ''CAP-1'', aw_name = JStr ''tool'', aw_version = JStr ''1.0.0'',
        aw_healthy = True, aw_message = ValidatorSaid []\<rparr>)"
proof -
  have f: "json_get demo_signed ''capability_id'' (JStr ''tool'') = JStr ''CAP-1''"
      "json_get demo_signed ''name'' (JStr ''tool'') = JStr ''tool''"
    by (simp_all add: demo_signed_def signed_manifest_def demo_cap_manifest_def)
  have v: "xd_validator demo_dir = ReturnedPair True []" "xd_name demo_dir = ''tool''" by (simp_all add: demo_dir_def)
  have g: "audit_gate demo_trust (xd_file demo_dir) (JStr ''CAP-1'') (JStr ''1.0.0'')
      (json_get demo_signed ''integrity'' (JObj [])) (json_get demo_signed ''trust'' (JObj [])) = Some None"
    using demo_gate by (simp add: audit_gate_passes gate_directory_passes manifest_of_dict_def demo_fields)
  show ?thesis
    by (simp add: audit_directory_def Let_def f demo_fields(4) g v validator_result_def)
qed

lemma demo_audit:
  "verify_all_capabilities demo_trust [demo_dir] =
     ([RunValidator ''tool''], Some (True, [\<lparr>aw_cap_id = JStr ''CAP-1'', aw_name = JStr ''tool'', aw_version = JStr ''1.0.0'',
        aw_healthy = True, aw_message = ValidatorSaid []\<rparr>]))"
proof -
  have "xd_is_dir demo_dir \<and> \<not> starts_with (xd_name demo_dir) ''.'' \<and> xd_manifest demo_dir = Some (Some (JObj demo_signed))"
    by (simp add: demo_dir_def starts_with_def)
  then show ?thesis by (simp add: verify_all_capabilities_def demo_audit_dir)
qed

theorem audit_verdict_is_exact_witness:
  "audited demo_dir \<longrightarrow> audit_passes demo_trust demo_dir"
  using audit_verdict_is_exact [OF demo_audit, of "RunValidator ''tool''"] by auto

section \<open>Findings\<close>

text \<open>A manifest without a name passes the audit's gate and its validator is run; the registry quarantines the directory.\<close>

definition demo_nameless :: "(string \<times> json) list" where
  "demo_nameless = filter (\<lambda>(k, v). k \<noteq> ''name'') demo_signed"

lemma nameless_capability_is_audited:
  "manifest_gate demo_trust demo_dir demo_nameless = Some None \<and>
   gate_directory demo_trust demo_dir (manifest_of_dict demo_nameless) = Some (Some MissingIdOrName)"
proof -
  have get: "json_get demo_nameless k v = (if k = ''name'' then v else json_get demo_signed k v)" for k v
    by (auto simp: demo_nameless_def json_get_def map_of_filter_in demo_signed_def signed_manifest_def demo_cap_manifest_def)
  have "map_of demo_signed ''capability_id'' \<noteq> None"
    by (simp add: demo_signed_def signed_manifest_def demo_cap_manifest_def)
  then have "json_get demo_signed ''capability_id'' (JStr (xd_name demo_dir)) = json_get demo_signed ''capability_id'' (JStr [])"
    by (auto simp: json_get_def)
  then have "manifest_gate demo_trust demo_dir demo_nameless = manifest_gate demo_trust demo_dir demo_signed"
    by (simp add: manifest_gate_def get)
  moreover have "manifest_gate demo_trust demo_dir demo_signed = Some None"
    using audit_gate_of_passed [OF demo_gate] by (simp add: demo_signed_def signed_manifest_def demo_cap_manifest_def)
  ultimately show ?thesis by (simp add: gate_directory_def manifest_of_dict_def get)
qed

text \<open>The validator that is run need not be among the files that were signed: here only \<open>a.py\<close> is.\<close>

lemma unsigned_validator_is_run:
  "RunValidator ''tool'' \<in> set (fst (verify_all_capabilities demo_trust [demo_dir])) \<and>
   integrity_files (em_integrity (manifest_of_dict demo_signed)) = Some (Some [(''a.py'', JStr (sha256_hex demo_source))])"
  by (simp add: demo_audit manifest_of_dict_def demo_fields integrity_files_def)

text \<open>Without any capability the audit raises, in the division for the share of healthy ones.\<close>

lemma empty_library_raises: "verify_all_capabilities te [] = ([], None)"
  by (simp add: verify_all_capabilities_def)

text \<open>One manifest whose integrity block is null ends the whole audit, unlike in the registry, which refuses the directory.\<close>

lemma null_integrity_ends_the_audit:
  assumes "xd_is_dir xd" and "\<not> starts_with (xd_name xd) ''.''" and "xd_manifest xd = Some (Some (JObj [(''integrity'', JNull)]))"
  shows "verify_all_capabilities te [xd] = ([], None)"
  using assms by (simp add: verify_all_capabilities_def audit_directory_def audit_gate_def Let_def)

end
