(* ===== verification/SelfChecks.thy ===== *)
theory SelfChecks
  imports Planner Breakers InlinePatch Diagnostics ExtensionRegistry
begin

text \<open>
  The self-tests of the six capabilities, the \<open>validator.py\<close> of each directory below \<open>src/capabilities\<close>: each
  runs operations of its own engine, here those of the theories \<open>Planner\<close>, \<open>Breakers\<close>, \<open>InlinePatch\<close>,
  \<open>Diagnostics\<close>, \<open>ExtensionRegistry\<close> and \<open>McpBridge\<close>. A test that needs times reads them from a clock, the time
  of each call.
\<close>

datatype check_result = Healthy | Unhealthy string | CheckRaised

section \<open>The planner\<close>

definition and_then :: "plan_error + 'a \<Rightarrow> ('a \<Rightarrow> plan_error + 'b) \<Rightarrow> plan_error + 'b" where
  "and_then r f = (case r of Inl e \<Rightarrow> Inl e | Inr x \<Rightarrow> f x)"

lemma and_then_simps [simp]: "and_then (Inl e) f = Inl e" "and_then (Inr x) f = f x"
  by (simp_all add: and_then_def)

text \<open>The plan after the failing task is replaced, and after the replacement is done. Titles and the error text are
  arguments.\<close>

definition replanned :: "(nat \<Rightarrow> time) \<Rightarrow> (nat \<Rightarrow> string) \<Rightarrow> plan_error + string list \<times> plan" where
  "replanned clk msg =
     and_then (add_task (clk 1) ''T1'' (msg 1) [] [] 2 (new_plan (clk 0) ''DIAG-PLAN-001'' (msg 0))) (\<lambda>p.
     and_then (add_task (clk 2) ''T2'' (msg 2) [] [''T1''] 2 p) (\<lambda>p.
     and_then (start_task (clk 3) ''T1'' p) (\<lambda>p.
     and_then (mark_completed (clk 4) ''T1'' (Some (JObj [(''ok'', JBool True)])) p) (\<lambda>p.
     and_then (start_task (clk 5) ''T2'' p) (\<lambda>p.
     and_then (mark_failed (clk 6) ''T2'' (msg 3) p) (\<lambda>p.
     partial_replan (clk 7) ''T2''
       [\<lparr>rp_task_id = Some ''T2_ALT'', rp_title = Some (msg 4), rp_description = None, rp_dependencies = None\<rparr>] p))))))"

definition validate_planner_recovery :: "(nat \<Rightarrow> time) \<Rightarrow> (nat \<Rightarrow> string) \<Rightarrow> check_result" where
  "validate_planner_recovery clk msg =
     (case replanned clk msg of
        Inl _ \<Rightarrow> CheckRaised
      | Inr (_, p) \<Rightarrow>
          (case map_of (pl_tasks p) ''T1'' of
             None \<Rightarrow> CheckRaised
           | Some t \<Rightarrow>
               (if st_status t \<noteq> COMPLETED then Unhealthy ''Self-test failed: T1 state corrupted after replan.''
                else case and_then (start_task (clk 8) ''T2_ALT'' p) (\<lambda>p. mark_completed (clk 9) ''T2_ALT'' None p) of
                    Inl _ \<Rightarrow> CheckRaised
                  | Inr p \<Rightarrow> (if is_all_completed p then Healthy else Unhealthy ''Self-test failed: Plan not marked completed.''))))"

section \<open>The cron circuit breaker\<close>

definition diag_failures :: "(nat \<Rightarrow> time) \<Rightarrow> job_entry dict" where
  "diag_failures clk =
     foldl (\<lambda>bs i. snd (record_result (clk i) ''diag_job'' False ''Simulated network timeout'' [] bs)) [] [0, 1, 2]"

definition validate_operator_deadletter :: "(nat \<Rightarrow> time) \<Rightarrow> check_result" where
  "validate_operator_deadletter clk =
     (let bs = diag_failures clk in
      case map_of bs ''diag_job'' of
        None \<Rightarrow> CheckRaised
      | Some e \<Rightarrow>
          (if je_state e \<noteq> DEGRADED_QUARANTINED
           then Unhealthy ''Self-test failed: Breaker did not trip to DEGRADED_QUARANTINED on 3 failures.''
           else case should_allow_execution (clk 3) ''diag_job'' bs of
               (allow, bs1) \<Rightarrow>
                 (if allow then Unhealthy ''Self-test failed: Quarantined job was incorrectly allowed to run.''
                  else case map_of (snd (record_result (clk 4) ''diag_job'' True [] [] bs1)) ''diag_job'' of
                      None \<Rightarrow> CheckRaised
                    | Some e \<Rightarrow>
                        (if je_state e \<noteq> HEALTHY
                         then Unhealthy ''Self-test failed: Breaker did not recover to HEALTHY on success.'' else Healthy))))"

section \<open>The inline patch\<close>

text \<open>The temporary file: whether it could be written, its path, and what the engine sees of it.\<close>

definition DIAG_SOURCE :: ustr where
  "DIAG_SOURCE = u_str ''def foo():'' @ [10] @ u_str ''    return 1'' @ [10]"

definition DIAG_PATCHED :: ustr where
  "DIAG_PATCHED = u_str ''def foo():'' @ [10] @ u_str ''    return 2'' @ [10]"

definition validate_inline_patch :: "fs \<Rightarrow> ppath \<Rightarrow> (ustr \<Rightarrow> bool) \<Rightarrow> bool \<Rightarrow> bool \<Rightarrow> bool \<Rightarrow> ustr \<Rightarrow> check_result" where
  "validate_inline_patch f allowed ast_ok created is_file write_ok temp_file =
     (if \<not> created then CheckRaised
      else case apply_inline_patch f allowed ast_ok
                  \<lparr>pe_is_file = is_file, pe_content = Some DIAG_SOURCE, pe_write_ok = write_ok\<rparr>
                  temp_file (u_str ''    return 1'') (u_str ''    return 2'') False True of
          (Inl _, _) \<Rightarrow> Unhealthy ''Self-test failed''
        | (Inr _, out) \<Rightarrow>
            (let content = (case out of None \<Rightarrow> DIAG_SOURCE | Some (p, s) \<Rightarrow> s)
             in if contains content (u_str ''return 2'') then Healthy
                else Unhealthy ''Self-test failed: content not modified as expected.''))"

section \<open>The diagnostic engine\<close>

definition DIAG_STDERR :: ustr where
  "DIAG_STDERR =
     [10] @ (u_str ''  File '' @ [34] @ u_str ''${HERMES_WORKSPACE_ROOT}/test.py'' @ [34] @ u_str '', line 10'') @ [10] @ (u_str ''    print('' @ [34] @ u_str ''hello'' @ [34]) @ [10] @
     u_str ''                 ^'' @ [10] @ u_str ''SyntaxError: was never closed'' @ [10]"

text \<open>The directive always carries its headline, so the second test cannot fail.\<close>

definition validate_agent_loop_recover :: "uni \<Rightarrow> check_result" where
  "validate_agent_loop_recover un =
     (if dg_category (extract_signature un 1 DIAG_STDERR []) \<noteq> SYNTAX_ERROR then Unhealthy ''Signature categorization failed''
      else Healthy)"

section \<open>The extension layer\<close>

text \<open>The test discovers all extensions, among them its own directory: its validator is called again inside. \<open>depth\<close> is the
  number of nested calls the interpreter allows; the \<open>RecursionError\<close> of the innermost is caught by the test. \<open>dirs\<close> are
  the directories for a given answer of the extension layer's own validator.\<close>

fun validate_extension_layer :: "nat \<Rightarrow> trust_env \<Rightarrow> (validator_answer \<Rightarrow> ext_dir list option) \<Rightarrow> check_result" where
  "validate_extension_layer 0 te dirs = CheckRaised"
| "validate_extension_layer (Suc depth) te dirs =
     (let inner = ReturnedPair (validate_extension_layer depth te dirs = Healthy) []
      in case dirs inner of
           None \<Rightarrow> Unhealthy ''Discovery failed''
         | Some xds \<Rightarrow>
             (case snd (discover_and_register_all te (Some xds) empty_registry) of
                None \<Rightarrow> CheckRaised
              | Some rg \<Rightarrow> (if length (rg_active rg) < 3 then Unhealthy ''Expected at least 3 active capabilities'' else Healthy)))"

section \<open>The bridge\<close>

definition DIAG_ROOT :: ustr where "DIAG_ROOT = u_str ''${HERMES_WORKSPACE_ROOT}''"

definition diag_bridge :: "mcp_env \<Rightarrow> mcp_bridge option" where
  "diag_bridge e =
     map_option (\<lambda>w. register_mcp_tool ''diag_server'' ''diag_tool'' ''Diagnostic MCP Tool'' (JObj []) False
         (Some (\<lambda>kvs. case kvs of
            [(k, AStr p)] \<Rightarrow> if k = u_str ''path'' then Some (ResText (u_str ''Read: '' @ p)) else None
          | _ \<Rightarrow> None))
         \<lparr>mb_env = e, mb_workspace = w, mb_tools = [], mb_approval_handler = None, mb_approval_secret = None,
          mb_environ_secret = None\<rparr>) (new_workspace e DIAG_ROOT)"

definition validate_sandboxed_mcp :: "mcp_env \<Rightarrow> time \<Rightarrow> check_result" where
  "validate_sandboxed_mcp e now =
     (case diag_bridge e of
        None \<Rightarrow> CheckRaised
      | Some b \<Rightarrow>
          (case fst (invoke_tool b now ''diag_server'' ''diag_tool'' [(u_str ''path'', AStr (DIAG_ROOT @ u_str ''/ok.txt''))] False None False) of
             McpSuccess r \<Rightarrow>
               (case fst (invoke_tool b now ''diag_server'' ''diag_tool'' [(u_str ''path'', AStr (u_str ''/etc/shadow''))] False None False) of
                  SecurityGateBlocked why \<Rightarrow> Healthy
                | McpRaised \<Rightarrow> CheckRaised
                | _ \<Rightarrow> Unhealthy ''Self-test failed: Sandbox gate failed to block /etc/shadow access.'')
           | McpRaised \<Rightarrow> CheckRaised
           | _ \<Rightarrow> Unhealthy ''Self-test failed: Legitimate path invocation failed.''))"

section \<open>Lemmas\<close>

lemma planner_healthy: "validate_planner_recovery clk msg = Healthy"
  by (simp add: validate_planner_recovery_def replanned_def new_plan_def add_task_def start_task_def mark_completed_def
      mark_failed_def partial_replan_def new_task_def refresh_task_states_def refreshed_def dep_completed_def has_key_def
      redirect_def is_all_completed_def Let_def)

lemma recover_healthy:
  assumes "re_search un (SYNTAX_RE un) (combined_output DIAG_STDERR []) \<noteq> None"
  shows "validate_agent_loop_recover un = Healthy"
proof -
  have "contains (combined_output DIAG_STDERR []) (u_str ''SyntaxError'')" by code_simp
  with assms show ?thesis
    by (auto simp: validate_agent_loop_recover_def extract_signature_def RULES_IN_ORDER_def syntax_signature_def Let_def
        split: option.splits)
qed

lemma deadletter_healthy:
  "validate_operator_deadletter clk = (if 300 \<le> clk 3 - clk 2
     then Unhealthy ''Self-test failed: Quarantined job was incorrectly allowed to run.'' else Healthy)"
  by (simp add: validate_operator_deadletter_def diag_failures_def record_result_def job_failed_def new_job_def
      should_allow_execution_def FAILURE_THRESHOLD_def Let_def)

definition DIAG_LINES :: "ustr list" where
  "DIAG_LINES = [u_str ''def foo():'' @ [10], u_str ''    return 1'' @ [10]]"

lemma diag_lines:
  "split_keep [] (universal_newlines DIAG_SOURCE) = DIAG_LINES"
  "search_block DIAG_LINES (complete_last DIAG_LINES (split_keep [] (u_str ''    return 1''))) = ([1], False)"
  "concat (replace_blocks DIAG_LINES (length (complete_last DIAG_LINES (split_keep [] (u_str ''    return 1''))))
     (complete_last DIAG_LINES (split_keep [] (u_str ''    return 2''))) 0 [1]) = DIAG_PATCHED"
  "contains DIAG_PATCHED (u_str ''return 2'')"
  by code_simp+

lemma inline_patch_healthy:
  "validate_inline_patch f allowed ast_ok created is_file write_ok temp = Healthy \<longleftrightarrow>
     created \<and> is_file \<and> write_ok \<and>
     (\<exists>p. validate_path_sandbox f allowed temp = Inr p \<and> fs_exists f p \<and> (suffix p = u_str ''.py'' \<longrightarrow> ast_ok DIAG_PATCHED))"
  using diag_lines
  by (auto simp: validate_inline_patch_def apply_inline_patch_def patch_lines_def Let_def split: sum.splits)

lemma extension_layer_step:
  "validate_extension_layer (Suc n) te dirs = Healthy \<longleftrightarrow>
     (\<exists>xds rg. dirs (ReturnedPair (validate_extension_layer n te dirs = Healthy) []) = Some xds \<and>
        snd (discover_and_register_all te (Some xds) empty_registry) = Some rg \<and> 3 \<le> length (rg_active rg))"
  by (auto simp: Let_def split: option.splits)

definition diag_env :: "ustr option \<Rightarrow> mcp_env" where
  "diag_env r = demo_mcp\<lparr>me_environ := (\<lambda>n. if n = u_str ''HERMES_WORKSPACE_ROOT'' then r else None),
     me_fs := demo_fs\<lparr>fs_resolve := \<lambda>p. Some (if is_absolute p then p else path_join (ppath_of (u_str ''/cwd'')) p)\<rparr>\<rparr>"

lemma mcp_healthy:
  "validate_sandboxed_mcp (diag_env None) 0 = Healthy"
  "validate_sandboxed_mcp (diag_env (Some (u_str ''/w''))) 0 = Healthy"
  by code_simp+

section \<open>Properties\<close>

text \<open>The self-tests agree with the engines they test: the planner passes whatever its clock and texts; the cron breaker
  passes exactly when fewer than 300 seconds go by between the third failure and the question whether the job may run (after
  more, the quarantined job is let through as a probe and the test calls that a failure); and the patch engine passes exactly
  when the temporary file could be made, lies where the sandbox accepts it, is a file that can be written, and (if it is a
  Python file) the parser accepts the patched text.\<close>

theorem self_tests_agree_with_the_engines:
  "validate_planner_recovery clk msg = Healthy \<and>
   (validate_operator_deadletter clk = Healthy \<longleftrightarrow> clk 3 - clk 2 < 300) \<and>
   (validate_inline_patch f allowed ast_ok created is_file write_ok temp = Healthy \<longleftrightarrow>
      created \<and> is_file \<and> write_ok \<and>
      (\<exists>p. validate_path_sandbox f allowed temp = Inr p \<and> fs_exists f p \<and> (suffix p \<noteq> u_str ''.py'' \<or> ast_ok DIAG_PATCHED)))"
  by (auto simp: planner_healthy deadletter_healthy inline_patch_healthy)

section \<open>Findings\<close>

text \<open>The test of the bridge takes the refusal of \<open>/etc/shadow\<close> for granted: with the root directory as workspace the bridge
  lets the path through, and the test fails.\<close>

lemma root_workspace_fails_the_test: "validate_sandboxed_mcp (diag_env (Some (u_str ''/''))) 0 \<noteq> Healthy"
  by code_simp

text \<open>The test of the extension layer runs all validators, its own among them, and so calls itself until the interpreter's
  depth is used up; each level but the innermost passes when three other capabilities are active.\<close>

lemma extension_test_calls_itself:
  assumes "\<And>a. \<exists>xds rg. dirs a = Some xds \<and> snd (discover_and_register_all te (Some xds) empty_registry) = Some rg \<and>
    3 \<le> length (rg_active rg)"
  shows "validate_extension_layer depth te dirs = (if depth = 0 then CheckRaised else Healthy)"
  using assms extension_layer_step by (cases depth) auto

end
