(* ===== verification/ReleaseAudit.thy ===== *)
theory ReleaseAudit
  imports RuntimeControl ConfigLoader
begin

text \<open>
  The audit before a public release, \<open>src/check_security.py\<close>: the deny list, the scan of the working tree and of
  the git history for names and texts that must not be published, and the exit code. The tree, the output of git, the
  lower-casing of text and the Unicode tests above 255 are parameters.
\<close>

section \<open>Names and patterns\<close>

definition FORBIDDEN_EXTENSIONS :: "ustr list" where
  "FORBIDDEN_EXTENSIONS = map u_str
     [''.db'', ''.sqlite'', ''.sqlite3'', ''.db-wal'', ''.db-shm'', ''.bak'', ''.backup'', ''.old'', ''.key'', ''.pem'', ''.p12'',
      ''.pfx'', ''.log'']"

definition FORBIDDEN_FILENAMES :: "ustr list" where
  "FORBIDDEN_FILENAMES = map u_str
     [''id_rsa'', ''id_ed25519'', ''id_dsa'', ''id_ecdsa'', ''known_hosts'', ''authorized_keys'', ''credentials.json'',
      ''service_account.json'']"

definition IGNORED_DIRS :: "ustr list" where
  "IGNORED_DIRS = map u_str
     [''.git'', ''venv'', ''.venv'', ''__pycache__'', ''.pytest_cache'', ''node_modules'', ''.mypy_cache'', ''.coverage'', ''.idea'',
      ''.vscode'']"

definition SAFE_EXCLUSION_WORDS :: "ustr list" where
  "SAFE_EXCLUSION_WORDS = map u_str
     [''your_custom_gateway_token'', ''your_api_key_here'', ''not-needed-for-local-llm'', ''mock'', ''test'', ''example'', ''sample'',
      ''synthetic'', ''placeholder'', ''localhost'', ''127.0.0.1'']"

text \<open>The Unicode tests: alphanumeric and decimal digit above 255, and lower case.\<close>

record text_db =
  td_alnum :: uni
  td_digit :: "nat \<Rightarrow> bool"
  td_lower :: "ustr \<Rightarrow> ustr"

definition token_char :: "nat \<Rightarrow> bool" where
  "token_char c \<longleftrightarrow> alnum_ascii c \<or> c = 95 \<or> c = 45"

definition any_digit :: "text_db \<Rightarrow> regex" where
  "any_digit td = Cls (\<lambda>c. u_digit c \<or> (255 < c \<and> td_digit td c))"

definition OPENAI_KEY :: regex where
  "OPENAI_KEY = seqs [WordB, Grp 1 (seqs [lit ''sk-'', at_least 24 (Cls token_char)]), WordB]"

definition ANTHROPIC_KEY :: regex where
  "ANTHROPIC_KEY = seqs [WordB, Grp 1 (seqs [lit ''sk-ant-'', at_least 24 (Cls token_char)]), WordB]"

definition GITHUB_TOKEN :: regex where
  "GITHUB_TOKEN = seqs [WordB, Grp 1 (seqs [lit ''gh'', Cls (any_of ''pousr''), lit ''_'', at_least 24 (Cls alnum_ascii)]), WordB]"

definition AWS_KEY_ID :: regex where
  "AWS_KEY_ID = seqs [WordB, Grp 1 (seqs [lit ''AKIA'', exactly 16 (Cls upper_digit)]), WordB]"

definition quote_mark :: regex where "quote_mark = opt (Cls (\<lambda>c. c = 39 \<or> c = 34))"

definition AWS_SECRET :: regex where
  "AWS_SECRET =
     seqs [alts [lit_ci ''aws_secret_access_key'', lit_ci ''aws_secret''], star space, Cls (any_of '':=''), star space, quote_mark,
           Grp 1 (exactly 40 (Cls (ci (\<lambda>c. alnum_ascii c \<or> any_of ''/+='' c)))), quote_mark]"

definition JWT_TOKEN :: regex where
  "JWT_TOKEN =
     seqs [WordB, Grp 1 (seqs [lit ''eyJ'', at_least 12 (Cls token_char), lit ''.'', at_least 12 (Cls token_char), lit ''.'',
           at_least 12 (Cls token_char)]), WordB]"

definition PRIVATE_KEY_BLOCK :: regex where
  "PRIVATE_KEY_BLOCK =
     seqs [lit ''-----BEGIN '', opt (seqs [plus (Cls pem_char), lit '' '']), lit ''PRIVATE KEY-----'']"

definition URL_CREDENTIALS :: regex where
  "URL_CREDENTIALS =
     seqs [Grp 1 (seqs [lit ''://'', plus (Cls (\<lambda>c. c \<notin> {58, 47, 64} \<and> \<not> u_space c))]), lit '':'',
           Grp 2 (plus (Cls (\<lambda>c. c \<notin> {64, 47} \<and> \<not> u_space c))), lit ''@'']"

definition octet :: "text_db \<Rightarrow> regex" where "octet td = between 1 3 (any_digit td)"

definition PRIVATE_IP :: "text_db \<Rightarrow> regex" where
  "PRIVATE_IP td =
     seqs [WordB,
       Grp 1 (alts
         [seqs [lit ''192.168.'', octet td, lit ''.'', octet td],
          seqs [lit ''10.'', octet td, lit ''.'', octet td, lit ''.'', octet td],
          seqs [lit ''172.'', alts [seqs [lit ''1'', Cls (\<lambda>c. 54 \<le> c \<and> c \<le> 57)], seqs [lit ''2'', any_digit td],
                  seqs [lit ''3'', Cls (\<lambda>c. c = 48 \<or> c = 49)]], lit ''.'', octet td, lit ''.'', octet td]]),
       WordB]"

text \<open>The number of groups of a pattern decides what \<open>findall\<close> gives: the match, the group, or a pair, which is joined
  with a blank.\<close>

datatype pattern_groups = NoGroup | OneGroup | TwoGroups

definition AUDIT_PATTERNS :: "text_db \<Rightarrow> (string \<times> pattern_groups \<times> regex) list" where
  "AUDIT_PATTERNS td =
     [(''OPENAI_KEY'', OneGroup, OPENAI_KEY), (''ANTHROPIC_KEY'', OneGroup, ANTHROPIC_KEY),
      (''GITHUB_TOKEN'', OneGroup, GITHUB_TOKEN), (''AWS_KEY_ID'', OneGroup, AWS_KEY_ID), (''AWS_SECRET'', OneGroup, AWS_SECRET),
      (''JWT_TOKEN'', OneGroup, JWT_TOKEN), (''PRIVATE_KEY_BLOCK'', NoGroup, PRIVATE_KEY_BLOCK),
      (''URL_CREDENTIALS'', TwoGroups, URL_CREDENTIALS), (''PRIVATE_IP'', OneGroup, PRIVATE_IP td)]"

definition matched_strings :: "text_db \<Rightarrow> pattern_groups \<Rightarrow> regex \<Rightarrow> ustr \<Rightarrow> ustr list" where
  "matched_strings td g r content =
     map (\<lambda>(gap, txt, gs). case g of NoGroup \<Rightarrow> txt | OneGroup \<Rightarrow> group gs 1 | TwoGroups \<Rightarrow> group gs 1 @ [32] @ group gs 2)
       (fst (scan_from (td_alnum td) r [] [] content))"

text \<open>A match that is taken for an example. \<open>place\<close> is the name of the file.\<close>

definition exempt :: "text_db \<Rightarrow> ustr \<Rightarrow> ustr \<Rightarrow> bool" where
  "exempt td place m \<longleftrightarrow>
     list_ex (contains (td_lower td m)) SAFE_EXCLUSION_WORDS \<or>
     contains place (u_str ''test_'') \<and>
       (contains m (u_str ''10.0.0.1'') \<or> contains (td_lower td m) (u_str ''mock'') \<or> contains (td_lower td m) (u_str ''example''))"

datatype reason = ForbiddenExtension ustr | ForbiddenName ustr | RuleHit string ustr | DenyTerm ustr | GitFailed

text \<open>What the rules and the deny list say of a text: for each rule at most its first match that counts.\<close>

definition rule_hits :: "text_db \<Rightarrow> ustr \<Rightarrow> ustr \<Rightarrow> reason list" where
  "rule_hits td place content =
     concat (map (\<lambda>(name, g, r).
        case find (\<lambda>m. \<not> exempt td place m) (matched_strings td g r content) of
          None \<Rightarrow> [] | Some m \<Rightarrow> [RuleHit name (take 12 m)]) (AUDIT_PATTERNS td))"

definition deny_hits :: "ustr list \<Rightarrow> ustr \<Rightarrow> reason list" where
  "deny_hits denylist content = map (\<lambda>t. DenyTerm (take 3 t)) (filter (contains content) denylist)"

section \<open>The deny list\<close>

text \<open>The file: absent or no file, it cannot be read, or its lines. \<open>None\<close> is the exit with code 1.\<close>

datatype deny_file = NoDenyFile | DenyUnreadable | DenyLines "ustr list"

definition load_external_denylist :: "deny_file \<Rightarrow> ustr list option" where
  "load_external_denylist f =
     (case f of
        NoDenyFile \<Rightarrow> Some []
      | DenyUnreadable \<Rightarrow> None
      | DenyLines ls \<Rightarrow> Some (remdups (filter (\<lambda>l. l \<noteq> [] \<and> \<not> starts_with l [35]) (map u_strip ls))))"

section \<open>The working tree\<close>

text \<open>A directory: its files with their text (\<open>None\<close>: it cannot be read) and its directories.\<close>

datatype dtree = DTree "(ustr \<times> ustr option) list" "(ustr \<times> dtree) list"

text \<open>\<open>os.walk\<close> from the top, without the ignored directories: path, name and text of every file.\<close>

fun walk :: "ustr list \<Rightarrow> dtree \<Rightarrow> (ustr list \<times> ustr \<times> ustr option) list" where
  "walk path (DTree files dirs) =
     map (\<lambda>(f, c). (path, f, c)) files @
     concat (map (\<lambda>(d, t). if d \<in> set IGNORED_DIRS then [] else walk (path @ [d]) t) dirs)"

definition skipped_file :: "ustr \<Rightarrow> bool" where
  "skipped_file f \<longleftrightarrow> ends_with f (u_str ''.pyc'') \<or> f = u_str ''check_security.py''"

definition audit_file :: "text_db \<Rightarrow> ustr list \<Rightarrow> ustr \<Rightarrow> ustr option \<Rightarrow> reason list" where
  "audit_file td denylist f content =
     (if list_ex (ends_with f) FORBIDDEN_EXTENSIONS then [ForbiddenExtension (suffix (ppath_of f))]
      else if f \<in> set FORBIDDEN_FILENAMES then [ForbiddenName f]
      else case content of
          None \<Rightarrow> []
        | Some c \<Rightarrow> rule_hits td f c @ deny_hits denylist c)"

text \<open>Violations with the path of the file, and the number of files; the outer \<open>None\<close> is the exit.\<close>

definition run_public_release_audit ::
  "text_db \<Rightarrow> deny_file \<Rightarrow> dtree \<Rightarrow> (bool \<times> (ustr list \<times> reason) list \<times> nat) option" where
  "run_public_release_audit td df tree =
     map_option (\<lambda>denylist.
        let files = filter (\<lambda>(p, f, c). \<not> skipped_file f) (walk [] tree);
            violations = concat (map (\<lambda>(p, f, c). map (\<lambda>w. (p @ [f], w)) (audit_file td denylist f c)) files)
        in (violations = [], violations, length files)) (load_external_denylist df)"

section \<open>The history\<close>

text \<open>What git says: there is no repository, it fails, or its output.\<close>

datatype git_log = NoRepository | GitFails | GitOutput ustr

record scan_state =
  sn_commit :: ustr
  sn_file :: ustr
  sn_commits :: nat
  sn_violations :: "(ustr \<times> ustr \<times> reason) list"

definition start_scan :: scan_state where
  "start_scan = \<lparr>sn_commit = u_str ''initial'', sn_file = u_str ''unknown'', sn_commits = 0, sn_violations = []\<rparr>"

text \<open>\<open>line.split()\<close>.\<close>

fun words_from :: "ustr \<Rightarrow> ustr \<Rightarrow> ustr list" where
  "words_from w [] = (if w = [] then [] else [rev w])"
| "words_from w (c # s) = (if u_space c then (if w = [] then [] else [rev w]) @ words_from [] s else words_from (c # w) s)"

definition u_words :: "ustr \<Rightarrow> ustr list" where
  "u_words s = words_from [] s"

text \<open>One line; \<open>None\<close> is the \<open>IndexError\<close> of a commit line without a second word.\<close>

definition scan_line :: "text_db \<Rightarrow> ustr list \<Rightarrow> scan_state \<Rightarrow> ustr \<Rightarrow> scan_state option" where
  "scan_line td denylist s line =
     (if starts_with line (u_str ''commit '') then
        (case u_words line of
           _ # h # _ \<Rightarrow> Some (s\<lparr>sn_commit := take 8 h, sn_commits := sn_commits s + 1\<rparr>)
         | _ \<Rightarrow> None)
      else if starts_with line (u_str ''diff --git a/'') then
        (case u_words line of
           _ # _ # a # _ # _ \<Rightarrow> Some (s\<lparr>sn_file := drop 2 a\<rparr>)
         | _ \<Rightarrow> Some s)
      else if starts_with line [43] \<and> \<not> starts_with line [43, 43, 43] then
        (if contains (sn_file s) (u_str ''check_security.py'') then Some s
         else Some (s\<lparr>sn_violations := sn_violations s @
                map (\<lambda>w. (sn_commit s, sn_file s, w)) (rule_hits td (sn_file s) (tl line) @ deny_hits denylist (tl line))\<rparr>))
      else Some s)"

fun scan_lines :: "text_db \<Rightarrow> ustr list \<Rightarrow> scan_state \<Rightarrow> ustr list \<Rightarrow> scan_state option" where
  "scan_lines td denylist s [] = Some s"
| "scan_lines td denylist s (l # ls) = Option.bind (scan_line td denylist s l) (\<lambda>s'. scan_lines td denylist s' ls)"

datatype history_result =
    HistoryExit
  | HistoryRaised
  | History bool "(ustr \<times> ustr \<times> reason) list" nat

definition run_git_history_audit :: "text_db \<Rightarrow> deny_file \<Rightarrow> git_log \<Rightarrow> history_result" where
  "run_git_history_audit td df git =
     (case load_external_denylist df of
        None \<Rightarrow> HistoryExit
      | Some denylist \<Rightarrow>
          (case git of
             NoRepository \<Rightarrow> History True [] 0
           | GitFails \<Rightarrow> History False [(u_str ''GitHistoryAudit'', [], GitFailed)] 0
           | GitOutput out \<Rightarrow>
               (case scan_lines td denylist start_scan (split_lines [] out) of
                  None \<Rightarrow> HistoryRaised
                | Some s \<Rightarrow> History (sn_violations s = []) (sn_violations s) (sn_commits s))))"

section \<open>The audit\<close>

text \<open>The exit code; an exception that nobody catches ends the interpreter with code 1 as well.\<close>

definition scans_history :: "bool \<Rightarrow> string dict \<Rightarrow> bool" where
  "scans_history flag env \<longleftrightarrow> flag \<or> map_of env ''CI'' = Some ''true'' \<or> map_of env ''GITHUB_ACTIONS'' = Some ''true''"

definition audit_exit :: "text_db \<Rightarrow> deny_file \<Rightarrow> dtree \<Rightarrow> git_log \<Rightarrow> bool \<Rightarrow> string dict \<Rightarrow> nat" where
  "audit_exit td df tree git flag env =
     (case run_public_release_audit td df tree of
        None \<Rightarrow> 1
      | Some (clean, violations, n) \<Rightarrow>
          (if scans_history flag env then
             (case run_git_history_audit td df git of
                History ok hist m \<Rightarrow> (if violations = [] \<and> hist = [] then 0 else 1)
              | _ \<Rightarrow> 1)
           else if violations = [] then 0 else 1))"


section \<open>Lemmas\<close>

definition text_clean :: "text_db \<Rightarrow> ustr list \<Rightarrow> ustr \<Rightarrow> ustr \<Rightarrow> bool" where
  "text_clean td denylist place content \<longleftrightarrow>
     (\<forall>(name, g, r) \<in> set (AUDIT_PATTERNS td). \<forall>m \<in> set (matched_strings td g r content). exempt td place m) \<and>
     (\<forall>t \<in> set denylist. \<not> contains content t)"

lemma hits_clean: "rule_hits td place content @ deny_hits denylist content = [] \<longleftrightarrow> text_clean td denylist place content"
  by (auto simp: rule_hits_def deny_hits_def text_clean_def filter_empty_conv find_None_iff split: option.splits)

definition publishable :: "text_db \<Rightarrow> ustr list \<Rightarrow> ustr \<Rightarrow> ustr option \<Rightarrow> bool" where
  "publishable td denylist f content \<longleftrightarrow>
     \<not> list_ex (ends_with f) FORBIDDEN_EXTENSIONS \<and> f \<notin> set FORBIDDEN_FILENAMES \<and>
     (case content of None \<Rightarrow> True | Some c \<Rightarrow> text_clean td denylist f c)"

lemma audit_file_clean: "audit_file td denylist f content = [] \<longleftrightarrow> publishable td denylist f content"
  using hits_clean [of td f _ denylist] by (simp add: audit_file_def publishable_def split: option.splits)

lemma list_ex_cases: "(\<exists>xs. P xs) \<longleftrightarrow> P [] \<or> (\<exists>x xs. P (x # xs))"
  by (metis list.exhaust)

text \<open>A file lies at a path of the tree.\<close>

fun in_tree :: "dtree \<Rightarrow> ustr list \<Rightarrow> ustr \<Rightarrow> ustr option \<Rightarrow> bool" where
  "in_tree (DTree files dirs) [] f c \<longleftrightarrow> (f, c) \<in> set files"
| "in_tree (DTree files dirs) (d # ds) f c \<longleftrightarrow> (\<exists>t. (d, t) \<in> set dirs \<and> in_tree t ds f c)"

lemma walk_iff:
  "(p, f, c) \<in> set (walk path t) \<longleftrightarrow> (\<exists>rel. p = path @ rel \<and> in_tree t rel f c \<and> set rel \<inter> set IGNORED_DIRS = {})"
proof (induction t arbitrary: path)
  case (DTree files dirs)
  have sub: "(\<exists>(d, t) \<in> set dirs. d \<notin> set IGNORED_DIRS \<and> (p, f, c) \<in> set (walk (path @ [d]) t)) \<longleftrightarrow>
      (\<exists>d rel. p = path @ d # rel \<and> in_tree (DTree files dirs) (d # rel) f c \<and> set (d # rel) \<inter> set IGNORED_DIRS = {})"
    (is "?l \<longleftrightarrow> ?r")
  proof
    assume ?l
    then obtain d t where d: "(d, t) \<in> set dirs" "d \<notin> set IGNORED_DIRS" "(p, f, c) \<in> set (walk (path @ [d]) t)" by auto
    with DTree.IH [of "(d, t)" t "path @ [d]"] obtain rel where "p = path @ d # rel" "in_tree t rel f c" "set rel \<inter> set IGNORED_DIRS = {}"
      by auto
    with d(1,2) show ?r by auto
  next
    assume ?r
    then obtain d rel t where d: "p = path @ d # rel" "(d, t) \<in> set dirs" "in_tree t rel f c" "set (d # rel) \<inter> set IGNORED_DIRS = {}"
      by auto
    with DTree.IH [of "(d, t)" t "path @ [d]"] have "(p, f, c) \<in> set (walk (path @ [d]) t)" by auto
    with d(2,4) show ?l by auto
  qed
  have "(p, f, c) \<in> set (walk path (DTree files dirs)) \<longleftrightarrow>
      (p = path \<and> (f, c) \<in> set files) \<or>
      (\<exists>(d, t) \<in> set dirs. d \<notin> set IGNORED_DIRS \<and> (p, f, c) \<in> set (walk (path @ [d]) t))"
    by auto
  also have "\<dots> \<longleftrightarrow> (\<exists>rel. p = path @ rel \<and> in_tree (DTree files dirs) rel f c \<and> set rel \<inter> set IGNORED_DIRS = {})"
    unfolding sub by (subst list_ex_cases) simp
  finally show ?case .
qed

text \<open>The added texts of the history with the file each belongs to; \<open>None\<close> where the scan raises.\<close>

fun additions :: "ustr \<Rightarrow> ustr list \<Rightarrow> (ustr \<times> ustr) list option" where
  "additions file [] = Some []"
| "additions file (l # ls) =
     (if starts_with l (u_str ''commit '') then (if 2 \<le> length (u_words l) then additions file ls else None)
      else if starts_with l (u_str ''diff --git a/'')
        then additions (if 4 \<le> length (u_words l) then drop 2 (u_words l ! 2) else file) ls
      else if starts_with l [43] \<and> \<not> starts_with l [43, 43, 43] then map_option ((#) (file, tl l)) (additions file ls)
      else additions file ls)"

definition addition_clean :: "text_db \<Rightarrow> ustr list \<Rightarrow> ustr \<times> ustr \<Rightarrow> bool" where
  "addition_clean td denylist a \<longleftrightarrow>
     contains (fst a) (u_str ''check_security.py'') \<or> text_clean td denylist (fst a) (snd a)"

lemma scan_line_keeps: "scan_line td denylist s l = Some t \<Longrightarrow> \<exists>vs. sn_violations t = sn_violations s @ vs"
  by (auto simp: scan_line_def split: if_splits list.splits)

lemma scan_lines_keeps: "scan_lines td denylist s ls = Some t \<Longrightarrow> \<exists>vs. sn_violations t = sn_violations s @ vs"
proof (induction ls arbitrary: s)
  case (Cons l ls)
  then obtain u where "scan_line td denylist s l = Some u" "scan_lines td denylist u ls = Some t" by (auto simp: bind_eq_Some_conv)
  with Cons.IH [of u] scan_line_keeps [of td denylist s l u] show ?case by auto
qed simp

text \<open>A line, by what it is for the scan.\<close>

lemma scan_line_cases:
  obtains (Commit) "starts_with l (u_str ''commit '')"
      "scan_line td denylist s l = (if 2 \<le> length (u_words l)
         then Some (s\<lparr>sn_commit := take 8 (u_words l ! 1), sn_commits := sn_commits s + 1\<rparr>) else None)"
    | (Diff) "\<not> starts_with l (u_str ''commit '')" "starts_with l (u_str ''diff --git a/'')"
      "scan_line td denylist s l = Some (if 4 \<le> length (u_words l) then s\<lparr>sn_file := drop 2 (u_words l ! 2)\<rparr> else s)"
    | (Added) "\<not> starts_with l (u_str ''commit '')" "\<not> starts_with l (u_str ''diff --git a/'')"
      "starts_with l [43] \<and> \<not> starts_with l [43, 43, 43]"
      "\<exists>vs. scan_line td denylist s l = Some (s\<lparr>sn_violations := sn_violations s @ vs\<rparr>) \<and>
         (vs = [] \<longleftrightarrow> addition_clean td denylist (sn_file s, tl l))"
    | (Other) "\<not> starts_with l (u_str ''commit '')" "\<not> starts_with l (u_str ''diff --git a/'')"
      "\<not> (starts_with l [43] \<and> \<not> starts_with l [43, 43, 43])" "scan_line td denylist s l = Some s"
proof -
  have words: "(case ws of _ # h # _ \<Rightarrow> Some (f h) | _ \<Rightarrow> None) = (if 2 \<le> length ws then Some (f (ws ! 1)) else None)"
      "(case ws of _ # _ # a # _ # _ \<Rightarrow> Some (g a) | _ \<Rightarrow> Some s) = Some (if 4 \<le> length ws then g (ws ! 2) else s)"
    for ws :: "ustr list" and f g :: "ustr \<Rightarrow> scan_state"
    by (auto split: list.splits)
  show thesis
  proof (cases "starts_with l (u_str ''commit '')")
    case True
    with Commit words(1) show ?thesis by (simp add: scan_line_def)
  next
    case nc: False
    show ?thesis
    proof (cases "starts_with l (u_str ''diff --git a/'')")
      case True
      with Diff nc words(2) show ?thesis by (simp add: scan_line_def)
    next
      case nd: False
      show ?thesis
      proof (cases "starts_with l [43] \<and> \<not> starts_with l [43, 43, 43]")
        case True
        have "\<exists>vs. scan_line td denylist s l = Some (s\<lparr>sn_violations := sn_violations s @ vs\<rparr>) \<and>
            (vs = [] \<longleftrightarrow> addition_clean td denylist (sn_file s, tl l))"
        proof (cases "contains (sn_file s) (u_str ''check_security.py'')")
          case True
          with nc nd \<open>starts_with l [43] \<and> _\<close> show ?thesis
            by (intro exI [of _ "[]"]) (simp add: scan_line_def addition_clean_def)
        next
          case False
          with nc nd \<open>starts_with l [43] \<and> _\<close> hits_clean [of td "sn_file s" "tl l" denylist] show ?thesis
            by (auto simp: scan_line_def addition_clean_def)
        qed
        with Added nc nd True show ?thesis by blast
      next
        case False
        with nc nd have "scan_line td denylist s l = Some s" unfolding scan_line_def by (simp only: if_False)
        with Other nc nd False show ?thesis by blast
      qed
    qed
  qed
qed

lemma scan_lines_additions:
  "(\<exists>t. scan_lines td denylist s ls = Some t \<and> sn_violations t = []) \<longleftrightarrow>
   sn_violations s = [] \<and> (\<exists>adds. additions (sn_file s) ls = Some adds \<and> list_all (addition_clean td denylist) adds)"
proof (induction ls arbitrary: s)
  case (Cons l ls)
  show ?case
  proof (cases rule: scan_line_cases [of l td denylist s])
    case Commit
    then show ?thesis using Cons.IH [of "s\<lparr>sn_commit := take 8 (u_words l ! 1), sn_commits := sn_commits s + 1\<rparr>"] by simp
  next
    case Diff
    then show ?thesis using Cons.IH [of "s\<lparr>sn_file := drop 2 (u_words l ! 2)\<rparr>"] Cons.IH [of s] by simp
  next
    case Added
    then obtain vs where vs: "scan_line td denylist s l = Some (s\<lparr>sn_violations := sn_violations s @ vs\<rparr>)"
        "vs = [] \<longleftrightarrow> addition_clean td denylist (sn_file s, tl l)" by blast
    then show ?thesis using Added(1-3) Cons.IH [of "s\<lparr>sn_violations := sn_violations s @ vs\<rparr>"] by auto
  next
    case Other
    then show ?thesis using Cons.IH [of s] by auto
  qed
qed auto

lemma tree_audit:
  assumes "load_external_denylist df = Some denylist"
  shows "\<exists>violations n. run_public_release_audit td df tree = Some (violations = [], violations, n) \<and>
    (violations = [] \<longleftrightarrow>
       (\<forall>p f c. in_tree tree p f c \<and> set p \<inter> set IGNORED_DIRS = {} \<and> \<not> skipped_file f \<longrightarrow> publishable td denylist f c))"
  using assms walk_iff [of _ _ _ "[]" tree]
  by (auto simp: run_public_release_audit_def Let_def audit_file_clean)

lemma history_audit:
  assumes "load_external_denylist df = Some denylist"
  shows "(\<exists>ok n. run_git_history_audit td df git = History ok [] n) \<longleftrightarrow>
    git = NoRepository \<or>
    (\<exists>out adds. git = GitOutput out \<and> additions (u_str ''unknown'') (split_lines [] out) = Some adds \<and>
       list_all (addition_clean td denylist) adds)"
proof (cases git)
  case (GitOutput out)
  show ?thesis
    using scan_lines_additions [of td denylist start_scan "split_lines [] out"]
    by (auto simp: run_git_history_audit_def assms GitOutput start_scan_def split: option.splits)
qed (auto simp: run_git_history_audit_def assms)

section \<open>Properties\<close>

text \<open>C18: what opens the release gate. The audit exits with 0 exactly when the deny list could be read, every file
  of the tree that is not below an ignored directory and not skipped by its name has an allowed name and, if it can be read,
  no match of a rule that counts and no denied term, and, where the history is asked for, there is no repository, or git answered
  and every line of its log that the scan takes for an addition is free of matches and denied terms, unless the path of its file
  names the auditor. An addition is a line (in the sense of \<open>splitlines\<close>, which ends a line at a form feed, too) that starts with
  a plus sign and not with three of them: the text of some added lines is not scanned, and the gate opens although it contains
  a secret (\<open>plus_signs_hide_a_line\<close>, \<open>form_feed_hides_the_rest\<close>).\<close>

theorem release_gate_is_exact:
  "audit_exit td df tree git flag env = 0 \<longleftrightarrow>
   (\<exists>denylist. load_external_denylist df = Some denylist \<and>
      (\<forall>p f c. in_tree tree p f c \<and> set p \<inter> set IGNORED_DIRS = {} \<and> \<not> skipped_file f \<longrightarrow> publishable td denylist f c) \<and>
      (scans_history flag env \<longrightarrow>
         git = NoRepository \<or>
         (\<exists>out adds. git = GitOutput out \<and> additions (u_str ''unknown'') (split_lines [] out) = Some adds \<and>
            list_all (addition_clean td denylist) adds)))"
proof (cases "load_external_denylist df")
  case None
  then show ?thesis by (simp add: audit_exit_def run_public_release_audit_def)
next
  case (Some denylist)
  obtain violations n where t: "run_public_release_audit td df tree = Some (violations = [], violations, n)"
      "violations = [] \<longleftrightarrow>
         (\<forall>p f c. in_tree tree p f c \<and> set p \<inter> set IGNORED_DIRS = {} \<and> \<not> skipped_file f \<longrightarrow> publishable td denylist f c)"
    using tree_audit [OF Some, of td tree] by blast
  have "audit_exit td df tree git flag env = 0 \<longleftrightarrow>
      violations = [] \<and> (scans_history flag env \<longrightarrow> (\<exists>ok n. run_git_history_audit td df git = History ok [] n))"
    by (auto simp: audit_exit_def t(1) split: history_result.splits)
  with t(2) history_audit [OF Some, of td git] Some show ?thesis by simp
qed

definition demo_td :: text_db where
  "demo_td = \<lparr>td_alnum = (\<lambda>_. False), td_digit = (\<lambda>_. False), td_lower = (\<lambda>s. s)\<rparr>"

definition demo_tree :: dtree where
  "demo_tree = DTree [(u_str ''a.py'', Some (u_str ''x = 1''))] [(u_str ''.git'', DTree [(u_str ''k.pem'', None)] [])]"

lemma demo_exit: "audit_exit demo_td (DenyLines [u_str '' secret'']) demo_tree NoRepository True [] = 0"
  by code_simp

theorem release_gate_is_exact_witness:
  "publishable demo_td [u_str ''secret''] (u_str ''a.py'') (Some (u_str ''x = 1''))"
proof -
  have "load_external_denylist (DenyLines [u_str '' secret'']) = Some [u_str ''secret'']" by code_simp
  with release_gate_is_exact [of demo_td "DenyLines [u_str '' secret'']" demo_tree NoRepository True "[]"] demo_exit
  have all: "in_tree demo_tree p f c \<and> set p \<inter> set IGNORED_DIRS = {} \<and> \<not> skipped_file f \<longrightarrow>
      publishable demo_td [u_str ''secret''] f c" for p f c by auto
  have "in_tree demo_tree [] (u_str ''a.py'') (Some (u_str ''x = 1''))" by (simp add: demo_tree_def)
  moreover have "\<not> skipped_file (u_str ''a.py'')" by code_simp
  ultimately show ?thesis using all [of "[]"] by simp
qed

section \<open>Findings\<close>

text \<open>A secret passes when it has one of the example words in it, here \<open>test\<close> in \<open>latest\<close>.\<close>

lemma example_word_in_a_secret: "exempt demo_td (u_str ''a.py'') (u_str ''://admin latest77'')"
  by code_simp

text \<open>An added line whose text starts with two plus signs is taken for a file header.\<close>

lemma plus_signs_hide_a_line: "additions f [u_str ''+++ secret''] = Some []"
  by code_simp

text \<open>A form feed ends a line for the scan, and the rest of the added line no longer starts with a plus sign.\<close>

lemma form_feed_hides_the_rest: "additions f (split_lines [] (u_str ''+a'' @ [12] @ u_str ''secret'')) = Some [(f, u_str ''a'')]"
  by code_simp

text \<open>Any path that names the auditor is left out of the scan of the history.\<close>

lemma auditor_name_hides_a_file: "addition_clean td denylist (u_str ''docs/check_security.py.md'', content)"
proof -
  have "contains (u_str ''docs/check_security.py.md'') (u_str ''check_security.py'')" by code_simp
  then show ?thesis by (simp add: addition_clean_def)
qed

end
