(* ===== verification/Prefetch.thy ===== *)
theory Prefetch
  imports Prelude PyUtf8 "HOL-Library.AList"
begin

text \<open>
  Speculative prefetching, \<open>src/hermes_core/speculative_executor.py\<close>: the handlers, the pool of prefetched data with
  its expiry, the worker threads, and the interleaving of calls and workers. A pattern is the test whether it is found
  in the text; key extractors and tasks are functions that may raise. The clock is an argument of every operation. A
  retrieval takes the lock twice, to clean and to look up, and reads the clock each time: these are two steps, and
  anything may happen between them.
\<close>

section \<open>The pool\<close>

record 'd prefetched =
  pf_data :: 'd
  pf_expire_at :: rat
  pf_source :: ustr

type_synonym 'd pool = "(ustr \<times> 'd prefetched) list"

definition PREFETCH_TTL_SECONDS :: rat where "PREFETCH_TTL_SECONDS = 60"

definition clean_expired_prefetches :: "rat \<Rightarrow> 'd pool \<Rightarrow> 'd pool" where
  "clean_expired_prefetches now pool = filter (\<lambda>(k, v). \<not> pf_expire_at v \<le> now) pool"

definition set_prefetched_data :: "rat \<Rightarrow> ustr \<Rightarrow> 'd \<Rightarrow> ustr \<Rightarrow> 'd pool \<Rightarrow> 'd pool" where
  "set_prefetched_data now key d source pool =
     AList.update key \<lparr>pf_data = d, pf_expire_at = now + PREFETCH_TTL_SECONDS, pf_source = source\<rparr> pool"

text \<open>The second locked section of a retrieval, and a retrieval that nothing interrupts.\<close>

definition look_up_prefetched :: "rat \<Rightarrow> ustr \<Rightarrow> 'd pool \<Rightarrow> 'd option" where
  "look_up_prefetched now key pool =
     (case map_of pool key of
        Some e \<Rightarrow> if now < pf_expire_at e then Some (pf_data e) else None
      | None \<Rightarrow> None)"

definition get_prefetched_data :: "rat \<Rightarrow> rat \<Rightarrow> ustr \<Rightarrow> 'd pool \<Rightarrow> 'd option \<times> 'd pool" where
  "get_prefetched_data now now' key pool =
     (let p = clean_expired_prefetches now pool in (look_up_prefetched now' key p, p))"

section \<open>Handlers and workers\<close>

text \<open>A task gives data or the value \<open>None\<close>; the outer \<open>None\<close> is an exception. A handler whose thread cannot be started is
  told by \<open>hd_starts\<close>.\<close>

record 'd handler =
  hd_found :: "ustr \<Rightarrow> bool"
  hd_key :: "ustr \<Rightarrow> ustr option"
  hd_task :: "ustr \<Rightarrow> 'd option option"
  hd_source :: ustr
  hd_starts :: bool

record 'd work =
  wo_key :: ustr
  wo_task :: "'d option option"
  wo_source :: ustr

definition worker_prefetch :: "rat \<Rightarrow> 'd work \<Rightarrow> 'd pool \<Rightarrow> 'd pool" where
  "worker_prefetch now w pool =
     (case wo_task w of Some (Some d) \<Rightarrow> set_prefetched_data now (wo_key w) d (wo_source w) pool | _ \<Rightarrow> pool)"

text \<open>The first handler that is found, gives a key and starts its thread; a handler that raises is passed over.\<close>

fun first_handler :: "'d handler list \<Rightarrow> ustr \<Rightarrow> 'd work option" where
  "first_handler [] txt = None"
| "first_handler (h # hs) txt =
     (if hd_found h txt then
        (case hd_key h txt of
           Some k \<Rightarrow>
             (if hd_starts h then Some \<lparr>wo_key = k, wo_task = hd_task h txt, wo_source = hd_source h\<rparr> else first_handler hs txt)
         | None \<Rightarrow> first_handler hs txt)
      else first_handler hs txt)"

record 'd executor =
  ex_handlers :: "'d handler list"
  ex_pool :: "'d pool"
  ex_workers :: "'d work list"
  ex_retrievals :: "ustr list"

definition register_prefetch_handler :: "'d handler \<Rightarrow> 'd executor \<Rightarrow> 'd executor" where
  "register_prefetch_handler h ex = ex\<lparr>ex_handlers := ex_handlers ex @ [h]\<rparr>"

text \<open>The key that is returned, and the thread that is left running.\<close>

definition trigger_speculative_prefetch :: "(ustr \<Rightarrow> ustr) \<Rightarrow> rat \<Rightarrow> ustr \<Rightarrow> 'd executor \<Rightarrow> ustr option \<times> 'd executor" where
  "trigger_speculative_prefetch strip_text now user_input ex =
     (let ex1 = ex\<lparr>ex_pool := clean_expired_prefetches now (ex_pool ex)\<rparr>
      in case first_handler (ex_handlers ex) (strip_text user_input) of
           None \<Rightarrow> (None, ex1)
         | Some w \<Rightarrow> (Some (wo_key w), ex1\<lparr>ex_workers := ex_workers ex1 @ [w]\<rparr>))"

section \<open>Interleaving\<close>

text \<open>Calls and workers take turns; the clock never goes back. \<open>ex_retrievals\<close> are the keys of the retrievals that have
  cleaned the pool and not yet looked up. The events record what was put into the pool and what was retrieved.\<close>

definition start_retrieval :: "rat \<Rightarrow> ustr \<Rightarrow> 'd executor \<Rightarrow> 'd executor" where
  "start_retrieval now key ex =
     ex\<lparr>ex_pool := clean_expired_prefetches now (ex_pool ex), ex_retrievals := key # ex_retrievals ex\<rparr>"

definition end_retrieval :: "rat \<Rightarrow> ustr \<Rightarrow> 'd executor \<Rightarrow> 'd option \<times> 'd executor" where
  "end_retrieval now key ex =
     (look_up_prefetched now key (ex_pool ex), ex\<lparr>ex_retrievals := remove1 key (ex_retrievals ex)\<rparr>)"

datatype 'd prefetch_event = Put rat ustr 'd | Got rat ustr "'d option"

inductive executor_run :: "'d executor \<Rightarrow> rat \<Rightarrow> 'd prefetch_event list \<Rightarrow> 'd executor \<Rightarrow> bool" for ex where
  begin_run: "executor_run ex t [] ex"
| register: "executor_run ex t es x \<Longrightarrow> executor_run ex t es (register_prefetch_handler h x)"
| trigger: "executor_run ex t es x \<Longrightarrow> t \<le> now \<Longrightarrow> trigger_speculative_prefetch st now txt x = (k, x') \<Longrightarrow> executor_run ex now es x'"
| finish: "executor_run ex t es x \<Longrightarrow> t \<le> now \<Longrightarrow> w \<in> set (ex_workers x) \<Longrightarrow> wo_task w = Some (Some d) \<Longrightarrow>
    executor_run ex now (es @ [Put now (wo_key w) d])
      (x\<lparr>ex_workers := remove1 w (ex_workers x), ex_pool := worker_prefetch now w (ex_pool x)\<rparr>)"
| fail: "executor_run ex t es x \<Longrightarrow> w \<in> set (ex_workers x) \<Longrightarrow> wo_task w \<notin> Some ` range Some \<Longrightarrow>
    executor_run ex t es (x\<lparr>ex_workers := remove1 w (ex_workers x), ex_pool := worker_prefetch t w (ex_pool x)\<rparr>)"
| put: "executor_run ex t es x \<Longrightarrow> t \<le> now \<Longrightarrow>
    executor_run ex now (es @ [Put now k d]) (x\<lparr>ex_pool := set_prefetched_data now k d src (ex_pool x)\<rparr>)"
| start: "executor_run ex t es x \<Longrightarrow> t \<le> now \<Longrightarrow> executor_run ex now es (start_retrieval now k x)"
| get: "executor_run ex t es x \<Longrightarrow> t \<le> now \<Longrightarrow> k \<in> set (ex_retrievals x) \<Longrightarrow> end_retrieval now k x = (r, x') \<Longrightarrow>
    executor_run ex now (es @ [Got now k r]) x'"

lemma uninterrupted_retrieval:
  "end_retrieval now' k (start_retrieval now k x) =
     (case get_prefetched_data now now' k (ex_pool x) of (r, p) \<Rightarrow> (r, x\<lparr>ex_pool := p\<rparr>))"
  by (simp add: start_retrieval_def end_retrieval_def get_prefetched_data_def Let_def)

section \<open>The contract\<close>

text \<open>What was put last under a key, and what a retrieval at a time should give.\<close>

definition last_put :: "ustr \<Rightarrow> 'd prefetch_event list \<Rightarrow> (rat \<times> 'd) option" where
  "last_put k es = foldl (\<lambda>l e. case e of Put t k' d \<Rightarrow> if k' = k then Some (t, d) else l | Got t k' r \<Rightarrow> l) None es"

definition due :: "(rat \<times> 'd) option \<Rightarrow> rat \<Rightarrow> 'd option" where
  "due l now = (case l of None \<Rightarrow> None | Some (t, d) \<Rightarrow> if now < t + 60 then Some d else None)"

definition gets_right :: "'d prefetch_event list \<Rightarrow> bool" where
  "gets_right es \<longleftrightarrow> (\<forall>i < length es. \<forall>t k r. es ! i = Got t k r \<longrightarrow> r = due (last_put k (take i es)) t)"

lemma last_put_snoc [simp]:
  "last_put k [] = None"
  "last_put k (es @ [Put t k' d]) = (if k' = k then Some (t, d) else last_put k es)"
  "last_put k (es @ [Got t k' r]) = last_put k es"
  by (simp_all add: last_put_def)

lemma gets_right_snoc [simp]:
  "gets_right []"
  "gets_right (es @ [Put t k d]) = gets_right es"
  "gets_right (es @ [Got t k r]) \<longleftrightarrow> gets_right es \<and> r = due (last_put k es) t"
  by (auto simp: gets_right_def nth_append less_Suc_eq)

text \<open>The pool agrees with what was put, as far as it is not expired.\<close>

definition pool_agrees :: "rat \<Rightarrow> 'd prefetch_event list \<Rightarrow> 'd pool \<Rightarrow> bool" where
  "pool_agrees t es pool \<longleftrightarrow> distinct (map fst pool) \<and>
     (\<forall>k e. map_of pool k = Some e \<longrightarrow> last_put k es = Some (pf_expire_at e - 60, pf_data e)) \<and>
     (\<forall>k t0 d. last_put k es = Some (t0, d) \<and> t < t0 + 60 \<longrightarrow> map_of pool k \<noteq> None)"

lemma pool_agrees_later: "pool_agrees t es pool \<Longrightarrow> t \<le> t' \<Longrightarrow> pool_agrees t' es pool"
  by (fastforce simp: pool_agrees_def)

lemma map_of_clean:
  "distinct (map fst pool) \<Longrightarrow>
   map_of (clean_expired_prefetches now pool) k =
     (case map_of pool k of Some e \<Rightarrow> if now < pf_expire_at e then Some e else None | None \<Rightarrow> None)"
  by (induction pool) (auto simp: clean_expired_prefetches_def map_of_eq_None_iff split: option.splits)

lemma clean_agrees: "pool_agrees t es pool \<Longrightarrow> t \<le> now \<Longrightarrow> pool_agrees now es (clean_expired_prefetches now pool)"
proof -
  assume a: "pool_agrees t es pool" "t \<le> now"
  then have d: "distinct (map fst pool)" by (simp add: pool_agrees_def)
  then have "distinct (map fst (clean_expired_prefetches now pool))"
    by (simp add: clean_expired_prefetches_def distinct_map_filter)
  moreover have "last_put k es = Some (pf_expire_at e - 60, pf_data e)" if "map_of (clean_expired_prefetches now pool) k = Some e" for k e
    using that a d by (auto simp: map_of_clean pool_agrees_def split: option.splits if_splits)
  moreover have "map_of (clean_expired_prefetches now pool) k \<noteq> None" if l: "last_put k es = Some (t0, x)" "now < t0 + 60" for k t0 x
  proof -
    obtain e where e: "map_of pool k = Some e" using a l by (fastforce simp: pool_agrees_def)
    with a l have "pf_expire_at e - 60 = t0" by (fastforce simp: pool_agrees_def)
    with e l d show ?thesis by (simp add: map_of_clean)
  qed
  ultimately show ?thesis unfolding pool_agrees_def by blast
qed

lemma put_agrees:
  "pool_agrees t es pool \<Longrightarrow> t \<le> now \<Longrightarrow>
   pool_agrees now (es @ [Put now k d]) (set_prefetched_data now k d src pool)"
  using pool_agrees_later [of t es pool now]
  by (auto simp: pool_agrees_def set_prefetched_data_def PREFETCH_TTL_SECONDS_def update_conv' distinct_update split: if_splits)

lemma got_agrees [simp]: "pool_agrees t (es @ [Got u k r]) pool = pool_agrees t es pool"
  by (simp add: pool_agrees_def)

lemma look_up_is_due:
  assumes "pool_agrees t es pool" and "t \<le> now"
  shows "look_up_prefetched now k pool = due (last_put k es) now"
proof (cases "map_of pool k")
  case None
  with assms have "\<forall>t0 d. last_put k es = Some (t0, d) \<longrightarrow> \<not> now < t0 + 60" by (fastforce simp: pool_agrees_def)
  with None show ?thesis by (auto simp: look_up_prefetched_def due_def split: option.splits)
next
  case (Some e)
  with assms(1) have "last_put k es = Some (pf_expire_at e - 60, pf_data e)" by (auto simp: pool_agrees_def)
  with Some show ?thesis by (auto simp: look_up_prefetched_def due_def)
qed

lemma worker_put: "wo_task w = Some (Some d) \<Longrightarrow> worker_prefetch now w pool = set_prefetched_data now (wo_key w) d (wo_source w) pool"
  by (simp add: worker_prefetch_def)

lemma worker_nothing: "wo_task w \<notin> Some ` range Some \<Longrightarrow> worker_prefetch now w pool = pool"
  by (auto simp: worker_prefetch_def split: option.splits)

lemma trigger_pool:
  "trigger_speculative_prefetch st now txt x = (k, x') \<Longrightarrow> ex_pool x' = clean_expired_prefetches now (ex_pool x)"
  by (auto simp: trigger_speculative_prefetch_def Let_def split: option.splits)

lemma run_agrees:
  assumes "executor_run ex t es x" and "ex_pool ex = []"
  shows "gets_right es \<and> pool_agrees t es (ex_pool x)"
  using assms(1)
proof induction
  case (begin_run t)
  then show ?case using assms(2) by (simp add: pool_agrees_def)
next
  case (trigger t es x now st inp k x')
  then show ?case using clean_agrees by (auto simp: trigger_pool)
next
  case (start t es x now k)
  then show ?case using clean_agrees by (auto simp: start_retrieval_def)
next
  case (get t es x now k r x')
  then have "r = due (last_put k es) now" and "ex_pool x' = ex_pool x"
    using look_up_is_due [of t es "ex_pool x" now k] by (auto simp: end_retrieval_def)
  with get pool_agrees_later [of t es "ex_pool x" now] show ?case by auto
qed (auto simp: register_prefetch_handler_def worker_put worker_nothing put_agrees)

section \<open>Properties\<close>

text \<open>C38: the pool implements a store with a life of 60 seconds: in every interleaving of calls, workers and registrations that
  starts with an empty pool, also between the cleaning and the looking up of one retrieval, a retrieval gives exactly the data put last under its key (by a worker or directly), and nothing
  when there is none or it is 60 seconds old.\<close>

theorem retrievals_give_the_last_fresh_data:
  assumes "executor_run ex t es x" and "ex_pool ex = []" and "i < length es" and "es ! i = Got now k r"
  shows "r = due (last_put k (take i es)) now"
  using run_agrees [OF assms(1,2)] assms(3,4) by (auto simp: gets_right_def)

definition demo_executor :: "nat executor" where
  "demo_executor = \<lparr>ex_handlers = [], ex_pool = [], ex_workers = [], ex_retrievals = []\<rparr>"

text \<open>Data that is put between the two sections of a retrieval is retrieved.\<close>

theorem retrievals_give_the_last_fresh_data_witness:
  "Some 7 = due (last_put [97] [Put 5 [97] (7 :: nat)]) 64"
proof -
  let ?x = "start_retrieval 0 [97] demo_executor"
  have "executor_run demo_executor 0 [] ?x"
    by (rule executor_run.start [OF executor_run.begin_run [where t = 0]]) simp
  then have r: "executor_run demo_executor 5 ([] @ [Put 5 [97] 7]) (?x\<lparr>ex_pool := set_prefetched_data 5 [97] 7 [] (ex_pool ?x)\<rparr>)"
    by (rule executor_run.put) simp
  obtain x' where "executor_run demo_executor 64 (([] @ [Put 5 [97] 7]) @ [Got 64 [97] (Some 7)]) x'"
    using executor_run.get [OF r, of 64 "[97]" "Some 7"]
    by (auto simp: demo_executor_def start_retrieval_def end_retrieval_def look_up_prefetched_def set_prefetched_data_def
        clean_expired_prefetches_def PREFETCH_TTL_SECONDS_def)
  from retrievals_give_the_last_fresh_data [OF this, of 1 64 "[97]" "Some 7"] show ?thesis by (simp add: demo_executor_def)
qed

section \<open>Findings\<close>

text \<open>The first matching handler wins: a later one for the same text is never asked, but one whose key extractor raises is passed
  over in silence.\<close>

lemma raising_handler_is_passed_over:
  "hd_found h txt \<Longrightarrow> hd_key h txt = None \<Longrightarrow> first_handler (h # hs) txt = first_handler hs txt"
  by simp

end
