(* ===== verification/Preflight.thy ===== *)
theory Preflight
  imports FastPath
begin

text \<open>
  The geometry check of slides, \<open>src/hermes_core/preflight_guard.py\<close>: what the guard takes from the shapes of a slide,
  the warnings about characters that may not be drawn, the collisions of texts, and the verdict. The presentation, as
  the library reads it, is a parameter; lengths are exact.
\<close>

section \<open>Geometry\<close>

record bbox =
  bb_x0 :: rat
  bb_y0 :: rat
  bb_x1 :: rat
  bb_y1 :: rat

definition is_intersecting :: "bbox \<Rightarrow> bbox \<Rightarrow> rat \<Rightarrow> bool" where
  "is_intersecting a b margin =
     (if bb_x1 a - margin \<le> bb_x0 b \<or> bb_x1 b - margin \<le> bb_x0 a then False
      else if bb_y1 a - margin \<le> bb_y0 b \<or> bb_y1 b - margin \<le> bb_y0 a then False
      else True)"

definition default_margin :: rat where "default_margin = 1 / 20"

text \<open>\<open>round(x, 3)\<close>.\<close>

definition round3 :: "rat \<Rightarrow> rat" where
  "round3 x = of_int (round_half_even (x * 1000)) / 1000"

section \<open>Shapes\<close>

datatype shape_type = PlainShape | TextBox | RoundedRect | Rect | AutoShape | Picture

text \<open>A shape as the library gives it: left, top, width and height in inches (\<open>None\<close>: one of them cannot be read), the texts
  of its runs when it has a text frame, its type (\<open>None\<close>: reading it raises).\<close>

record raw_shape =
  rs_position :: "(rat \<times> rat \<times> rat \<times> rat) option"
  rs_runs :: "ustr list option"
  rs_type :: "shape_type option"
  rs_id :: nat
  rs_name :: ustr

record shape_info =
  si_id :: nat
  si_name :: ustr
  si_type :: shape_type
  si_bbox :: bbox
  si_w :: rat
  si_h :: rat
  si_text :: ustr
  si_emojis :: "ustr list"

datatype warning =
    EmojiTofu nat nat ustr "ustr list" ustr
  | TextCollision nat ustr ustr ustr ustr bbox bbox

text \<open>The set holds texts; a character is one of them only when the text is that character alone.\<close>

definition DEFAULT_UNSUPPORTED_EMOJIS :: "ustr list" where
  "DEFAULT_UNSUPPORTED_EMOJIS =
     [[128202], [128197], [128100], [127919], [127970], [128994], [128308], [128993], [128992], [128200], [128201], [128203], [128193], [128194], [128204], [128205], [9881, 65039], [128295], [128736, 65039], [128161]]"

definition deck_guard :: "ustr list option \<Rightarrow> ustr list" where
  "deck_guard emojis = (case emojis of Some es \<Rightarrow> (if es = [] then DEFAULT_UNSUPPORTED_EMOJIS else es) | None \<Rightarrow> DEFAULT_UNSUPPORTED_EMOJIS)"

text \<open>What is kept of a shape, with its warning; nothing of a shape without position and of one that fills the slide.\<close>

definition read_shape :: "ustr list \<Rightarrow> nat \<Rightarrow> raw_shape \<Rightarrow> (shape_info \<times> warning list) option" where
  "read_shape emojis slide s =
     (case rs_position s of
        None \<Rightarrow> None
      | Some (left, upper, width, height) \<Rightarrow>
          (let x0 = round3 left; y0 = round3 upper; w = round3 width; h = round3 height;
               x1 = round3 (x0 + w); y1 = round3 (y0 + h)
           in if 12 \<le> w \<and> 13 / 2 \<le> h then None
              else
                let content = (case rs_runs s of None \<Rightarrow> [] | Some rs \<Rightarrow> concat rs);
                    found = filter (\<lambda>c. c \<in> set emojis) (map (\<lambda>c. [c]) content)
                in Some (\<lparr>si_id = rs_id s, si_name = rs_name s,
                           si_type = (case rs_type s of None \<Rightarrow> PlainShape | Some t \<Rightarrow> t),
                           si_bbox = \<lparr>bb_x0 = x0, bb_y0 = y0, bb_x1 = x1, bb_y1 = y1\<rparr>, si_w = w, si_h = h,
                           si_text = u_strip content, si_emojis = found\<rparr>,
                         if found = [] then [] else [EmojiTofu slide (rs_id s) (rs_name s) (rev (remdups (rev found))) (take 30 content)])))"

text \<open>Card and text box are taken for container and content.\<close>

definition contained :: "shape_info \<Rightarrow> shape_info \<Rightarrow> bool" where
  "contained a b \<longleftrightarrow>
     (si_type a \<in> {RoundedRect, Rect} \<and> si_type b = TextBox) \<or> (si_type b \<in> {RoundedRect, Rect} \<and> si_type a = TextBox)"

definition collides :: "shape_info \<Rightarrow> shape_info \<Rightarrow> bool" where
  "collides a b \<longleftrightarrow>
     \<not> contained a b \<and> si_text a \<noteq> [] \<and> si_text b \<noteq> [] \<and> is_intersecting (si_bbox a) (si_bbox b) default_margin"

definition collision :: "nat \<Rightarrow> shape_info \<Rightarrow> shape_info \<Rightarrow> warning" where
  "collision slide a b =
     TextCollision slide (si_name a) (si_name b) (take 15 (si_text a)) (take 15 (si_text b)) (si_bbox a) (si_bbox b)"

text \<open>Every pair once, the earlier shape first.\<close>

fun pair_collisions :: "nat \<Rightarrow> shape_info list \<Rightarrow> warning list" where
  "pair_collisions slide [] = []"
| "pair_collisions slide (a # as) = map (collision slide a) (filter (collides a) as) @ pair_collisions slide as"

definition audit_slide :: "ustr list \<Rightarrow> nat \<Rightarrow> raw_shape list \<Rightarrow> warning list \<times> nat" where
  "audit_slide emojis slide shapes =
     (let kept = List.map_filter (read_shape emojis slide) shapes;
          hits = pair_collisions slide (map fst kept)
      in (concat (map snd kept) @ hits, length hits))"

fun audit_slides :: "ustr list \<Rightarrow> nat \<Rightarrow> raw_shape list list \<Rightarrow> warning list \<times> nat" where
  "audit_slides emojis i [] = ([], 0)"
| "audit_slides emojis i (s # ss) =
     (case audit_slide emojis i s of
        (ws, n) \<Rightarrow> (case audit_slides emojis (i + 1) ss of (ws', n') \<Rightarrow> (ws @ ws', n + n')))"

text \<open>The file: it does not exist, the library is missing, it cannot be parsed (the audit raises), or its slides.\<close>

datatype deck_file = NoDeck | NoLibrary | BadDeck | Deck "raw_shape list list"

record deck_report =
  dk_passed :: bool
  dk_error :: bool
  dk_total_slides :: nat
  dk_overlaps :: nat
  dk_warnings :: "warning list"

definition failed_report :: deck_report where
  "failed_report = \<lparr>dk_passed = False, dk_error = True, dk_total_slides = 0, dk_overlaps = 0, dk_warnings = []\<rparr>"

definition audit_pptx :: "ustr list \<Rightarrow> deck_file \<Rightarrow> deck_report option" where
  "audit_pptx emojis f =
     (case f of
        NoDeck \<Rightarrow> Some failed_report
      | NoLibrary \<Rightarrow> Some failed_report
      | BadDeck \<Rightarrow> None
      | Deck slides \<Rightarrow>
          (case audit_slides emojis 1 slides of
             (ws, n) \<Rightarrow> Some \<lparr>dk_passed = (n = 0), dk_error = False, dk_total_slides = length slides, dk_overlaps = n, dk_warnings = ws\<rparr>))"

definition audit_deck_file :: "deck_file \<Rightarrow> deck_report option" where
  "audit_deck_file f = audit_pptx (deck_guard None) f"

section \<open>Lemmas\<close>

lemma is_intersecting_sym: "is_intersecting a b m = is_intersecting b a m"
  by (auto simp: is_intersecting_def)

text \<open>What the test means: the two boxes have a common rectangle that is wider and higher than the margin, and each box is.\<close>

lemma is_intersecting_iff:
  "is_intersecting a b m \<longleftrightarrow>
     bb_x0 b + m < bb_x1 a \<and> bb_x0 a + m < bb_x1 b \<and> bb_y0 b + m < bb_y1 a \<and> bb_y0 a + m < bb_y1 b"
  by (auto simp: is_intersecting_def)

lemma collides_sym: "collides a b = collides b a"
  using is_intersecting_sym by (auto simp: collides_def contained_def)

text \<open>The shapes of a slide that are compared, and the pairs of them that collide.\<close>

definition kept :: "ustr list \<Rightarrow> raw_shape list \<Rightarrow> shape_info list" where
  "kept es shapes = map fst (List.map_filter (read_shape es 0) shapes)"

definition colliding_pairs :: "shape_info list \<Rightarrow> (nat \<times> nat) set" where
  "colliding_pairs ks = {(m, n). m < n \<and> n < length ks \<and> collides (ks ! m) (ks ! n)}"

lemma read_shape_slide: "map_option fst (read_shape es i s) = map_option fst (read_shape es j s)"
  by (simp add: read_shape_def Let_def split: option.splits)

lemma kept_slide: "map fst (List.map_filter (read_shape es i) shapes) = kept es shapes"
proof (induction shapes)
  case (Cons s shapes)
  then show ?case using read_shape_slide [of es i s 0]
    by (cases "read_shape es i s"; cases "read_shape es 0 s") (auto simp: kept_def map_filter_simps)
qed (simp add: kept_def map_filter_simps)

lemma colliding_pairs_Cons:
  "colliding_pairs (a # as) =
     (\<lambda>k. (0, Suc k)) ` {k. k < length as \<and> collides a (as ! k)} \<union> map_prod Suc Suc ` colliding_pairs as"
proof (rule set_eqI)
  fix mn :: "nat \<times> nat"
  obtain m n where mn: "mn = (m, n)" by fastforce
  show "mn \<in> colliding_pairs (a # as) \<longleftrightarrow>
      mn \<in> (\<lambda>k. (0, Suc k)) ` {k. k < length as \<and> collides a (as ! k)} \<union> map_prod Suc Suc ` colliding_pairs as"
    unfolding mn by (cases n; cases m) (auto simp: colliding_pairs_def image_iff)
qed

lemma colliding_pairs_finite: "finite (colliding_pairs ks)"
  by (rule finite_subset [of _ "{..<length ks} \<times> {..<length ks}"]) (auto simp: colliding_pairs_def)

lemma pair_collisions_length: "length (pair_collisions i ks) = card (colliding_pairs ks)"
proof (induction ks)
  case Nil
  then show ?case by (simp add: colliding_pairs_def)
next
  case (Cons a as)
  let ?A = "(\<lambda>k. (0 :: nat, Suc k)) ` {k. k < length as \<and> collides a (as ! k)}" and ?B = "map_prod Suc Suc ` colliding_pairs as"
  have "card (?A \<union> ?B) = card ?A + card ?B"
    by (rule card_Un_disjoint) (auto simp: colliding_pairs_finite)
  moreover have "card ?A = length (filter (collides a) as)"
    by (subst card_image) (auto simp: inj_on_def length_filter_conv_card)
  moreover have "card ?B = card (colliding_pairs as)"
    by (rule card_image) (auto simp: inj_on_def)
  ultimately show ?case using Cons.IH by (simp add: colliding_pairs_Cons)
qed

lemma audit_slides_count: "snd (audit_slides es i slides) = (\<Sum>s\<leftarrow>slides. card (colliding_pairs (kept es s)))"
proof (induction slides arbitrary: i)
  case (Cons s slides)
  then have "snd (audit_slides es (i + 1) slides) = (\<Sum>s\<leftarrow>slides. card (colliding_pairs (kept es s)))" by blast
  moreover have "snd (audit_slide es i s) = card (colliding_pairs (kept es s))"
    by (simp add: audit_slide_def Let_def kept_slide pair_collisions_length)
  ultimately show ?case by (simp split: prod.splits) (metis snd_conv)
qed simp

section \<open>Properties\<close>

text \<open>Collisions are counted exactly: the overlaps of a deck are the pairs of shapes of one slide, each pair once, that both
  have text, are not a card with a text box, and whose boxes share a rectangle wider and higher than the margin; the deck passes
  exactly when there is none, and the order of two shapes makes no difference.\<close>

theorem overlaps_are_counted:
  "(\<exists>r. audit_pptx es (Deck slides) = Some r \<and> dk_overlaps r = (\<Sum>s\<leftarrow>slides. card (colliding_pairs (kept es s))) \<and>
      dk_passed r = (dk_overlaps r = 0) \<and> dk_total_slides r = length slides) \<and>
   collides a b = collides b a \<and>
   (is_intersecting p q m \<longleftrightarrow>
      bb_x0 q + m < bb_x1 p \<and> bb_x0 p + m < bb_x1 q \<and> bb_y0 q + m < bb_y1 p \<and> bb_y0 p + m < bb_y1 q)"
proof (intro conjI)
  obtain ws n where a: "audit_slides es 1 slides = (ws, n)" by fastforce
  then have "n = (\<Sum>s\<leftarrow>slides. card (colliding_pairs (kept es s)))" using audit_slides_count [of es 1 slides] by simp
  with a show "\<exists>r. audit_pptx es (Deck slides) = Some r \<and> dk_overlaps r = (\<Sum>s\<leftarrow>slides. card (colliding_pairs (kept es s))) \<and>
      dk_passed r = (dk_overlaps r = 0) \<and> dk_total_slides r = length slides"
    by (simp add: audit_pptx_def)
qed (rule collides_sym, rule is_intersecting_iff)

section \<open>Findings\<close>

text \<open>Two of the listed symbols are two code points long, and a single character is never one of them: they are not found.\<close>

lemma two_code_points_are_not_found:
  "read_shape emojis slide s = Some (si, ws) \<Longrightarrow> e \<in> set (si_emojis si) \<Longrightarrow> length e = 1"
  "[9881, 65039] \<in> set DEFAULT_UNSUPPORTED_EMOJIS"
  by (auto simp: read_shape_def Let_def DEFAULT_UNSUPPORTED_EMOJIS_def split: option.splits if_splits)

text \<open>A text box over the text of a card it does not belong to is never a collision.\<close>

lemma card_text_is_never_hit:
  "si_type a = RoundedRect \<Longrightarrow> si_type b = TextBox \<Longrightarrow> \<not> collides a b"
  by (simp add: collides_def contained_def)

text \<open>A shape thinner than the margin collides only when the other reaches well beyond it: a line of no height never does with a
  box that ends where it lies.\<close>

lemma thin_shape_never_collides:
  "bb_y0 a = bb_y1 a \<Longrightarrow> bb_y1 a \<le> bb_y0 b + default_margin \<Longrightarrow> \<not> is_intersecting a b default_margin"
  by (simp add: is_intersecting_iff)

end
