(* ===== verification/Skeleton.thy ===== *)
theory Skeleton
  imports ChatClient
begin

text \<open>
  The instant replies, \<open>src/hermes_core/skeleton_streamer.py\<close>: the entity a text is about, the reply chosen for a text, and
  its sending through theory \<open>ChatClient\<close>. Lower case, and alphanumeric characters and digits above 255, are parameters;
  a template registered by a user is the test of its pattern and the text it gives (\<open>None\<close>: formatting raises).
\<close>

section \<open>Words\<close>

definition SILENT_WORDS :: "ustr list" where
  "SILENT_WORDS =
     [[22909], [22909, 30340], [25910, 21040], [35613, 35613], [22810, 35613], [24863, 35613], [20102, 35299], [26126, 30333], [22909, 30340, 35613, 35613], [22909, 21908], [22909, 21734], (u_str ''ok''), (u_str ''okay''), (u_str ''yes''), (u_str ''thanks''), (u_str ''thx''),
      [34892], [27794, 21839, 38988], [26159, 30340], [23565], [24681], [21999], [36763, 33510, 20102], [26089, 23433], [26202, 23433], [24863, 24681], (u_str ''ok'' @ [21862]), [22909, 21568]]"

definition META_INSTRUCTION_KEYWORDS :: "ustr list" where
  "META_INSTRUCTION_KEYWORDS =
     [(u_str ''prompt''), [25552, 31034, 35422], [35215, 21063], [35215, 31684], [35373, 23450], [21407, 21063], [23432, 21063], [26356, 26032, 31995, 32113], [20462, 25913, 31995, 32113], [30333, 30382, 26360], [26550, 27083], (u_str ''sop''), [25351, 24341], [32004, 26463],
      [27880, 24847, 36981, 23432], [26680, 24515, 25351, 20196], [31995, 32113, 25351, 20196], [31995, 32113, 25552, 31034]]"

definition CUSTOMERS :: "ustr list" where
  "CUSTOMERS = [[31034, 31684, 31185, 25216], [29872, 29699, 31934, 23494], [20808, 36914, 35069, 31243], [21109, 26032, 24037, 34269], [23439, 36948, 38651, 23376]]"

definition DOC_NOUNS :: "ustr list" where
  "DOC_NOUNS =
     [[32173, 20462, 21934], [26381, 21209, 21934], [24037, 21934], [20445, 39178, 21934], [21934, 25818], [30332, 31080], [25910, 25818], [39511, 25910, 21934], [36865, 36008, 21934], [21152, 29677, 21934], [24037, 20316, 26085, 35468], [24046, 26053, 22577, 37559], [22577, 37559, 21934]]"

definition QUERY_VERBS :: "ustr list" where
  "QUERY_VERBS =
     [[26597], [25214], [35519], [30475], [25628], [20659], [30332], [26377, 27794, 26377], [21015, 20986], [35519, 38321], [35201, 30475], [24171, 30475], [24171, 26597], [35519, 20986], [32763, 20986], [26377, 21738, 20123], [35531, 32102, 25105],
      [20839, 23481], [26126, 32048]]"

definition RELATIVE_DATES :: "ustr list" where
  "RELATIVE_DATES =
     [[26152, 22825], [21069, 22825], [20170, 22825], [26412, 36913], [19978, 36913], (u_str ''8'' @ [26376]), (u_str ''9'' @ [26376]), (u_str ''10'' @ [26376]), (u_str ''11'' @ [26376]), (u_str ''12'' @ [26376]), (u_str ''1'' @ [26376]), (u_str ''2'' @ [26376]), (u_str ''3'' @ [26376]), (u_str ''4'' @ [26376]), (u_str ''5'' @ [26376]), (u_str ''6'' @ [26376]), (u_str ''7'' @ [26376])]"

definition has_word :: "ustr list \<Rightarrow> ustr \<Rightarrow> bool" where
  "has_word ws s = list_ex (contains s) ws"

section \<open>Patterns\<close>

record speech_db =
  sd_alnum :: uni
  sd_digit :: "nat \<Rightarrow> bool"
  sd_lower :: "ustr \<Rightarrow> ustr"

definition any_dig :: "speech_db \<Rightarrow> regex" where
  "any_dig sd = Cls (\<lambda>c. u_digit c \<or> (255 < c \<and> sd_digit sd c))"

definition letter :: regex where
  "letter = Cls (\<lambda>c. (65 \<le> c \<and> c \<le> 90) \<or> (97 \<le> c \<and> c \<le> 122))"

definition ORDER_ID :: "speech_db \<Rightarrow> regex" where
  "ORDER_ID sd =
     alts [seqs [letter, between 5 8 (any_dig sd)],
           seqs [WordB, between 6 8 (any_dig sd), WordB],
           seqs [between 1 3 letter, Cls (\<lambda>c. c = 45 \<or> c = 95), between 2 5 (any_dig sd)],
           seqs [between 1 3 letter, between 3 5 (any_dig sd)]]"

text \<open>A text with letters in either case.\<close>

definition cps_ci :: "ustr \<Rightarrow> regex" where
  "cps_ci s = seqs (map (\<lambda>c. Cls (ci (\<lambda>x. x = c))) s)"

definition one_of :: "ustr list \<Rightarrow> regex" where "one_of ws = alts (map cps_ci ws)"

definition not_newline :: regex where "not_newline = Cls (\<lambda>c. c \<noteq> 10)"

definition STOCK_NUMBER :: regex where
  "STOCK_NUMBER = seqs [WordB, Grp 1 (alts [lit ''0050'', lit ''2330'']), WordB]"

definition GPU_MODEL :: regex where
  "GPU_MODEL =
     Grp 1 (alts [seqs [lit_ci ''rtx'', star space, lit ''50'', Cls (\<lambda>c. 48 \<le> c \<and> c \<le> 57), lit ''0''], lit ''5070'', lit ''5080'', lit ''5090''])"

definition SEPARATORS :: regex where
  "SEPARATORS = plus (Cls (\<lambda>c. u_space c \<or> c \<in> set (u_str '','' @ [65292] @ u_str ''.'' @ [12290] @ u_str ''!'' @ [65281] @ u_str ''?'' @ [65311])))"

definition NEGATION :: regex where
  "NEGATION = seqs [alts (map cps [[19981, 29992], [19981, 35201], [19981, 38656], [20813], [21029]]),
     alts (map cps [[26597], [35519], [30475], [25214], [25628], [20659], [30332], [38283], [20570], [31639], [29702]])]"

text \<open>Pattern, text before the entity, and text after it where the template has one.\<close>

definition SKELETON_TEMPLATES :: "(regex \<times> ustr \<times> ustr option) list" where
  "SKELETON_TEMPLATES =
     [(one_of [[20659, 32102, 25105], [30332, 32102, 25105], [30332, 25105], [20659, 25105], [30475, 21407, 22294], [21407, 22294], [21407, 27284], [36889, 24373, 22294], [36889, 24373, 29031, 29255], [29031, 29255, 32102, 25105], [27284, 26696, 32102, 25105], [22294, 29255, 32102, 25105]],
       ([128206] @ u_str '' '' @ [25910, 21040, 35531, 27714, 65292, 27491, 22312, 28858, 24744, 25552, 21462, 12304]), Some ([12305, 23526, 39636, 27284, 26696, 33287, 21407, 22294, 20006, 28310, 20633, 25512, 36865, 20013, 65292, 35531, 31245, 20505] @ u_str ''...'')),
      (one_of [(u_str ''2330''), (u_str ''0050''), [21488, 31309, 38651], [21488, 32929], [22823, 30436], [32929, 20729], [29151, 25910], [31820, 30908], (u_str ''K'' @ [32218])],
       ([128205] @ u_str '' '' @ [25910, 21040, 35531, 27714, 65292, 27491, 22312, 28858, 24744, 21363, 26178, 35519, 38321, 12304]), Some ([12305, 26368, 26032, 36208, 21218, 33287, 31820, 30908, 25976, 25818, 20998, 26512, 20013, 65292, 35531, 31245, 20505] @ u_str ''...'')),
      (alts [one_of [(u_str ''5070''), (u_str ''5080''), (u_str ''5090''), [39023, 31034, 21345], [39023, 21345]], seqs [lit_ci ''rtx'', star space, lit ''50'']],
       ([128205] @ u_str '' '' @ [25910, 21040, 35531, 27714, 65292, 27491, 22312, 28858, 24744, 36899, 32218, 27604, 23565, 12304]), Some ([12305, 26368, 26032, 29694, 36008, 22577, 20729, 20013, 65292, 35531, 31245, 20505] @ u_str ''...'')),
      (one_of [[31995, 32113, 20581, 24247], [31995, 32113, 29376, 24907], (u_str ''health''), [20840, 31995, 32113], [26381, 21209, 29376, 24907], [36000, 36617, 27298, 26597], [31995, 32113, 27298, 26597], [23384, 27963]],
       ([128205] @ u_str '' '' @ [25910, 21040, 35531, 27714, 65292, 27491, 22312, 28858, 24744, 20840, 38754, 24033, 27298, 20840, 31995, 32113, 26680, 24515, 36039, 26009, 24235, 33287, 26381, 21209, 29376, 24907, 20013, 65292, 35531, 31245, 20505] @ u_str ''...''), None),
      (one_of [[31805, 36864], [25171, 21345], [32771, 21220]],
       ([128205] @ u_str '' '' @ [25910, 21040, 35531, 27714, 65292, 27491, 22312, 28858, 24744, 21363, 26178, 35336, 31639, 32771, 21220, 24037, 26178, 33287, 31805, 36864, 25490, 31243, 20013, 65292, 35531, 31245, 20505] @ u_str ''...''), None),
      (alts [seqs [cps [20998, 26512], star not_newline, cps [26085, 35468]], seqs [cps [26085, 35468], star not_newline, cps [20998, 26512]], cps [31995, 32113, 35386, 26039],
             seqs [cps [35386, 26039], star not_newline, cps [31995, 32113]], one_of [[25490, 37679], [38500, 37679], (u_str ''debug''), (u_str ''inspect'')]],
       ([128269] @ u_str '' '' @ [25910, 21040, 35531, 27714, 65292, 27491, 22312, 28858, 24744, 24555, 36895, 35519, 38321, 30456, 38364, 26085, 35468, 33287, 31995, 32113, 35386, 26039, 36039, 35338, 20013] @ u_str ''...''), None),
      (one_of [[25628, 23563], [26597, 35426], [27298, 32034], (u_str ''search''), (u_str ''find''), (u_str ''query'')],
       ([128194] @ u_str '' '' @ [25910, 21040, 35531, 27714, 65292, 27491, 22312, 28858, 24744, 21363, 26178, 27604, 23565, 33287, 27298, 32034, 38364, 32879, 27284, 26696, 33287, 30693, 35672, 24235, 32000, 37636, 20013] @ u_str ''...''), None),
      (one_of [[20462, 24489], [20462, 27491], [37325, 27083], [20778, 21270], (u_str ''patch''), (u_str ''fix''), (u_str ''refactor'')],
       ([128736, 65039] @ u_str '' '' @ [25910, 21040, 35531, 27714, 65292, 27491, 22312, 28858, 24744, 35299, 26512, 31243, 24335, 30908, 32080, 27083, 33287, 24314, 31435, 23433, 20840, 35722, 26356, 35336, 30059, 20013] @ u_str ''...''), None)]"

section \<open>The entity\<close>

definition upper_ascii :: "ustr \<Rightarrow> ustr" where
  "upper_ascii s = map (\<lambda>c. if 97 \<le> c \<and> c \<le> 122 then c - 32 else if c = 0x17F then 83 else c) s"

definition extract_entity_anchor :: "speech_db \<Rightarrow> ustr \<Rightarrow> ustr" where
  "extract_entity_anchor sd user_input =
     (let txt = u_strip user_input in
      case find (contains txt) CUSTOMERS of
        Some c \<Rightarrow> c
      | None \<Rightarrow>
          (case re_search (sd_alnum sd) (ORDER_ID sd) txt of
             Some (m, _) \<Rightarrow> m
           | None \<Rightarrow>
               (if contains txt (u_str ''2330'') \<or> contains txt [21488, 31309, 38651] then (u_str ''2330 '' @ [21488, 31309, 38651])
                else case re_search (sd_alnum sd) STOCK_NUMBER txt of
                    Some (_, gs) \<Rightarrow> group gs 1
                  | None \<Rightarrow>
                      (case find (contains txt) DOC_NOUNS of
                         Some doc \<Rightarrow> (case find (contains txt) RELATIVE_DATES of Some d \<Rightarrow> d @ doc | None \<Rightarrow> doc)
                       | None \<Rightarrow>
                           (case re_search (sd_alnum sd) GPU_MODEL txt of
                              Some (_, gs) \<Rightarrow> upper_ascii (group gs 1)
                            | None \<Rightarrow>
                                (case filter (\<lambda>w. 1 < length w) (re_split (sd_alnum sd) SEPARATORS txt) of
                                   w # _ \<Rightarrow> w | [] \<Rightarrow> [30456, 38364, 26989, 21209]))))))"

section \<open>The reply\<close>

definition THINKING :: ustr where "THINKING = ([128173] @ u_str '' '' @ [24605, 32771, 20013, 65292, 35531, 31245, 20505] @ u_str ''...'')"
definition IMAGE_REPLY :: ustr where "IMAGE_REPLY = ([128444, 65039] @ u_str '' '' @ [24050, 25910, 21040, 24744, 20659, 36865, 30340, 22294, 29255, 65292, 27491, 22312, 36914, 34892] @ u_str '' OCR '' @ [35222, 35258, 35299, 26512, 33287, 36039, 26009, 27604, 23565, 20013, 65292, 35531, 31245, 20505] @ u_str ''...'')"
definition DOCUMENT_REPLY :: ustr where "DOCUMENT_REPLY = ([128196] @ u_str '' '' @ [24050, 25910, 21040, 24744, 20659, 36865, 30340, 25991, 27284, 65292, 27491, 22312, 38321, 35712, 35299, 26512, 20013, 65292, 35531, 31245, 20505] @ u_str ''...'')"
definition CONTROL_WORDS :: "ustr list" where "CONTROL_WORDS = map u_str [''/reset'', ''/new'', ''/clear'', ''/stop'', ''/abort'']"
definition DEVICE_WORDS :: "ustr list" where
  "DEVICE_WORDS = [[35373, 20633], [27231, 22411], [27231, 32232], [32000, 37636], [27511, 31243], [29376, 24907], [36914, 24230], [29694, 22580], [32173, 35703]]"

definition is_silent :: "speech_db \<Rightarrow> ustr \<Rightarrow> bool" where
  "is_silent sd s \<longleftrightarrow>
     sd_lower sd s \<in> set SILENT_WORDS \<or> (length s \<le> 2 \<and> has_word [[22909], [25910], [35613], [24681], [21999]] s)"

text \<open>Long texts, several lines and instructions are never taken for a request.\<close>

definition is_guarded :: "speech_db \<Rightarrow> ustr \<Rightarrow> bool" where
  "is_guarded sd s \<longleftrightarrow> 40 < length s \<or> 10 \<in> set s \<or> has_word META_INSTRUCTION_KEYWORDS (sd_lower sd s)"

datatype skeleton_reply = NoReply | Reply ustr | ReplyRaised

definition default_reply :: "speech_db \<Rightarrow> ustr \<Rightarrow> ustr \<Rightarrow> ustr" where
  "default_reply sd entity s =
     (let has_query_verb = has_word QUERY_VERBS s; has_customer = has_word CUSTOMERS s in
      if re_found (sd_alnum sd) (ORDER_ID sd) s \<or>
         (has_word DOC_NOUNS s \<and> (has_query_verb \<or> has_customer \<or> has_word RELATIVE_DATES s))
        then ([128205] @ u_str '' '' @ [25910, 21040, 35531, 27714, 65292, 27491, 22312, 28858, 24744, 21363, 26178, 35519, 38321, 12304]) @ entity @ ([12305, 27511, 21490, 27512, 27284, 21934, 25818, 33287, 32000, 37636, 20013, 65292, 35531, 31245, 20505] @ u_str ''...'')
      else if has_customer \<and> (has_query_verb \<or> has_word DEVICE_WORDS s)
        then ([128205] @ u_str '' '' @ [25910, 21040, 35531, 27714, 65292, 27491, 22312, 28858, 24744, 21363, 26178, 35519, 38321, 12304]) @ entity @ ([12305, 23458, 25142, 35373, 20633, 27511, 31243, 33287, 38364, 32879, 21934, 25818, 20013, 65292, 35531, 31245, 20505] @ u_str ''...'')
      else case find (\<lambda>(r, pre, post). re_found (sd_alnum sd) r s) SKELETON_TEMPLATES of
          Some (_, pre, post) \<Rightarrow> (case post of Some p \<Rightarrow> pre @ entity @ p | None \<Rightarrow> pre)
        | None \<Rightarrow> THINKING)"

type_synonym user_template = "(ustr \<Rightarrow> bool) \<times> (ustr \<Rightarrow> ustr option)"

definition register_skeleton_template :: "user_template \<Rightarrow> user_template list \<Rightarrow> user_template list" where
  "register_skeleton_template t ts = ts @ [t]"

definition generate_instant_skeleton :: "speech_db \<Rightarrow> user_template list \<Rightarrow> bool \<Rightarrow> bool \<Rightarrow> ustr \<Rightarrow> skeleton_reply" where
  "generate_instant_skeleton sd custom has_image has_document user_input =
     (let s = u_strip user_input in
      if s = [] \<and> \<not> has_image then NoReply
      else if sd_lower sd s \<in> set CONTROL_WORDS then NoReply
      else if is_silent sd s then NoReply
      else if has_image then Reply IMAGE_REPLY
      else if has_document \<or> contains s [19978, 20659, 20102, 25991, 27284, 27284, 26696] then Reply DOCUMENT_REPLY
      else if is_guarded sd s then Reply THINKING
      else if re_found (sd_alnum sd) NEGATION s then Reply THINKING
      else
        let entity = extract_entity_anchor sd s in
        case find (\<lambda>(hit, fmt). hit s) custom of
          Some (_, fmt) \<Rightarrow> (case fmt entity of Some t \<Rightarrow> Reply t | None \<Rightarrow> ReplyRaised)
        | None \<Rightarrow> Reply (default_reply sd entity s))"

text \<open>An empty reply is not sent, and every exception is caught. \<open>None\<close> for the chat client is one that cannot be imported.\<close>

definition send_instant_skeleton ::
  "speech_db \<Rightarrow> user_template list \<Rightarrow> chat_env option \<Rightarrow> ustr \<Rightarrow> string option \<Rightarrow> bool \<times> chat_outcome option" where
  "send_instant_skeleton sd custom chat user_input channel_id =
     (case generate_instant_skeleton sd custom False False user_input of
        Reply t \<Rightarrow>
          (case chat of
             None \<Rightarrow> (False, None)
           | Some ce \<Rightarrow>
               (if t = [] then (False, None)
                else let out = send_chat_message ce t channel_id in (co_result out = Some True, Some out)))
      | _ \<Rightarrow> (False, None))"

section \<open>Properties\<close>

text \<open>No reply promises work that was not asked for: a reply other than the three neutral ones is given only to a text without
  attachment that is one line of at most 40 characters, has no word of an instruction, is no acknowledgement or control word,
  and in which no verb is negated; and the reply, when it is sent, is the text of the one message that goes out.\<close>

theorem promises_are_made_on_request_only:
  assumes "generate_instant_skeleton sd custom img doc user_input = Reply t" and "t \<notin> {THINKING, IMAGE_REPLY, DOCUMENT_REPLY}"
  shows "\<not> img \<and> \<not> doc \<and> length (u_strip user_input) \<le> 40 \<and> 10 \<notin> set (u_strip user_input) \<and>
    \<not> has_word META_INSTRUCTION_KEYWORDS (sd_lower sd (u_strip user_input)) \<and> \<not> is_silent sd (u_strip user_input) \<and>
    sd_lower sd (u_strip user_input) \<notin> set CONTROL_WORDS \<and> \<not> re_found (sd_alnum sd) NEGATION (u_strip user_input) \<and>
    (\<forall>out rq. send_instant_skeleton sd custom (Some ce) user_input ch = (ok, Some out) \<and> co_request out = Some rq \<longrightarrow>
       rq_text rq = convert_text (ce_opencc ce) t \<and> rq_file_url rq = None)"
proof -
  let ?s = "u_strip user_input"
  have g: "\<not> (?s = [] \<and> \<not> img) \<and> sd_lower sd ?s \<notin> set CONTROL_WORDS \<and> \<not> is_silent sd ?s \<and> \<not> img \<and> \<not> doc \<and>
      \<not> is_guarded sd ?s \<and> \<not> re_found (sd_alnum sd) NEGATION ?s"
    using assms unfolding generate_instant_skeleton_def Let_def by (simp split: if_splits)
  then have same: "generate_instant_skeleton sd custom False False user_input = Reply t" using assms(1) by simp
  have "rq_text rq = convert_text (ce_opencc ce) t \<and> rq_file_url rq = None"
    if "send_instant_skeleton sd custom (Some ce) user_input ch = (ok, Some out)" "co_request out = Some rq" for out rq
  proof -
    have "out = send_chat_message ce t ch"
      using that(1) by (auto simp: send_instant_skeleton_def same Let_def split: if_splits)
    with that(2) show ?thesis
      by (auto simp: send_chat_message_def split: prod.splits bool.splits if_splits option.splits dest!: post_request_sent)
  qed
  with g show ?thesis by (auto simp: is_guarded_def)
qed

definition demo_sd :: speech_db where
  "demo_sd = \<lparr>sd_alnum = (\<lambda>_. True), sd_digit = (\<lambda>_. False), sd_lower = (\<lambda>s. s)\<rparr>"

lemma demo_skeleton:
  "generate_instant_skeleton demo_sd [] False False [32771, 21220] = Reply ([128205] @ u_str '' '' @ [25910, 21040, 35531, 27714, 65292, 27491, 22312, 28858, 24744, 21363, 26178, 35336, 31639, 32771, 21220, 24037, 26178, 33287, 31805, 36864, 25490, 31243, 20013, 65292, 35531, 31245, 20505] @ u_str ''...'')"
  by code_simp

theorem promises_are_made_on_request_only_witness:
  "\<not> re_found (sd_alnum demo_sd) NEGATION (u_strip [32771, 21220])"
proof -
  have "([128205] @ u_str '' '' @ [25910, 21040, 35531, 27714, 65292, 27491, 22312, 28858, 24744, 21363, 26178, 35336, 31639, 32771, 21220, 24037, 26178, 33287, 31805, 36864, 25490, 31243, 20013, 65292, 35531, 31245, 20505] @ u_str ''...'') \<notin> {THINKING, IMAGE_REPLY, DOCUMENT_REPLY}"
    by (simp add: THINKING_def IMAGE_REPLY_def DOCUMENT_REPLY_def)
  from promises_are_made_on_request_only [OF demo_skeleton this] show ?thesis by blast
qed

section \<open>Findings\<close>

text \<open>A negation is looked for only directly before one of eleven verbs: a document that is no longer wanted is still looked up.\<close>

lemma negation_after_the_noun_is_missed:
  "generate_instant_skeleton demo_sd [] False False [32173, 20462, 21934, 20839, 23481, 19981, 24517, 20102] =
     Reply (([128205] @ u_str '' '' @ [25910, 21040, 35531, 27714, 65292, 27491, 22312, 28858, 24744, 21363, 26178, 35519, 38321, 12304, 32173, 20462, 21934, 12305, 27511, 21490, 27512, 27284, 21934, 25818, 33287, 32000, 37636, 20013, 65292, 35531, 31245, 20505] @ u_str ''...''))"
  by code_simp

text \<open>Any three digits after a letter count as an order number: here the name of a colour.\<close>

lemma any_number_is_an_order:
  "generate_instant_skeleton demo_sd [] False False (u_str ''rgb255'') =
     Reply (([128205] @ u_str '' '' @ [25910, 21040, 35531, 27714, 65292, 27491, 22312, 28858, 24744, 21363, 26178, 35519, 38321, 12304] @ u_str ''rgb255'' @ [12305, 27511, 21490, 27512, 27284, 21934, 25818, 33287, 32000, 37636, 20013, 65292, 35531, 31245, 20505] @ u_str ''...''))"
  by code_simp

end
