(* ===== verification/GuardianLegacy.thy ===== *)
theory GuardianLegacy
  imports Guardian
begin

text \<open>
  The guardian daemon before its hardening, \<open>src/haos/haos_guardian_v2.3_patched.py\<close>. Its helpers that did not
  change (hashing, copying, rollback, signatures) are those of the theory \<open>Guardian\<close>; here are the operations that
  differ: no memory of consumed tokens, no unlock, a manifest without the hash of the daemon, and the check of the
  daemon's own script before the manifest and only when the constructor got a path and a hash (\<open>given\<close>). The fields of
  the state that this version does not have are never read or written.
\<close>

section \<open>The operations\<close>

definition v23_self_integrity :: "bool \<Rightarrow> gsys \<Rightarrow> bool \<times> gsys" where
  "v23_self_integrity given s =
     (if \<not> given \<or> \<not> truthy (gs_expected s) then (True, s)
      else case get_file_hash_safe (gs_script s) of
          Inl _ \<Rightarrow> (False, lock_with EvSelfError s)
        | Inr h \<Rightarrow> if hash_json h \<noteq> gs_expected s then (False, lock_with EvSelfTamper s) else (True, s))"

definition v23_verify_manifest :: "bytes \<Rightarrow> gsys \<Rightarrow> bool \<times> gsys" where
  "v23_verify_manifest key s =
     (case (gs_manifest s, gs_manifest_sig s) of
        (JAbsent, _) \<Rightarrow> (False, log_event EvManifestMissing (s\<lparr>gs_state := UNINITIALIZED\<rparr>))
      | (_, JAbsent) \<Rightarrow> (False, log_event EvManifestMissing (s\<lparr>gs_state := UNINITIALIZED\<rparr>))
      | (JValue m, JValue (JObj sd)) \<Rightarrow>
          (case verify_signature key m (json_get sd ''signature'' (JStr [])) of
             None \<Rightarrow> (False, lock_with EvManifestParseError s)
           | Some False \<Rightarrow> (False, lock_with EvManifestSignatureInvalid s)
           | Some True \<Rightarrow>
               (case manifest_files m of
                  None \<Rightarrow> (False, lock_with EvManifestParseError s)
                | Some fs \<Rightarrow>
                    (case check_snapshots (gs_snap s) fs of
                       Some ev \<Rightarrow> (False, lock_with ev s)
                     | None \<Rightarrow> (True, s))))
      | _ \<Rightarrow> (False, lock_with EvManifestParseError s))"

text \<open>One token: ignored, reported with an event, or valid.\<close>

definition v23_verdict :: "bytes \<Rightarrow> time \<Rightarrow> string \<Rightarrow> string option \<Rightarrow> string \<Rightarrow> gtoken \<Rightarrow> token_verdict" where
  "v23_verdict key now target current name tok =
     (case tok of
        TokenLink \<Rightarrow> Reported (EvLinkAlert name)
      | TokenData (JObj d) \<Rightarrow>
          (let target_file = json_get d ''target_file'' JNull
           in if target_file = JStr ''ALL'' then Reported (EvWildcardAlert name)
              else if target_file \<noteq> JStr target then Ignored
              else case json_number (json_get d ''expires_at'' (JInt 0)) of
                  None \<Rightarrow> Reported (EvTokenError name)
                | Some expiry \<Rightarrow>
                    (if expiry \<le> now then Reported (EvTokenExpired name)
                     else let sig = json_get d ''signature'' (JStr [])
                          in case (verify_signature key (unsigned_part d) sig, sig) of
                              (Some True, JStr t) \<Rightarrow>
                                (if json_get d ''approved_content_hash'' (JStr []) \<noteq> hash_json current
                                 then Reported (EvTokenHashMismatch name) else Candidate t)
                            | (Some False, _) \<Rightarrow> Reported (EvTokenSignatureInvalid name)
                            | _ \<Rightarrow> Reported (EvTokenError name)))
      | _ \<Rightarrow> Reported (EvTokenError name))"

fun v23_approval_tokens ::
  "bytes \<Rightarrow> time \<Rightarrow> string \<Rightarrow> string option \<Rightarrow> (string \<times> gtoken) list \<Rightarrow> gsys \<Rightarrow> bool \<times> gsys" where
  "v23_approval_tokens key now target current [] s = (False, s)"
| "v23_approval_tokens key now target current ((name, tok) # ts) s =
     (case v23_verdict key now target current name tok of
        Ignored \<Rightarrow> v23_approval_tokens key now target current ts s
      | Reported ev \<Rightarrow> v23_approval_tokens key now target current ts (log_event ev s)
      | Candidate _ \<Rightarrow> (True, s))"

definition v23_get_valid_approval_token ::
  "bytes \<Rightarrow> genv \<Rightarrow> string \<Rightarrow> string option \<Rightarrow> gsys \<Rightarrow> bool \<times> gsys" where
  "v23_get_valid_approval_token key e target current s =
     (if gs_approvals_dir s then v23_approval_tokens key (ge_now e) target current (glob_json ''APPROVE-'' s) s
      else (False, s))"

definition v23_update_snapshot_and_manifest ::
  "bytes \<Rightarrow> genv \<Rightarrow> string \<Rightarrow> string option \<Rightarrow> gsys \<Rightarrow> gexn option \<times> gsys" where
  "v23_update_snapshot_and_manifest key e fname new_hash s =
     (case safe_atomic_copy (gs_core s fname) new_hash (ge_write_snap e fname) of
        Inl x \<Rightarrow> (Some x, s)
      | Inr bs \<Rightarrow>
          (let s1 = s\<lparr>gs_snap := (gs_snap s)(fname := Plain bs)\<rparr>
           in case snapshot_hashes (gs_snap s1) IMMUTABLE_FILES of
                None \<Rightarrow> (Some PermErr, s1)
              | Some files \<Rightarrow>
                  (let payload = JObj [(''version'', JInt 1), (''updated_at'', JInt (py_int (ge_now e))), (''files'', JObj files)];
                       s2 = s1\<lparr>gs_manifest := JValue payload\<rparr>
                   in case ge_manifest e fname of
                        WriteFails x \<Rightarrow> (Some x, s1)
                      | SigNotReplaced x \<Rightarrow> (Some x, s2)
                      | Written \<Rightarrow>
                          (None, log_event (EvManifestUpdated fname)
                             (s2\<lparr>gs_manifest_sig := JValue (JObj [(''signature'', JStr (sign_payload key payload))])\<rparr>)))))"

definition v23_compare_with_snapshot :: "bytes \<Rightarrow> genv \<Rightarrow> string \<Rightarrow> gsys \<Rightarrow> gexn option \<times> gsys" where
  "v23_compare_with_snapshot key e fname s =
     (if \<not> node_exists (gs_snap s fname) then (None, s)
      else case (get_file_hash_safe (gs_core s fname), get_file_hash_safe (gs_snap s fname)) of
          (Inr src_hash, Inr snap_hash) \<Rightarrow>
            (if src_hash = snap_hash then (None, s)
             else case v23_get_valid_approval_token key e fname src_hash s of
                 (True, s1) \<Rightarrow>
                   (case v23_update_snapshot_and_manifest key e fname src_hash s1 of
                      (None, s2) \<Rightarrow> (None, log_event (EvAuthorizedChange fname) s2)
                    | r \<Rightarrow> r)
               | (False, s1) \<Rightarrow>
                   (let s2 = log_event (EvViolationModify fname) s1
                    in case safe_atomic_copy (gs_snap s2 fname) snap_hash (ge_write_core e fname 0) of
                         Inl x \<Rightarrow> (Some x, s2)
                       | Inr bs \<Rightarrow> (None, log_event (EvRollback fname) (s2\<lparr>gs_core := (gs_core s2)(fname := Plain bs)\<rparr>))))
        | _ \<Rightarrow> (None, lock_with (EvPermission fname) s))"

definition v23_check_and_enforce_file :: "bytes \<Rightarrow> genv \<Rightarrow> string \<Rightarrow> gsys \<Rightarrow> gexn option \<times> gsys" where
  "v23_check_and_enforce_file key e fname s =
     (case gs_core s fname of
        SymLink _ \<Rightarrow>
          (case restore_from_snapshot e fname 0 (log_event (EvViolationLink fname) s) of
             (Some NotFoundErr, s1) \<Rightarrow> restore_from_snapshot e fname 1 (log_event (EvViolationDelete fname) s1)
           | (Some PermErr, s1) \<Rightarrow> (None, lock_with (EvPermission fname) s1)
           | (Some OsErr, s1) \<Rightarrow> (None, lock_with (EvOsError fname) s1)
           | r \<Rightarrow> r)
      | Absent \<Rightarrow> restore_from_snapshot e fname 0 (log_event (EvViolationDelete fname) s)
      | NoSearch \<Rightarrow> (None, lock_with (EvPermission fname) s)
      | LstatFails \<Rightarrow> (None, lock_with (EvOsError fname) s)
      | _ \<Rightarrow> v23_compare_with_snapshot key e fname s)"

fun v23_enforce_files :: "bytes \<Rightarrow> genv \<Rightarrow> string list \<Rightarrow> bool \<Rightarrow> gsys \<Rightarrow> bool \<times> gsys" where
  "v23_enforce_files key e [] has_error s = (has_error, s)"
| "v23_enforce_files key e (f # fs) has_error s =
     (case v23_check_and_enforce_file key e f s of
        (None, s1) \<Rightarrow> v23_enforce_files key e fs has_error s1
      | (Some _, s1) \<Rightarrow> v23_enforce_files key e fs True (log_event (EvPerFileError f) s1))"

definition v23_check_and_enforce_all :: "bool \<Rightarrow> bytes \<Rightarrow> genv \<Rightarrow> gsys \<Rightarrow> bool \<times> gsys" where
  "v23_check_and_enforce_all given key e s =
     (case v23_self_integrity given s of
        (False, s1) \<Rightarrow> (False, s1)
      | (True, s1) \<Rightarrow>
          (case v23_verify_manifest key s1 of
             (False, s2) \<Rightarrow> (False, s2)
           | (True, s2) \<Rightarrow>
               (case v23_enforce_files key e IMMUTABLE_FILES False s2 of
                  (has_error, s3) \<Rightarrow>
                    (True, if \<not> has_error \<and> gs_state s3 \<notin> {EMERGENCY_LOCK, UNINITIALIZED}
                           then s3\<lparr>gs_state := TRUSTED\<rparr> else s3))))"

section \<open>Tokens\<close>

lemma v23_candidate:
  assumes "v23_verdict key now target current name tok = Candidate sig"
  shows "\<exists>d. tok = TokenData (JObj d) \<and> json_get d ''target_file'' JNull = JStr target \<and>
    signed_token key now d sig \<and> json_get d ''approved_content_hash'' (JStr []) = hash_json current"
  using assms
  by (auto simp: v23_verdict_def signed_token_def Let_def dest!: signature_holds
      split: gtoken.splits json.splits if_splits option.splits bool.splits)

lemma v23_signed_candidate:
  assumes "json_get d ''target_file'' JNull = JStr target" and "signed_token key now d sig" and "target \<noteq> ''ALL''"
    and "json_get d ''approved_content_hash'' (JStr []) = hash_json current"
  shows "v23_verdict key now target current name (TokenData (JObj d)) = Candidate sig"
  using assms by (auto simp: v23_verdict_def signed_token_def Let_def split: option.splits)

text \<open>The scan finds a token exactly when one of the files is a candidate; it writes nothing but events.\<close>

lemma v23_tokens_exact:
  "fst (v23_approval_tokens key now target current ts s) \<longleftrightarrow>
     list_ex (\<lambda>(n, t). \<exists>sig. v23_verdict key now target current n t = Candidate sig) ts"
  by (induction ts arbitrary: s) (auto split: token_verdict.splits)

lemma v23_tokens_events: "\<exists>evs. snd (v23_approval_tokens key now target current ts s) = s\<lparr>gs_events := gs_events s @ evs\<rparr>"
proof (induction ts arbitrary: s)
  case Nil
  show ?case by (rule exI [of _ "[]"]) simp
next
  case (Cons t ts)
  obtain n tok where t: "t = (n, tok)" by (cases t)
  show ?case
  proof (cases "v23_verdict key now target current n tok")
    case Ignored
    then show ?thesis using Cons.IH [of s] t by simp
  next
    case (Reported ev)
    obtain evs where "snd (v23_approval_tokens key now target current ts (log_event ev s)) =
        (log_event ev s)\<lparr>gs_events := gs_events (log_event ev s) @ evs\<rparr>" using Cons.IH by blast
    then show ?thesis using Reported t by (intro exI [of _ "ev # evs"]) (simp add: log_event_def)
  next
    case (Candidate sig)
    then show ?thesis using t by (intro exI [of _ "[]"]) simp
  qed
qed

lemma v23_approval_exact:
  assumes "target \<noteq> ''ALL''"
  shows "fst (v23_get_valid_approval_token key e target current s) \<longleftrightarrow>
     gs_approvals_dir s \<and>
     (\<exists>n d sig. (n, TokenData (JObj d)) \<in> set (glob_json ''APPROVE-'' s) \<and> json_get d ''target_file'' JNull = JStr target \<and>
        signed_token key (ge_now e) d sig \<and> json_get d ''approved_content_hash'' (JStr []) = hash_json current)"
proof -
  have "(\<exists>sig. v23_verdict key (ge_now e) target current n tok = Candidate sig) \<longleftrightarrow>
      (\<exists>d sig. tok = TokenData (JObj d) \<and> json_get d ''target_file'' JNull = JStr target \<and>
        signed_token key (ge_now e) d sig \<and> json_get d ''approved_content_hash'' (JStr []) = hash_json current)" for n tok
    using v23_candidate v23_signed_candidate [OF _ _ assms] by blast
  then show ?thesis
    unfolding v23_get_valid_approval_token_def by (simp add: v23_tokens_exact list_ex_iff case_prod_beta) force
qed

lemma v23_approval_same:
  assumes "v23_get_valid_approval_token key e target current s = (b, s')"
  shows "same_files s s'" and "gs_state s' = gs_state s" and "gs_accepted s' = gs_accepted s" and "gs_consumed s' = gs_consumed s"
  using assms v23_tokens_events [of key "ge_now e" target current "glob_json ''APPROVE-'' s" s]
  by (auto simp: v23_get_valid_approval_token_def same_files_def split: if_splits)

section \<open>Files\<close>

lemma v23_update_effect:
  assumes "v23_update_snapshot_and_manifest key e f (Some (sha256_hex b)) t = (x, s')" and "gs_core t f = Plain b"
    and "same_files s t" and "gs_state t = gs_state s" and "accepts key s t"
    and "(name, TokenData (JObj d)) \<in> set (gs_approvals s)" and "json_get d ''target_file'' JNull = JStr f"
    and "signed_token key now d sig" and "json_get d ''approved_content_hash'' (JStr []) = JStr (sha256_hex b)"
  shows "file_effect key now s s' f"
proof (cases "safe_atomic_copy (Plain b) (Some (sha256_hex b)) (ge_write_snap e f)")
  case (Inl y)
  then show ?thesis using assms by (auto simp: v23_update_snapshot_and_manifest_def intro: file_effect_tokens)
next
  case (Inr bs)
  from safe_copy_Inr [OF this] have bs: "bs = take MAX_COPY_BYTES b" "sha256_hex (take MAX_COPY_BYTES b) = sha256_hex b"
    by (auto simp: get_file_hash_safe_def)
  have "gs_snap s' = (gs_snap t)(f := Plain bs) \<and> gs_core s' = gs_core t \<and> gs_approvals s' = gs_approvals t \<and>
      gs_expected s' = gs_expected t \<and> gs_script s' = gs_script t \<and> gs_state s' = gs_state t \<and>
      gs_accepted s' = gs_accepted t \<and> gs_consumed s' = gs_consumed t"
    using assms(1,2) Inr
    by (auto simp: v23_update_snapshot_and_manifest_def Let_def split: option.splits manifest_write.splits)
  moreover have "accepts key s s'" using assms(5) calculation by (simp add: accepts_def)
  moreover have "gs_core s f = Plain b" using assms(2,3) by (simp add: same_files_def)
  ultimately show ?thesis
    using assms(3,4,6-9) bs
    by (auto simp: file_effect_def core_effect_def snap_effect_def elsewhere_def same_files_def)
qed

interpretation v23: enforcement key "v23_get_valid_approval_token key" "v23_update_snapshot_and_manifest key"
  "v23_compare_with_snapshot key" "v23_check_and_enforce_file key" "v23_enforce_files key" for key
proof unfold_locales
  show "\<exists>name d sig. (name, TokenData (JObj d)) \<in> set (gs_approvals s) \<and> json_get d ''target_file'' JNull = JStr f \<and>
      signed_token key (ge_now e) d sig \<and> json_get d ''approved_content_hash'' (JStr []) = hash_json h"
    if "v23_get_valid_approval_token key e f h s = (True, s')" "f \<in> set IMMUTABLE_FILES" for e f h s s'
  proof -
    have "f \<noteq> ''ALL''" using that(2) by (auto simp: IMMUTABLE_FILES_def)
    then show ?thesis using v23_approval_exact [of f key e h s] that(1) by (auto simp: glob_json_def)
  qed
next
  show "same_files s s' \<and> gs_state s' = gs_state s \<and> accepts key s s'"
    if "v23_get_valid_approval_token key e f h s = (b, s')" for e f h s b s'
    using v23_approval_same [OF that] accepts_same by blast
next
  show "s' = s" if "get_file_hash_safe (gs_core s f) = Inr None" "v23_update_snapshot_and_manifest key e f h s = (x, s')" for s f e h x s'
    using that no_hash_no_copy [OF that(1)] by (auto simp: v23_update_snapshot_and_manifest_def)
qed (auto simp: v23_compare_with_snapshot_def v23_check_and_enforce_file_def intro: v23_update_effect)

section \<open>A cycle\<close>

lemma v23_manifest_True: "v23_verify_manifest key s = (True, s') \<Longrightarrow> s' = s"
  by (auto simp: v23_verify_manifest_def split: gjson.splits json.splits option.splits bool.splits)

lemma v23_manifest_False:
  "v23_verify_manifest key s = (False, s') \<Longrightarrow>
   (\<exists>ev. s' = lock_with ev s) \<or> s' = log_event EvManifestMissing (s\<lparr>gs_state := UNINITIALIZED\<rparr>)"
  by (auto simp: v23_verify_manifest_def split: gjson.splits json.splits option.splits bool.splits)

lemma v23_self_integrity_cases:
  "v23_self_integrity given s = (True, s') \<Longrightarrow> s' = s"
  "v23_self_integrity given s = (False, s') \<Longrightarrow> \<exists>ev. s' = lock_with ev s"
  by (auto simp: v23_self_integrity_def split: if_splits sum.splits)

lemma v23_cycle_cases:
  assumes "v23_check_and_enforce_all given key e s = (b, s')"
  obtains (Stopped) "s' = log_event EvManifestMissing (s\<lparr>gs_state := UNINITIALIZED\<rparr>) \<or> (\<exists>ev. s' = lock_with ev s)"
  | (Enforced) he t where "v23_enforce_files key e IMMUTABLE_FILES False s = (he, t)"
      "s' = (if \<not> he \<and> gs_state t \<notin> {EMERGENCY_LOCK, UNINITIALIZED} then t\<lparr>gs_state := TRUSTED\<rparr> else t)"
proof -
  obtain i s1 where i: "v23_self_integrity given s = (i, s1)" by (cases "v23_self_integrity given s")
  obtain m s2 where m: "v23_verify_manifest key s1 = (m, s2)" by (cases "v23_verify_manifest key s1")
  obtain he t where f: "v23_enforce_files key e IMMUTABLE_FILES False s2 = (he, t)"
    by (cases "v23_enforce_files key e IMMUTABLE_FILES False s2")
  show ?thesis
  proof (cases "i \<and> m")
    case True
    with i m have "s2 = s" using v23_self_integrity_cases(1) v23_manifest_True by metis
    with f show ?thesis using True assms i m
      by (intro Enforced) (auto simp: v23_check_and_enforce_all_def)
  next
    case False
    show ?thesis
    proof (rule Stopped, cases i)
      case True
      then show "s' = log_event EvManifestMissing (s\<lparr>gs_state := UNINITIALIZED\<rparr>) \<or> (\<exists>ev. s' = lock_with ev s)"
        using False assms i m v23_self_integrity_cases(1) [of given s s1] v23_manifest_False [of key s1 s2]
        by (auto simp: v23_check_and_enforce_all_def)
    next
      case not_i: False
      then show "s' = log_event EvManifestMissing (s\<lparr>gs_state := UNINITIALIZED\<rparr>) \<or> (\<exists>ev. s' = lock_with ev s)"
        using assms i v23_self_integrity_cases(2) [of given s s1] by (auto simp: v23_check_and_enforce_all_def)
    qed
  qed
qed

section \<open>An example\<close>

text \<open>A state with an approval that was used before: its signature is in the memory and in the list.\<close>

definition demo_change :: "(string \<times> json) list" where
  "demo_change = [(''target_file'', JStr ''01_Core.md''), (''expires_at'', JInt 200),
     (''approved_content_hash'', JStr (sha256_hex ''new''))]"

definition demo_signed_change :: "(string \<times> json) list" where
  "demo_signed_change = demo_change @ [(''signature'', JStr (sign_payload demo_key (JObj demo_change)))]"

definition demo_replayed :: gsys where
  "demo_replayed = demo_trusted
     \<lparr>gs_memory := [JStr (sign_payload demo_key (JObj demo_change))],
      gs_consumed := JValue (JArr [JStr (sign_payload demo_key (JObj demo_change))]),
      gs_approvals_dir := True, gs_approvals := [(''APPROVE-1.json'', TokenData (JObj demo_signed_change))]\<rparr>"

lemma demo_approval_listed: "glob_json ''APPROVE-'' demo_replayed = [(''APPROVE-1.json'', TokenData (JObj demo_signed_change))]"
  by (simp add: glob_json_def demo_replayed_def starts_with_def ends_with_def)

lemma demo_approval_signed:
  "json_get demo_signed_change ''target_file'' JNull = JStr ''01_Core.md''"
  "signed_token demo_key 100 demo_signed_change (sign_payload demo_key (JObj demo_change))"
  "json_get demo_signed_change ''approved_content_hash'' (JStr []) = hash_json (Some (sha256_hex ''new''))"
  by (simp_all add: demo_signed_change_def demo_change_def json_get_def signed_token_def unsigned_part_def)

section \<open>Properties\<close>

text \<open>The guardian of version 2.3 keeps the same discipline of writes as its successor: whatever one of its cycles does,
  each core file is left as it was or gets the bytes of its snapshot, never when it may not be searched or read; and each
  snapshot is left as it was or gets the bytes of its core file, and then a token in the approvals directory, signed with
  the trust-root key and not expired, names this file and the SHA-256 of these bytes.\<close>

theorem v23_files_change_only_by_rollback:
  "list_all (\<lambda>f. core_effect s (snd (v23_check_and_enforce_all given key e s)) f \<and>
                 snap_effect key (ge_now e) s (snd (v23_check_and_enforce_all given key e s)) f) IMMUTABLE_FILES"
proof -
  obtain b s' where c: "v23_check_and_enforce_all given key e s = (b, s')"
    by (cases "v23_check_and_enforce_all given key e s")
  from c have "\<forall>f \<in> set IMMUTABLE_FILES. core_effect s s' f \<and> snap_effect key (ge_now e) s s' f"
  proof (cases rule: v23_cycle_cases)
    case Stopped
    then show ?thesis by (auto simp: core_effect_def snap_effect_def)
  next
    case (Enforced he t)
    have "files_effect key (ge_now e) s t (set IMMUTABLE_FILES)" by (rule v23.enforce_list_effect [OF Enforced(1)]) simp_all
    then show ?thesis unfolding Enforced(2) by (simp add: files_effect_def core_effect_def snap_effect_def)
  qed
  then show ?thesis by (simp add: c list_all_iff)
qed

text \<open>C22: the older guardian is the more permissive one: a change of one of the immutable files that version 2.4 accepts on the
  strength of an approval token is accepted by version 2.3 on the same files at the same time; and its answer depends on the tokens and the
  clock alone: it is positive exactly when an \<open>APPROVE-*.json\<close> file that is no link holds an object for this file and this
  hash, unexpired and signed, however often that token was used before.\<close>

theorem old_guardian_accepts_every_token:
  assumes "f \<in> set IMMUTABLE_FILES"
  shows "(fst (get_valid_approval_token key e f h s) \<longrightarrow> fst (v23_get_valid_approval_token key e f h s)) \<and>
    (fst (v23_get_valid_approval_token key e f h s) \<longleftrightarrow>
       gs_approvals_dir s \<and>
       (\<exists>n d sig. (n, TokenData (JObj d)) \<in> set (glob_json ''APPROVE-'' s) \<and> json_get d ''target_file'' JNull = JStr f \<and>
          signed_token key (ge_now e) d sig \<and> json_get d ''approved_content_hash'' (JStr []) = hash_json h))"
proof -
  have "f \<noteq> ''ALL''" using assms by (auto simp: IMMUTABLE_FILES_def)
  note exact = v23_approval_exact [OF this, of key e h s]
  have "fst (v23_get_valid_approval_token key e f h s)" if ok: "fst (get_valid_approval_token key e f h s)"
  proof -
    from ok have dir: "gs_approvals_dir s" by (auto simp: get_valid_approval_token_def split: if_splits)
    obtain s' where "approval_tokens key e f h (glob_json ''APPROVE-'' s) s = (True, s')"
      using ok dir by (cases "approval_tokens key e f h (glob_json ''APPROVE-'' s) s") (simp add: get_valid_approval_token_def)
    from approval_tokens_facts [OF this assms] dir show ?thesis unfolding exact by blast
  qed
  with exact show ?thesis by blast
qed

theorem old_guardian_accepts_every_token_witness:
  "fst (v23_get_valid_approval_token demo_key demo_genv ''01_Core.md'' (Some (sha256_hex ''new'')) demo_replayed) \<and>
   \<not> fst (get_valid_approval_token demo_key demo_genv ''01_Core.md'' (Some (sha256_hex ''new'')) demo_replayed)"
proof -
  have "''01_Core.md'' \<in> set IMMUTABLE_FILES" by (simp add: IMMUTABLE_FILES_def)
  from old_guardian_accepts_every_token [OF this, of demo_key demo_genv "Some (sha256_hex ''new'')" demo_replayed]
  have "fst (v23_get_valid_approval_token demo_key demo_genv ''01_Core.md'' (Some (sha256_hex ''new'')) demo_replayed)"
    using demo_approval_listed demo_approval_signed by (auto simp: demo_replayed_def demo_genv_def)
  moreover have "approval_verdict demo_key 100 [JStr (sign_payload demo_key (JObj demo_change))] ''01_Core.md''
      (Some (sha256_hex ''new'')) ''APPROVE-1.json'' (TokenData (JObj demo_signed_change)) = Ignored"
    by (simp add: approval_verdict_def demo_signed_change_def demo_change_def json_get_def Let_def)
  ultimately show ?thesis
    by (simp add: get_valid_approval_token_def demo_approval_listed) (simp add: demo_replayed_def demo_genv_def)
qed

section \<open>Findings\<close>

text \<open>An emergency lock, or a cycle without a manifest, is final in version 2.3: no operation leaves these states, so the
  daemon is not \<open>TRUSTED\<close> again until it is restarted (and a restart forgets the lock).\<close>

lemma v23_lock_is_final:
  assumes "gs_state s \<in> {EMERGENCY_LOCK, UNINITIALIZED}" and "v23_check_and_enforce_all given key e s = (b, s')"
  shows "gs_state s' \<in> {EMERGENCY_LOCK, UNINITIALIZED}"
  using assms(2)
proof (cases rule: v23_cycle_cases)
  case (Enforced he t)
  have "files_effect key (ge_now e) s t (set IMMUTABLE_FILES)" by (rule v23.enforce_list_effect [OF Enforced(1)]) simp_all
  then show ?thesis using assms(1) unfolding Enforced(2) by (auto simp: files_effect_def)
qed auto

text \<open>The manifest that version 2.3 writes for an approved change carries a valid signature, and version 2.4 locks on it:
  it has no hash of the guardian.\<close>

lemma v23_update_locks_the_successor:
  assumes "v23_update_snapshot_and_manifest key e f h s = (None, s')" and "gs_state s' \<noteq> EMERGENCY_LOCK"
  shows "gs_state (snd (check_and_enforce_all key e' s')) = EMERGENCY_LOCK"
proof -
  from assms(1) obtain p where p: "gs_manifest s' = JValue p" "gs_manifest_sig s' = JValue (JObj [(''signature'', JStr (sign_payload key p))])"
    "read_guardian_hash p = Inl EvGuardianHashMissing"
    by (auto simp: v23_update_snapshot_and_manifest_def Let_def json_get_def log_event_def
        split: sum.splits option.splits manifest_write.splits)
  then have "verify_manifest key s' = (False, lock_with EvGuardianHashMissing s')"
    by (simp add: verify_manifest_def json_get_def)
  then show ?thesis by (simp add: check_and_enforce_all_def unlock_step_def assms(2))
qed

text \<open>Started the way \<open>main\<close> starts it, without a path and a hash, the daemon never checks its own script.\<close>

lemma v23_self_check_never_runs: "v23_self_integrity False s = (True, s)"
  by (simp add: v23_self_integrity_def)

end
