(* ===== verification/BreakerStore.thy ===== *)
theory BreakerStore
  imports Breakers TrustRoot
begin

text \<open>
  The files of the two circuit breakers (\<open>_load_breakers\<close>, \<open>_save_breakers\<close>, \<open>_load_negative_cache\<close>,
  \<open>_save_negative_cache\<close> of \<open>src/hermes_core/circuit_breaker.py\<close>; \<open>to_dict\<close>, \<open>from_dict\<close>, \<open>load_state\<close>,
  \<open>save_state\<close> of \<open>src/capabilities/operator_deadletter/cron_circuit_breaker_engine.py\<close>), and the operations of the
  theory \<open>Breakers\<close> run on them. A file is absent, unreadable (it cannot be opened or is no JSON), or a document with
  its size in bytes; the size \<open>json.dump\<close> gives a document and whether directory and file can be written are the
  record \<open>store_env\<close>. A document that the program would take in but that it never writes (values of other types than
  the entries have) is \<open>Foreign\<close>, and the model says nothing of it; \<open>Bad\<close> is one that makes the reading raise.
\<close>

section \<open>Documents\<close>

datatype state_file = NoFile | Unreadable | Doc nat json

datatype 'a decoded = Bad | Foreign | Good 'a

record store_env =
  bs_directory :: bool
  bs_write :: bool
  bs_size :: "json \<Rightarrow> nat"

definition MAX_STATE_SIZE :: nat where "MAX_STATE_SIZE = 1048576"

definition load_document :: "state_file \<Rightarrow> json" where
  "load_document f = (case f of Doc n j \<Rightarrow> if MAX_STATE_SIZE < n then JObj [] else j | _ \<Rightarrow> JObj [])"

text \<open>\<open>None\<close>: creating the directory raises, outside the \<open>try\<close>. A failed write is logged and the old file stays.\<close>

definition save_document :: "store_env \<Rightarrow> json \<Rightarrow> state_file \<Rightarrow> state_file option" where
  "save_document env j f =
     (if \<not> bs_directory env then None else if bs_write env then Some (Doc (bs_size env j) j) else Some f)"

fun read_entries :: "(string \<Rightarrow> json \<Rightarrow> 'e decoded) \<Rightarrow> (string \<times> json) list \<Rightarrow> 'e dict decoded" where
  "read_entries dec [] = Good []"
| "read_entries dec ((k, v) # kvs) =
     (case (dec k v, read_entries dec kvs) of
        (Bad, _) \<Rightarrow> Bad
      | (_, Bad) \<Rightarrow> Bad
      | (Good e, Good es) \<Rightarrow> Good ((k, e) # es)
      | _ \<Rightarrow> Foreign)"

definition entries_json :: "(string \<Rightarrow> 'e \<Rightarrow> json) \<Rightarrow> 'e dict \<Rightarrow> json" where
  "entries_json enc es = JObj (map (\<lambda>(k, e). (k, enc k e)) es)"

definition read_object :: "(string \<Rightarrow> json \<Rightarrow> 'e decoded) \<Rightarrow> json \<Rightarrow> 'e dict decoded" where
  "read_object dec j = (case j of JObj kvs \<Rightarrow> read_entries dec kvs | _ \<Rightarrow> Bad)"

fun time_of :: "json \<Rightarrow> time option" where
  "time_of (JInt i) = Some (of_int i)"
| "time_of (JFloat x) = Some x"
| "time_of _ = None"

fun state_name :: "breaker_state \<Rightarrow> string" where
  "state_name HEALTHY = ''HEALTHY''"
| "state_name DEGRADED_QUARANTINED = ''DEGRADED_QUARANTINED''"
| "state_name SLOW_PROBING = ''SLOW_PROBING''"

definition state_of_name :: "string \<Rightarrow> breaker_state option" where
  "state_of_name t = find (\<lambda>s. state_name s = t) [HEALTHY, DEGRADED_QUARANTINED, SLOW_PROBING]"

lemma state_of_name [simp]: "state_of_name (state_name s) = Some s"
  by (cases s) (simp_all add: state_of_name_def)

text \<open>A codec that reads back what it writes does so for whole dictionaries, through the file.\<close>

locale entry_codec =
  fixes enc :: "string \<Rightarrow> 'e \<Rightarrow> json"
    and dec :: "string \<Rightarrow> json \<Rightarrow> 'e decoded"
  assumes decode_encode [simp]: "dec k (enc k e) = Good e"
begin

lemma read_written: "read_object dec (entries_json enc es) = Good es"
proof -
  have "read_entries dec (map (\<lambda>(k, e). (k, enc k e)) es) = Good es"
    by (induction es) auto
  then show ?thesis by (simp add: read_object_def entries_json_def)
qed

lemma load_saved:
  assumes "bs_directory env" and "bs_write env"
  shows "\<exists>f'. save_document env (entries_json enc es) f = Some f' \<and>
     read_object dec (load_document f') = Good (if bs_size env (entries_json enc es) \<le> MAX_STATE_SIZE then es else [])"
  using assms read_written by (simp add: save_document_def load_document_def read_object_def)

lemma documents_inj: "entries_json enc es = entries_json enc es' \<Longrightarrow> es = es'"
  using read_written by (metis decoded.inject)

end

section \<open>Protected tasks on their file\<close>

definition task_json :: "string \<Rightarrow> task_entry \<Rightarrow> json" where
  "task_json k e = JObj [(''consecutive_failures'', JInt (te_failures e)), (''state'', JStr (state_name (te_state e))),
     (''last_error'', JStr (te_last_error e)), (''last_failure_time'', JFloat (te_last_failure_time e)),
     (''last_probe_time'', JFloat (te_last_probe_time e))]"

definition task_of_json :: "string \<Rightarrow> json \<Rightarrow> task_entry decoded" where
  "task_of_json k j =
     (case j of
        JObj d \<Rightarrow>
          (case (map_of d ''consecutive_failures'', map_of d ''state'', map_of d ''last_error'',
                 Option.bind (map_of d ''last_failure_time'') time_of, Option.bind (map_of d ''last_probe_time'') time_of) of
             (Some (JInt n), Some (JStr st), Some (JStr err), Some t, Some p) \<Rightarrow>
               (case state_of_name st of
                  Some s \<Rightarrow> Good \<lparr>te_failures = n, te_state = s, te_last_error = err, te_last_failure_time = t, te_last_probe_time = p\<rparr>
                | None \<Rightarrow> Foreign)
           | _ \<Rightarrow> Foreign)
      | _ \<Rightarrow> Foreign)"

interpretation tc: entry_codec task_json task_of_json
  by unfold_locales (simp add: task_json_def task_of_json_def)

definition tasks_json :: "task_entry dict \<Rightarrow> json" where "tasks_json = entries_json task_json"

definition read_tasks :: "state_file \<Rightarrow> task_entry dict decoded" where
  "read_tasks f = read_object task_of_json (load_document f)"

text \<open>The task ends, or (\<open>None\<close>) the process is killed while it runs. The result is \<open>None\<close> when the call does not
  return: killed, or an exception of the store. A success whose saving raises is handled as a failure, whose saving
  raises again.\<close>

definition finish_task ::
  "store_env \<Rightarrow> time \<Rightarrow> string \<Rightarrow> 'a outcome option \<Rightarrow> task_entry \<Rightarrow> task_entry dict \<Rightarrow> state_file \<Rightarrow> 'a task_result option \<times> state_file" where
  "finish_task env now task out entry bs f =
     (case out of
        None \<Rightarrow> (None, f)
      | Some (Returned r) \<Rightarrow>
          (case save_document env (tasks_json (AList.update task
                  (entry\<lparr>te_failures := 0, te_state := HEALTHY, te_last_error := []\<rparr>) bs)) f of
             None \<Rightarrow> (None, f)
           | Some f' \<Rightarrow> (Some (Succeeded r), f'))
      | Some (Raised err) \<Rightarrow>
          (case save_document env (tasks_json (AList.update task (task_failed now err entry) bs)) f of
             None \<Rightarrow> (None, f)
           | Some f' \<Rightarrow> (Some (Failed err), f')))"

definition stored_task ::
  "store_env \<Rightarrow> time \<Rightarrow> string \<Rightarrow> 'a outcome option \<Rightarrow> state_file \<Rightarrow> ('a task_result option \<times> state_file) decoded" where
  "stored_task env now task out f =
     (case read_tasks f of
        Bad \<Rightarrow> Good (None, f)
      | Foreign \<Rightarrow> Foreign
      | Good bs \<Rightarrow>
          Good (let entry = dict_get bs task fresh_entry in
            if te_state entry = DEGRADED_QUARANTINED then
              (if PROBE_INTERVAL_SECONDS \<le> now - te_last_probe_time entry then
                 (let entry1 = entry\<lparr>te_state := SLOW_PROBING, te_last_probe_time := now\<rparr>;
                      bs1 = AList.update task entry1 bs
                  in case save_document env (tasks_json bs1) f of
                       None \<Rightarrow> (None, f)
                     | Some f1 \<Rightarrow> finish_task env now task out entry1 bs1 f1)
               else (Some (Blocked (te_failures entry) (py_int (PROBE_INTERVAL_SECONDS - (now - te_last_probe_time entry)))), f))
            else finish_task env now task out entry bs f))"

section \<open>The negative cache on its file\<close>

definition negative_json :: "string \<Rightarrow> negative_entry \<Rightarrow> json" where
  "negative_json k e = JObj [(''reason'', JStr (nc_reason e)), (''recorded_at'', JFloat (nc_recorded_at e)),
     (''expires_at'', JFloat (nc_expires_at e))]"

definition negative_of_json :: "string \<Rightarrow> json \<Rightarrow> negative_entry decoded" where
  "negative_of_json k j =
     (case j of
        JObj d \<Rightarrow>
          (case (map_of d ''reason'', Option.bind (map_of d ''recorded_at'') time_of, Option.bind (map_of d ''expires_at'') time_of) of
             (Some (JStr r), Some t, Some x) \<Rightarrow> Good \<lparr>nc_reason = r, nc_recorded_at = t, nc_expires_at = x\<rparr>
           | _ \<Rightarrow> Foreign)
      | _ \<Rightarrow> Foreign)"

interpretation nc: entry_codec negative_json negative_of_json
  by unfold_locales (simp add: negative_json_def negative_of_json_def)

definition read_negative :: "state_file \<Rightarrow> negative_entry dict decoded" where
  "read_negative f = read_object negative_of_json (load_document f)"

text \<open>\<open>clear_negative_cache\<close> of a key that is not there saves nothing. The option is \<open>None\<close> for an exception.\<close>

definition stored_record_negative ::
  "store_env \<Rightarrow> (string \<Rightarrow> string option) \<Rightarrow> time \<Rightarrow> string \<Rightarrow> string \<Rightarrow> time \<Rightarrow> state_file \<Rightarrow> state_file option decoded" where
  "stored_record_negative env sanitize now key reason ttl f =
     (case read_negative f of
        Bad \<Rightarrow> Good None
      | Foreign \<Rightarrow> Foreign
      | Good cache \<Rightarrow> Good (save_document env (entries_json negative_json (record_negative_cache sanitize now key reason ttl cache)) f))"

definition stored_check_negative :: "time \<Rightarrow> string \<Rightarrow> state_file \<Rightarrow> int option option decoded" where
  "stored_check_negative now key f =
     (case read_negative f of
        Bad \<Rightarrow> Good None
      | Foreign \<Rightarrow> Foreign
      | Good cache \<Rightarrow> Good (Some (check_negative_cache now key cache)))"

definition stored_clear_negative :: "store_env \<Rightarrow> string option \<Rightarrow> state_file \<Rightarrow> state_file option decoded" where
  "stored_clear_negative env key f =
     (case key of
        None \<Rightarrow> Good (save_document env (JObj []) f)
      | Some k \<Rightarrow>
          (case read_negative f of
             Bad \<Rightarrow> (case load_document f of JArr xs \<Rightarrow> Good (if JStr k \<in> set xs then None else Some f) | _ \<Rightarrow> Foreign)
           | Foreign \<Rightarrow> Foreign
           | Good cache \<Rightarrow>
               Good (if has_key cache k then save_document env (entries_json negative_json (clear_negative_cache key cache)) f
                     else Some f)))"

section \<open>Cron jobs on their file\<close>

definition JOB_FIELDS :: "string list" where
  "JOB_FIELDS = [''job_id'', ''job_name'', ''consecutive_failures'', ''state'', ''last_error'', ''last_failure_time'',
     ''quarantine_time'', ''last_probe_time'', ''probe_interval_seconds'', ''alert_sent'']"

definition number_json :: "time \<Rightarrow> json" where
  "number_json x = (if of_int \<lfloor>x\<rfloor> = x then JInt \<lfloor>x\<rfloor> else JFloat x)"

definition job_to_dict :: "string \<Rightarrow> job_entry \<Rightarrow> json" where
  "job_to_dict k e = JObj [(''job_id'', JStr k), (''job_name'', JStr (je_job_name e)), (''consecutive_failures'', JInt (je_failures e)),
     (''state'', JStr (state_name (je_state e))), (''last_error'', JStr (je_last_error e)),
     (''last_failure_time'', JFloat (je_last_failure_time e)), (''quarantine_time'', JFloat (je_quarantine_time e)),
     (''last_probe_time'', JFloat (je_last_probe_time e)), (''probe_interval_seconds'', number_json (je_probe_interval e)),
     (''alert_sent'', JBool (je_alert_sent e))]"

text \<open>Unknown states, unknown fields and a missing \<open>job_id\<close> raise; the types of the values are not checked.\<close>

definition job_from_dict :: "string \<Rightarrow> json \<Rightarrow> job_entry decoded" where
  "job_from_dict k j =
     (case j of
        JObj d \<Rightarrow>
          (case json_get d ''state'' (JStr ''HEALTHY'') of
             JStr st \<Rightarrow>
               (case state_of_name st of
                  None \<Rightarrow> Bad
                | Some s \<Rightarrow>
                    if \<not> list_all (\<lambda>(n, _). n \<in> set JOB_FIELDS) d \<or> map_of d ''job_id'' = None then Bad
                    else case (json_get d ''job_id'' JNull, json_get d ''job_name'' (JStr []),
                               json_get d ''consecutive_failures'' (JInt 0), json_get d ''last_error'' (JStr []),
                               time_of (json_get d ''last_failure_time'' (JInt 0)), time_of (json_get d ''quarantine_time'' (JInt 0)),
                               time_of (json_get d ''last_probe_time'' (JInt 0)),
                               time_of (json_get d ''probe_interval_seconds'' (JInt 300)), json_get d ''alert_sent'' (JBool False)) of
                        (JStr i, JStr name, JInt n, JStr err, Some t, Some q, Some p, Some iv, JBool al) \<Rightarrow>
                          (if i = k then Good \<lparr>je_job_name = name, je_failures = n, je_state = s, je_last_error = err,
                             je_last_failure_time = t, je_quarantine_time = q, je_last_probe_time = p,
                             je_probe_interval = iv, je_alert_sent = al\<rparr>
                           else Foreign)
                      | _ \<Rightarrow> Foreign)
           | _ \<Rightarrow> Bad)
      | _ \<Rightarrow> Bad)"

lemma time_of_number [simp]: "time_of (number_json x) = Some x"
  by (simp add: number_json_def)

interpretation jc: entry_codec job_to_dict job_from_dict
  by unfold_locales (simp add: job_to_dict_def job_from_dict_def JOB_FIELDS_def json_get_def)

text \<open>The engine starts with what \<open>load_state\<close> gives; there is no limit of the size here.\<close>

definition load_state :: "state_file \<Rightarrow> job_entry dict decoded" where
  "load_state f =
     (case f of
        Doc n j \<Rightarrow> (case read_object job_from_dict j of Bad \<Rightarrow> Good [] | r \<Rightarrow> r)
      | _ \<Rightarrow> Good [])"

definition save_state :: "store_env \<Rightarrow> job_entry dict \<Rightarrow> state_file \<Rightarrow> state_file option" where
  "save_state env bs f = save_document env (entries_json job_to_dict bs) f"

definition dead_letter_dicts :: "job_entry dict \<Rightarrow> json list" where
  "dead_letter_dicts bs = map (\<lambda>(k, e). job_to_dict k e) (get_dead_letter_queue bs)"

section \<open>The file holds what the dictionary holds\<close>

lemma update_update [simp]: "AList.update k v (AList.update k w es) = AList.update k v es"
  by (induction es) auto

lemma read_tasks_saved:
  "bs_size env (tasks_json bs) \<le> MAX_STATE_SIZE \<Longrightarrow> read_tasks (Doc (bs_size env (tasks_json bs)) (tasks_json bs)) = Good bs"
  "MAX_STATE_SIZE < n \<Longrightarrow> read_tasks (Doc n j) = Good []"
  using tc.read_written [of bs] by (simp_all add: read_tasks_def load_document_def tasks_json_def read_object_def)

definition not_blocked :: "'a task_result \<Rightarrow> bool" where
  "not_blocked r \<longleftrightarrow> (case r of Blocked _ _ \<Rightarrow> False | _ \<Rightarrow> True)"

lemma stored_task_steps:
  assumes "bs_directory env" and "bs_write env" and "read_tasks f = Good bs"
    and "check_and_execute_task now task out bs = (r, bs')"
  shows "stored_task env now task (Some out) f =
    Good (Some r, if not_blocked r then Doc (bs_size env (tasks_json bs')) (tasks_json bs') else f)"
  using assms
  by (auto simp: stored_task_def check_and_execute_task_def finish_task_def save_document_def not_blocked_def Let_def
      split: if_splits outcome.splits)

definition stored_attempt :: "store_env \<Rightarrow> string \<Rightarrow> time \<Rightarrow> time \<Rightarrow> string option \<Rightarrow> state_file \<Rightarrow> bool \<times> state_file" where
  "stored_attempt env task t d err f =
     (case stored_task env t task (Some (case err of None \<Rightarrow> Returned () | Some e \<Rightarrow> Raised e)) f of
        Good (Some r, f') \<Rightarrow> (not_blocked r, f')
      | Good (None, f') \<Rightarrow> (False, f')
      | _ \<Rightarrow> (False, f))"

text \<open>Every document saved in the course of the attempts stays within the limit of the size.\<close>

fun fits :: "store_env \<Rightarrow> string \<Rightarrow> attempt list \<Rightarrow> task_entry dict \<Rightarrow> bool" where
  "fits env task [] bs = True"
| "fits env task ((t, d, err) # as) bs =
     (let bs' = snd (task_attempt task t d err bs)
      in bs_size env (tasks_json bs') \<le> MAX_STATE_SIZE \<and> fits env task as bs')"

lemma blocked_saves_nothing:
  "check_and_execute_task now task out bs = (r, bs') \<Longrightarrow> \<not> not_blocked r \<Longrightarrow> bs' = bs"
  by (auto simp: check_and_execute_task_def not_blocked_def Let_def split: if_splits outcome.splits)

lemma stored_attempts:
  assumes "bs_directory env" and "bs_write env" and "read_tasks f = Good bs" and "fits env task as bs"
  shows "executed_times (stored_attempt env task) as f = executed_times (task_attempt task) as bs"
  using assms(3,4)
proof (induction as arbitrary: f bs)
  case (Cons a as)
  obtain t d err where a: "a = (t, d, err)" by (cases a)
  let ?out = "case err of None \<Rightarrow> Returned () | Some e \<Rightarrow> Raised e"
  obtain r bs' where c: "check_and_execute_task t task ?out bs = (r, bs')" by (cases "check_and_execute_task t task ?out bs")
  then have att: "task_attempt task t d err bs = (not_blocked r, bs')"
    by (simp add: task_attempt_def not_blocked_def)
  let ?f' = "if not_blocked r then Doc (bs_size env (tasks_json bs')) (tasks_json bs') else f"
  have st: "stored_attempt env task t d err f = (not_blocked r, ?f')"
    by (simp add: stored_attempt_def stored_task_steps [OF assms(1,2) Cons.prems(1) c])
  have "read_tasks ?f' = Good bs'"
    using Cons.prems blocked_saves_nothing [OF c] att by (auto simp: a Let_def read_tasks_saved)
  moreover have "fits env task as bs'" using Cons.prems(2) att by (simp add: a Let_def)
  ultimately have "executed_times (stored_attempt env task) as ?f' = executed_times (task_attempt task) as bs'"
    by (rule Cons.IH)
  then show ?case by (simp add: a st att)
qed simp

section \<open>Properties\<close>

text \<open>C28: the throttle of a failing task survives restarts, since it lives in the file. Let the file hold a quarantined task, with the
  three failures or more that quarantine one, and let directory and file be writable and no saved document exceed 1 MB. Then in
  any sequence of attempts, each of which loads the file anew, fails with any error text and runs to the end of its call, the
  task is executed at least 300 seconds after its last probe and then at least 300 seconds apart. A process killed in the middle
  of a probe is not covered: it leaves a state that is not throttled (\<open>killed_probe_is_not_throttled\<close>).\<close>

theorem throttle_survives_restarts:
  assumes "bs_directory env" and "bs_write env" and "read_tasks f = Good bs"
    and "te_state (task_of task bs) = DEGRADED_QUARANTINED" and "3 \<le> te_failures (task_of task bs)"
    and "\<forall>(t, d, err) \<in> set as. err \<noteq> None \<and> 0 \<le> d" and "fits env task as bs"
  shows "sorted_wrt (\<lambda>a b. a + 300 \<le> b) (executed_times (stored_attempt env task) as f) \<and>
    (\<forall>t \<in> set (executed_times (stored_attempt env task) as f). te_last_probe_time (task_of task bs) + 300 \<le> t)"
  unfolding stored_attempts [OF assms(1-3,7)]
  using tb.failing_attempts_are_spaced [of task bs as] assms(4-6)
  by (simp add: FAILURE_THRESHOLD_def PROBE_INTERVAL_SECONDS_def)

definition demo_store :: store_env where
  "demo_store = \<lparr>bs_directory = True, bs_write = True, bs_size = (\<lambda>_. 150)\<rparr>"

theorem throttle_survives_restarts_witness:
  "executed_times (stored_attempt demo_store ''t'') [(1100, 0, Some ''e''), (1300, 0, Some ''e''), (1400, 0, Some ''e'')]
     (Doc 150 (tasks_json demo_quarantined)) = [1300] \<and>
   list_all (\<lambda>t. 1300 \<le> t) (executed_times (stored_attempt demo_store ''t'') [(1100, 0, Some ''e''), (1300, 0, Some ''e''), (1400, 0, Some ''e'')]
      (Doc 150 (tasks_json demo_quarantined)))"
proof -
  let ?as = "[(1100, 0, Some ''e''), (1300, 0, Some ''e''), (1400, 0, Some ''e'')] :: attempt list"
  have f: "fits demo_store ''t'' as bs" for as bs
    by (induction as arbitrary: bs) (auto simp: demo_store_def MAX_STATE_SIZE_def Let_def)
  have r: "read_tasks (Doc 150 (tasks_json demo_quarantined)) = Good demo_quarantined"
    using read_tasks_saved(1) [of demo_store demo_quarantined] by (simp add: demo_store_def MAX_STATE_SIZE_def)
  have "executed_times (task_attempt ''t'') ?as demo_quarantined = [1300]"
    by (simp add: task_breaker_defs demo_quarantined_def dict_get_def PROBE_INTERVAL_SECONDS_def FAILURE_THRESHOLD_def)
  moreover have "\<forall>t \<in> set (executed_times (stored_attempt demo_store ''t'') ?as (Doc 150 (tasks_json demo_quarantined))). 1300 \<le> t"
    using throttle_survives_restarts [of demo_store _ demo_quarantined "''t''" ?as, OF _ _ r _ _ _ f]
    by (simp add: demo_store_def task_of_def demo_quarantined_def dict_get_def)
  ultimately show ?thesis
    using stored_attempts [of demo_store _ demo_quarantined "''t''" ?as, OF _ _ r f] by (simp add: demo_store_def list_all_iff)
qed

text \<open>C40: what the cron engine saves it starts with again: when the directory can be made, \<open>save_state\<close> returns, and after it
  either the write failed and the old file is there untouched, or a new engine loads exactly the breakers saved, whatever
  they hold; and different breakers never have the same document.\<close>

theorem job_state_survives_restart:
  assumes "bs_directory env"
  shows "(\<exists>f'. save_state env bs f = Some f' \<and> (if bs_write env then load_state f' = Good bs else f' = f)) \<and>
    (entries_json job_to_dict bs = entries_json job_to_dict bs' \<longrightarrow> bs = bs')"
  using assms jc.read_written [of bs] jc.documents_inj [of bs bs']
  by (auto simp: save_state_def save_document_def load_state_def)

theorem job_state_survives_restart_witness:
  "load_state (Doc 150 (entries_json job_to_dict [(''j'', new_job ''nightly'')])) = Good [(''j'', new_job ''nightly'')]"
  using job_state_survives_restart [of demo_store "[(''j'', new_job ''nightly'')]" NoFile "[]"]
  by (auto simp: demo_store_def save_state_def save_document_def)

text \<open>A recorded failure blocks its resource after a restart too: once \<open>record_negative_cache\<close> has saved its document of
  at most 1 MB, a check of the normalised key against the file finds it blocked until it expires.\<close>

theorem recorded_failure_blocks_after_restart:
  assumes "bs_directory env" and "bs_write env" and "read_negative f = Good cache"
    and "bs_size env (entries_json negative_json (record_negative_cache sanitize now key reason ttl cache)) \<le> MAX_STATE_SIZE"
  shows "\<exists>f'. stored_record_negative env sanitize now key reason ttl f = Good (Some f') \<and>
    stored_check_negative t (take 255 (strip key)) f' =
      Good (Some (if t < now + ttl then Some (py_int (now + ttl - t)) else None))"
  using assms nc.load_saved [OF assms(1,2)] negative_cache_blocks
  by (simp add: stored_record_negative_def stored_check_negative_def save_document_def read_negative_def load_document_def
      nc.read_written)

theorem recorded_failure_blocks_after_restart_witness:
  "\<exists>f'. stored_record_negative demo_store (\<lambda>_. None) 1000 ''http://x'' ''403'' 600 NoFile = Good (Some f') \<and>
     stored_check_negative 1100 (take 255 (strip ''http://x'')) f' = Good (Some (Some (py_int 500)))"
  using recorded_failure_blocks_after_restart [of demo_store NoFile "[]" "\<lambda>_. None" 1000 "''http://x''" "''403''" 600 1100]
  by (simp add: demo_store_def MAX_STATE_SIZE_def read_negative_def load_document_def read_object_def)

section \<open>Findings\<close>

text \<open>A state file of more than 1 MB, which one long error message of one task can bring about, is read as empty: every
  quarantine in it is forgotten, and the next save replaces the file.\<close>

lemma oversized_file_forgets_quarantines:
  assumes "bs_directory env" and "bs_write env" and "read_tasks f = Good bs"
    and "check_and_execute_task now task (Raised err :: unit outcome) bs = (Failed err, bs')"
    and "MAX_STATE_SIZE < bs_size env (tasks_json bs')"
  shows "\<exists>f'. stored_task env now task (Some (Raised err :: unit outcome)) f = Good (Some (Failed err), f') \<and> read_tasks f' = Good []"
  using stored_task_steps [OF assms(1-4)] assms(5) by (simp add: not_blocked_def read_tasks_saved(2))

text \<open>Where the file cannot be written no task is ever quarantined: each failure finds the entries of the first.\<close>

lemma unwritable_file_never_quarantines:
  assumes "bs_directory env" and "\<not> bs_write env" and "read_tasks f = Good bs"
    and "te_state (dict_get bs task fresh_entry) \<noteq> DEGRADED_QUARANTINED"
  shows "stored_task env now task (Some (Raised err)) f = Good (Some (Failed err), f)"
  using assms by (simp add: stored_task_def finish_task_def save_document_def)

text \<open>Where the directory cannot be made, a task that succeeded is answered with the exception of the store.\<close>

lemma success_is_lost_without_directory:
  assumes "\<not> bs_directory env" and "read_tasks f = Good bs"
    and "te_state (dict_get bs task fresh_entry) \<noteq> DEGRADED_QUARANTINED"
  shows "stored_task env now task (Some (Returned r)) f = Good (None, f)"
  using assms by (simp add: stored_task_def finish_task_def save_document_def)

text \<open>A process killed during a probe leaves the probing state, and from then on the task is executed at once.\<close>

lemma killed_probe_is_not_throttled:
  "stored_task demo_store 1300 ''t'' None (Doc 150 (tasks_json demo_quarantined)) = Good (None :: unit task_result option, f1) \<Longrightarrow>
   fst (stored_attempt demo_store ''t'' 1301 0 (Some err) f1)"
proof -
  assume k: "stored_task demo_store 1300 ''t'' None (Doc 150 (tasks_json demo_quarantined)) = Good (None :: unit task_result option, f1)"
  let ?probing = "AList.update ''t'' (snd (hd demo_quarantined)\<lparr>te_state := SLOW_PROBING, te_last_probe_time := 1300\<rparr>) demo_quarantined"
  have r: "read_tasks (Doc 150 (tasks_json bs)) = Good bs" for bs
    using read_tasks_saved(1) [of demo_store bs] by (simp add: demo_store_def MAX_STATE_SIZE_def)
  have "f1 = Doc 150 (tasks_json ?probing)"
    using k by (simp add: stored_task_def r finish_task_def save_document_def demo_quarantined_def dict_get_def
        PROBE_INTERVAL_SECONDS_def demo_store_def Let_def)
  then show ?thesis
    by (simp add: stored_attempt_def stored_task_def r finish_task_def save_document_def demo_quarantined_def dict_get_def
        demo_store_def not_blocked_def Let_def)
qed

text \<open>One entry of the file that is no entry (an unknown state, a field of a later version) empties the engine: all
  quarantines are forgotten, and the next save writes that down.\<close>

lemma bad_entry_forgets_quarantines:
  assumes "(k, v) \<in> set kvs" and "job_from_dict k v = Bad"
  shows "load_state (Doc n (JObj kvs)) = Good []"
proof -
  have "read_entries job_from_dict kvs = Bad"
    using assms by (induction kvs) (auto split: decoded.splits)
  then show ?thesis by (simp add: load_state_def read_object_def)
qed

end
