(* ===== verification/Handover.thy ===== *)
theory Handover
  imports RuntimeControl
begin

text \<open>
  The handover report, \<open>GracefulHandoverManager.render_handover_report\<close> of \<open>src/agent/runtime_control.py\<close>. A plan is
  given by the attributes the report reads of it; an attribute that is missing has the default of the \<open>getattr\<close>. The
  report is the list of its lines, joined by newlines (code point 10).
\<close>

record report_step =
  ps_id :: ustr
  ps_title :: ustr
  ps_status :: "ustr option"
  ps_evidence :: ustr

record plan_view =
  pv_goal :: ustr
  pv_status :: ustr
  pv_steps :: "report_step list"

text \<open>\<open>None\<close>: the key is missing.\<close>

record ledger_item =
  li_tool :: "ustr option"
  li_target :: "ustr option"
  li_verdict :: "ustr option"

definition default_to :: "ustr \<Rightarrow> ustr option \<Rightarrow> ustr" where
  "default_to d x = (case x of None \<Rightarrow> d | Some y \<Rightarrow> y)"

definition evidence_cell :: "ustr \<Rightarrow> ustr" where
  "evidence_cell e = take 60 (map (\<lambda>c. if c = 10 then 32 else c) (if e = [] then [28961] else e))"

definition step_row :: "report_step \<Rightarrow> ustr" where
  "step_row s =
     (u_str ''| '' @ [96]) @ ps_id s @ ([96] @ u_str '' | '') @ ps_title s @ (u_str '' | '' @ [96]) @ default_to (u_str ''PENDING'') (ps_status s) @ ([96] @ u_str '' | '') @
     evidence_cell (ps_evidence s) @ (u_str '' |'')"

definition completed_steps :: "report_step list \<Rightarrow> nat" where
  "completed_steps ss = length (filter (\<lambda>s. ps_status s = Some (u_str ''COMPLETED'')) ss)"

definition plan_lines :: "plan_view option \<Rightarrow> ustr list" where
  "plan_lines p =
     (case p of
        None \<Rightarrow> [(u_str ''*('' @ [28961, 22810, 27493, 39519, 35336, 21123, 65292, 21934, 27425, 22519, 34892, 20219, 21209] @ u_str '')*''), []]
      | Some v \<Rightarrow>
          [(u_str ''**'' @ [30446, 27161] @ u_str ''**'' @ [65306]) @ pv_goal v,
           (u_str ''**'' @ [29376, 24907] @ u_str ''**'' @ [65306, 96]) @ pv_status v @ ([96] @ u_str '' ('' @ [24050, 23436, 25104] @ u_str '' '') @ u_str (nat_str (completed_steps (pv_steps v))) @ (u_str ''/'') @
             u_str (nat_str (length (pv_steps v))) @ (u_str '' '' @ [27493, 39519] @ u_str '')''),
           [],
           (u_str ''| '' @ [27493, 39519] @ u_str '' ID | '' @ [27493, 39519, 21517, 31281] @ u_str '' | '' @ [29376, 24907] @ u_str '' | '' @ [23458, 35264, 35657, 25818] @ u_str '' |''),
           (u_str ''|---|---|---|---|'')]
          @ map step_row (pv_steps v) @ [[]])"

definition ledger_line :: "nat \<Rightarrow> ledger_item \<Rightarrow> ustr" where
  "ledger_line i x =
     u_str (nat_str i) @ (u_str ''. **['') @ default_to (u_str ''UNKNOWN'') (li_verdict x) @ (u_str '']** '' @ [96]) @ default_to (u_str ''unknown'') (li_tool x) @
     ([96] @ u_str '': '' @ [96]) @ default_to [] (li_target x) @ [96]"

definition ledger_lines :: "ledger_item list \<Rightarrow> ustr list" where
  "ledger_lines xs =
     (if xs = [] then []
      else (u_str ''### '' @ [128269] @ u_str '' '' @ [24050, 35352, 37636, 20043, 23526, 39636, 35657, 25818, 28165, 21934] @ u_str '' (Evidence Ledger)'') # map (\<lambda>(i, x). ledger_line i x) (enumerate 1 (py_last 5 xs)) @ [[]])"

definition handover_lines :: "ustr \<Rightarrow> plan_view option \<Rightarrow> ledger_item list \<Rightarrow> bool \<Rightarrow> ustr list" where
  "handover_lines reason p ledger auto_continuation =
     [(u_str ''## '' @ [128721, 12304] @ u_str ''RUNTIME BUDGET REACHED '' @ [8212] @ u_str '' GRACEFUL HANDOVER'' @ [12305]), (u_str ''**'' @ [20219, 21209, 32066, 27490, 21407, 22240] @ u_str ''**'' @ [65306, 96]) @ reason @ [96], [],
      (u_str ''### '' @ [128202] @ u_str '' '' @ [20219, 21209, 36914, 24230, 33287, 23458, 35264, 35657, 25818, 21295, 32317])]
     @ plan_lines p @ ledger_lines ledger
     @ [(u_str ''---''),
        if auto_continuation then ([9889] @ u_str '' **AIRE '' @ [33258, 20027, 28961, 24863, 32396, 33322] @ u_str ''**'' @ [65306, 31995, 32113, 24050, 33258, 21205, 23384, 27284, 36914, 24230, 65292, 27491, 22312, 28961, 32299, 25509, 21147, 22519, 34892, 19979, 19968, 27493] @ u_str ''...'')
        else ([128161] @ u_str '' **'' @ [34389, 32622, 24314, 35696] @ u_str ''**'' @ [65306, 31995, 32113, 24050, 22312, 36948, 21040, 38928, 31639, 19978, 38480, 26178, 23433, 20840, 23384, 27284, 20006, 20778, 38597, 20132, 20184, 12290, 24744, 21487, 22238, 35206, 12300, 32380, 32396, 12301, 20006, 25351, 23450, 24460, 32396, 27493, 39519, 65292, 25110, 30452, 25509, 25505, 32013, 30070, 21069, 24050, 39511, 35657, 20043, 37096, 20998, 25104, 26524, 12290])]"

definition render_handover_report :: "ustr \<Rightarrow> plan_view option \<Rightarrow> ledger_item list \<Rightarrow> bool \<Rightarrow> ustr" where
  "render_handover_report reason p ledger auto_continuation = u_join [10] (handover_lines reason p ledger auto_continuation)"

section \<open>Lines\<close>

lemma split_on_append: "c \<notin> set x \<Longrightarrow> split_on c (x @ c # ys) = x # split_on c ys"
  by (induction x) auto

lemma split_on_none: "c \<notin> set x \<Longrightarrow> split_on c x = [x]"
  by (induction x) auto

lemma split_joined: "ls \<noteq> [] \<Longrightarrow> \<forall>x \<in> set ls. c \<notin> set x \<Longrightarrow> split_on c (u_join [c] ls) = ls"
proof (induction ls)
  case (Cons x ls)
  then show ?case by (cases ls) (simp_all add: split_on_none split_on_append)
qed simp

definition one_line :: "ustr \<Rightarrow> bool" where "one_line x \<longleftrightarrow> 10 \<notin> set x"

definition step_one_line :: "report_step \<Rightarrow> bool" where
  "step_one_line s \<longleftrightarrow> one_line (ps_id s) \<and> one_line (ps_title s) \<and> one_line (default_to [] (ps_status s))"

definition plan_one_line :: "plan_view \<Rightarrow> bool" where
  "plan_one_line v \<longleftrightarrow> one_line (pv_goal v) \<and> one_line (pv_status v) \<and> list_all step_one_line (pv_steps v)"

definition item_one_line :: "ledger_item \<Rightarrow> bool" where
  "item_one_line x \<longleftrightarrow> one_line (default_to [] (li_tool x)) \<and> one_line (default_to [] (li_target x)) \<and>
     one_line (default_to [] (li_verdict x))"

lemma one_line_append [py_simps, simp]: "one_line (x @ y) \<longleftrightarrow> one_line x \<and> one_line y" "one_line []" "one_line (c # x) \<longleftrightarrow> c \<noteq> 10 \<and> one_line x"
  by (auto simp: one_line_def)

lemma u_str_chars [py_simps]: "u_str [] = []" "u_str (c # s) = of_char c # u_str s"
  by (simp_all add: u_str_def)

lemma one_line_digits [simp]: "one_line (u_str (nat_str n))"
proof -
  have "(of_char c :: nat) \<noteq> 10" if "c \<in> set (nat_str n)" for c
    using nat_str_digits [OF that] by (auto simp: is_digit_def Let_def)
  then have "10 \<notin> (of_char :: char \<Rightarrow> nat) ` set (nat_str n)" by (metis imageE)
  then show ?thesis by (simp add: one_line_def u_str_def)
qed

lemma one_line_evidence [simp]: "one_line (evidence_cell e)"
  by (auto simp: one_line_def evidence_cell_def dest!: in_set_takeD)

lemma one_line_default: "one_line d \<Longrightarrow> one_line (default_to [] x) \<Longrightarrow> one_line (default_to d x)"
  by (cases x) (simp_all add: default_to_def)

lemma step_row_one_line: "step_one_line s \<Longrightarrow> one_line (step_row s)"
  unfolding step_row_def step_one_line_def by (simp add: py_simps one_line_default)

lemma plan_lines_one_line:
  assumes "p = None \<or> plan_one_line (the p)"
  shows "list_all one_line (plan_lines p)"
proof (cases p)
  case (Some v)
  with assms have v: "one_line (pv_goal v)" "one_line (pv_status v)" "list_all step_one_line (pv_steps v)"
    by (simp_all add: plan_one_line_def)
  have "list_all one_line (map step_row (pv_steps v))"
    using v(3) step_row_one_line by (simp add: list_all_iff)
  then show ?thesis using v(1,2) by (simp add: Some plan_lines_def py_simps)
qed (simp add: plan_lines_def py_simps)

lemma in_set_enumerate_elt: "(i, x) \<in> set (enumerate n xs) \<Longrightarrow> x \<in> set xs"
  by (auto simp: in_set_enumerate_eq)

lemma ledger_lines_one_line:
  assumes "list_all item_one_line xs"
  shows "list_all one_line (ledger_lines xs)"
proof -
  have "set (py_last 5 xs) \<subseteq> set xs" by (auto simp: py_last_def dest: in_set_dropD)
  moreover have "one_line (ledger_line i x)" if "item_one_line x" for i x
    using that by (simp add: ledger_line_def item_one_line_def one_line_default py_simps)
  ultimately have "list_all one_line (map (\<lambda>(i, x). ledger_line i x) (enumerate 1 (py_last 5 xs)))"
    using assms by (auto simp: list_all_iff dest!: in_set_enumerate_elt)
  then show ?thesis by (simp add: ledger_lines_def py_simps)
qed

section \<open>Properties\<close>

text \<open>The report says what happened, line by line, whatever the evidence holds. When the reason, the goal, the names and
  the states of a plan and the entries of the ledger have no newline, splitting the report at newlines gives back exactly
  its lines, so there is one row for each step; an evidence summary may hold newlines, it never adds a row.\<close>

theorem report_has_one_row_per_step:
  assumes "one_line reason" and "p = None \<or> plan_one_line (the p)" and "list_all item_one_line ledger"
  shows "split_on 10 (render_handover_report reason p ledger auto_continuation) = handover_lines reason p ledger auto_continuation \<and>
    length (split_on 10 (render_handover_report reason p ledger auto_continuation)) =
      6 + (case p of None \<Rightarrow> 2 | Some v \<Rightarrow> 6 + length (pv_steps v)) +
      (if ledger = [] then 0 else 2 + min 5 (length ledger))"
proof -
  have "list_all one_line (handover_lines reason p ledger auto_continuation)"
    using assms(1) plan_lines_one_line [OF assms(2)] ledger_lines_one_line [OF assms(3)]
    by (simp add: handover_lines_def py_simps)
  then have "split_on 10 (render_handover_report reason p ledger auto_continuation) = handover_lines reason p ledger auto_continuation"
    unfolding render_handover_report_def
    by (intro split_joined) (auto simp: list_all_iff one_line_def handover_lines_def)
  moreover have "length (handover_lines reason p ledger auto_continuation) =
      6 + (case p of None \<Rightarrow> 2 | Some v \<Rightarrow> 6 + length (pv_steps v)) + (if ledger = [] then 0 else 2 + min 5 (length ledger))"
    by (cases p) (auto simp: handover_lines_def plan_lines_def ledger_lines_def py_last_def)
  ultimately show ?thesis by simp
qed

definition demo_report_plan :: plan_view where
  "demo_report_plan = \<lparr>pv_goal = (u_str ''ship''), pv_status = (u_str ''RUNNING''),
     pv_steps = [\<lparr>ps_id = (u_str ''1''), ps_title = (u_str ''build''), ps_status = Some (u_str ''COMPLETED''), ps_evidence = [97, 10, 98]\<rparr>]\<rparr>"

theorem report_has_one_row_per_step_witness:
  "length (split_on 10 (render_handover_report (u_str ''budget'') (Some demo_report_plan) [] False)) = 13"
proof -
  have "one_line (u_str ''budget'')" "plan_one_line demo_report_plan" "length (pv_steps demo_report_plan) = 1"
    by (simp_all add: demo_report_plan_def plan_one_line_def step_one_line_def default_to_def py_simps)
  then show ?thesis
    using conjunct2 [OF report_has_one_row_per_step [of "(u_str ''budget'')" "Some demo_report_plan" "[]" False]] by simp
qed

section \<open>Findings\<close>

text \<open>A title is written as it is: one with a newline makes two rows of one step.\<close>

lemma title_forges_a_row:
  assumes "ps_title s = ps_title a @ (u_str '' | '' @ [96]) @ default_to (u_str ''PENDING'') (ps_status a) @ ([96] @ u_str '' | '') @ evidence_cell (ps_evidence a) @ (u_str '' |'') @
      [10] @ (u_str ''| '' @ [96]) @ ps_id b @ ([96] @ u_str '' | '') @ ps_title b"
    and "ps_id s = ps_id a" and "ps_status s = ps_status b" and "ps_evidence s = ps_evidence b"
  shows "step_row s = step_row a @ [10] @ step_row b"
  using assms by (simp add: step_row_def)

end
