(* ===== verification/ReleaseSigning.thy ===== *)
theory ReleaseSigning
  imports ExtensionRegistry
begin

text \<open>
  The release script as a whole, \<open>src/scripts/sign_capability.py\<close>: where the private key comes from, the signing of one
  directory with the manifest it writes, and \<open>main\<close> over all of them. The signing itself is \<open>sign_capability\<close> of the
  theory \<open>TrustRoot\<close>. \<open>key_pair\<close> stands for Ed25519: the signer and the public key of 32 private bytes.
\<close>

section \<open>The script\<close>

text \<open>The environment variable and the key file, where they are set; \<open>None\<close>: an exception.\<close>

definition get_private_key_bytes :: "string option \<Rightarrow> string option \<Rightarrow> bytes option" where
  "get_private_key_bytes env_key key_file =
     (case env_key of
        Some (c # cs) \<Rightarrow> fromhex (strip (c # cs))
      | _ \<Rightarrow> (case key_file of Some t \<Rightarrow> fromhex (strip t) | None \<Rightarrow> None))"

definition release_keys ::
  "(bytes \<Rightarrow> (signer \<times> bytes) option) \<Rightarrow> string option \<Rightarrow> string option \<Rightarrow> (signer \<times> bytes) option" where
  "release_keys key_pair env_key key_file = Option.bind (get_private_key_bytes env_key key_file) key_pair"

text \<open>\<open>BadManifest\<close>: no JSON, or no object. \<open>rd_content\<close>: the bytes of a file that exists.\<close>

datatype manifest_file = NoManifest | BadManifest | Manifest "(string \<times> json) list"

record release_dir =
  rd_name :: string
  rd_manifest :: manifest_file
  rd_content :: "string \<Rightarrow> bytes option"
  rd_writable :: bool

definition sign_directory :: "trust_env \<Rightarrow> (signer \<times> bytes) option \<Rightarrow> release_dir \<Rightarrow> sign_outcome" where
  "sign_directory te keys d =
     (case rd_manifest d of
        NoManifest \<Rightarrow> SignRefused
      | BadManifest \<Rightarrow> SignRaised
      | Manifest m \<Rightarrow>
          (case sign_capability te keys (rd_content d) m of
             Signed out \<Rightarrow> if rd_writable d then Signed out else SignRaised
           | r \<Rightarrow> r))"

text \<open>The manifests written, by directory; \<open>None\<close>: an exception, which ends the script.\<close>

fun sign_loop ::
  "trust_env \<Rightarrow> (signer \<times> bytes) option \<Rightarrow> bool \<Rightarrow> release_dir list \<Rightarrow> bool option \<times> (string \<times> (string \<times> json) list) list" where
  "sign_loop te keys success [] = (Some success, [])"
| "sign_loop te keys success (d # ds) =
     (case sign_directory te keys d of
        Signed out \<Rightarrow> (case sign_loop te keys success ds of (r, written) \<Rightarrow> (r, (rd_name d, out) # written))
      | SignRefused \<Rightarrow> sign_loop te keys False ds
      | SignRaised \<Rightarrow> (None, []))"

text \<open>The exit code and the manifests written; \<open>target\<close> is \<open>all\<close> or the name of a directory.\<close>

definition sign_main ::
  "trust_env \<Rightarrow> (signer \<times> bytes) option \<Rightarrow> string \<Rightarrow> release_dir list \<Rightarrow> nat \<times> (string \<times> (string \<times> json) list) list" where
  "sign_main te keys target dirs =
     (let todo = (if target = ''all'' then filter (\<lambda>d. rd_manifest d \<noteq> NoManifest) (sort_key rd_name dirs)
                  else filter (\<lambda>d. rd_name d = target) dirs)
      in if todo = [] \<and> target \<noteq> ''all'' then (1, [])
         else case sign_loop te keys True todo of (r, written) \<Rightarrow> (if r = Some True then 0 else 1, written))"

section \<open>Lemmas\<close>

lemma sign_loop_success:
  assumes "sign_loop te keys success ds = (Some True, written)"
  shows "success \<and> (\<forall>d \<in> set ds. \<exists>out. sign_directory te keys d = Signed out \<and> (rd_name d, out) \<in> set written)"
  using assms
proof (induction ds arbitrary: success written)
  case (Cons d ds)
  show ?case
  proof (cases "sign_directory te keys d")
    case (Signed out)
    obtain r w where l: "sign_loop te keys success ds = (r, w)" by (cases "sign_loop te keys success ds")
    with Cons.prems Signed have "r = Some True" "written = (rd_name d, out) # w" by simp_all
    with Cons.IH [of success w] l Signed show ?thesis by auto
  next
    case SignRefused
    with Cons.prems have "sign_loop te keys False ds = (Some True, written)" by simp
    from Cons.IH [OF this] show ?thesis by simp
  next
    case SignRaised
    with Cons.prems show ?thesis by simp
  qed
qed simp

lemma sign_loop_written:
  "sign_loop te keys success ds = (r, written) \<Longrightarrow> (n, out) \<in> set written \<Longrightarrow>
   \<exists>d \<in> set ds. rd_name d = n \<and> sign_directory te keys d = Signed out"
proof (induction ds arbitrary: success r written)
  case (Cons d ds)
  then show ?case
    by (cases "sign_directory te keys d") (fastforce split: prod.splits)+
qed simp

section \<open>Properties\<close>

text \<open>C19: a library that the release script has signed passes the gates. When \<open>sign_capability.py all\<close> exits with 0, every
  capability directory with a manifest got a new one, and under the trust root that belongs to the private key, as long as the
  files are those that were signed, the registry's gate accepts it. The exceptions are exact: a manifest without identifier or
  name is refused for that, and one that declares no file other than \<open>manifest.json\<close> for its empty table of digests, although
  both are signed.\<close>

theorem signed_library_passes_the_gates:
  assumes "sign_main te (Some (sk, pk)) ''all'' dirs = (0, written)" and "load_trust_root_pubkey te = Some pk"
    and "\<And>d f bs. d \<in> set dirs \<Longrightarrow> rd_content d f = Some bs \<Longrightarrow> xd_file (disk d) f = Bytes bs"
    and "\<And>d. d \<in> set dirs \<Longrightarrow> xd_below_root (disk d)"
    and "d \<in> set dirs" and "rd_manifest d \<noteq> NoManifest"
  shows "\<exists>m declared out. rd_manifest d = Manifest m \<and> declared_names (json_get m ''files'' (JArr [])) = Some declared \<and>
    (rd_name d, out) \<in> set written \<and>
    gate_directory te (disk d) (manifest_of_dict out) =
      Some (if \<not> named_manifest m then Some MissingIdOrName
            else if only_the_manifest declared then Some IntegrityBlock else None)"
proof -
  have "sign_loop te (Some (sk, pk)) True (filter (\<lambda>d. rd_manifest d \<noteq> NoManifest) (sort_key rd_name dirs)) = (Some True, written)"
    using assms(1) by (simp add: sign_main_def Let_def split: prod.splits if_splits)
  from sign_loop_success [OF this] assms(5,6) obtain out where
    out: "sign_directory te (Some (sk, pk)) d = Signed out" "(rd_name d, out) \<in> set written" by auto
  then obtain m where m: "rd_manifest d = Manifest m" "sign_capability te (Some (sk, pk)) (rd_content d) m = Signed out"
    by (auto simp: sign_directory_def split: manifest_file.splits sign_outcome.splits if_splits)
  have content: "xd_file (disk d) f = Bytes bs" if "rd_content d f = Some bs" for f bs
    using assms(3,5) that by blast
  have "\<exists>declared files. declared_names (json_get m ''files'' (JArr [])) = Some declared \<and>
      declared_hashes (rd_content d) [] declared = Inr files \<and>
      gate_directory te (disk d) (manifest_of_dict out) =
        Some (if \<not> named_manifest m then Some MissingIdOrName else if only_the_manifest declared then Some IntegrityBlock else None)"
    by (rule signed_capability_passes [OF m(2) assms(2) assms(4) [OF assms(5)]]) (rule content)
  with out(2) m(1) show ?thesis by blast
qed

definition demo_release_dir :: release_dir where
  "demo_release_dir = \<lparr>rd_name = ''patcher'', rd_manifest = Manifest demo_cap_manifest,
     rd_content = (\<lambda>f. if f = ''a.py'' then Some demo_source else None), rd_writable = True\<rparr>"

lemma demo_sign_all:
  "sign_main demo_trust (Some (\<lambda>_. replicate 64 CHR ''s'', replicate 32 CHR ''k'')) ''all'' [demo_release_dir] =
     (0, [(''patcher'', demo_signed)])"
proof -
  have "sign_capability demo_trust (Some (\<lambda>_. replicate 64 CHR ''s'', replicate 32 CHR ''k''))
      (\<lambda>f. if f = ''a.py'' then Some demo_source else None) demo_cap_manifest = Signed demo_signed"
    by (rule demo_sign)
  then show ?thesis by (simp add: sign_main_def sign_directory_def demo_release_dir_def)
qed

theorem signed_library_passes_the_gates_witness:
  "\<exists>out. (''patcher'', out) \<in> set [(''patcher'', demo_signed)] \<and> gate_directory demo_trust demo_dir (manifest_of_dict out) = Some None"
proof -
  have "xd_file demo_dir f = Bytes bs" if "rd_content demo_release_dir f = Some bs" for f bs
    using that by (simp add: demo_dir_def demo_release_dir_def split: if_splits)
  moreover have "xd_below_root demo_dir" by (simp add: demo_dir_def)
  ultimately show ?thesis
    using signed_library_passes_the_gates [OF demo_sign_all demo_key, of "\<lambda>_. demo_dir" demo_release_dir]
    by (auto simp: demo_release_dir_def demo_cap_manifest_def named_manifest_def only_the_manifest_def)
qed

section \<open>Findings\<close>

text \<open>A manifest that is no JSON object ends \<open>all\<close>: the directories after it in the alphabet stay unsigned.\<close>

lemma bad_manifest_ends_the_signing:
  "rd_manifest d = BadManifest \<Longrightarrow> sign_loop te keys success (d # ds) = (None, [])"
  by (simp add: sign_directory_def)

text \<open>An environment variable of blanks is taken for a key: the key file is not read, and the key is the empty one.\<close>

lemma blank_variable_hides_the_key_file: "get_private_key_bytes (Some '' '') key_file = Some []"
  by code_simp

end
