(* ===== verification/Spec2Isabelle.thy ===== *)
theory Spec2Isabelle
  imports Adapter Breakers Planner FastPath RuntimeControl TrustBoundary PathSanitizer SecurityFilter InlinePatch SemanticCache ExtensionRegistry Guardian Compactor DbPool EvidenceLog Diagnostics ChatClient CapabilityAudit SelfChecks ReleaseAudit Prefetch Preflight Skeleton PromptInspector GuardianLegacy BreakerStore Handover ReleaseSigning
begin

text \<open>
  Hermes is the runtime of an autonomous agent. Its core (\<open>src/hermes_core\<close>, \<open>src/agent\<close>, \<open>src/capabilities\<close>,
  \<open>src/haos\<close>) is built around one idea: what the agent proposes is text from an untrusted source, and nothing of it
  takes effect before a check that the agent cannot influence. This development models those checks, operation by
  operation and branch by branch, and proves what they promise. This theory holds the properties that span components and
  imports all others.

  \<^bold>\<open>The parts of the program and how they interact.\<close> A privileged broker (\<open>authority/broker.py\<close>) receives requests over a
  local socket (\<open>client.py\<close>), each with the exact semantics of an execution, and decides them by the task's manifest, the
  provenance of the text (\<open>provenance/signer.py\<close>) and, for risky or tainted requests, a human approval
  (\<open>approval/service.py\<close>). A granted request becomes a signed, short-lived, single-use grant. Three gates (\<open>gates/process_gate.py\<close>,
  \<open>storage_gate.py\<close>, \<open>network_gate.py\<close>) verify grants on their own, again, and then act; \<open>gates/adapter.py\<close> joins client and
  gates. Beside this chain stand guards that need no broker: path and secret filters, the trust boundary for memory and
  scheduled tasks, the bridge to sandboxed MCP tools, the registry that loads signed capabilities, circuit breakers, budgets
  and loop detectors, the guardian daemon of the constitution files, the chat client, caches, and the tools of a release.

  \<^bold>\<open>Which theory models what.\<close> Names of definitions are those of the functions they model.

  \<^item> Language and library: \<open>Prelude\<close> (types, dictionaries, numbers, the collection \<open>py_simps\<close>), \<open>PyText\<close>, \<open>PyUtf8\<close>, \<open>PyCodec\<close>
    (base64, SHA-256), \<open>PyJson\<close>, \<open>PyRegex\<close> (a backtracking matcher), \<open>PyUrl\<close>, \<open>PyShell\<close>.
  \<^item> The trust chain: \<open>Models\<close> (\<open>authority/models.py\<close>), \<open>Credentials\<close> (provenance and approval), \<open>Broker\<close> (one request through
    \<open>_evaluate_request\<close>, with the ledger of nonces), \<open>BrokerThreads\<close> (the same in steps, one thread per connection), \<open>BrokerIpc\<close>
    (both ends of the socket), \<open>GateCore\<close>, \<open>ProcessGate\<close>, \<open>StorageGate\<close>, \<open>NetworkGate\<close>, \<open>Adapter\<close>.
  \<^item> Filters: \<open>PathSanitizer\<close>, \<open>SecurityFilter\<close>, \<open>TrustBoundary\<close>, \<open>McpBridge\<close> (each the module of that name).
  \<^item> Capabilities: \<open>TrustRoot\<close> (\<open>trust_root.py\<close>), \<open>ReleaseSigning\<close> (\<open>scripts/sign_capability.py\<close>), \<open>ExtensionRegistry\<close>, \<open>CapabilityAudit\<close>
    (\<open>verify_all_capabilities.py\<close>), \<open>SelfChecks\<close> (the \<open>validator.py\<close> files), and the engines \<open>Planner\<close>, \<open>InlinePatch\<close>, \<open>Diagnostics\<close>.
  \<^item> Resilience: \<open>Breakers\<close> (\<open>circuit_breaker.py\<close>, \<open>cron_circuit_breaker_engine.py\<close>), \<open>BreakerStore\<close> (the same on their files),
    \<open>FastPath\<close>, \<open>RuntimeControl\<close>, \<open>Handover\<close> (\<open>src/agent\<close>), \<open>Compactor\<close>, \<open>SemanticCache\<close>, \<open>Prefetch\<close>.
  \<^item> The guardian: \<open>Guardian\<close> (version 2.4), \<open>GuardianLegacy\<close> (version 2.3).
  \<^item> Services: \<open>ConfigLoader\<close>, \<open>DbPool\<close>, \<open>EvidenceLog\<close>, \<open>ChatClient\<close> (with \<open>async_attachment_worker.py\<close>), \<open>Skeleton\<close>, \<open>Preflight\<close>,
    \<open>PromptInspector\<close>, \<open>ReleaseAudit\<close> (\<open>check_security.py\<close>).

  \<^bold>\<open>How the code is represented.\<close> A class is a record of its state, an operation a function from state to result and state, in
  the order of the code's guards; an exception, a refusal and an early return are values (\<open>denial\<close>, \<open>option\<close>, a datatype of
  outcomes), and a message text is replaced by a constructor with what it names. A dictionary is an association list in
  insertion order. What an operation does to files, descriptors and the network is the list of its effects, in order and with
  the place each of them hits, also where it then fails. Text is a \<open>string\<close> (code points below 256) where the code treats it as ASCII, and a list of code points
  (\<open>ustr\<close>) where it does not. Times are exact rationals. Operations that interleave (broker threads, prefetch workers, the
  attachment worker, guardian cycles, plan operations) are inductive step relations, and their properties hold for every
  interleaving.

  \<^bold>\<open>Interfaces.\<close> \<open>nonce_ledger\<close> (\<open>Broker\<close>): what issuing needs of the ledger. \<open>gate\<close> (\<open>GateCore\<close>): an accepted grant is signed,
  fresh and for this primitive; interpreted by all three gates, so that C1 to C3 share one proof. \<open>breaker\<close> (\<open>Breakers\<close>): a
  quarantined task waits for its interval; interpreted by both breakers. \<open>entry_codec\<close> (\<open>BreakerStore\<close>): what is written is read back;
  interpreted by the three kinds of entries. \<open>enforcement\<close> (\<open>Guardian\<close>): files change only by rollback and approval; interpreted
  by both versions of the daemon.

  \<^bold>\<open>What the groups of lemmas show.\<close> For the chain: canonical bytes are injective, wire forms round-trip, nonces are used
  once under any interleaving, and from these the composed properties C1 to C7 below. For each guard: an exact
  characterisation of what it accepts, from which the safety statements follow (where a statement stops short of what one
  would expect, its text says so and names the lemma that shows it); for each store: an invariant of its
  operations and the agreement with an abstract store; for each loop: its termination or bound. Lemmas in a section called
  Findings prove where the code does not keep what its comments say; the manifest lists them.

  \<^bold>\<open>Parameters and hypotheses.\<close> Code that is not part of the repository is an argument: Ed25519 signing and verification, the
  answers of the operating system (file system, processes, DNS, sockets), of servers, SQLite, git, the JSON and YAML readers and
  python-pptx, the clock and random values, IPv6 classification, NFKC and lower case above Latin-1, and the Unicode classes above 255.
  SHA-256, HMAC, base64, UTF-8, percent decoding and shell splitting are defined and computed. The hypotheses are
  \<open>key_sound\<close> (what verifies under the gate's key was signed by the broker) and \<open>collision_free\<close> (no other semantics presented has
  this hash); both are stated for the values at hand and met by the witnesses.

  \<^bold>\<open>Bounds and termination.\<close> There is no fuel: recursive functions terminate by structure or by a measure (the rest of the text,
  the links left of the 32 that the path sanitizer follows, the attempts left). Limits are the constants of the code (100000 nonces, 30
  seconds of a grant, 1 MB files, 100 spool files, 10000 ledger rows, 64 KB summaries) and appear as definitions. A regular expression
  is matched by the full list of its ways, so its answer does not depend on a bound.

  \<^bold>\<open>Not modelled.\<close> Logging and printed tables; the text of the unified diff of a patch and Python's parser (a parameter); the
  creation of the evidence database and the logger set-up; rounding of IEEE arithmetic beyond the explicit \<open>round\<close> calls; text
  above 255 in the theories that use \<open>string\<close>; the redirections that \<open>urlopen\<close> follows by itself; the re-exporting \<open>__init__.py\<close> files, the entry points \<open>tools.py\<close> that only pass their
  arguments on, the tests, and the documents. Helpers of version 2.3 of the guardian that are the same lines as in version 2.4
  are modelled once.
\<close>

section \<open>The trust chain\<close>

text \<open>C1: no process runs unless the broker granted it. When the gate's key is sound for a history of
  broker calls and SHA-256 has no collision with the semantics presented, a process that is started
  was granted by one of those calls: for a request with the same semantics in every field, under a
  registered manifest that permits the primitive, and at most 30 seconds (and the rounding of the
  signed time) before.\<close>

theorem processes_run_only_as_the_broker_granted:
  assumes "key_sound (pg_public_key pg) h" and "collision_free h sem"
    and "pr_started (process_execute pg ex getcwd run now g sem) = Some cmd"
  shows "\<exists>r m. authorised h g [''PROCESS_EXECUTE'', ''SYSTEM_EXECUTE''] now r m \<and>
    same_semantics (cr_untrusted_semantics r) sem"
proof -
  obtain c d e where "cmd = (c, d, e)" by (cases cmd)
  with assms(3) have v: "process_verify (pg_public_key pg) sem now g = None"
    by (simp add: process_started_iff)
  obtain r m where a: "authorised h g process_primitives now r m"
      "cg_exact_execution_hash g = compute_canonical_hash (cr_untrusted_semantics r)"
    by (rule pgate.accepted_is_authorised [OF assms(1) v])
  have "compute_canonical_hash (cr_untrusted_semantics r) = compute_canonical_hash sem"
    using v a(2) by (simp add: process_verify_None)
  with assms(2) a(1) have "same_semantics (cr_untrusted_semantics r) sem"
    by (auto simp: collision_free_def canonical_bytes_eq_iff authorised_def)
  with a(1) show ?thesis by (auto simp: process_primitives_def)
qed

text \<open>What stands behind an accepted storage grant: the broker issues none that lifts the protection of
  the protected assets.\<close>

lemma accepted_storage_grant:
  assumes "key_sound vk h" and "storage_verify vk resolve target prim now g = None"
    and "prim \<noteq> ''CONSTITUTIONAL_MUTATION''"
  shows "\<not> protected_path (resolve target) \<and>
    (\<exists>r m. authorised h g [prim] now r m \<and>
       (\<exists>res \<in> set (tm_allowed_resources m). path_bound (resolve target) (resolve res)))"
proof -
  note v = assms(2)
  then have v': "(\<lambda>vk (resolve, target, required). storage_verify vk resolve target required) vk (resolve, target, prim) now g = None"
    by simp
  have c: "(\<lambda>(_, _, required). [required]) (resolve, target, prim) = [prim]" by simp
  obtain r m where a: "authorised h g [prim] now r m" "set (cg_resource_binding g) = set (tm_allowed_resources m)"
      "set (cg_attenuated_capabilities g) = {cr_requested_primitive r}" "cg_target_primitive g = cr_requested_primitive r"
    by (rule sgate.accepted_is_authorised [OF assms(1) v', unfolded c])
  from v have "cg_target_primitive g = prim" by (simp add: storage_verify_None)
  with a(3,4) have "set (cg_attenuated_capabilities g) = {prim}" by (simp only:)
  with assms(3) have "''CONSTITUTIONAL_MUTATION'' \<notin> set (cg_attenuated_capabilities g)" by (metis singletonD)
  then have "\<not> protected_path (resolve target)" using v unfolding storage_verify_None by iprover
  moreover have "\<exists>res \<in> set (tm_allowed_resources m). path_bound (resolve target) (resolve res)"
    using v unfolding storage_verify_None a(2) by iprover
  ultimately show ?thesis using a(1) by iprover
qed

text \<open>C2: bytes are written and entries are removed only inside the manifest, and never at a protected
  asset. When the gate's key is sound for a history of broker calls, every effect of a write or a
  deletion was granted by one of those calls, under a registered manifest that permits the
  primitive and has a resource at or above the resolved target, which is no protected asset.
  Bytes land at the resolved target itself, were it no symbolic link, and are a beginning of the
  content, provided that the target resolves after the opening as it did at verification and \<open>/proc\<close>
  shows where the descriptor leads; an entry is removed only when it is the target itself, no
  symbolic link, with the expected inode, provided that an entry that is no link lies where the
  target resolved. Three things are not claimed: missing directories above the target are made
  wherever they are; the file is opened, and perhaps created or emptied, before its path is checked
  (\<open>refused_write_truncates\<close>); and a directory swapped between verification and opening is not
  noticed (\<open>swapped_parent_is_not_noticed\<close>), which is why the proviso on the resolution is there.\<close>

theorem files_change_only_inside_the_manifest:
  assumes "key_sound vk h"
    and "eff \<in> set (snd (storage_write vk resolve env now g target body mode)) \<and> prim = ''STORAGE_WRITE'' \<or>
         eff \<in> set (snd (storage_delete vk resolve denv now g target expected)) \<and> prim = ''STORAGE_DELETE''"
    and "we_resolved_after env = Some (resolve target)"
    and "\<And>d. we_open env (write_flags mode) = Some d \<Longrightarrow> fd_proc d = Some (fd_real d)"
    and "\<And>ino. de_lstat denv = Some (False, ino) \<Longrightarrow> de_real denv = resolve target"
  shows "\<not> protected_path (resolve target) \<and>
    (\<exists>r m. authorised h g [prim] now r m \<and>
       (\<exists>res \<in> set (tm_allowed_resources m). path_bound (resolve target) (resolve res))) \<and>
    (case eff of
       Wrote p bs \<Rightarrow> p = resolve target \<and> \<not> we_is_link env \<and> prefix bs (raw_bytes body)
     | Unlinked p \<Rightarrow> p = resolve target \<and> (\<exists>ino. de_lstat denv = Some (False, ino) \<and> expected \<in> {None, Some ino})
     | _ \<Rightarrow> True)"
proof -
  from assms(2) have v: "storage_verify vk resolve target prim now g = None"
    using storage_write_effects storage_deleted by metis
  have p: "prim \<noteq> ''CONSTITUTIONAL_MUTATION''" using assms(2) by (elim disjE conjE) simp_all
  have "p = resolve target \<and> \<not> we_is_link env \<and> prefix bs (raw_bytes body)" if "eff = Wrote p bs" for p bs
  proof -
    from assms(2) that have w: "Wrote p bs \<in> set (snd (storage_write vk resolve env now g target body mode))"
      using storage_deleted by fastforce
    then obtain d where "we_open env (write_flags mode) = Some d" "p = fd_real d" "prefix bs (raw_bytes body)" "not_drifted env d"
      by (rule storage_write_wrote)
    with assms(3,4) storage_write_effects [OF w] show ?thesis by (simp add: not_drifted_def)
  qed
  moreover have "p = resolve target \<and> (\<exists>ino. de_lstat denv = Some (False, ino) \<and> expected \<in> {None, Some ino})"
    if "eff = Unlinked p" for p
  proof -
    from assms(2) that have "Unlinked p \<in> set (snd (storage_delete vk resolve denv now g target expected))"
      using storage_write_removes_nothing by metis
    from storage_deleted [OF this] assms(5) show ?thesis by auto
  qed
  ultimately show ?thesis using accepted_storage_grant [OF assms(1) v p] by (cases eff) simp_all
qed

text \<open>C3: a request goes out only inside the manifest and to a checked address. When the gate's key is
  sound for a history of broker calls, a request handed to \<open>urlopen\<close> was granted by one of them under
  a registered manifest with a resource that matches the host or the URL; its host is no metadata
  name; it is pinned to the first address the host resolved to, with the URL's port; and none of
  these addresses is private, loopback, link-local or reserved (the four tests of the gate, which
  no grant of the broker lifts). Addresses that pass the four tests and are no less internal,
  such as 100.100.100.200 in the shared space, are not excluded (\<open>metadata_address_reachable_by_name\<close>),
  and where \<open>urlopen\<close> goes when the server answers with a redirection is not modelled.\<close>

theorem requests_leave_only_inside_the_manifest:
  assumes "key_sound (ng_public_key ng) h"
    and "send_request ng server now g url meth hs body mock = Some (res, Some req)"
  shows "\<exists>p ips port r m. urlparse (ng_ok6 ng) url = Some p \<and> py_lower (up_hostname p) \<notin> set METADATA_IPS \<and>
    resolved_addresses ng (up_hostname p) = Some ips \<and> url_port p = Some port \<and>
    nr_netloc req = (case ips of [] \<Rightarrow> [] | a # _ \<Rightarrow> a) @
      (case port of None \<Rightarrow> [] | Some n \<Rightarrow> if n = 0 then [] else CHR '':'' # nat_str n) \<and>
    (\<forall>a \<in> set ips. \<exists>i. ip_address (ng_v6 ng) a = Some i \<and>
       \<not> ip_private i \<and> \<not> ip_loopback i \<and> \<not> ip_link_local i \<and> \<not> ip_reserved i) \<and>
    authorised h g [''NETWORK_REQUEST'', ''NETWORK_EGRESS''] now r m \<and>
    (\<exists>rs \<in> set (tm_allowed_resources m). host_bound (up_hostname p) url rs)"
proof -
  obtain p ip port where s: "network_verify (ng_public_key ng) (ng_ok6 ng) url now g = None" "urlparse (ng_ok6 ng) url = Some p"
      "validate_ssrf ng (up_hostname p) (''INTERNAL_SERVICE_ACCESS'' \<in> set (cg_attenuated_capabilities g)) = Inr ip"
      and port: "url_port p = Some port"
      "nr_netloc req = (case port of None \<Rightarrow> ip | Some n \<Rightarrow> if n = 0 then ip else ip @ CHR '':'' # nat_str n)"
    by (rule send_request_sent [OF assms(2)])
  have v': "(\<lambda>vk (ok6, url). network_verify vk ok6 url) (ng_public_key ng) (ng_ok6 ng, url) now g = None"
    using s(1) by simp
  obtain r m where a: "authorised h g network_primitives now r m"
      "set (cg_resource_binding g) = set (tm_allowed_resources m)"
      "set (cg_attenuated_capabilities g) = {cr_requested_primitive r}" "cg_target_primitive g = cr_requested_primitive r"
    by (rule ngate.accepted_is_authorised [OF assms(1) v'])
  have "''INTERNAL_SERVICE_ACCESS'' \<notin> set (cg_attenuated_capabilities g)"
  proof -
    have "t \<in> set network_primitives \<Longrightarrow> ''INTERNAL_SERVICE_ACCESS'' \<notin> {t}" for t
      by (auto simp: network_primitives_def)
    from this [OF ngate.accept_primitive [OF v']] show ?thesis unfolding a(3,4) .
  qed
  with s(3) obtain ips where ips: "py_lower (up_hostname p) \<notin> set METADATA_IPS" "resolved_addresses ng (up_hostname p) = Some ips"
      "\<forall>a \<in> set ips. \<exists>i. ip_address (ng_v6 ng) a = Some i \<and> \<not> restricted i" "ip = (case ips of [] \<Rightarrow> [] | a # _ \<Rightarrow> a)"
    by (auto simp: validate_ssrf_Inr check_addresses_None)
  have netloc: "nr_netloc req = (case ips of [] \<Rightarrow> [] | a # _ \<Rightarrow> a) @
      (case port of None \<Rightarrow> [] | Some n \<Rightarrow> if n = 0 then [] else CHR '':'' # nat_str n)"
    unfolding port(2) ips(4) by (simp split: option.split)
  have "\<exists>rs \<in> set (tm_allowed_resources m). host_bound (up_hostname p) url rs"
    using s(1,2) a(2) unfolding network_verify_None by auto
  with s(2) port(1) ips(1-3) netloc a(1) show ?thesis unfolding network_primitives_def restricted_def by blast
qed

section \<open>The chain is inhabited\<close>

theorem processes_run_only_as_the_broker_granted_witness:
  "\<exists>r m. authorised (demo_chain_history ''PROCESS_EXECUTE'') (demo_chain_grant ''PROCESS_EXECUTE'')
     [''PROCESS_EXECUTE'', ''SYSTEM_EXECUTE''] 110 r m \<and> same_semantics (cr_untrusted_semantics r) demo_semantics"
proof -
  let ?p = "''PROCESS_EXECUTE''"
  let ?pg = "\<lparr>pg_public_key = demo_chain_vk ?p, pg_bwrap_path = Some ''/bin/bwrap'', pg_bwrap_version_ok = True\<rparr>"
  have k: "key_sound (pg_public_key ?pg) (demo_chain_history ?p)"
    using demo_chain_sound [of ?p] by (simp add: demo_chain_manifest_def)
  have c: "collision_free (demo_chain_history ?p) demo_semantics"
    by (simp add: collision_free_def demo_chain_history_def demo_chain_request_def adapter_request_def)
  have "process_verify (demo_chain_vk ?p) demo_semantics 110 (demo_chain_grant ?p) = None"
    by (simp add: process_verify_None demo_chain_checks process_primitives_def demo_hash_def)
  then have "\<exists>cmd. pr_started (process_execute ?pg (\<lambda>_. True) ''/'' (\<lambda>_ _ _. TimedOut) 110 (demo_chain_grant ?p) demo_semantics) = Some cmd"
    by (simp add: process_execute_def process_failed_def command_vector_def demo_semantics_def Let_def)
  then obtain cmd where s: "pr_started (process_execute ?pg (\<lambda>_. True) ''/'' (\<lambda>_ _ _. TimedOut) 110 (demo_chain_grant ?p) demo_semantics) = Some cmd"
    by blast
  show ?thesis by (rule processes_run_only_as_the_broker_granted [OF k c s])
qed

theorem files_change_only_inside_the_manifest_witness:
  "(\<exists>r m. authorised (demo_chain_history ''STORAGE_WRITE'') (demo_chain_grant ''STORAGE_WRITE'') [''STORAGE_WRITE''] 110 r m) \<and>
   \<not> protected_path ''/data/a''"
proof -
  let ?p = "''STORAGE_WRITE''"
  have k: "key_sound (demo_chain_vk ?p) (demo_chain_history ?p)"
    using demo_chain_sound [of ?p] by (simp add: demo_chain_manifest_def)
  have np: "\<not> protected_path ''/data/a''"
    by (simp add: protected_path_def PROTECTED_PATHS_SUBSTRINGS_def starts_with_def ends_with_def lstrip_chars_def)
  have b: "path_bound ''/data/a'' ''/data''"
    by (simp add: path_bound_def starts_with_def rstrip_chars_def)
  have "storage_verify (demo_chain_vk ?p) (\<lambda>p. p) ''/data/a'' ?p 110 (demo_chain_grant ?p) = None"
    using np b by (simp add: storage_verify_None demo_chain_checks)
  then have w: "Wrote ''/data/a'' [65] \<in> set (snd (storage_write (demo_chain_vk ?p) (\<lambda>p. p) (demo_write_env ''/data/a'' ''/data/a'') 110
      (demo_chain_grant ?p) ''/data/a'' (Raw [65]) ''w''))"
    by (simp add: storage_write_def descriptor_write_def demo_write_env_def)
  let ?denv = "\<lparr>de_lexists = False, de_lstat = None, de_real = ''/data/a'', de_unlink_ok = False\<rparr>"
  have "Wrote ''/data/a'' [65] \<in> set (snd (storage_write (demo_chain_vk ?p) (\<lambda>p. p) (demo_write_env ''/data/a'' ''/data/a'') 110
        (demo_chain_grant ?p) ''/data/a'' (Raw [65]) ''w'')) \<and> ?p = ''STORAGE_WRITE'' \<or>
      Wrote ''/data/a'' [65] \<in> set (snd (storage_delete (demo_chain_vk ?p) (\<lambda>p. p) ?denv 110 (demo_chain_grant ?p) ''/data/a'' None)) \<and>
        ?p = ''STORAGE_DELETE''"
    using w by blast
  from files_change_only_inside_the_manifest [OF k this] show ?thesis by (auto simp: demo_write_env_def)
qed

theorem requests_leave_only_inside_the_manifest_witness:
  "\<exists>r m. authorised (demo_chain_history ''NETWORK_REQUEST'') (demo_chain_grant ''NETWORK_REQUEST'')
     [''NETWORK_REQUEST'', ''NETWORK_EGRESS''] 110 r m"
proof -
  let ?p = "''NETWORK_REQUEST''"
  let ?ng = "(demo_net [''93.184.216.34''])\<lparr>ng_public_key := demo_chain_vk ?p\<rparr>"
  have k: "key_sound (ng_public_key ?ng) (demo_chain_history ?p)"
    using demo_chain_sound [of ?p] by (simp add: demo_chain_manifest_def)
  have v: "network_verify (demo_chain_vk ?p) (\<lambda>_. False) ''https://api.example.com/v1'' 110 (demo_chain_grant ?p) = None"
    by (simp add: network_verify_None demo_chain_checks network_primitives_def demo_url host_bound_def)
  have s: "validate_ssrf ?ng ''api.example.com'' i = Inr ''93.184.216.34''" for i
    by (simp add: validate_ssrf_def demo_no_ip demo_lookup demo_public METADATA_IPS_def py_lower_def lower_char_def)
  have "\<exists>res req. send_request ?ng (\<lambda>_. HttpFailed) 110 (demo_chain_grant ?p) ''https://api.example.com/v1'' ''GET'' [] NoBody None
      = Some (res, Some req)"
    by (simp add: send_request_def v demo_url s url_port_def)
  then obtain res req where r: "send_request ?ng (\<lambda>_. HttpFailed) 110 (demo_chain_grant ?p) ''https://api.example.com/v1'' ''GET'' [] NoBody None
      = Some (res, Some req)" by blast
  from requests_leave_only_inside_the_manifest [OF k r] show ?thesis by blast
qed

section \<open>Limits of the chain\<close>

text \<open>The broker's list of high-risk primitives names none of those the adapter asks for, so a
  request of the adapter needs a human approval only because of its taint: with an effective
  taint other than \<open>EXTERNAL_UNTRUSTED\<close> a process is started, a file written or deleted, a request
  sent, without one.\<close>

theorem adapter_primitives_are_not_high_risk:
  "prim \<in> {''PROCESS_EXECUTE'', ''STORAGE_WRITE'', ''STORAGE_DELETE'', ''NETWORK_REQUEST''} \<Longrightarrow>
   needs_approval (adapter_request rid task prim prov sem appr) taint = (taint = ''EXTERNAL_UNTRUSTED'')"
  by (auto simp: needs_approval_def adapter_request_def HIGH_RISK_PRIMITIVES_def)

theorem adapter_primitives_are_not_high_risk_witness:
  "\<not> needs_approval (adapter_request [] [] ''PROCESS_EXECUTE''
     \<lparr>pc_caller_id = [], pc_origin_source = [], pc_taint_tag = [], pc_ingress_signature = []\<rparr> demo_semantics None) ''SYSTEM_INTERNAL''"
  using adapter_primitives_are_not_high_risk [of "''PROCESS_EXECUTE''" "[]" "[]"] by simp

text \<open>An approval does not bind the path. A write grant accepted for one path is accepted for every
  unprotected path of the same resource, whatever semantics its hash stands for: the storage gate
  never looks at the hash a human approved.\<close>

theorem storage_grant_covers_its_whole_resource:
  assumes "storage_verify vk resolve target required now g = None"
    and "rs \<in> set (cg_resource_binding g)" and "path_bound (resolve other) (resolve rs)"
    and "\<not> protected_path (resolve other)"
  shows "storage_verify vk resolve other required now g = None"
  using assms unfolding storage_verify_None by blast

theorem storage_grant_covers_its_whole_resource_witness:
  "storage_verify demo_vk (\<lambda>p. p) ''/data/b'' ''STORAGE_WRITE'' 110 demo_storage_grant = None"
  by (rule storage_grant_covers_its_whole_resource [OF demo_storage_verifies, of "''/data''"])
     (simp_all add: demo_storage_grant_def sign_grant_def demo_grant_def build_grant_def demo_manifest_def
        path_bound_def starts_with_def rstrip_chars_def protected_path_def PROTECTED_PATHS_SUBSTRINGS_def
        ends_with_def lstrip_chars_def)

end
